(* ===== verification/F64.thy ===== *)
theory F64
  imports Complex_Main "HOL-Library.Log_Nat"
begin

text \<open>
  IEEE-754 binary64 arithmetic as the program's \<open>f64\<close> uses it: round to nearest, ties to
  even, over exact rationals, with infinities and NaN.  The sign of zero is not represented:
  nothing modelled divides by a negative zero or prints a float.
\<close>

section \<open>Values and rounding\<close>

datatype f64 = NaN | PInf | NInf | Fin rat

definition ilog2 :: "rat \<Rightarrow> int" where
  "ilog2 q = (let (n, d) = quotient_of q; e = bitlen n - bitlen d
     in if 2 powi e \<le> q then e else e - 1)"

definition round_half_even :: "rat \<Rightarrow> int" where
  "round_half_even q = (let f = \<lfloor>q\<rfloor>; r = q - of_int f
     in if r < 1 / 2 then f else if 1 / 2 < r then f + 1
        else if even f then f else f + 1)"

text \<open>The nearest double when the exponent range is not bounded above.\<close>

definition fval :: "rat \<Rightarrow> rat" where
  "fval q =
     (if q = 0 then 0
      else let u = 2 powi (max (ilog2 \<bar>q\<bar>) (- 1022) - 52)
           in of_int (round_half_even (q / u)) * u)"

definition fround :: "rat \<Rightarrow> f64" where
  "fround q =
     (let v = fval q
      in if 2 ^ 1024 \<le> \<bar>v\<bar> then (if q < 0 then NInf else PInf) else Fin v)"

section \<open>Facts about rounding\<close>

lemma rhe_of_int [simp]: "round_half_even (of_int n) = n"
  by (simp add: round_half_even_def)

lemma rhe_error: "\<bar>of_int (round_half_even q) - q\<bar> \<le> 1 / 2"
proof -
  have "of_int \<lfloor>q\<rfloor> \<le> q" "q < of_int \<lfloor>q\<rfloor> + 1" by linarith+
  then show ?thesis by (auto simp: round_half_even_def Let_def abs_le_iff field_simps)
qed

lemma rhe_mono:
  assumes "x \<le> y"
  shows "round_half_even x \<le> round_half_even y"
proof (rule ccontr)
  assume "\<not> ?thesis"
  then have "(of_int (round_half_even y) :: rat) + 1 \<le> of_int (round_half_even x)" by linarith
  with rhe_error [of x] rhe_error [of y] have "y \<le> x" by linarith
  with assms \<open>\<not> ?thesis\<close> show False by simp
qed

lemma rhe_nonneg: "0 \<le> x \<Longrightarrow> 0 \<le> round_half_even x"
  using rhe_mono [of 0 x] rhe_of_int [of 0] by simp

lemma rhe_minus: "round_half_even (- x) = - round_half_even x"
proof (cases "x = of_int \<lfloor>x\<rfloor>")
  case True
  then show ?thesis by (metis of_int_minus rhe_of_int)
next
  case False
  then have f: "\<lfloor>- x\<rfloor> = - \<lfloor>x\<rfloor> - 1" by linarith
  show ?thesis unfolding round_half_even_def Let_def f by auto
qed

lemma powi2_pos [simp]: "(0 :: rat) < 2 powi e"
  by simp

lemma powi2_mono: "a \<le> b \<Longrightarrow> (2 :: rat) powi a \<le> 2 powi b"
  by (rule power_int_increasing) auto

lemma powi2_less: "(2 :: rat) powi a < 2 powi b \<Longrightarrow> a < b"
  by (metis linorder_not_less powi2_mono)

lemma powi2_shift: "(2 :: rat) powi (e + int k) = 2 ^ k * 2 powi e"
  by (simp add: power_int_add)

lemma bitlen_bounds_rat:
  assumes "0 < n"
  shows "(2 :: rat) powi (bitlen n - 1) \<le> of_int n" and "of_int n < (2 :: rat) powi bitlen n"
proof -
  have b: "2 ^ nat (bitlen n - 1) \<le> n" "n < 2 ^ nat (bitlen n)"
    using bitlen_bounds [OF assms] by auto
  have b3: "0 < bitlen n"
    using b(2) assms by (cases "bitlen n \<le> 0") auto
  have "(2 :: rat) powi (bitlen n - 1) = of_int (2 ^ nat (bitlen n - 1))"
    using b3 by (simp add: power_int_def)
  then show "(2 :: rat) powi (bitlen n - 1) \<le> of_int n"
    using b(1) by (simp only: of_int_le_iff)
  have "(2 :: rat) powi bitlen n = of_int (2 ^ nat (bitlen n))"
    using b3 by (simp add: power_int_def)
  then show "of_int n < (2 :: rat) powi bitlen n"
    using b(2) by (simp only: of_int_less_iff)
qed

lemma ilog2_bounds:
  assumes "0 < q"
  shows "2 powi ilog2 q \<le> q" and "q < 2 powi (ilog2 q + 1)"
proof -
  obtain n d where nd: "quotient_of q = (n, d)" by force
  have d: "0 < d" using quotient_of_denom_pos [OF nd] .
  have q: "q = of_int n / of_int d" using quotient_of_div [OF nd] .
  with assms d have n: "0 < n" by (simp add: zero_less_divide_iff)
  note bn = bitlen_bounds_rat [OF n] and bd = bitlen_bounds_rat [OF d]
  let ?e = "bitlen n - bitlen d"
  have up: "q < 2 powi (?e + 1)"
  proof -
    have "of_int n < (2 :: rat) powi (?e + 1) * 2 powi (bitlen d - 1)"
      using bn(2) by (simp add: power_int_add [symmetric])
    also have "\<dots> \<le> 2 powi (?e + 1) * of_int d"
      using bd(1) by (intro mult_left_mono) auto
    finally show ?thesis using d by (simp add: q pos_divide_less_eq)
  qed
  have lo: "2 powi (?e - 1) \<le> q"
  proof -
    have "(2 :: rat) powi (?e - 1) * of_int d \<le> 2 powi (?e - 1) * 2 powi bitlen d"
      using bd(2) by (intro mult_left_mono) auto
    also have "\<dots> = 2 powi (bitlen n - 1)" by (simp add: power_int_add [symmetric])
    also have "\<dots> \<le> of_int n" by (rule bn(1))
    finally show ?thesis using d by (simp add: q pos_le_divide_eq)
  qed
  show "2 powi ilog2 q \<le> q" using lo by (simp add: ilog2_def nd Let_def)
  show "q < 2 powi (ilog2 q + 1)" using up by (auto simp: ilog2_def nd Let_def)
qed

lemma ilog2_mono:
  assumes "0 < p" "p \<le> q"
  shows "ilog2 p \<le> ilog2 q"
proof -
  have "(2 :: rat) powi ilog2 p < 2 powi (ilog2 q + 1)"
    using ilog2_bounds(1) [of p] ilog2_bounds(2) [of q] assms by simp
  then show ?thesis using powi2_less by force
qed

text \<open>The exponent of the rounding grid, and the bounds a rounded value keeps in its binade.\<close>

definition fexp :: "rat \<Rightarrow> int" where
  "fexp q = max (ilog2 q) (- 1022)"

lemma fval_pos_def:
  "0 < q \<Longrightarrow> fval q = of_int (round_half_even (q / 2 powi (fexp q - 52))) * 2 powi (fexp q - 52)"
  by (simp add: fval_def fexp_def Let_def)

lemma fval_upper:
  assumes "0 < q"
  shows "fval q \<le> 2 powi (fexp q + 1)"
proof -
  let ?u = "2 powi (fexp q - 52) :: rat"
  have "q < 2 powi (fexp q + 1)"
    using ilog2_bounds(2) [OF assms] powi2_mono [of "ilog2 q + 1" "fexp q + 1"]
    by (simp add: fexp_def)
  also have "\<dots> = of_int (2 ^ 53) * ?u"
    using powi2_shift [of "fexp q - 52" 53] by (simp add: add.commute)
  finally have "q / ?u \<le> of_int (2 ^ 53)" by (simp add: pos_divide_le_eq)
  then have "round_half_even (q / ?u) \<le> 2 ^ 53"
    using rhe_mono rhe_of_int by metis
  then have "fval q \<le> of_int (2 ^ 53) * ?u"
    using assms by (simp add: fval_pos_def mult_right_mono del: of_int_power)
  also have "\<dots> = 2 powi (fexp q + 1)"
    using powi2_shift [of "fexp q - 52" 53] by (simp add: add.commute)
  finally show ?thesis .
qed

lemma fval_lower:
  assumes "0 < q" and "- 1022 < fexp q"
  shows "2 powi fexp q \<le> fval q"
proof -
  let ?u = "2 powi (fexp q - 52) :: rat"
  have e: "fexp q = ilog2 q" using assms(2) by (simp add: fexp_def)
  have eq: "(2 :: rat) powi fexp q = of_int (2 ^ 52) * ?u"
    using powi2_shift [of "fexp q - 52" 52] by simp
  have "of_int (2 ^ 52) * ?u \<le> q"
    using ilog2_bounds(1) [OF assms(1)] eq e by simp
  then have "of_int (2 ^ 52) \<le> q / ?u" by (simp add: pos_le_divide_eq)
  then have "2 ^ 52 \<le> round_half_even (q / ?u)"
    using rhe_mono rhe_of_int by metis
  then have "of_int (2 ^ 52) * ?u \<le> fval q"
    using assms(1) by (simp add: fval_pos_def mult_right_mono del: of_int_power)
  then show ?thesis by (simp only: eq)
qed

lemma fval_nonneg: "0 \<le> q \<Longrightarrow> 0 \<le> fval q"
  by (simp add: fval_def Let_def rhe_nonneg)

lemma fval_minus: "fval (- q) = - fval q"
  by (simp add: fval_def Let_def rhe_minus)

lemma fval_mono_pos:
  assumes "0 < p" "p \<le> q"
  shows "fval p \<le> fval q"
proof -
  have "ilog2 p \<le> ilog2 q" using assms by (rule ilog2_mono)
  then have le: "fexp p \<le> fexp q" by (simp add: fexp_def)
  show ?thesis
  proof (cases "fexp p = fexp q")
    case True
    have "p / 2 powi (fexp q - 52) \<le> q / 2 powi (fexp q - 52)"
      using assms by (simp add: divide_right_mono)
    from rhe_mono [OF this] show ?thesis
      using assms True by (simp add: fval_pos_def mult_right_mono)
  next
    case False
    with le have lt: "fexp p + 1 \<le> fexp q" by simp
    have "- 1022 < fexp q" using lt by (simp add: fexp_def)
    with assms have "2 powi fexp q \<le> fval q" by (intro fval_lower) auto
    moreover have "fval p \<le> 2 powi (fexp p + 1)" using assms(1) by (rule fval_upper)
    ultimately show ?thesis using powi2_mono [OF lt] by linarith
  qed
qed

lemma fval_mono:
  assumes "p \<le> q"
  shows "fval p \<le> fval q"
proof -
  consider "0 < p" | "p \<le> 0" "0 \<le> q" | "q < 0" by linarith
  then show ?thesis
  proof cases
    case 1
    then show ?thesis using assms by (rule fval_mono_pos)
  next
    case 2
    then have "0 \<le> - fval p" using fval_nonneg [of "- p"] by (simp add: fval_minus)
    with 2 show ?thesis using fval_nonneg [of q] by linarith
  next
    case 3
    with assms have "fval (- q) \<le> fval (- p)" by (intro fval_mono_pos) auto
    then show ?thesis by (simp add: fval_minus)
  qed
qed

lemma fval_0 [simp]: "fval 0 = 0"
  by (simp add: fval_def)

text \<open>A multiple of a grid step with at most 53 significant bits is exact.\<close>

lemma fval_on_grid:
  assumes q: "0 < q" and k: "fexp q - 52 \<le> k" and m: "q = of_int m * 2 powi k"
  shows "fval q = q"
proof -
  define u :: rat where "u = 2 powi (fexp q - 52)"
  define n where "n = nat (k - (fexp q - 52))"
  have u: "u \<noteq> 0" by (simp add: u_def)
  have "(2 :: rat) powi k = 2 ^ n * u"
    using powi2_shift [of "fexp q - 52" n] k by (simp add: u_def n_def)
  then have qu: "q = of_int (m * 2 ^ n) * u" using m by (metis mult.assoc of_int_mult of_int_numeral of_int_power)
  with u have "q / u = of_int (m * 2 ^ n)" by (metis nonzero_mult_div_cancel_right)
  then have "round_half_even (q / u) = m * 2 ^ n" using rhe_of_int by metis
  then have "fval q = of_int (m * 2 ^ n) * u" by (metis fval_pos_def [OF q] u_def)
  then show ?thesis by (simp only: qu [symmetric])
qed

lemma fval_exact_pos:
  assumes "0 < m" "m < 2 ^ 53" "- 1074 \<le> k"
  shows "fval (of_int m * 2 powi k) = of_int m * 2 powi k"
proof -
  let ?q = "of_int m * 2 powi k :: rat"
  have pos: "0 < ?q" using assms(1) by simp
  have "?q < of_int (2 ^ 53) * 2 powi k"
    using assms(2) by (intro mult_strict_right_mono) (simp_all only: of_int_less_iff powi2_pos)
  also have "\<dots> = 2 powi (k + 53)" using powi2_shift [of k 53] by simp
  finally have "(2 :: rat) powi ilog2 ?q < 2 powi (k + 53)"
    using ilog2_bounds(1) [OF pos] by linarith
  from powi2_less [OF this] have "fexp ?q - 52 \<le> k" using assms(3) by (simp add: fexp_def)
  with pos show ?thesis by (rule fval_on_grid) simp
qed

lemma fval_exact:
  assumes "\<bar>m\<bar> \<le> 2 ^ 53" "- 1074 \<le> k"
  shows "fval (of_int m * 2 powi k) = of_int m * 2 powi k"
proof -
  have pos: "fval (of_int n * 2 powi k) = of_int n * 2 powi k" if n: "0 < n" "n \<le> 2 ^ 53" for n
  proof (cases "n = 2 ^ 53")
    case True
    then have "of_int n * 2 powi k = of_int 1 * (2 :: rat) powi (k + 53)"
      using powi2_shift [of k 53] by simp
    then show ?thesis using fval_exact_pos [of 1 "k + 53"] assms(2) by simp
  next
    case False
    with n assms(2) show ?thesis by (intro fval_exact_pos) auto
  qed
  consider "m = 0" | "0 < m" | "m < 0" by linarith
  then show ?thesis
  proof cases
    case 3
    then show ?thesis using pos [of "- m"] assms(1) by (simp add: fval_minus)
  qed (use pos assms(1) in auto)
qed

lemma fval_of_int: "\<bar>n\<bar> < 2 ^ 53 \<Longrightarrow> fval (of_int n) = of_int n"
  using fval_exact [of n 0] by simp

lemma fval_representation: "\<exists>m k. \<bar>m\<bar> \<le> 2 ^ 53 \<and> - 1074 \<le> k \<and> fval q = of_int m * 2 powi k"
proof -
  have pos: "\<exists>m k. \<bar>m\<bar> \<le> 2 ^ 53 \<and> - 1074 \<le> k \<and> fval p = of_int m * 2 powi k" if p: "0 < p" for p
  proof -
    let ?k = "fexp p - 52" and ?m = "round_half_even (p / 2 powi (fexp p - 52))"
    have "of_int ?m * 2 powi ?k \<le> (2 :: rat) powi (fexp p + 1)"
      using fval_upper [OF p] fval_pos_def [OF p] by simp
    also have "\<dots> = of_int (2 ^ 53) * 2 powi ?k"
      using powi2_shift [of ?k 53] by (simp add: add.commute)
    finally have "(of_int ?m :: rat) \<le> of_int (2 ^ 53)"
      by (simp only: mult_le_cancel_right_pos powi2_pos)
    then have "?m \<le> 2 ^ 53" by (simp only: of_int_le_iff)
    moreover have "0 \<le> ?m" using p by (intro rhe_nonneg) simp
    moreover have "- 1074 \<le> ?k" by (simp add: fexp_def)
    ultimately show ?thesis using fval_pos_def [OF p] by (metis abs_of_nonneg)
  qed
  consider "q = 0" | "0 < q" | "q < 0" by linarith
  then show ?thesis
  proof cases
    case 1
    have "\<bar>0 :: int\<bar> \<le> 2 ^ 53 \<and> (- 1074 :: int) \<le> 0 \<and> fval q = of_int 0 * 2 powi 0"
      using 1 by simp
    then show ?thesis by blast
  next
    case 2
    then show ?thesis by (rule pos)
  next
    case 3
    then obtain m k where "\<bar>m\<bar> \<le> 2 ^ 53" "- 1074 \<le> k" "fval (- q) = of_int m * 2 powi k"
      using pos [of "- q"] by auto
    then have "\<bar>- m\<bar> \<le> 2 ^ 53 \<and> - 1074 \<le> k \<and> fval q = of_int (- m) * 2 powi k"
      by (simp add: fval_minus)
    then show ?thesis by blast
  qed
qed

lemma fval_idem [simp]: "fval (fval q) = fval q"
  using fval_representation [of q] fval_exact by metis

lemma fround_0 [simp]: "fround 0 = Fin 0"
  by (simp add: fround_def Let_def)

lemma fround_of_int:
  assumes "\<bar>n\<bar> < 2 ^ 53"
  shows "fround (of_int n) = Fin (of_int n)"
proof -
  have "\<bar>of_int n :: rat\<bar> < of_int (2 ^ 53)" using assms by (simp only: of_int_abs [symmetric] of_int_less_iff)
  also have "\<dots> < 2 ^ 1024" by simp
  finally show ?thesis by (simp add: fround_def fval_of_int [OF assms] Let_def)
qed

lemma fround_of_nat: "n < 2 ^ 53 \<Longrightarrow> fround (of_nat n) = Fin (of_nat n)"
  using fround_of_int [of "int n"] by simp

section \<open>Comparisons\<close>

text \<open>Every comparison with NaN is false, as in the source's \<open>partial_cmp\<close>.\<close>

fun f_lt :: "f64 \<Rightarrow> f64 \<Rightarrow> bool" where
  "f_lt (Fin a) (Fin b) = (a < b)"
| "f_lt NInf (Fin _) = True"
| "f_lt NInf PInf = True"
| "f_lt (Fin _) PInf = True"
| "f_lt _ _ = False"

fun f_le :: "f64 \<Rightarrow> f64 \<Rightarrow> bool" where
  "f_le NaN _ = False"
| "f_le _ NaN = False"
| "f_le (Fin a) (Fin b) = (a \<le> b)"
| "f_le NInf _ = True"
| "f_le _ PInf = True"
| "f_le _ _ = False"

abbreviation f_gt :: "f64 \<Rightarrow> f64 \<Rightarrow> bool" where "f_gt a b \<equiv> f_lt b a"
abbreviation f_ge :: "f64 \<Rightarrow> f64 \<Rightarrow> bool" where "f_ge a b \<equiv> f_le b a"

fun f_finite :: "f64 \<Rightarrow> bool" where
  "f_finite (Fin _) = True"
| "f_finite _ = False"

section \<open>Arithmetic\<close>

fun f_neg :: "f64 \<Rightarrow> f64" where
  "f_neg NaN = NaN"
| "f_neg PInf = NInf"
| "f_neg NInf = PInf"
| "f_neg (Fin a) = Fin (- a)"

fun f_add :: "f64 \<Rightarrow> f64 \<Rightarrow> f64" where
  "f_add NaN _ = NaN"
| "f_add _ NaN = NaN"
| "f_add PInf NInf = NaN"
| "f_add NInf PInf = NaN"
| "f_add PInf _ = PInf"
| "f_add _ PInf = PInf"
| "f_add NInf _ = NInf"
| "f_add _ NInf = NInf"
| "f_add (Fin a) (Fin b) = fround (a + b)"

definition f_sub :: "f64 \<Rightarrow> f64 \<Rightarrow> f64" where
  "f_sub a b = f_add a (f_neg b)"

fun f_sgn :: "f64 \<Rightarrow> rat" where
  "f_sgn NaN = 0"
| "f_sgn PInf = 1"
| "f_sgn NInf = - 1"
| "f_sgn (Fin a) = sgn a"

definition f_signed_inf :: "rat \<Rightarrow> f64" where
  "f_signed_inf s = (if s = 0 then NaN else if s < 0 then NInf else PInf)"

fun f_mul :: "f64 \<Rightarrow> f64 \<Rightarrow> f64" where
  "f_mul NaN _ = NaN"
| "f_mul _ NaN = NaN"
| "f_mul (Fin a) (Fin b) = fround (a * b)"
| "f_mul x y = f_signed_inf (f_sgn x * f_sgn y)"

fun f_div :: "f64 \<Rightarrow> f64 \<Rightarrow> f64" where
  "f_div NaN _ = NaN"
| "f_div _ NaN = NaN"
| "f_div (Fin a) (Fin b) = (if b = 0 then f_signed_inf (sgn a) else fround (a / b))"
| "f_div (Fin _) _ = Fin 0"
| "f_div PInf (Fin b) = (if b < 0 then NInf else PInf)"
| "f_div NInf (Fin b) = (if b < 0 then PInf else NInf)"
| "f_div _ _ = NaN"

text \<open>\<open>f64::max\<close> and \<open>f64::min\<close> ignore a NaN operand.\<close>

definition f_max :: "f64 \<Rightarrow> f64 \<Rightarrow> f64" where
  "f_max a b = (if a = NaN then b else if b = NaN then a else if f_lt a b then b else a)"

definition f_min :: "f64 \<Rightarrow> f64 \<Rightarrow> f64" where
  "f_min a b = (if a = NaN then b else if b = NaN then a else if f_lt b a then b else a)"

text \<open>\<open>f64::round\<close>: to the nearest integer, halves away from zero.\<close>

definition round_half_away :: "rat \<Rightarrow> int" where
  "round_half_away q = (if 0 \<le> q then \<lfloor>q + 1 / 2\<rfloor> else - \<lfloor>1 / 2 - q\<rfloor>)"

fun f_round :: "f64 \<Rightarrow> f64" where
  "f_round (Fin q) = Fin (of_int (round_half_away q))"
| "f_round x = x"

text \<open>\<open>as i64\<close>: truncation towards zero, saturating, NaN to zero.\<close>

definition trunc_rat :: "rat \<Rightarrow> int" where
  "trunc_rat q = (if 0 \<le> q then \<lfloor>q\<rfloor> else \<lceil>q\<rceil>)"

fun f_to_i64 :: "f64 \<Rightarrow> int" where
  "f_to_i64 NaN = 0"
| "f_to_i64 PInf = 2 ^ 63 - 1"
| "f_to_i64 NInf = - (2 ^ 63)"
| "f_to_i64 (Fin q) = max (- (2 ^ 63)) (min (2 ^ 63 - 1) (trunc_rat q))"

definition f_of_nat :: "nat \<Rightarrow> f64" where
  "f_of_nat n = fround (of_nat n)"

section \<open>Facts about comparison and arithmetic\<close>

lemma f_lt_irrefl [simp]: "\<not> f_lt x x"
  by (cases x) auto

lemma f_lt_imp_le: "f_lt a b \<Longrightarrow> f_le a b"
  by (cases a; cases b) auto

lemma f_le_refl: "x \<noteq> NaN \<Longrightarrow> f_le x x"
  by (cases x) auto

lemma f_not_lt: "a \<noteq> NaN \<Longrightarrow> b \<noteq> NaN \<Longrightarrow> \<not> f_lt a b \<longleftrightarrow> f_le b a"
  by (cases a; cases b) auto

lemma f_le_trans: "f_le a b \<Longrightarrow> f_le b c \<Longrightarrow> f_le a c"
  by (cases a; cases b; cases c) auto

lemma f_le_not_NaN: "f_le a b \<Longrightarrow> a \<noteq> NaN \<and> b \<noteq> NaN"
  by (cases a; cases b) auto

lemma f_le_not_lt: "f_le a b \<Longrightarrow> \<not> f_lt b a"
  by (cases a; cases b) auto

lemma fround_not_NaN [simp]: "fround q \<noteq> NaN"
  by (simp add: fround_def Let_def)

lemma fround_mono:
  assumes "p \<le> q"
  shows "f_le (fround p) (fround q)"
proof -
  have m: "fval p \<le> fval q" using assms by (rule fval_mono)
  have sp: "p < 0 \<Longrightarrow> fval p \<le> 0" using fval_mono [of p 0] by simp
  have sp': "0 \<le> p \<Longrightarrow> 0 \<le> fval p" by (rule fval_nonneg)
  have sq: "q < 0 \<Longrightarrow> fval q \<le> 0" using fval_mono [of q 0] by simp
  have sq': "0 \<le> q \<Longrightarrow> 0 \<le> fval q" by (rule fval_nonneg)
  show ?thesis
    using assms m sp sp' sq sq' by (cases "p < 0"; cases "q < 0") (auto simp: fround_def Let_def)
qed

lemma fround_nonneg: "0 \<le> q \<Longrightarrow> f_le (Fin 0) (fround q)"
  using fround_mono [of 0 q] by simp

lemma f_to_i64_bounds: "- (2 ^ 63) \<le> f_to_i64 x \<and> f_to_i64 x \<le> 2 ^ 63 - 1"
  by (cases x) auto

lemma trunc_rat_of_int [simp]: "trunc_rat (of_int n) = n"
  by (simp add: trunc_rat_def)

lemma round_half_away_of_int [simp]: "round_half_away (of_int n) = n"
  unfolding round_half_away_def by (cases "0 \<le> n") (simp_all, linarith+)

lemma round_half_away_mono:
  assumes "p \<le> q"
  shows "round_half_away p \<le> round_half_away q"
proof -
  have "0 \<le> p \<Longrightarrow> \<lfloor>p + 1 / 2\<rfloor> \<le> \<lfloor>q + 1 / 2\<rfloor>" using assms by (intro floor_mono) simp
  moreover have "\<lfloor>1 / 2 - q\<rfloor> \<le> \<lfloor>1 / 2 - p\<rfloor>" using assms by (intro floor_mono) simp
  moreover have "p < 0 \<Longrightarrow> 0 \<le> q \<Longrightarrow> - \<lfloor>1 / 2 - p\<rfloor> \<le> \<lfloor>q + 1 / 2\<rfloor>" by linarith
  ultimately show ?thesis using assms by (auto simp: round_half_away_def)
qed

lemma f_to_i64_round_mono:
  assumes "f_le x y"
  shows "f_to_i64 (f_round x) \<le> f_to_i64 (f_round y)"
  using assms round_half_away_mono
  by (cases x; cases y) (force simp: max_def min_def)+

section \<open>Doubles\<close>

text \<open>The values a double can hold; every operation above returns one.\<close>

fun is_double :: "f64 \<Rightarrow> bool" where
  "is_double (Fin q) = (fround q = Fin q)"
| "is_double _ = True"

lemma is_double_fround [simp]: "is_double (fround q)"
  by (auto simp: fround_def Let_def)

lemma is_double_add [simp]: "is_double (f_add a b)"
  by (cases a; cases b) auto

abbreviation nonneg :: "f64 \<Rightarrow> bool" where "nonneg x \<equiv> f_le (Fin 0) x"

lemma fround_le_PInf [simp]: "f_le (fround q) PInf"
  by (cases "fround q") (use fround_not_NaN [of q] in auto)

lemma f_add_mono:
  "f_le a b \<Longrightarrow> f_le c d \<Longrightarrow> nonneg a \<Longrightarrow> nonneg c \<Longrightarrow> f_le (f_add a c) (f_add b d)"
  by (cases a; cases b; cases c; cases d) (auto intro!: fround_mono)

lemma f_add_ge: "is_double a \<Longrightarrow> nonneg a \<Longrightarrow> nonneg c \<Longrightarrow> f_le a (f_add a c)"
proof (cases a; cases c)
  fix x y
  assume "is_double a" "nonneg a" "nonneg c" and ac: "a = Fin x" "c = Fin y"
  then show "f_le a (f_add a c)" using fround_mono [of x "x + y"] by simp
qed auto

lemma f_add_nonneg: "nonneg a \<Longrightarrow> nonneg c \<Longrightarrow> nonneg (f_add a c)"
  using f_add_mono [of "Fin 0" a "Fin 0" c] by simp

end
