(* ===== verification/Prelude.thy ===== *)
theory Prelude
  imports F64 "HOL-Library.Word" "HOL-Library.Signed_Division"
begin

text \<open>
  Shared vocabulary of the development: the machine integers of the source, the string
  operations of its standard library, formatted texts, and tables with a primary key.
  Strings are byte strings; \<open>to_lowercase\<close> and the like act on ASCII, which is what
  protocol tags, hex strings and chain names consist of.
\<close>

named_theorems step_defs \<open>unfolding rules of the operations\<close>

section \<open>Machine integers\<close>

type_synonym u8 = "8 word"
type_synonym u32 = "32 word"
type_synonym u64 = "64 word"
type_synonym bytes = "8 word list"

text \<open>\<open>i64\<close> values are integers between these bounds; release builds wrap.\<close>

abbreviation i64_min :: int where "i64_min \<equiv> - (2 ^ 63)"
abbreviation i64_max :: int where "i64_max \<equiv> 2 ^ 63 - 1"

definition in_i64 :: "int \<Rightarrow> bool" where
  "in_i64 x \<longleftrightarrow> i64_min \<le> x \<and> x \<le> i64_max"

definition wrap_i64 :: "int \<Rightarrow> int" where
  "wrap_i64 x = (x + 2 ^ 63) mod 2 ^ 64 - 2 ^ 63"

definition checked_add_i64 :: "int \<Rightarrow> int \<Rightarrow> int option" where
  "checked_add_i64 a b = (if in_i64 (a + b) then Some (a + b) else None)"

text \<open>\<open>/\<close> on \<open>i64\<close>: truncating, \<open>None\<close> for the two panics.\<close>

definition div_i64 :: "int \<Rightarrow> int \<Rightarrow> int option" where
  "div_i64 a b = (if b = 0 \<or> (a = i64_min \<and> b = - 1) then None else Some (a sdiv b))"

abbreviation u128_max :: nat where "u128_max \<equiv> 2 ^ 128 - 1"

definition sat_mul_u128 :: "nat \<Rightarrow> nat \<Rightarrow> nat" where
  "sat_mul_u128 a b = min (a * b) u128_max"

definition sat_add_word :: "'a::len word \<Rightarrow> 'a word \<Rightarrow> 'a word" where
  "sat_add_word a b = (if 2 ^ LENGTH('a) \<le> unat a + unat b then - 1 else a + b)"

lemma wrap_i64_id [simp]: "in_i64 x \<Longrightarrow> wrap_i64 x = x"
  by (simp add: in_i64_def wrap_i64_def)

lemma wrap_i64_in [simp]: "in_i64 (wrap_i64 x)"
proof -
  have shift: "0 \<le> m \<Longrightarrow> m < 2 ^ 64 \<Longrightarrow> in_i64 (m - 2 ^ 63)" for m
    by (simp add: in_i64_def)
  show ?thesis unfolding wrap_i64_def by (rule shift) simp_all
qed

lemma sdiv_nonneg: "0 \<le> a \<Longrightarrow> 0 < b \<Longrightarrow> (a::int) sdiv b = a div b"
  by (simp add: signed_divide_int_def sgn_if)

lemma div_i64_pos: "0 \<le> a \<Longrightarrow> 0 < b \<Longrightarrow> div_i64 a b = Some (a div b)"
  by (auto simp: div_i64_def sdiv_nonneg)

lemma unat_sat_add_word:
  "unat (sat_add_word a (b :: 'a::len word)) = min (unat a + unat b) (2 ^ LENGTH('a) - 1)"
proof (cases "2 ^ LENGTH('a) \<le> unat a + unat b")
  case True
  then show ?thesis by (simp add: sat_add_word_def unsigned_minus_1_eq_mask mask_eq_exp_minus_1)
next
  case False
  then show ?thesis by (simp add: sat_add_word_def unat_word_ariths)
qed

section \<open>Strings\<close>

definition lower_char :: "char \<Rightarrow> char" where
  "lower_char c = (let n = of_char c :: nat in if 65 \<le> n \<and> n \<le> 90 then char_of (n + 32) else c)"

definition to_lowercase :: "string \<Rightarrow> string" where
  "to_lowercase s = map lower_char s"

definition starts_with :: "string \<Rightarrow> string \<Rightarrow> bool" where
  "starts_with s p \<longleftrightarrow> take (length p) s = p"

definition ends_with :: "string \<Rightarrow> string \<Rightarrow> bool" where
  "ends_with s p \<longleftrightarrow> length p \<le> length s \<and> drop (length s - length p) s = p"

fun contains :: "string \<Rightarrow> string \<Rightarrow> bool" where
  "contains [] p = (p = [])"
| "contains (c # s) p = (starts_with (c # s) p \<or> contains s p)"

definition strip_prefix :: "string \<Rightarrow> string \<Rightarrow> string option" where
  "strip_prefix s p = (if starts_with s p then Some (drop (length p) s) else None)"

text \<open>\<open>trim_start_matches\<close> with a string pattern strips every leading copy.\<close>

function trim_start_str :: "string \<Rightarrow> string \<Rightarrow> string" where
  "trim_start_str p s =
     (if p \<noteq> [] \<and> starts_with s p then trim_start_str p (drop (length p) s) else s)"
  by pat_completeness auto
termination
proof (relation "measure (\<lambda>(p, s). length s)")
  fix p s :: string
  assume "p \<noteq> [] \<and> starts_with s p"
  then have "s \<noteq> []" and "p \<noteq> []" by (auto simp: starts_with_def)
  then show "((p, drop (length p) s), p, s) \<in> measure (\<lambda>(p, s). length s)"
    by (simp add: diff_less)
qed simp

declare trim_start_str.simps [simp del]

definition trim_start_char :: "char \<Rightarrow> string \<Rightarrow> string" where
  "trim_start_char c s = dropWhile (\<lambda>d. d = c) s"

definition is_space :: "char \<Rightarrow> bool" where
  "is_space c = (let n = of_char c :: nat in n = 32 \<or> (9 \<le> n \<and> n \<le> 13))"

definition trim :: "string \<Rightarrow> string" where
  "trim s = rev (dropWhile is_space (rev (dropWhile is_space s)))"

definition is_digit :: "char \<Rightarrow> bool" where
  "is_digit c = (let n = of_char c :: nat in 48 \<le> n \<and> n \<le> 57)"

definition digit_val :: "char \<Rightarrow> nat" where
  "digit_val c = of_char c - 48"

definition digits_val :: "string \<Rightarrow> nat" where
  "digits_val s = foldl (\<lambda>n c. 10 * n + digit_val c) 0 s"

text \<open>\<open>str::parse\<close> for unsigned and signed integers: an optional sign, then digits.\<close>

definition parse_unsigned :: "nat \<Rightarrow> string \<Rightarrow> nat option" where
  "parse_unsigned mx s =
     (let ds = (if starts_with s ''+'' then drop 1 s else s)
      in if ds \<noteq> [] \<and> list_all is_digit ds \<and> digits_val ds \<le> mx
         then Some (digits_val ds) else None)"

definition parse_u128 :: "string \<Rightarrow> nat option" where
  "parse_u128 s = parse_unsigned u128_max s"

definition parse_i64 :: "string \<Rightarrow> int option" where
  "parse_i64 s =
     (if starts_with s ''-''
      then let ds = drop 1 s
           in if ds \<noteq> [] \<and> list_all is_digit ds \<and> digits_val ds \<le> 2 ^ 63
              then Some (- int (digits_val ds)) else None
      else map_option int (parse_unsigned (2 ^ 63 - 1) s))"

text \<open>\<open>rsplit\<close> on a set of separators: the pieces, last first.\<close>

fun split_on :: "(char \<Rightarrow> bool) \<Rightarrow> string \<Rightarrow> string list" where
  "split_on p [] = [[]]"
| "split_on p (c # s) =
     (if p c then [] # split_on p s
      else case split_on p s of [] \<Rightarrow> [[c]] | w # ws \<Rightarrow> (c # w) # ws)"

definition rsplit :: "char list \<Rightarrow> string \<Rightarrow> string list" where
  "rsplit seps s = rev (split_on (\<lambda>c. c \<in> set seps) s)"

fun find_map :: "('a \<Rightarrow> 'b option) \<Rightarrow> 'a list \<Rightarrow> 'b option" where
  "find_map f [] = None"
| "find_map f (x # xs) = (case f x of None \<Rightarrow> find_map f xs | Some y \<Rightarrow> Some y)"

text \<open>\<open>str::parse::<f64>\<close>: sign, then digits with an optional point and exponent, or a
  special name.\<close>

definition parse_exp :: "string \<Rightarrow> int option" where
  "parse_exp s =
     (let neg = starts_with s ''-'';
          ds = (if neg \<or> starts_with s ''+'' then drop 1 s else s)
      in if ds \<noteq> [] \<and> list_all is_digit ds
         then Some (if neg then - int (digits_val ds) else int (digits_val ds)) else None)"

definition parse_decimal :: "string \<Rightarrow> rat option" where
  "parse_decimal s =
     (let ip = takeWhile is_digit s;
          r1 = dropWhile is_digit s;
          has_pt = starts_with r1 ''.'';
          fp = (if has_pt then takeWhile is_digit (drop 1 r1) else []);
          r2 = (if has_pt then dropWhile is_digit (drop 1 r1) else r1);
          ex = (if r2 = [] then Some 0
                else if hd r2 \<in> set ''eE'' then parse_exp (tl r2) else None)
      in if ip = [] \<and> fp = [] then None
         else map_option (\<lambda>e. of_nat (digits_val (ip @ fp)) * 10 powi (e - int (length fp))) ex)"

definition parse_f64 :: "string \<Rightarrow> f64 option" where
  "parse_f64 s =
     (let neg = starts_with s ''-'';
          body = (if neg \<or> starts_with s ''+'' then drop 1 s else s);
          low = to_lowercase body
      in if low = ''nan'' then Some NaN
         else if low = ''inf'' \<or> low = ''infinity'' then Some (if neg then NInf else PInf)
         else map_option (\<lambda>q. fround (if neg then - q else q)) (parse_decimal body))"

text \<open>\<open>Display\<close> of integers.\<close>

fun show_nat :: "nat \<Rightarrow> string" where
  "show_nat n = (if n < 10 then [char_of (48 + n)] else show_nat (n div 10) @ [char_of (48 + n mod 10)])"

declare show_nat.simps [simp del]

definition show_int :: "int \<Rightarrow> string" where
  "show_int i = (if i < 0 then ''-'' @ show_nat (nat (- i)) else show_nat (nat i))"

lemma digit_char: "n < 10 \<Longrightarrow> is_digit (char_of (48 + n)) \<and> digit_val (char_of (48 + n)) = n"
  by (simp add: is_digit_def digit_val_def Let_def)

lemma digits_val_snoc: "digits_val (s @ [c]) = 10 * digits_val s + digit_val c"
  by (simp add: digits_val_def)

lemma show_nat_digits: "show_nat n \<noteq> [] \<and> list_all is_digit (show_nat n) \<and> digits_val (show_nat n) = n"
proof (induction n rule: show_nat.induct)
  case (1 n)
  show ?case
  proof (cases "n < 10")
    case True
    then show ?thesis using digit_char [of n] by (simp add: show_nat.simps [of n] digits_val_def)
  next
    case False
    with 1 show ?thesis using digit_char [of "n mod 10"]
      by (simp add: show_nat.simps [of n] digits_val_snoc)
  qed
qed

lemma show_nat_inject [simp]: "show_nat m = show_nat n \<longleftrightarrow> m = n"
  using show_nat_digits by metis

lemma parse_unsigned_bound: "parse_unsigned mx s = Some n \<Longrightarrow> n \<le> mx"
  by (auto simp: parse_unsigned_def Let_def split: if_splits)

lemma find_map_Some: "find_map f xs = Some y \<Longrightarrow> \<exists>x \<in> set xs. f x = Some y"
  by (induction xs) (auto split: option.splits)

lemma starts_with_append [simp]: "starts_with (p @ s) p"
  by (simp add: starts_with_def)

lemma lower_char_idem [simp]: "lower_char (lower_char c) = lower_char c"
proof -
  have "of_char c < (256 :: nat)" by simp
  then show ?thesis by (auto simp: lower_char_def Let_def)
qed

lemma to_lowercase_idem [simp]: "to_lowercase (to_lowercase s) = to_lowercase s"
  by (simp add: to_lowercase_def)

lemma mem_indexed: "(m, p) \<in> set (zip [0..<length xs] xs) \<longleftrightarrow> m < length xs \<and> p = xs ! m"
  by (auto simp: in_set_zip intro!: exI [of _ m])

lemma sort_key_Nil_iff [simp]: "sort_key f xs = [] \<longleftrightarrow> xs = []"
  by (metis length_0_conv length_sort)

lemma length_filter_mono:
  "(\<And>x. x \<in> set xs \<Longrightarrow> P x \<Longrightarrow> Q x) \<Longrightarrow> length (filter P xs) \<le> length (filter Q xs)"
  by (induction xs) (auto simp: le_SucI)

section \<open>The first rows of a sorted table\<close>

lemma sorted_map_take: "sorted (map f (take n (sort_key f xs)))"
  by (metis sorted_sort_key sorted_wrt_take take_map)

lemma take_sort_key_least:
  assumes "r \<in> set xs" "r \<notin> set (take n (sort_key f xs))" "x \<in> set (take n (sort_key f xs))"
  shows "f x \<le> f r"
proof -
  let ?s = "sort_key f xs"
  have "sorted (map f (take n ?s) @ map f (drop n ?s))"
    by (metis append_take_drop_id map_append sorted_sort_key)
  moreover have "r \<in> set (drop n ?s)"
    using assms(1,2) by (metis UnE append_take_drop_id set_append set_sort)
  ultimately show ?thesis using assms(3) by (auto simp: sorted_append)
qed

lemma insort_key_greatest:
  "\<forall>b \<in> set xs. f b \<le> f a \<Longrightarrow> insort_key f c (xs @ [a]) = (if f c \<le> f a then insort_key f c xs @ [a] else (xs @ [a]) @ [c])"
  by (induction xs) auto

lemma sort_key_snoc:
  "\<forall>b \<in> set xs. f b \<le> f a \<Longrightarrow> sort_key f (xs @ [a]) = sort_key f xs @ [a]"
  by (induction xs) (simp_all add: insort_key_greatest)

lemma last_insort_key:
  "sorted (map f xs) \<Longrightarrow> xs \<noteq> [] \<Longrightarrow>
   last (insort_key f c xs) = (if f c \<le> f (last xs) then last xs else c)"
proof (induction xs)
  case (Cons x xs)
  then show ?case by (cases "xs = []") (auto simp: insort_not_Nil intro: order_trans)
qed simp

lemma sort_key_le_last: "x \<in> set xs \<Longrightarrow> f x \<le> f (last (sort_key f xs))"
proof -
  assume x: "x \<in> set xs"
  then obtain ys z where s: "sort_key f xs = ys @ [z]"
    by (metis append_butlast_last_id empty_iff list.set(1) set_sort)
  have "x \<in> set (ys @ [z])" using x by (simp only: s [symmetric] set_sort)
  moreover have "sorted (map f (ys @ [z]))" by (simp only: s [symmetric] sorted_sort_key)
  ultimately show ?thesis using s by (auto simp: sorted_append)
qed

lemma last_sort_key_snoc:
  "xs \<noteq> [] \<Longrightarrow> f a < f (last (sort_key f xs)) \<Longrightarrow>
   last (sort_key f (xs @ [a])) = last (sort_key f xs)"
proof (induction xs)
  case (Cons x xs)
  let ?s = "sort_key f xs" and ?t = "sort_key f (xs @ [a])"
  have t: "?t \<noteq> []" "sorted (map f ?t)" by simp_all
  show ?case
  proof (cases "xs = []")
    case True
    with Cons.prems show ?thesis by (auto dest: leD)
  next
    case False
    then have s: "?s \<noteq> []" "sorted (map f ?s)" by simp_all
    note last_x = last_insort_key [OF s(2,1), of x] last_insort_key [OF t(2,1), of x]
    show ?thesis
    proof (cases "f a < f (last ?s)")
      case True
      with Cons.IH False last_x show ?thesis by simp
    next
      case a: False
      with Cons.prems last_x(1) have x: "f (last ?s) < f x" "f a < f x" by (auto split: if_splits)
      have "last ?t \<in> set (xs @ [a])" by (metis last_in_set set_sort t(1))
      then have "f (last ?t) < f x" using x sort_key_le_last [of "last ?t" xs f] by auto
      with x last_x show ?thesis by (simp add: not_le [symmetric])
    qed
  qed
qed simp

lemma distinct_map_sort_key: "distinct (map g xs) \<Longrightarrow> distinct (map g (sort_key f xs))"
  by (simp add: distinct_map)

lemma drop_sort_key_greatest:
  assumes "r \<in> set xs" "r \<notin> set (drop n (sort_key f xs))" "x \<in> set (drop n (sort_key f xs))"
  shows "f r \<le> f x"
proof -
  let ?s = "sort_key f xs"
  have "sorted (map f (take n ?s) @ map f (drop n ?s))"
    by (metis append_take_drop_id map_append sorted_sort_key)
  moreover have "r \<in> set (take n ?s)"
    using assms(1,2) by (metis UnE append_take_drop_id set_append set_sort)
  ultimately show ?thesis using assms(3) by (auto simp: sorted_append)
qed

section \<open>Fallible calls\<close>

text \<open>A returned value, a returned error, or a panic.\<close>

datatype ('e, 'a) res = Ok 'a | Err 'e | Panic

fun res_bind :: "('e, 'a) res \<Rightarrow> ('a \<Rightarrow> ('e, 'b) res) \<Rightarrow> ('e, 'b) res" where
  "res_bind (Ok a) f = f a"
| "res_bind (Err e) f = Err e"
| "res_bind Panic f = Panic"

fun ok_or :: "'e \<Rightarrow> 'a option \<Rightarrow> ('e, 'a) res" where
  "ok_or e None = Err e"
| "ok_or e (Some a) = Ok a"

lemma res_bind_Ok [simp]: "res_bind r f = Ok b \<longleftrightarrow> (\<exists>a. r = Ok a \<and> f a = Ok b)"
  by (cases r) auto

lemma ok_or_Ok [simp]: "ok_or e x = Ok a \<longleftrightarrow> x = Some a"
  by (cases x) auto

section \<open>Formatted texts\<close>

text \<open>
  A \<open>format!\<close> result is kept symbolic: its template and the values put into it.  Two texts
  are equal when the same template is filled with the same values.
\<close>

datatype msg = Msg string "arg list"
  and arg = AStr string | AInt int | AF64 f64 | AMsg msg

abbreviation lit :: "string \<Rightarrow> msg" where "lit s \<equiv> Msg s []"
abbreviation ANat :: "nat \<Rightarrow> arg" where "ANat n \<equiv> AInt (int n)"

section \<open>Tables with a primary key\<close>

text \<open>
  A SQLite table is the list of its rows in insertion order (rowid order); \<open>key\<close> reads the
  primary key.  The operations are the statements the source issues.
\<close>

definition t_get :: "('r \<Rightarrow> 'k) \<Rightarrow> 'k \<Rightarrow> 'r list \<Rightarrow> 'r option" where
  "t_get key k rows = List.find (\<lambda>r. key r = k) rows"

definition t_delete :: "('r \<Rightarrow> 'k) \<Rightarrow> 'k \<Rightarrow> 'r list \<Rightarrow> 'r list" where
  "t_delete key k rows = filter (\<lambda>r. key r \<noteq> k) rows"

definition t_update :: "('r \<Rightarrow> 'k) \<Rightarrow> 'k \<Rightarrow> ('r \<Rightarrow> 'r) \<Rightarrow> 'r list \<Rightarrow> 'r list" where
  "t_update key k f rows = map (\<lambda>r. if key r = k then f r else r) rows"

text \<open>\<open>INSERT OR REPLACE\<close> and \<open>INSERT OR IGNORE\<close>.\<close>

definition t_replace :: "('r \<Rightarrow> 'k) \<Rightarrow> 'r \<Rightarrow> 'r list \<Rightarrow> 'r list" where
  "t_replace key r rows = t_delete key (key r) rows @ [r]"

definition t_insert_or_ignore :: "('r \<Rightarrow> 'k) \<Rightarrow> 'r \<Rightarrow> 'r list \<Rightarrow> 'r list" where
  "t_insert_or_ignore key r rows =
     (case t_get key (key r) rows of None \<Rightarrow> rows @ [r] | Some _ \<Rightarrow> rows)"

definition t_unique :: "('r \<Rightarrow> 'k) \<Rightarrow> 'r list \<Rightarrow> bool" where
  "t_unique key rows \<longleftrightarrow> distinct (map key rows)"

lemma find_append: "List.find P (xs @ ys) = (case List.find P xs of None \<Rightarrow> List.find P ys | Some x \<Rightarrow> Some x)"
  by (induction xs) auto

lemma t_get_Nil [simp]: "t_get key k [] = None"
  by (simp add: t_get_def)

lemma t_get_None: "t_get key k rows = None \<longleftrightarrow> k \<notin> key ` set rows"
  by (auto simp: t_get_def find_None_iff)

lemma t_get_Some_key: "t_get key k rows = Some r \<Longrightarrow> key r = k \<and> r \<in> set rows"
  by (auto simp: t_get_def find_Some_iff)

lemma t_get_snoc:
  "t_get key k (rows @ [r]) =
     (case t_get key k rows of None \<Rightarrow> if key r = k then Some r else None | Some x \<Rightarrow> Some x)"
  by (auto simp: t_get_def find_append split: option.splits)

lemma t_get_delete: "t_get key k (t_delete key j rows) = (if k = j then None else t_get key k rows)"
  by (induction rows) (auto simp: t_get_def t_delete_def)

lemma t_get_update:
  assumes "\<And>r. key (f r) = key r"
  shows "t_get key k (t_update key j f rows) =
    (if k = j then map_option f (t_get key k rows) else t_get key k rows)"
  by (induction rows) (auto simp: t_get_def t_update_def assms)

lemma t_get_replace:
  "t_get key k (t_replace key r rows) = (if k = key r then Some r else t_get key k rows)"
  by (auto simp: t_replace_def t_get_snoc t_get_delete split: option.splits)

lemma t_unique_snoc: "t_unique key (rows @ [r]) \<longleftrightarrow> t_unique key rows \<and> t_get key (key r) rows = None"
  by (auto simp: t_unique_def t_get_None)

lemma t_unique_delete: "t_unique key rows \<Longrightarrow> t_unique key (t_delete key k rows)"
  by (simp add: t_unique_def t_delete_def distinct_map_filter)

lemma t_unique_update:
  assumes "\<And>r. key (f r) = key r"
  shows "t_unique key (t_update key k f rows) = t_unique key rows"
proof -
  have "map key (t_update key k f rows) = map key rows"
    by (simp add: t_update_def assms)
  then show ?thesis by (simp add: t_unique_def)
qed

lemma t_unique_replace: "t_unique key rows \<Longrightarrow> t_unique key (t_replace key r rows)"
  by (simp add: t_replace_def t_unique_snoc t_unique_delete t_get_delete)

lemma t_get_unique: "t_unique key rows \<Longrightarrow> r \<in> set rows \<Longrightarrow> t_get key (key r) rows = Some r"
  by (induction rows) (auto simp: t_get_def t_unique_def)

lemma t_delete_absent: "t_get key k rows = None \<Longrightarrow> t_delete key k rows = rows"
  by (auto simp: t_get_None t_delete_def filter_id_conv)

lemma set_t_delete [simp]: "set (t_delete key k rows) = {r \<in> set rows. key r \<noteq> k}"
  by (auto simp: t_delete_def)

lemma ball_t_update:
  "(\<forall>r \<in> set (t_update key k f rows). P r) \<longleftrightarrow> (\<forall>r \<in> set rows. P (if key r = k then f r else r))"
  by (auto simp: t_update_def)

lemma t_get_Cons: "t_get key k (r # rows) = (if key r = k then Some r else t_get key k rows)"
  by (simp add: t_get_def)

lemma t_get_filter:
  "t_unique key rows \<Longrightarrow>
   t_get key k (filter P rows) =
     (case t_get key k rows of None \<Rightarrow> None | Some r \<Rightarrow> if P r then Some r else None)"
proof (induction rows)
  case (Cons r rows)
  have "t_get key k rows = None" if "key r = k"
    using that Cons.prems by (auto simp: t_unique_def t_get_None)
  with Cons show ?case by (auto simp: t_get_Cons t_unique_def)
qed simp

lemmas t_get_simps = t_get_snoc t_get_delete t_get_replace

end
