(* ===== verification/Wallet.thy ===== *)
theory Wallet
  imports Prelude
begin

text \<open>
  The wallet manager (\<open>crates/wallet-manager/src/lib.rs\<close>): the durable intent lifecycle and the
  USD budget that in-flight fills draw on.  The three SQLite tables are lists of rows; each
  method of \<open>WalletManager\<close> is a function from the wallet to its result and the wallet after it.
  The statements never fail for I/O reasons here; a NaN bound to a \<open>REAL NOT NULL\<close> column is
  NULL to SQLite and fails the constraint.  \<open>SUM\<close> is SQLite's own and is the parameter \<open>sm\<close>.
  Timestamps are nanoseconds.
\<close>

section \<open>Lifecycle states\<close>

datatype intent_state =
    IntentDetected | ProfitabilityCheck | SkipUnprofitable | ProofFetch | ProofMissing
  | CalldataBuild | CalldataError | Broadcast | PendingConfirmation | Confirmed
  | ClaimPending | Claimed | Reverted | RetryQueued

fun as_str :: "intent_state \<Rightarrow> string" where
  "as_str IntentDetected = ''INTENT_DETECTED''"
| "as_str ProfitabilityCheck = ''PROFITABILITY_CHECK''"
| "as_str SkipUnprofitable = ''SKIP_UNPROFITABLE''"
| "as_str ProofFetch = ''PROOF_FETCH''"
| "as_str ProofMissing = ''PROOF_MISSING''"
| "as_str CalldataBuild = ''CALLDATA_BUILD''"
| "as_str CalldataError = ''CALLDATA_ERROR''"
| "as_str Broadcast = ''BROADCAST''"
| "as_str PendingConfirmation = ''PENDING_CONFIRMATION''"
| "as_str Confirmed = ''CONFIRMED''"
| "as_str ClaimPending = ''CLAIM_PENDING''"
| "as_str Claimed = ''CLAIMED''"
| "as_str Reverted = ''REVERTED''"
| "as_str RetryQueued = ''RETRY_QUEUED''"

fun is_terminal :: "intent_state \<Rightarrow> bool" where
  "is_terminal SkipUnprofitable = True"
| "is_terminal ProofMissing = True"
| "is_terminal CalldataError = True"
| "is_terminal Claimed = True"
| "is_terminal Reverted = True"
| "is_terminal _ = False"

datatype wallet_error =
    UnknownState string
  | NotFound string
  | TerminalTransition string string
  | InsufficientBudget f64 f64 f64
  | Sqlite string

definition from_str :: "string \<Rightarrow> wallet_error + intent_state" where
  "from_str s =
     (if s = ''INTENT_DETECTED'' then Inr IntentDetected
      else if s = ''PROFITABILITY_CHECK'' then Inr ProfitabilityCheck
      else if s = ''SKIP_UNPROFITABLE'' then Inr SkipUnprofitable
      else if s = ''PROOF_FETCH'' then Inr ProofFetch
      else if s = ''PROOF_MISSING'' then Inr ProofMissing
      else if s = ''CALLDATA_BUILD'' then Inr CalldataBuild
      else if s = ''CALLDATA_ERROR'' then Inr CalldataError
      else if s = ''BROADCAST'' then Inr Broadcast
      else if s = ''PENDING_CONFIRMATION'' then Inr PendingConfirmation
      else if s = ''CONFIRMED'' then Inr Confirmed
      else if s = ''CLAIM_PENDING'' then Inr ClaimPending
      else if s = ''CLAIMED'' then Inr Claimed
      else if s = ''REVERTED'' then Inr Reverted
      else if s = ''RETRY_QUEUED'' then Inr RetryQueued
      else Inl (UnknownState s))"

text \<open>The \<open>Display\<close> texts of the errors, which callers embed in skip reasons.\<close>

fun wallet_error_msg :: "wallet_error \<Rightarrow> msg" where
  "wallet_error_msg (UnknownState s) = Msg ''unknown intent state: {0}'' [AStr s]"
| "wallet_error_msg (NotFound s) = Msg ''intent not found: {0}'' [AStr s]"
| "wallet_error_msg (TerminalTransition i s) =
     Msg ''intent {0} is in terminal state {1}; cannot transition'' [AStr i, AStr s]"
| "wallet_error_msg (InsufficientBudget q r b) =
     Msg ''insufficient wallet budget: requested ${requested:.2} reserved=${reserved:.2} budget=${budget:.2}''
       [AF64 q, AF64 r, AF64 b]"
| "wallet_error_msg (Sqlite e) = Msg ''sqlite: {0}'' [AStr e]"

section \<open>Tables\<close>

record intent_record =
  ir_id :: string
  ir_protocol :: string
  ir_src_chain :: int
  ir_dst_chain :: int
  ir_amount_usd :: f64
  ir_state :: string
  ir_created_at :: int
  ir_updated_at :: int
  ir_tx_hash :: "string option"
  ir_error :: "msg option"

record new_intent =
  ni_id :: string
  ni_protocol :: string
  ni_src_chain :: int
  ni_dst_chain :: int
  ni_amount_usd :: f64

record reservation =
  rv_id :: string
  rv_amount_usd :: f64
  rv_created_at :: int

record revenue_row =
  rr_id :: string
  rr_profit_usd :: f64
  rr_recorded_at :: int

record wallet =
  w_intents :: "intent_record list"
  w_reservations :: "reservation list"
  w_revenue :: "revenue_row list"
  w_budget :: f64

record wallet_status =
  ws_budget :: f64
  ws_reserved :: f64
  ws_available :: f64
  ws_realized :: f64
  ws_active :: nat
  ws_confirmed :: nat
  ws_reverted :: nat

definition open_wallet :: "f64 \<Rightarrow> wallet" where
  "open_wallet budget = \<lparr>w_intents = [], w_reservations = [], w_revenue = [], w_budget = budget\<rparr>"

section \<open>Operations\<close>

definition record_detected :: "int \<Rightarrow> new_intent \<Rightarrow> wallet \<Rightarrow> wallet_error + intent_record \<times> wallet" where
  "record_detected now new w =
     (case t_get ir_id (ni_id new) (w_intents w) of
        Some rec \<Rightarrow> Inr (rec, w)
      | None \<Rightarrow>
          if ni_amount_usd new = NaN
          then Inl (Sqlite ''NOT NULL constraint failed: intents.amount_usd'')
          else let rec = \<lparr>ir_id = ni_id new, ir_protocol = ni_protocol new,
                          ir_src_chain = ni_src_chain new, ir_dst_chain = ni_dst_chain new,
                          ir_amount_usd = ni_amount_usd new, ir_state = as_str IntentDetected,
                          ir_created_at = now, ir_updated_at = now,
                          ir_tx_hash = None, ir_error = None\<rparr>
               in Inr (rec, w\<lparr>w_intents := w_intents w @ [rec]\<rparr>))"

text \<open>\<open>COALESCE(?, col)\<close>: a given value overwrites, NULL keeps the column.\<close>

definition coalesce :: "'a option \<Rightarrow> 'a option \<Rightarrow> 'a option" where
  "coalesce a b = (case a of None \<Rightarrow> b | Some x \<Rightarrow> Some x)"

definition set_state ::
    "int \<Rightarrow> intent_state \<Rightarrow> string option \<Rightarrow> msg option \<Rightarrow> intent_record \<Rightarrow> intent_record" where
  "set_state now next h e r =
     r\<lparr>ir_state := as_str next, ir_updated_at := now,
       ir_tx_hash := coalesce h (ir_tx_hash r), ir_error := coalesce e (ir_error r)\<rparr>"

definition transition ::
    "int \<Rightarrow> string \<Rightarrow> intent_state \<Rightarrow> string option \<Rightarrow> msg option \<Rightarrow> wallet
      \<Rightarrow> wallet_error + intent_record \<times> wallet" where
  "transition now i next h e w =
     (case t_get ir_id i (w_intents w) of
        None \<Rightarrow> Inl (NotFound i)
      | Some cur \<Rightarrow>
          (case from_str (ir_state cur) of
             Inl err \<Rightarrow> Inl err
           | Inr st \<Rightarrow>
               if is_terminal st then Inl (TerminalTransition i (ir_state cur))
               else Inr (set_state now next h e cur,
                      w\<lparr>w_intents := t_update ir_id i (set_state now next h e) (w_intents w),
                        w_reservations :=
                          (if is_terminal next then t_delete rv_id i (w_reservations w)
                           else w_reservations w)\<rparr>)))"

definition reserved_total :: "(f64 list \<Rightarrow> f64) \<Rightarrow> wallet \<Rightarrow> f64" where
  "reserved_total sm w =
     (if w_reservations w = [] then Fin 0 else sm (map rv_amount_usd (w_reservations w)))"

definition reserve ::
    "(f64 list \<Rightarrow> f64) \<Rightarrow> int \<Rightarrow> string \<Rightarrow> f64 \<Rightarrow> wallet \<Rightarrow> wallet_error + wallet" where
  "reserve sm now i amount w =
     (case t_get rv_id i (w_reservations w) of
        Some _ \<Rightarrow> Inr w
      | None \<Rightarrow>
          let reserved = reserved_total sm w
          in if f_gt (f_add reserved amount) (w_budget w)
             then Inl (InsufficientBudget amount reserved (w_budget w))
             else if amount = NaN
             then Inl (Sqlite ''NOT NULL constraint failed: reservations.amount_usd'')
             else Inr (w\<lparr>w_reservations := w_reservations w @
                    [\<lparr>rv_id = i, rv_amount_usd = amount, rv_created_at = now\<rparr>]\<rparr>))"

definition stale_reservation :: "wallet \<Rightarrow> int \<Rightarrow> reservation \<Rightarrow> bool" where
  "stale_reservation w cutoff r \<longleftrightarrow>
     (\<exists>x \<in> set (w_intents w). ir_id x = rv_id r
        \<and> ir_state x \<notin> {''CLAIM_PENDING'', ''CLAIMED''}) \<and> rv_created_at r < cutoff"

definition release_stale_reservations :: "int \<Rightarrow> int \<Rightarrow> wallet \<Rightarrow> nat \<times> wallet" where
  "release_stale_reservations now max_age_secs w =
     (let cutoff = now - max_age_secs * 1000000000;
          keep = filter (\<lambda>r. \<not> stale_reservation w cutoff r) (w_reservations w)
      in (length (w_reservations w) - length keep, w\<lparr>w_reservations := keep\<rparr>))"

definition release :: "string \<Rightarrow> wallet \<Rightarrow> wallet" where
  "release i w = w\<lparr>w_reservations := t_delete rv_id i (w_reservations w)\<rparr>"

definition record_revenue :: "int \<Rightarrow> string \<Rightarrow> f64 \<Rightarrow> wallet \<Rightarrow> wallet_error + wallet" where
  "record_revenue now i profit w =
     (if profit = NaN then Inl (Sqlite ''NOT NULL constraint failed: revenue.profit_usd'')
      else Inr (w\<lparr>w_revenue := t_replace rr_id
                    \<lparr>rr_id = i, rr_profit_usd = profit, rr_recorded_at = now\<rparr> (w_revenue w),
                  w_reservations := t_delete rv_id i (w_reservations w)\<rparr>))"

definition live_state :: "string \<Rightarrow> bool" where
  "live_state s = (case from_str s of Inl _ \<Rightarrow> False | Inr st \<Rightarrow> \<not> is_terminal st)"

definition status :: "(f64 list \<Rightarrow> f64) \<Rightarrow> wallet \<Rightarrow> wallet_status" where
  "status sm w =
     (let reserved = reserved_total sm w;
          realized = (if w_revenue w = [] then Fin 0 else sm (map rr_profit_usd (w_revenue w)));
          states = map ir_state (w_intents w)
      in \<lparr>ws_budget = w_budget w, ws_reserved = reserved,
          ws_available = f_max (f_sub (w_budget w) reserved) (Fin 0),
          ws_realized = realized,
          ws_active = length (filter live_state states),
          ws_confirmed = length (filter (\<lambda>s. s = ''CONFIRMED'') states),
          ws_reverted = length (filter (\<lambda>s. s = ''REVERTED'') states)\<rparr>)"

definition clamp_limit :: "int \<Rightarrow> nat" where
  "clamp_limit l = nat (max 1 (min 1000 l))"

definition list_intents :: "string option \<Rightarrow> int \<Rightarrow> wallet \<Rightarrow> intent_record list" where
  "list_intents state_filter limit w =
     take (clamp_limit limit)
       (sort_key (\<lambda>r. - ir_updated_at r)
         (case state_filter of
            None \<Rightarrow> w_intents w
          | Some st \<Rightarrow> filter (\<lambda>r. ir_state r = st) (w_intents w)))"

definition list_debridge_claims :: "int \<Rightarrow> wallet \<Rightarrow> (intent_record \<times> f64 option) list" where
  "list_debridge_claims limit w =
     map (\<lambda>r. (r, map_option rr_profit_usd (t_get rr_id (ir_id r) (w_revenue w))))
       (take (clamp_limit limit)
         (sort_key (\<lambda>r. - ir_updated_at r)
           (filter (\<lambda>r. (contains (to_lowercase (ir_protocol r)) ''debridge''
                          \<or> contains (to_lowercase (ir_protocol r)) ''dln'')
                        \<and> ir_state r \<in> {''CONFIRMED'', ''CLAIM_PENDING'', ''CLAIMED'', ''REVERTED''})
             (w_intents w))))"

lemmas wallet_op_defs = record_detected_def transition_def reserve_def release_def
  release_stale_reservations_def record_revenue_def

section \<open>Life cycle of a wallet\<close>

datatype wallet_op =
    RecordDetected int new_intent
  | Transition int string intent_state "string option" "msg option"
  | Reserve int string f64
  | ReleaseStale int int
  | Release string
  | RecordRevenue int string f64

text \<open>An operation that returns an error leaves the database as it was.\<close>

definition or_else :: "'e + wallet \<Rightarrow> wallet \<Rightarrow> wallet" where
  "or_else r w = (case r of Inl _ \<Rightarrow> w | Inr w' \<Rightarrow> w')"

definition or_else2 :: "'e + 'a \<times> wallet \<Rightarrow> wallet \<Rightarrow> wallet" where
  "or_else2 r w = (case r of Inl _ \<Rightarrow> w | Inr (_, w') \<Rightarrow> w')"

fun wallet_exec :: "(f64 list \<Rightarrow> f64) \<Rightarrow> wallet_op \<Rightarrow> wallet \<Rightarrow> wallet" where
  "wallet_exec sm (RecordDetected now new) w = or_else2 (record_detected now new w) w"
| "wallet_exec sm (Transition now i next h e) w = or_else2 (transition now i next h e w) w"
| "wallet_exec sm (Reserve now i a) w = or_else (reserve sm now i a w) w"
| "wallet_exec sm (ReleaseStale now age) w = snd (release_stale_reservations now age w)"
| "wallet_exec sm (Release i) w = release i w"
| "wallet_exec sm (RecordRevenue now i p) w = or_else (record_revenue now i p w) w"

text \<open>The wallets reachable from \<open>open_wallet\<close> when every operation satisfies \<open>ok\<close>.\<close>

inductive wallet_reachable ::
    "(f64 list \<Rightarrow> f64) \<Rightarrow> f64 \<Rightarrow> (wallet_op \<Rightarrow> bool) \<Rightarrow> wallet \<Rightarrow> bool"
  for sm :: "f64 list \<Rightarrow> f64" and b :: f64 and ok :: "wallet_op \<Rightarrow> bool"
where
  opened: "wallet_reachable sm b ok (open_wallet b)"
| step: "wallet_reachable sm b ok w \<Longrightarrow> ok op \<Longrightarrow> wallet_reachable sm b ok (wallet_exec sm op w)"

subsection \<open>States and their stored names\<close>

lemma from_str_as_str [simp]: "from_str (as_str st) = Inr st"
  by (cases st) (simp_all add: from_str_def)

lemma as_str_from_str: "from_str s = Inr st \<Longrightarrow> s = as_str st"
  by (auto simp: from_str_def split: if_splits)

lemma as_str_inject [simp]: "as_str a = as_str b \<longleftrightarrow> a = b"
  using from_str_as_str by (metis sum.inject(2))

lemma live_state_as_str [simp]: "live_state (as_str st) \<longleftrightarrow> \<not> is_terminal st"
  by (simp add: live_state_def)

subsection \<open>What each operation does to the rows\<close>

definition intent :: "string \<Rightarrow> wallet \<Rightarrow> intent_record option" where
  "intent i w = t_get ir_id i (w_intents w)"

definition state_of :: "wallet \<Rightarrow> string \<Rightarrow> intent_state option" where
  "state_of w i = (case intent i w of None \<Rightarrow> None
                   | Some r \<Rightarrow> (case from_str (ir_state r) of Inl _ \<Rightarrow> None | Inr st \<Rightarrow> Some st))"

definition held :: "wallet \<Rightarrow> string \<Rightarrow> bool" where
  "held w i \<longleftrightarrow> t_get rv_id i (w_reservations w) \<noteq> None"

lemma ir_id_set_state [simp]: "ir_id (set_state now next h e r) = ir_id r"
  by (simp add: set_state_def)

lemma ir_state_set_state [simp]: "ir_state (set_state now next h e r) = as_str next"
  by (simp add: set_state_def)

lemma intent_record_detected:
  "record_detected now new w = Inr (rec, w') \<Longrightarrow>
   intent i w' = (if i = ni_id new then Some rec else intent i w)
   \<and> w_reservations w' = w_reservations w \<and> w_revenue w' = w_revenue w \<and> w_budget w' = w_budget w"
  by (auto simp: record_detected_def intent_def Let_def t_get_snoc
      split: option.splits if_splits)

lemma transition_cases:
  assumes "transition now i next h e w = Inr (r, w')"
  obtains cur st where "intent i w = Some cur" "from_str (ir_state cur) = Inr st"
    "\<not> is_terminal st" "r = set_state now next h e cur"
    "w' = w\<lparr>w_intents := t_update ir_id i (set_state now next h e) (w_intents w),
           w_reservations := (if is_terminal next then t_delete rv_id i (w_reservations w)
                              else w_reservations w)\<rparr>"
  using assms by (auto simp: transition_def intent_def split: option.splits sum.splits if_splits)

lemma intent_transition:
  assumes "transition now i next h e w = Inr (r, w')"
  shows "intent j w' = (if j = i then Some r else intent j w)"
  using assms by (elim transition_cases) (auto simp: intent_def t_get_update)

lemma held_transition:
  assumes "transition now i next h e w = Inr (r, w')"
  shows "held w' j \<longleftrightarrow> held w j \<and> \<not> (j = i \<and> is_terminal next)"
  using assms by (elim transition_cases) (auto simp: held_def t_get_delete)

lemma intent_reserve: "reserve sm now j a w = Inr w' \<Longrightarrow> intent i w' = intent i w"
  by (auto simp: reserve_def intent_def Let_def split: option.splits if_splits)

lemma intent_release [simp]: "intent i (release j w) = intent i w"
  by (simp add: release_def intent_def)

lemma held_release [simp]: "held (release j w) i \<longleftrightarrow> held w i \<and> i \<noteq> j"
  by (simp add: release_def held_def t_get_delete)

lemma intent_release_stale [simp]:
  "intent i (snd (release_stale_reservations now age w)) = intent i w"
  by (simp add: release_stale_reservations_def intent_def Let_def)

lemma intent_record_revenue: "record_revenue now j p w = Inr w' \<Longrightarrow> intent i w' = intent i w"
  by (auto simp: record_revenue_def intent_def split: if_splits)

lemmas intent_simps = intent_record_detected intent_transition intent_reserve
  intent_record_revenue

section \<open>The life-cycle contract the controller relies on\<close>

text \<open>
  Keys move between states until they reach a terminal one and may hold a reservation.
  \<open>move\<close> is refused exactly for unknown and for terminal keys, and a move into a terminal
  state gives the hold up.
\<close>

locale lifecycle_store =
  fixes lc_state :: "'s \<Rightarrow> 'k \<Rightarrow> 'st option"
    and lc_held :: "'s \<Rightarrow> 'k \<Rightarrow> bool"
    and terminal :: "'st \<Rightarrow> bool"
    and move :: "'k \<Rightarrow> 'st \<Rightarrow> 's \<Rightarrow> 's option"
    and free :: "'k \<Rightarrow> 's \<Rightarrow> 's"
  assumes move_enabled: "move k st s \<noteq> None \<longleftrightarrow> (\<exists>t. lc_state s k = Some t \<and> \<not> terminal t)"
    and state_move: "move k st s = Some s' \<Longrightarrow>
          lc_state s' j = (if j = k then Some st else lc_state s j)"
    and held_move: "move k st s = Some s' \<Longrightarrow>
          lc_held s' j \<longleftrightarrow> lc_held s j \<and> \<not> (j = k \<and> terminal st)"
    and state_free: "lc_state (free k s) j = lc_state s j"
    and held_free: "lc_held (free k s) j \<longleftrightarrow> lc_held s j \<and> j \<noteq> k"
begin

text \<open>The controller's way out of an intent: try to move it, then free it whatever happened.\<close>

definition try_move :: "'k \<Rightarrow> 'st \<Rightarrow> 's \<Rightarrow> 's" where
  "try_move k st s = (case move k st s of None \<Rightarrow> s | Some s' \<Rightarrow> s')"

definition abandon :: "'k \<Rightarrow> 'st \<Rightarrow> 's \<Rightarrow> 's" where
  "abandon k st s = free k (try_move k st s)"

lemma state_try_move:
  "lc_state (try_move k st s) j =
     (if j = k \<and> (\<exists>t. lc_state s k = Some t \<and> \<not> terminal t) then Some st else lc_state s j)"
  using move_enabled [of k st s] state_move [of k st s _ j]
  by (auto simp: try_move_def split: option.splits)

lemma held_try_move: "lc_held (try_move k st s) j \<Longrightarrow> lc_held s j"
  using held_move [of k st s _ j] by (auto simp: try_move_def split: option.splits)

lemma held_try_move_other: "j \<noteq> k \<Longrightarrow> lc_held (try_move k st s) j = lc_held s j"
  using held_move [of k st s _ j] by (auto simp: try_move_def split: option.splits)

lemma abandon_frees: "\<not> lc_held (abandon k st s) k"
  by (simp add: abandon_def held_free)

lemma abandon_other:
  "j \<noteq> k \<Longrightarrow> lc_state (abandon k st s) j = lc_state s j \<and> lc_held (abandon k st s) j = lc_held s j"
  by (simp add: abandon_def held_free state_free state_try_move held_try_move_other)

lemma terminal_absorbs:
  "lc_state s k = Some t \<Longrightarrow> terminal t \<Longrightarrow> lc_state (try_move j st s) k = Some t"
  by (auto simp: state_try_move)

lemma terminal_absorbs_run:
  "lc_state s k = Some t \<Longrightarrow> terminal t \<Longrightarrow>
   lc_state (fold (\<lambda>(j, st). try_move j st) ms s) k = Some t"
  by (induction ms arbitrary: s) (auto simp: terminal_absorbs)

end

definition try_transition ::
    "int \<Rightarrow> string option \<Rightarrow> msg option \<Rightarrow> string \<Rightarrow> intent_state \<Rightarrow> wallet \<Rightarrow> wallet option" where
  "try_transition now h e i st w =
     (case transition now i st h e w of Inl _ \<Rightarrow> None | Inr (_, w') \<Rightarrow> Some w')"

lemma state_of_cong: "intent i w' = intent j w \<Longrightarrow> state_of w' i = state_of w j"
  by (simp add: state_of_def)

lemma try_transition_Some:
  "try_transition now h e i st w = Some w' \<longleftrightarrow> (\<exists>r. transition now i st h e w = Inr (r, w'))"
  by (auto simp: try_transition_def split: sum.splits)

lemma try_transition_enabled:
  "try_transition now h e i st w \<noteq> None \<longleftrightarrow> (\<exists>t. state_of w i = Some t \<and> \<not> is_terminal t)"
  by (auto simp: try_transition_def transition_def state_of_def intent_def
      split: option.splits sum.splits if_splits)

lemma state_of_transition:
  assumes "transition now i st h e w = Inr (r, w')"
  shows "state_of w' j = (if j = i then Some st else state_of w j)"
proof -
  have "ir_state r = as_str st" using assms by (elim transition_cases) simp
  then show ?thesis using intent_transition [OF assms, of j] by (auto simp: state_of_def)
qed

lemma state_of_release [simp]: "state_of (release i w) j = state_of w j"
  by (rule state_of_cong) simp

interpretation wl: lifecycle_store state_of held is_terminal "try_transition now h e" release
  for now h e
proof unfold_locales
  fix k st w
  show "try_transition now h e k st w \<noteq> None \<longleftrightarrow> (\<exists>t. state_of w k = Some t \<and> \<not> is_terminal t)"
    by (rule try_transition_enabled)
qed (simp_all add: try_transition_Some held_release, auto simp: state_of_transition held_transition)

section \<open>The table invariant\<close>

definition wallet_inv :: "wallet \<Rightarrow> bool" where
  "wallet_inv w \<longleftrightarrow>
     t_unique ir_id (w_intents w) \<and> t_unique rv_id (w_reservations w) \<and> t_unique rr_id (w_revenue w)
     \<and> (\<forall>r \<in> set (w_intents w). ir_amount_usd r \<noteq> NaN \<and> (\<exists>st. ir_state r = as_str st))
     \<and> (\<forall>r \<in> set (w_reservations w). rv_amount_usd r \<noteq> NaN)
     \<and> (\<forall>r \<in> set (w_revenue w). rr_profit_usd r \<noteq> NaN)"

lemma wallet_inv_open: "wallet_inv (open_wallet b)"
  by (simp add: wallet_inv_def open_wallet_def t_unique_def)

lemma wallet_inv_record_detected:
  "wallet_inv w \<Longrightarrow> record_detected now new w = Inr (rec, w') \<Longrightarrow> wallet_inv w'"
  by (auto simp: record_detected_def wallet_inv_def Let_def t_unique_snoc simp del: as_str.simps
      split: option.splits if_splits)

lemma wallet_inv_transition:
  assumes inv: "wallet_inv w" and tr: "transition now i next h e w = Inr (r, w')"
  shows "wallet_inv w'"
  using tr
proof (rule transition_cases)
  assume w': "w' = w\<lparr>w_intents := t_update ir_id i (set_state now next h e) (w_intents w),
           w_reservations := (if is_terminal next then t_delete rv_id i (w_reservations w)
                              else w_reservations w)\<rparr>"
  have "ir_amount_usd (set_state now next h e x) = ir_amount_usd x" for x
    by (simp add: set_state_def)
  with inv show ?thesis
    by (auto simp: wallet_inv_def w' t_unique_update t_unique_delete ball_t_update)
qed

lemma wallet_inv_reserve: "wallet_inv w \<Longrightarrow> reserve sm now i a w = Inr w' \<Longrightarrow> wallet_inv w'"
  by (auto simp: reserve_def wallet_inv_def Let_def t_unique_snoc split: option.splits if_splits)

lemma wallet_inv_release: "wallet_inv w \<Longrightarrow> wallet_inv (release i w)"
  by (auto simp: release_def wallet_inv_def t_unique_delete)

lemma wallet_inv_release_stale:
  "wallet_inv w \<Longrightarrow> wallet_inv (snd (release_stale_reservations now age w))"
  by (auto simp: release_stale_reservations_def wallet_inv_def Let_def t_unique_def distinct_map_filter)

lemma wallet_inv_record_revenue:
  "wallet_inv w \<Longrightarrow> record_revenue now i p w = Inr w' \<Longrightarrow> wallet_inv w'"
  by (auto simp: record_revenue_def wallet_inv_def t_unique_delete t_unique_replace t_replace_def
      t_unique_snoc t_get_delete split: if_splits)

lemmas wallet_inv_ops = wallet_inv_record_detected wallet_inv_transition wallet_inv_reserve
  wallet_inv_release wallet_inv_release_stale wallet_inv_record_revenue

lemma wallet_inv_exec: "wallet_inv w \<Longrightarrow> wallet_inv (wallet_exec sm op w)"
  by (cases op) (auto simp: or_else_def or_else2_def intro: wallet_inv_ops split: sum.splits)

section \<open>Properties\<close>

lemma budget_exec [simp]: "w_budget (wallet_exec sm op w) = w_budget w"
  by (cases op)
    (auto simp: or_else_def or_else2_def wallet_op_defs Let_def split: sum.splits option.splits if_splits)

lemma budget_reachable: "wallet_reachable sm b ok w \<Longrightarrow> w_budget w = b"
  by (induction rule: wallet_reachable.induct) (simp_all add: open_wallet_def)

text \<open>C19. Every wallet a run of operations reaches satisfies the table invariant: primary keys
  are unique in the three tables, every stored state is the name of a lifecycle state, and no
  amount, hold or profit is NaN.\<close>

theorem wallet_inv_reachable: "wallet_reachable sm b ok w \<Longrightarrow> wallet_inv w"
  by (induction rule: wallet_reachable.induct) (simp_all add: wallet_inv_open wallet_inv_exec)

theorem wallet_inv_reachable_witness:
  "wallet_inv (wallet_exec (\<lambda>_. Fin 0) (Reserve 7 ''a'' (Fin 5)) (open_wallet (Fin 100)))"
  by (rule wallet_inv_reachable [of "\<lambda>_. Fin 0" "Fin 100" "\<lambda>_. True"])
    (intro wallet_reachable.step wallet_reachable.opened TrueI)

lemma terminal_exec:
  assumes row: "intent i w = Some r" "from_str (ir_state r) = Inr st" "is_terminal st"
  shows "intent i (wallet_exec sm op w) = Some r"
proof (cases op)
  case (RecordDetected now new)
  have "intent i w' = Some r" if "record_detected now new w = Inr (rec, w')" for rec w'
    using that row(1)
    by (auto simp: record_detected_def intent_def Let_def t_get_snoc split: option.splits if_splits)
  with row(1) RecordDetected show ?thesis by (auto simp: or_else2_def split: sum.splits)
next
  case (Transition now j nx h e)
  have "intent i w' = Some r" if tr: "transition now j nx h e w = Inr (q, w')" for q w'
  proof -
    have "j \<noteq> i" using tr row by (elim transition_cases) auto
    with tr row(1) show ?thesis by (auto simp: intent_transition)
  qed
  with row(1) Transition show ?thesis by (auto simp: or_else2_def split: sum.splits)
qed (use row(1) in \<open>auto simp: or_else_def intent_reserve intent_record_revenue split: sum.splits\<close>)

text \<open>C18. A terminal intent is final: whatever operations follow, on this intent or on others,
  its row (state, amount, transaction hash, error, time stamps) never changes again.\<close>

theorem terminal_rows_frozen:
  assumes "intent i w = Some r" "from_str (ir_state r) = Inr st" "is_terminal st"
  shows "intent i (fold (wallet_exec sm) ops w) = Some r"
  using assms by (induction ops arbitrary: w) (simp_all add: terminal_exec)

definition sample_row :: intent_record where
  "sample_row = \<lparr>ir_id = ''a'', ir_protocol = ''across'', ir_src_chain = 1, ir_dst_chain = 10,
     ir_amount_usd = Fin 5, ir_state = ''CLAIMED'', ir_created_at = 1, ir_updated_at = 2,
     ir_tx_hash = Some ''0x1'', ir_error = None\<rparr>"

definition sample_wallet :: wallet where
  "sample_wallet = (open_wallet (Fin 100))\<lparr>w_intents := [sample_row]\<rparr>"

theorem terminal_rows_frozen_witness:
  "intent ''a'' (fold (wallet_exec (\<lambda>_. Fin 0))
     [Transition 3 ''a'' Broadcast None None, Release ''a''] sample_wallet) = Some sample_row"
  by (rule terminal_rows_frozen [of _ _ _ Claimed])
    (simp_all add: intent_def sample_wallet_def sample_row_def open_wallet_def t_get_def from_str_def)

text \<open>Moving an intent into a terminal state settles it: its reservation is gone, every other
  reservation and intent is as before, the row carries the new state and keeps an earlier
  transaction hash when none is given, and any later transition is refused as terminal.\<close>

theorem terminal_transition_settles:
  assumes tr: "transition now i next h e w = Inr (r, w')" and fin: "is_terminal next"
  shows "\<not> held w' i
    \<and> (\<forall>j. j \<noteq> i \<longrightarrow> held w' j = held w j \<and> intent j w' = intent j w)
    \<and> intent i w' = Some r \<and> ir_state r = as_str next
    \<and> ir_tx_hash r = (case h of None \<Rightarrow> Option.bind (intent i w) ir_tx_hash | Some x \<Rightarrow> Some x)
    \<and> transition now2 i next2 h2 e2 w' = Inl (TerminalTransition i (as_str next))"
proof (intro conjI)
  show row: "intent i w' = Some r" and st: "ir_state r = as_str next"
    using tr by (auto simp: intent_transition [OF tr] elim: transition_cases)
  show "\<not> held w' i" using held_transition [OF tr, of i] fin by simp
  show "\<forall>j. j \<noteq> i \<longrightarrow> held w' j = held w j \<and> intent j w' = intent j w"
    using held_transition [OF tr] intent_transition [OF tr] by auto
  show "ir_tx_hash r = (case h of None \<Rightarrow> Option.bind (intent i w) ir_tx_hash | Some x \<Rightarrow> Some x)"
    using tr by (elim transition_cases) (auto simp: set_state_def coalesce_def split: option.splits)
  show "transition now2 i next2 h2 e2 w' = Inl (TerminalTransition i (as_str next))"
    using row st fin by (simp add: transition_def intent_def)
qed

theorem terminal_transition_settles_witness:
  "\<not> held (snd (projr (transition 5 ''a'' Reverted None None
     (open_wallet (Fin 9)\<lparr>w_intents := [sample_row\<lparr>ir_state := ''BROADCAST''\<rparr>],
        w_reservations := [\<lparr>rv_id = ''a'', rv_amount_usd = Fin 5, rv_created_at = 1\<rparr>]\<rparr>)))) ''a''"
  (is "\<not> held (snd (projr ?t)) _")
proof -
  have "?t = Inr (fst (projr ?t), snd (projr ?t))"
    by (simp add: transition_def open_wallet_def sample_row_def t_get_def from_str_def)
  from terminal_transition_settles [OF this] show ?thesis by simp
qed

text \<open>A fresh reservation is only granted within the budget: the total \<open>SUM\<close> reports plus the
  amount is not above it; the intent then holds exactly this reservation, no other hold changed,
  and reserving the same intent again, for any amount, changes nothing.\<close>

theorem reserve_granted:
  assumes "reserve sm now i a w = Inr w'" "\<not> held w i"
  shows "\<not> f_gt (f_add (reserved_total sm w) a) (w_budget w) \<and> a \<noteq> NaN
    \<and> t_get rv_id i (w_reservations w') = Some \<lparr>rv_id = i, rv_amount_usd = a, rv_created_at = now\<rparr>
    \<and> (\<forall>j. j \<noteq> i \<longrightarrow> t_get rv_id j (w_reservations w') = t_get rv_id j (w_reservations w))
    \<and> reserve sm now2 i a2 w' = Inr w'"
  using assms
  by (auto simp: reserve_def held_def Let_def t_get_snoc split: option.splits if_splits)

theorem reserve_granted_witness:
  "\<not> f_gt (f_add (Fin 0) (Fin 5)) (Fin 100)"
proof -
  let ?w = "open_wallet (Fin 100)" and ?r = "\<lparr>rv_id = ''a'', rv_amount_usd = Fin 5, rv_created_at = 7\<rparr>"
  have "reserve (\<lambda>_. Fin 0) 7 ''a'' (Fin 5) ?w = Inr (?w\<lparr>w_reservations := [?r]\<rparr>)" by code_simp
  from reserve_granted [OF this] show ?thesis
    by (simp add: held_def open_wallet_def reserved_total_def)
qed

subsection \<open>The budget in exact arithmetic\<close>

definition f_rat :: "f64 \<Rightarrow> rat" where
  "f_rat x = (case x of Fin q \<Rightarrow> q | _ \<Rightarrow> 0)"

definition exact_reserved :: "wallet \<Rightarrow> rat" where
  "exact_reserved w = sum_list (map (f_rat \<circ> rv_amount_usd) (w_reservations w))"

text \<open>
  What is assumed of SQLite's \<open>SUM\<close>: on non-negative finite values it does not fall short of the
  exact sum by more than the relative error \<open>\<epsilon>\<close> (it may overflow to infinity).
\<close>

definition sum_accurate :: "rat \<Rightarrow> (f64 list \<Rightarrow> f64) \<Rightarrow> bool" where
  "sum_accurate \<epsilon> sm \<longleftrightarrow> 0 \<le> \<epsilon> \<and> \<epsilon> \<le> 1 \<and>
     (\<forall>qs. qs \<noteq> [] \<and> (\<forall>q \<in> set qs. 0 \<le> q) \<longrightarrow>
        (case sm (map Fin qs) of Fin s \<Rightarrow> (1 - \<epsilon>) * sum_list qs \<le> s | PInf \<Rightarrow> True | _ \<Rightarrow> False))"

fun reserves_nonneg :: "wallet_op \<Rightarrow> bool" where
  "reserves_nonneg (Reserve _ _ a) = (case a of Fin q \<Rightarrow> 0 \<le> q | _ \<Rightarrow> False)"
| "reserves_nonneg _ = True"

definition within_budget :: "rat \<Rightarrow> rat \<Rightarrow> wallet \<Rightarrow> bool" where
  "within_budget \<epsilon> b w \<longleftrightarrow>
     (\<forall>r \<in> set (w_reservations w). \<exists>q \<ge> 0. rv_amount_usd r = Fin q) \<and> (1 - \<epsilon>) * exact_reserved w < b"

lemma exact_filter:
  assumes "\<forall>r \<in> set rs. \<exists>q \<ge> 0. rv_amount_usd r = Fin q"
  shows "sum_list (map (f_rat \<circ> rv_amount_usd) (filter P rs)) \<le> sum_list (map (f_rat \<circ> rv_amount_usd) rs)"
  using assms by (induction rs) (auto simp: f_rat_def)

lemma within_budget_filter:
  assumes "within_budget \<epsilon> b w" "\<epsilon> \<le> 1" "w_reservations w' = filter P (w_reservations w)"
  shows "within_budget \<epsilon> b w'"
proof -
  have "exact_reserved w' \<le> exact_reserved w"
    using assms exact_filter by (auto simp: within_budget_def exact_reserved_def)
  then have "(1 - \<epsilon>) * exact_reserved w' \<le> (1 - \<epsilon>) * exact_reserved w"
    using assms(2) by (intro mult_left_mono) auto
  with assms show ?thesis by (auto simp: within_budget_def)
qed

lemma within_budget_same:
  "within_budget \<epsilon> b w \<Longrightarrow> w_reservations w' = w_reservations w \<Longrightarrow> within_budget \<epsilon> b w'"
  by (simp add: within_budget_def exact_reserved_def)

text \<open>A sum that does not round above the budget is below the next double.\<close>

lemma below_next_double:
  assumes "\<not> f_gt (fround q) (Fin b)" "b < b'" "fround b' = Fin b'"
  shows "q < b'"
proof (rule ccontr)
  assume "\<not> q < b'"
  then have "f_le (fround b') (fround q)" by (intro fround_mono) simp
  with assms show False by (cases "fround q") auto
qed

lemma sum_accurateD:
  "sum_accurate \<epsilon> sm \<Longrightarrow> qs \<noteq> [] \<Longrightarrow> \<forall>q \<in> set qs. 0 \<le> q \<Longrightarrow>
   (case sm (map Fin qs) of Fin s \<Rightarrow> (1 - \<epsilon>) * sum_list qs \<le> s | PInf \<Rightarrow> True | _ \<Rightarrow> False)"
  unfolding sum_accurate_def by blast

lemma within_budget_reserve:
  assumes sm: "sum_accurate \<epsilon> sm" and w: "within_budget \<epsilon> b' w" and op: "0 \<le> q"
    and b: "w_budget w = Fin b" "b < b'" "fround b' = Fin b'"
    and res: "reserve sm now i (Fin q) w = Inr w'"
  shows "within_budget \<epsilon> b' w'"
proof (cases "t_get rv_id i (w_reservations w)")
  case (Some x)
  with res w show ?thesis by (simp add: reserve_def)
next
  case None
  let ?t = "exact_reserved w" and ?qs = "map (f_rat \<circ> rv_amount_usd) (w_reservations w)"
  from None res have w': "w_reservations w' = w_reservations w @
      [\<lparr>rv_id = i, rv_amount_usd = Fin q, rv_created_at = now\<rparr>]"
    and guard: "\<not> f_gt (f_add (reserved_total sm w) (Fin q)) (Fin b)"
    by (auto simp: reserve_def Let_def b split: if_splits)
  have amounts: "map rv_amount_usd (w_reservations w) = map Fin ?qs" "\<forall>q \<in> set ?qs. 0 \<le> q"
    using w by (auto simp: within_budget_def f_rat_def)
  have e: "0 \<le> \<epsilon>" "\<epsilon> \<le> 1" using sm by (auto simp: sum_accurate_def)
  obtain s where s: "reserved_total sm w = Fin s" "(1 - \<epsilon>) * ?t \<le> s"
  proof (cases "w_reservations w = []")
    case True
    then show thesis by (intro that [of 0]) (simp_all add: reserved_total_def exact_reserved_def)
  next
    case False
    then have "case reserved_total sm w of Fin s \<Rightarrow> (1 - \<epsilon>) * ?t \<le> s | PInf \<Rightarrow> True | _ \<Rightarrow> False"
      using sum_accurateD [OF sm _ amounts(2)]
      by (simp only: amounts(1) reserved_total_def exact_reserved_def if_False map_is_Nil_conv
          not_False_eq_True)
    with guard show thesis by (cases "reserved_total sm w") (auto intro: that)
  qed
  have "\<not> f_gt (fround (s + q)) (Fin b)" using guard by (simp add: s)
  from below_next_double [OF this b(2,3)] have "s + q < b'" .
  moreover have "(1 - \<epsilon>) * q \<le> q" using op e by (simp add: mult_left_le_one_le)
  ultimately have "(1 - \<epsilon>) * (?t + q) < b'" using s(2) by (simp add: distrib_left)
  with w op show ?thesis by (auto simp: within_budget_def exact_reserved_def w' f_rat_def)
qed

lemma within_budget_exec:
  assumes sm: "sum_accurate \<epsilon> sm" and w: "within_budget \<epsilon> b' w" and op: "reserves_nonneg op"
    and b: "w_budget w = Fin b" "b < b'" "fround b' = Fin b'"
  shows "within_budget \<epsilon> b' (wallet_exec sm op w)"
proof -
  have e: "\<epsilon> \<le> 1" using sm by (simp add: sum_accurate_def)
  show ?thesis
proof (cases op)
  case (RecordDetected now new)
  have "within_budget \<epsilon> b' w'" if "record_detected now new w = Inr (r, w')" for r w'
    using w intent_record_detected [OF that] by (blast intro: within_budget_same)
  with w RecordDetected show ?thesis by (auto simp: or_else2_def split: sum.splits)
next
  case (Transition now i nx h e)
  have "within_budget \<epsilon> b' w'" if "transition now i nx h e w = Inr (r, w')" for r w'
    using that
  proof (rule transition_cases)
    assume "w' = w\<lparr>w_intents := t_update ir_id i (set_state now nx h e) (w_intents w),
           w_reservations := (if is_terminal nx then t_delete rv_id i (w_reservations w)
                              else w_reservations w)\<rparr>"
    then have "w_reservations w' = filter (\<lambda>r. \<not> (is_terminal nx \<and> rv_id r = i)) (w_reservations w)"
      by (simp add: t_delete_def)
    then show ?thesis by (rule within_budget_filter [OF w e])
  qed
  with w Transition show ?thesis by (auto simp: or_else2_def split: sum.splits)
next
  case (Reserve now i a)
  from op Reserve obtain q where a: "a = Fin q" "0 \<le> q" by (auto split: f64.splits)
  then have "within_budget \<epsilon> b' w'" if "reserve sm now i a w = Inr w'" for w'
    using within_budget_reserve [OF sm w _ b] that by simp
  with w Reserve show ?thesis by (auto simp: or_else_def split: sum.splits)
next
  case (ReleaseStale now age)
  show ?thesis
    by (rule within_budget_filter [OF w e, where P = "\<lambda>r. \<not> stale_reservation w (now - age * 1000000000) r"])
      (simp add: ReleaseStale release_stale_reservations_def Let_def)
next
  case (Release i)
  show ?thesis
    by (rule within_budget_filter [OF w e, where P = "\<lambda>r. rv_id r \<noteq> i"])
      (simp add: Release release_def t_delete_def)
next
  case (RecordRevenue now i p)
  have "within_budget \<epsilon> b' w'" if "record_revenue now i p w = Inr w'" for w'
    by (rule within_budget_filter [OF w e, where P = "\<lambda>r. rv_id r \<noteq> i"])
      (use that in \<open>auto simp: record_revenue_def t_delete_def split: if_splits\<close>)
  with w RecordRevenue show ?thesis by (auto simp: or_else_def split: sum.splits)
qed
qed

text \<open>C2. Open positions never exceed the budget: however operations are ordered, as long as no
  amount reserved is negative or non-finite, the exact sum of all live reservations, discounted by
  the relative error of SQLite's \<open>SUM\<close>, stays below every double above the budget.\<close>

theorem budget_never_overdrawn:
  assumes "wallet_reachable sm (Fin b) reserves_nonneg w" and sm: "sum_accurate \<epsilon> sm"
    and b: "0 \<le> b" "b < b'" "fround b' = Fin b'"
  shows "(1 - \<epsilon>) * exact_reserved w < b'"
proof -
  from assms(1) have "within_budget \<epsilon> b' w"
  proof (induction rule: wallet_reachable.induct)
    case opened
    with b show ?case by (simp add: within_budget_def open_wallet_def exact_reserved_def)
  next
    case (step w op)
    then show ?case
      using within_budget_exec [OF sm _ _ _ b(2,3), of w op] budget_reachable by blast
  qed
  then show ?thesis by (simp add: within_budget_def)
qed

theorem budget_never_overdrawn_witness:
  "(1 - 0) * exact_reserved (wallet_exec (\<lambda>xs. Fin (sum_list (map f_rat xs))) (Reserve 7 ''a'' (Fin 5))
     (open_wallet (Fin 100))) < 101"
proof (rule budget_never_overdrawn [of "\<lambda>xs. Fin (sum_list (map f_rat xs))" 100])
  show "sum_accurate 0 (\<lambda>xs. Fin (sum_list (map f_rat xs)))"
    by (simp add: sum_accurate_def f_rat_def o_def)
  show "fround 101 = Fin 101" by code_simp
qed (intro wallet_reachable.step wallet_reachable.opened, simp_all)

text \<open>The housekeeping sweep drops exactly the reservations older than the cutoff whose intent
  is known and not in a claim state: a hold whose claim is under way, or that has no intent row,
  survives any age.\<close>

theorem release_stale_exact:
  assumes "wallet_inv w"
  shows "t_get rv_id i (w_reservations (snd (release_stale_reservations now age w))) =
    (case t_get rv_id i (w_reservations w) of
       None \<Rightarrow> None
     | Some r \<Rightarrow>
         (if rv_created_at r < now - age * 1000000000
             \<and> (\<exists>st. state_of w i = Some st \<and> st \<notin> {ClaimPending, Claimed})
          then None else Some r))"
proof -
  have row: "(\<exists>x \<in> set (w_intents w). ir_id x = i \<and> P x) \<longleftrightarrow> (\<exists>x. intent i w = Some x \<and> P x)" for P
    using assms by (auto simp: wallet_inv_def intent_def t_get_unique dest: t_get_Some_key)
  have st: "(\<exists>x. intent i w = Some x \<and> ir_state x \<notin> {''CLAIM_PENDING'', ''CLAIMED''})
      \<longleftrightarrow> (\<exists>st. state_of w i = Some st \<and> st \<notin> {ClaimPending, Claimed})"
  proof (cases "intent i w")
    case (Some x)
    then have "x \<in> set (w_intents w)" by (auto simp: intent_def dest: t_get_Some_key)
    with assms obtain s where "ir_state x = as_str s" by (auto simp: wallet_inv_def)
    with Some show ?thesis by (cases s) (simp_all add: state_of_def from_str_def)
  qed (simp add: state_of_def)
  have uni: "t_unique rv_id (w_reservations w)" using assms by (simp add: wallet_inv_def)
  let ?c = "now - age * 1000000000"
  have stale: "stale_reservation w ?c r \<longleftrightarrow> rv_created_at r < ?c
      \<and> (\<exists>st. state_of w i = Some st \<and> st \<notin> {ClaimPending, Claimed})"
    if "t_get rv_id i (w_reservations w) = Some r" for r
    using t_get_Some_key [OF that] st row [of "\<lambda>x. ir_state x \<notin> {''CLAIM_PENDING'', ''CLAIMED''}"]
    by (simp add: stale_reservation_def conj_commute)
  show ?thesis
    using t_get_filter [OF uni, of i "\<lambda>r. \<not> stale_reservation w ?c r"] stale
    by (auto simp: release_stale_reservations_def Let_def split: option.splits)
qed

theorem release_stale_exact_witness:
  "t_get rv_id ''b'' (w_reservations (snd (release_stale_reservations (2 * 10 ^ 9) 1
     (sample_wallet\<lparr>w_reservations := [\<lparr>rv_id = ''b'', rv_amount_usd = Fin 5, rv_created_at = 0\<rparr>]\<rparr>)))) \<noteq> None"
proof -
  let ?w = "sample_wallet\<lparr>w_reservations := [\<lparr>rv_id = ''b'', rv_amount_usd = Fin 5, rv_created_at = 0\<rparr>]\<rparr>"
  have "wallet_inv ?w"
    unfolding wallet_inv_def sample_wallet_def sample_row_def open_wallet_def t_unique_def
    using exI [of "\<lambda>st. ''CLAIMED'' = as_str st" Claimed] by simp
  from release_stale_exact [OF this, of "''b''" "2 * 10 ^ 9" 1] show ?thesis
    by (simp add: sample_wallet_def sample_row_def open_wallet_def state_of_def intent_def t_get_def)
qed

lemma live_state_row:
  assumes "wallet_inv w" "r \<in> set (w_intents w)"
  shows "live_state (ir_state r) \<longleftrightarrow> (\<exists>st. state_of w (ir_id r) = Some st \<and> \<not> is_terminal st)"
proof -
  from assms obtain st where "ir_state r = as_str st" "intent (ir_id r) w = Some r"
    by (auto simp: wallet_inv_def intent_def t_get_unique)
  then show ?thesis by (simp add: state_of_def)
qed

text \<open>The status report is consistent: every intent is counted either as active or is
  terminal, confirmed intents are among the active ones and reverted ones are not, and the
  available budget is never negative and is zero when the reservations reach the budget.\<close>

theorem status_consistent:
  assumes "wallet_inv w"
  shows "ws_active (status sm w)
      + length (filter (\<lambda>r. \<exists>st. state_of w (ir_id r) = Some st \<and> is_terminal st) (w_intents w))
      = length (w_intents w)
    \<and> ws_confirmed (status sm w) \<le> ws_active (status sm w)
    \<and> ws_active (status sm w) + ws_reverted (status sm w) \<le> length (w_intents w)
    \<and> f_le (Fin 0) (ws_available (status sm w))"
proof (intro conjI)
  let ?live = "\<lambda>r. live_state (ir_state r)" and ?n = "length (w_intents w)"
  have act: "ws_active (status sm w) = length (filter ?live (w_intents w))"
    by (simp add: status_def Let_def filter_map o_def)
  have rev: "ws_reverted (status sm w) = length (filter (\<lambda>r. ir_state r = ''REVERTED'') (w_intents w))"
    and con: "ws_confirmed (status sm w) = length (filter (\<lambda>r. ir_state r = ''CONFIRMED'') (w_intents w))"
    by (simp_all add: status_def Let_def filter_map o_def)
  have "filter (\<lambda>r. \<exists>st. state_of w (ir_id r) = Some st \<and> is_terminal st) (w_intents w)
      = filter (\<lambda>r. \<not> ?live r) (w_intents w)"
    using assms by (intro filter_cong) (auto simp: live_state_row wallet_inv_def state_of_def
        intent_def t_get_unique)
  then show "ws_active (status sm w)
      + length (filter (\<lambda>r. \<exists>st. state_of w (ir_id r) = Some st \<and> is_terminal st) (w_intents w)) = ?n"
    by (simp add: act sum_length_filter_compl)
  show "ws_confirmed (status sm w) \<le> ws_active (status sm w)"
    unfolding act con using live_state_as_str [of Confirmed]
    by (intro length_filter_mono) simp
  have "length (filter (\<lambda>r. ir_state r = ''REVERTED'') (w_intents w))
      \<le> length (filter (\<lambda>r. \<not> ?live r) (w_intents w))"
    using live_state_as_str [of Reverted] by (intro length_filter_mono) simp
  then show "ws_active (status sm w) + ws_reverted (status sm w) \<le> ?n"
    unfolding act rev using sum_length_filter_compl [of ?live "w_intents w"] by linarith
  show "f_le (Fin 0) (ws_available (status sm w))"
    by (auto simp: status_def Let_def f_max_def not_less dest: f_not_lt)
qed

theorem status_consistent_witness:
  "ws_active (status (\<lambda>_. Fin 0) sample_wallet) + 1 = 1"
proof -
  have "wallet_inv sample_wallet"
    unfolding wallet_inv_def sample_wallet_def sample_row_def open_wallet_def t_unique_def
    using exI [of "\<lambda>st. ''CLAIMED'' = as_str st" Claimed] by simp
  from status_consistent [OF this, of "\<lambda>_. Fin 0"] show ?thesis
    by (simp add: sample_wallet_def sample_row_def open_wallet_def state_of_def intent_def
        t_get_def from_str_def)
qed

text \<open>Listing intents returns at most 1000 rows (and at least one when there is a match), newest
  first, only rows in the requested state; a matching row that is left out is no newer than any row
  listed.\<close>

theorem list_intents_newest:
  "length (list_intents flt l w)
      = min (clamp_limit l) (length (filter (\<lambda>r. flt \<in> {None, Some (ir_state r)}) (w_intents w)))
   \<and> clamp_limit l \<in> {1..1000}
   \<and> sorted (map (\<lambda>r. - ir_updated_at r) (list_intents flt l w))
   \<and> set (list_intents flt l w) \<subseteq> {r \<in> set (w_intents w). flt \<in> {None, Some (ir_state r)}}
   \<and> (\<forall>r \<in> set (w_intents w). flt \<in> {None, Some (ir_state r)} \<longrightarrow> r \<notin> set (list_intents flt l w)
       \<longrightarrow> (\<forall>x \<in> set (list_intents flt l w). ir_updated_at r \<le> ir_updated_at x))"
proof -
  have m: "(case flt of None \<Rightarrow> w_intents w | Some st \<Rightarrow> filter (\<lambda>r. ir_state r = st) (w_intents w))
      = filter (\<lambda>r. flt \<in> {None, Some (ir_state r)}) (w_intents w)"
    by (cases flt) (auto intro: filter_cong)
  show ?thesis unfolding list_intents_def m
  proof (intro conjI ballI impI)
    show "clamp_limit l \<in> {1..1000}" by (auto simp: clamp_limit_def)
    let ?ms = "filter (\<lambda>r. flt \<in> {None, Some (ir_state r)}) (w_intents w)"
    show "set (take (clamp_limit l) (sort_key (\<lambda>r. - ir_updated_at r) ?ms))
        \<subseteq> {r \<in> set (w_intents w). flt \<in> {None, Some (ir_state r)}}"
      using set_take_subset [of "clamp_limit l" "sort_key (\<lambda>r. - ir_updated_at r) ?ms"] by auto
    fix r x
    assume "r \<in> set (w_intents w)" "flt \<in> {None, Some (ir_state r)}"
      and out: "r \<notin> set (take (clamp_limit l) (sort_key (\<lambda>r. - ir_updated_at r) ?ms))"
      and x: "x \<in> set (take (clamp_limit l) (sort_key (\<lambda>r. - ir_updated_at r) ?ms))"
    then have "r \<in> set ?ms" by simp
    from take_sort_key_least [OF this out x] show "ir_updated_at r \<le> ir_updated_at x" by simp
  qed (simp_all add: sorted_map_take min.commute)
qed

theorem list_intents_newest_witness:
  "length (list_intents None 5 sample_wallet) = 1"
  using list_intents_newest [of None 5 sample_wallet]
  by (simp add: clamp_limit_def sample_wallet_def)

end
