(* ===== verification/Json.thy ===== *)
theory Json
  imports Prelude "HOL-Library.Char_ord" "HOL-Library.List_Lexorder" "HOL-Library.AList" "HOL-Library.Multiset"
begin

text \<open>
  Keyed stores (\<open>HashMap\<close> and \<open>BTreeMap\<close> as association lists) and JSON values with the key sorting
  of \<open>sort_value\<close> (\<open>crates/donut-adjudicator/src/lib.rs\<close>).  Keys compare as byte strings.
\<close>

section \<open>Keyed stores\<close>

locale keyed_store =
  fixes get :: "'s \<Rightarrow> 'k \<Rightarrow> 'v option"
    and put :: "'k \<Rightarrow> 'v \<Rightarrow> 's \<Rightarrow> 's"
  assumes get_put: "get (put k v s) j = (if j = k then Some v else get s j)"
begin

definition put_all :: "('k \<times> 'v) list \<Rightarrow> 's \<Rightarrow> 's" where
  "put_all kvs s = fold (\<lambda>(k, v). put k v) kvs s"

lemma get_put_all:
  "get (put_all kvs s) j = (case map_of (rev kvs) j of None \<Rightarrow> get s j | Some v \<Rightarrow> Some v)"
  by (induction kvs arbitrary: s)
    (auto simp: put_all_def get_put map_add_def split: option.splits)

lemma get_put_all_distinct:
  assumes "distinct (map fst kvs)"
  shows "get (put_all kvs s) j = (case map_of kvs j of None \<Rightarrow> get s j | Some v \<Rightarrow> Some v)"
proof -
  have "map_of (rev kvs) = map_of kvs"
    using assms by (intro map_of_inject_set [THEN iffD2]) (simp_all add: rev_map [symmetric])
  then show ?thesis by (simp add: get_put_all)
qed

end

text \<open>A store whose well-formed values are determined by their lookups.\<close>

locale canonical_store = keyed_store get put
  for get :: "'s \<Rightarrow> 'k \<Rightarrow> 'v option" and put :: "'k \<Rightarrow> 'v \<Rightarrow> 's \<Rightarrow> 's" +
  fixes wf :: "'s \<Rightarrow> bool"
  assumes wf_put: "wf s \<Longrightarrow> wf (put k v s)"
    and wf_ext: "wf s \<Longrightarrow> wf t \<Longrightarrow> get s = get t \<Longrightarrow> s = t"
begin

lemma wf_put_all: "wf s \<Longrightarrow> wf (put_all kvs s)"
  by (induction kvs arbitrary: s) (auto simp: put_all_def wf_put)

lemma put_all_order:
  assumes "wf s" "distinct (map fst kvs)" "distinct (map fst kvs')" "set kvs = set kvs'"
  shows "put_all kvs s = put_all kvs' s"
proof (rule wf_ext)
  have "map_of kvs = map_of kvs'" using assms map_of_inject_set by blast
  then show "get (put_all kvs s) = get (put_all kvs' s)"
    using assms by (auto simp: fun_eq_iff get_put_all_distinct)
qed (simp_all add: assms wf_put_all)

end

text \<open>\<open>HashMap::insert\<close>: the order of the list is the iteration order.\<close>

interpretation hm: keyed_store map_of AList.update
  by unfold_locales (simp add: update_conv)

lemma length_alist_update: "length (AList.update k v al) \<le> Suc (length al)"
  by (induction al) (auto split: if_splits)

text \<open>\<open>BTreeMap::insert\<close>: entries are kept in ascending key order.\<close>

fun bt_insert :: "'k::linorder \<Rightarrow> 'v \<Rightarrow> ('k \<times> 'v) list \<Rightarrow> ('k \<times> 'v) list" where
  "bt_insert k v [] = [(k, v)]"
| "bt_insert k v ((k', v') # m) =
     (if k < k' then (k, v) # (k', v') # m
      else if k = k' then (k, v) # m
      else (k', v') # bt_insert k v m)"

definition bt_wf :: "('k::linorder \<times> 'v) list \<Rightarrow> bool" where
  "bt_wf m \<longleftrightarrow> sorted_wrt (<) (map fst m)"

lemma bt_insert_keys: "fst ` set (bt_insert k v m) = insert k (fst ` set m)"
  by (induction k v m rule: bt_insert.induct) auto

lemma bt_wf_insert: "bt_wf m \<Longrightarrow> bt_wf (bt_insert k v m)"
proof (induction k v m rule: bt_insert.induct)
  case (2 k v k' v' m)
  then show ?case
    using bt_insert_keys [of k v m] by (fastforce simp: bt_wf_def)
qed (simp add: bt_wf_def)

lemma map_of_bt_insert: "map_of (bt_insert k v m) j = (if j = k then Some v else map_of m j)"
  by (induction k v m rule: bt_insert.induct) auto

lemma bt_wf_distinct: "bt_wf m \<Longrightarrow> distinct (map fst m)"
  by (simp add: bt_wf_def strict_sorted_iff)

lemma bt_wf_ext: "bt_wf m \<Longrightarrow> bt_wf m' \<Longrightarrow> map_of m = map_of m' \<Longrightarrow> m = m'"
proof -
  assume wf: "bt_wf m" "bt_wf m'" and "map_of m = map_of m'"
  then have "set m = set m'" using bt_wf_distinct map_of_inject_set by blast
  moreover have "sorted (map fst m)" "sorted (map fst m')" using wf by (simp_all add: bt_wf_def strict_sorted_iff)
  ultimately show "m = m'"
    using map_sorted_distinct_set_unique [of fst m m'] bt_wf_distinct [OF wf(1)] bt_wf_distinct [OF wf(2)]
    by (auto simp: distinct_map inj_on_Un)
qed

interpretation bt: canonical_store map_of bt_insert bt_wf
  by unfold_locales (simp_all add: map_of_bt_insert fun_eq_iff bt_wf_insert bt_wf_ext)

abbreviation bt_of :: "('k::linorder \<times> 'v) list \<Rightarrow> ('k \<times> 'v) list" where
  "bt_of kvs \<equiv> fold (\<lambda>(k, v). bt_insert k v) kvs []"

lemma bt_wf_Nil [simp]: "bt_wf []"
  by (simp add: bt_wf_def)

lemma bt_wf_bt_of: "bt_wf (bt_of kvs)"
  using bt.wf_put_all [of "[]" kvs] by (simp add: bt.put_all_def)

lemma map_of_bt_of: "distinct (map fst kvs) \<Longrightarrow> map_of (bt_of kvs) = map_of kvs"
  using bt.get_put_all_distinct [of kvs "[]"]
  by (auto simp: bt.put_all_def fun_eq_iff split: option.splits)

lemma bt_of_order:
  "distinct (map fst kvs) \<Longrightarrow> distinct (map fst kvs') \<Longrightarrow> set kvs = set kvs' \<Longrightarrow> bt_of kvs = bt_of kvs'"
  using bt.put_all_order [of "[]" kvs kvs'] by (simp add: bt.put_all_def)

lemma bt_of_wf: "bt_wf m \<Longrightarrow> bt_of m = m"
  by (intro bt_wf_ext bt_wf_bt_of) (simp_all add: map_of_bt_of bt_wf_distinct)

section \<open>JSON\<close>

datatype json =
    JNull
  | JBool bool
  | JInt int
  | JFloat f64
  | JStr string
  | JArr "json list"
  | JObj "(string \<times> json) list"

fun sort_value :: "json \<Rightarrow> json"
  and sort_items :: "json list \<Rightarrow> json list"
  and sort_fields :: "(string \<times> json) list \<Rightarrow> (string \<times> json) list"
where
  "sort_value (JObj kvs) = JObj (bt_of (sort_fields kvs))"
| "sort_value (JArr vs) = JArr (sort_items vs)"
| "sort_value v = v"
| "sort_items [] = []"
| "sort_items (v # vs) = sort_value v # sort_items vs"
| "sort_fields [] = []"
| "sort_fields ((k, v) # kvs) = (k, sort_value v) # sort_fields kvs"

lemma sort_fields_map: "sort_fields kvs = map (map_prod id sort_value) kvs"
  by (induction kvs) auto

lemma sort_items_map: "sort_items vs = map sort_value vs"
  by (induction vs) auto

text \<open>Two values are the same up to the order of object fields, at every level.\<close>

inductive json_eq :: "json \<Rightarrow> json \<Rightarrow> bool" where
  je_refl: "json_eq v v"
| je_arr: "list_all2 json_eq vs ws \<Longrightarrow> json_eq (JArr vs) (JArr ws)"
| je_obj: "distinct (map fst kvs) \<Longrightarrow> mset kvs = mset kvs' \<Longrightarrow>
    list_all2 (\<lambda>p q. fst p = fst q \<and> json_eq (snd p) (snd q)) kvs' ls \<Longrightarrow> json_eq (JObj kvs) (JObj ls)"

inductive_cases json_eq_objE: "json_eq (JObj kvs) w"
inductive_simps json_eq_str: "json_eq (JStr s) w"

text \<open>Keys strictly ascending in every object.\<close>

inductive canonical :: "json \<Rightarrow> bool" where
  "canonical JNull" | "canonical (JBool b)" | "canonical (JInt i)" | "canonical (JFloat x)"
| "canonical (JStr s)"
| "(\<And>v. v \<in> set vs \<Longrightarrow> canonical v) \<Longrightarrow> canonical (JArr vs)"
| "bt_wf kvs \<Longrightarrow> (\<And>k v. (k, v) \<in> set kvs \<Longrightarrow> canonical v) \<Longrightarrow> canonical (JObj kvs)"

lemma bt_insert_set: "set (bt_insert k v m) \<subseteq> insert (k, v) (set m)"
  by (induction k v m rule: bt_insert.induct) auto

lemma fold_bt_set: "set (fold (\<lambda>(k, v). bt_insert k v) kvs m) \<subseteq> set kvs \<union> set m"
proof (induction kvs arbitrary: m)
  case (Cons p kvs)
  then show ?case using bt_insert_set [of "fst p" "snd p" m] by (cases p) fastforce
qed simp

lemma sort_value_canonical_aux:
  "canonical (sort_value v)"
  "\<forall>w \<in> set (sort_items vs). canonical w"
  "\<forall>(k, w) \<in> set (sort_fields kvs). canonical w"
proof (induction v and vs and kvs rule: sort_value_sort_items_sort_fields.induct)
  case (1 kvs)
  then show ?case using fold_bt_set [of "sort_fields kvs" "[]"]
    by (auto intro!: canonical.intros bt_wf_bt_of)
qed (auto intro: canonical.intros)

lemma sort_value_canonical_id: "canonical v \<Longrightarrow> sort_value v = v"
proof (induction v rule: canonical.induct)
  case (7 kvs)
  then have "sort_fields kvs = kvs" by (auto simp: sort_fields_map intro!: map_idI)
  with 7(1) show ?case by (simp add: bt_of_wf)
qed (auto simp: sort_items_map intro: map_idI)

lemma sort_value_json_eq: "json_eq v w \<Longrightarrow> sort_value v = sort_value w"
proof (induction rule: json_eq.induct)
  case (je_arr vs ws)
  then have "list_all2 (\<lambda>v w. sort_value v = sort_value w) vs ws"
    by (auto elim: list_all2_mono)
  then have "sort_items vs = sort_items ws"
    by (simp add: sort_items_map list_all2_conv_all_nth list_eq_iff_nth_eq)
  then show ?case by simp
next
  case (je_obj kvs kvs' ls)
  from je_obj(3) have "list_all2 (\<lambda>p q. map_prod id sort_value p = map_prod id sort_value q) kvs' ls"
    by (auto elim!: list_all2_mono)
  then have eq: "sort_fields kvs' = sort_fields ls"
    by (simp add: sort_fields_map list_all2_conv_all_nth list_eq_iff_nth_eq)
  have keys: "map fst (sort_fields xs) = map fst xs" for xs by (simp add: sort_fields_map)
  have "distinct (map fst kvs')" using je_obj(1,2) by (metis distinct_map mset_eq_setD mset_map mset_eq_imp_distinct_iff)
  moreover have "set (sort_fields kvs) = set (sort_fields kvs')"
    using mset_eq_setD [OF je_obj(2)] by (simp add: sort_fields_map)
  ultimately have "bt_of (sort_fields kvs) = bt_of (sort_fields kvs')"
    using je_obj(1) by (intro bt_of_order) (simp_all add: keys)
  then show ?case by (simp add: eq)
qed simp

text \<open>The canonical form does not depend on how the object was built: values that differ only in
  the order of object fields, at any depth, sort to the same value; the result has strictly
  ascending keys in every object, sorting is idempotent, and a field's value is found under its key
  as before (sorted itself).\<close>

theorem sort_value_canonical:
  "(json_eq v w \<longrightarrow> sort_value v = sort_value w) \<and> canonical (sort_value v)
   \<and> sort_value (sort_value v) = sort_value v
   \<and> (\<forall>kvs. v = JObj kvs \<and> distinct (map fst kvs) \<longrightarrow>
        (\<exists>kvs'. sort_value v = JObj kvs' \<and> (\<forall>k. map_of kvs' k = map_option sort_value (map_of kvs k))))"
proof (intro conjI allI impI)
  show "canonical (sort_value v)" by (rule sort_value_canonical_aux)
  then show "sort_value (sort_value v) = sort_value v" by (rule sort_value_canonical_id)
  fix kvs assume v: "v = JObj kvs \<and> distinct (map fst kvs)"
  have "map_of (sort_fields kvs) k = map_option sort_value (map_of kvs k)" for k
    by (induction kvs) (auto simp: sort_fields_map)
  with v show "\<exists>kvs'. sort_value v = JObj kvs' \<and> (\<forall>k. map_of kvs' k = map_option sort_value (map_of kvs k))"
    by (auto simp: map_of_bt_of sort_fields_map)
qed (rule sort_value_json_eq)

theorem sort_value_canonical_witness:
  "sort_value (JObj [(''b'', JInt 1), (''a'', JNull)]) = sort_value (JObj [(''a'', JNull), (''b'', JInt 1)])"
proof -
  have "json_eq (JObj [(''b'', JInt 1), (''a'', JNull)]) (JObj [(''a'', JNull), (''b'', JInt 1)])"
    by (rule je_obj [of _ "[(''a'', JNull), (''b'', JInt 1)]"]) (simp_all add: je_refl add_mset_commute)
  then show ?thesis using sort_value_canonical by blast
qed

end
