(* ===== verification/OutcomeLog.thy ===== *)
theory OutcomeLog
  imports Prelude
begin

text \<open>
  The append-only outcome log (\<open>crates/executor/src/outcome_log.rs\<close>): one SQLite table whose rows
  are kept in insertion order.  Chain ids and gas are \<open>u64\<close> in a record and \<open>i64\<close> in a row; a NaN
  bound to a REAL column is NULL.  The HTTP mirrors of \<open>append\<close> are best effort and are left out.
  Rows with equal time stamps keep insertion order.  SQLite's \<open>SUM\<close> and \<open>AVG\<close> are parameters.
\<close>

record outcome =
  o_ts :: int
  o_intent_id :: string
  o_protocol :: string
  o_src_chain :: u64
  o_dst_chain :: u64
  o_decision :: string
  o_tx_hash :: "string option"
  o_predicted_gas :: "u64 option"
  o_gas_used :: "u64 option"
  o_effective_gas_price :: "string option"
  o_predicted_profit :: "f64 option"
  o_actual_profit :: "f64 option"
  o_skip_reason :: "msg option"
  o_error :: "msg option"
  o_solver_id :: "string option"
  o_claim_tx_hash :: "string option"
  o_claim_fee :: "f64 option"
  o_fee :: "f64 option"
  o_venue :: "string option"
  o_is_native_book :: "bool option"
  o_book_market_id :: "string option"

text \<open>A stored row: integers are \<open>i64\<close> and the boolean is 0 or 1.\<close>

record outcome_row =
  q_ts :: int
  q_intent_id :: string
  q_protocol :: string
  q_src_chain :: int
  q_dst_chain :: int
  q_decision :: string
  q_tx_hash :: "string option"
  q_predicted_gas :: "int option"
  q_gas_used :: "int option"
  q_effective_gas_price :: "string option"
  q_predicted_profit :: "f64 option"
  q_actual_profit :: "f64 option"
  q_skip_reason :: "msg option"
  q_error :: "msg option"
  q_solver_id :: "string option"
  q_claim_tx_hash :: "string option"
  q_claim_fee :: "f64 option"
  q_fee :: "f64 option"
  q_venue :: "string option"
  q_is_native_book :: "int option"
  q_book_market_id :: "string option"

type_synonym outcome_log = "outcome_row list"

definition sql_real :: "f64 option \<Rightarrow> f64 option" where
  "sql_real x = (if x = Some NaN then None else x)"

definition to_row :: "outcome \<Rightarrow> outcome_row" where
  "to_row r = \<lparr>q_ts = o_ts r, q_intent_id = o_intent_id r, q_protocol = o_protocol r,
     q_src_chain = sint (o_src_chain r), q_dst_chain = sint (o_dst_chain r),
     q_decision = o_decision r, q_tx_hash = o_tx_hash r,
     q_predicted_gas = map_option sint (o_predicted_gas r),
     q_gas_used = map_option sint (o_gas_used r),
     q_effective_gas_price = o_effective_gas_price r,
     q_predicted_profit = sql_real (o_predicted_profit r),
     q_actual_profit = sql_real (o_actual_profit r),
     q_skip_reason = o_skip_reason r, q_error = o_error r, q_solver_id = o_solver_id r,
     q_claim_tx_hash = o_claim_tx_hash r, q_claim_fee = sql_real (o_claim_fee r),
     q_fee = sql_real (o_fee r), q_venue = o_venue r,
     q_is_native_book = map_option (\<lambda>b. if b then 1 else 0) (o_is_native_book r),
     q_book_market_id = o_book_market_id r\<rparr>"

definition parse_row :: "outcome_row \<Rightarrow> outcome" where
  "parse_row q = \<lparr>o_ts = q_ts q, o_intent_id = q_intent_id q, o_protocol = q_protocol q,
     o_src_chain = word_of_int (q_src_chain q), o_dst_chain = word_of_int (q_dst_chain q),
     o_decision = q_decision q, o_tx_hash = q_tx_hash q,
     o_predicted_gas = map_option word_of_int (q_predicted_gas q),
     o_gas_used = map_option word_of_int (q_gas_used q),
     o_effective_gas_price = q_effective_gas_price q,
     o_predicted_profit = q_predicted_profit q, o_actual_profit = q_actual_profit q,
     o_skip_reason = q_skip_reason q, o_error = q_error q, o_solver_id = q_solver_id q,
     o_claim_tx_hash = q_claim_tx_hash q, o_claim_fee = q_claim_fee q, o_fee = q_fee q,
     o_venue = q_venue q, o_is_native_book = map_option (\<lambda>v. v \<noteq> 0) (q_is_native_book q),
     o_book_market_id = q_book_market_id q\<rparr>"

definition append_outcome_row :: "outcome \<Rightarrow> outcome_log \<Rightarrow> outcome_log" where
  "append_outcome_row r rows = rows @ [to_row r]"

definition log_count :: "outcome_log \<Rightarrow> int" where
  "log_count rows = int (length rows)"

text \<open>\<open>LIMIT ?\<close> takes a negative bound as no bound.\<close>

definition sql_limit :: "int \<Rightarrow> 'a list \<Rightarrow> 'a list" where
  "sql_limit l xs = (if l < 0 then xs else take (nat l) xs)"

definition newest_first :: "outcome_log \<Rightarrow> outcome_log" where
  "newest_first rows = sort_key (\<lambda>q. - q_ts q) rows"

definition recent_for :: "int \<Rightarrow> string option \<Rightarrow> outcome_log \<Rightarrow> outcome list" where
  "recent_for limit sid rows =
     map parse_row (sql_limit limit (newest_first
       (case sid of None \<Rightarrow> rows | Some s \<Rightarrow> filter (\<lambda>q. q_solver_id q = Some s) rows)))"

definition recent :: "int \<Rightarrow> outcome_log \<Rightarrow> outcome list" where
  "recent limit rows = recent_for limit None rows"

text \<open>\<open>update_claim\<close> writes the newest row of the intent that has a transaction hash; a row is
  identified by its position (rowid).\<close>

definition claim_target :: "string \<Rightarrow> outcome_log \<Rightarrow> nat option" where
  "claim_target i rows =
     (case sort_key (\<lambda>(n, q). - q_ts q)
        (filter (\<lambda>(n, q). q_intent_id q = i \<and> q_tx_hash q \<noteq> None) (zip [0..<length rows] rows)) of
        [] \<Rightarrow> None | (n, q) # _ \<Rightarrow> Some n)"

definition update_claim :: "string \<Rightarrow> string \<Rightarrow> f64 \<Rightarrow> outcome_log \<Rightarrow> nat \<times> outcome_log" where
  "update_claim i h fee rows =
     (case claim_target i rows of
        None \<Rightarrow> (0, rows)
      | Some n \<Rightarrow> (1, rows[n := (rows ! n)\<lparr>q_claim_tx_hash := Some h, q_claim_fee := sql_real (Some fee)\<rparr>]))"

definition is_fill_decision :: "string \<Rightarrow> bool" where
  "is_fill_decision d \<longleftrightarrow> d = ''executed'' \<or> d = ''execute'' \<or> d = ''confirmed''"

definition is_debridge_tag :: "string \<Rightarrow> bool" where
  "is_debridge_tag p \<longleftrightarrow> contains (to_lowercase p) ''debridge'' \<or> contains (to_lowercase p) ''dln''"

definition unclaimed_debridge_intents :: "int \<Rightarrow> outcome_log \<Rightarrow> string list" where
  "unclaimed_debridge_intents limit rows =
     sql_limit limit (rev (remdups (rev (map q_intent_id (newest_first
       (filter (\<lambda>q. q_claim_tx_hash q = None \<and> q_tx_hash q \<noteq> None
                    \<and> is_debridge_tag (q_protocol q) \<and> is_fill_decision (q_decision q)) rows))))))"

definition first_fill_tx_for :: "string \<Rightarrow> outcome_log \<Rightarrow> string option" where
  "first_fill_tx_for i rows =
     (case sort_key q_ts (filter (\<lambda>q. q_intent_id q = i \<and> q_tx_hash q \<noteq> None
                                     \<and> is_fill_decision (q_decision q)) rows) of
        [] \<Rightarrow> None | q # _ \<Rightarrow> q_tx_hash q)"

definition executed_row :: "outcome_row \<Rightarrow> bool" where
  "executed_row q \<longleftrightarrow> is_fill_decision (q_decision q) \<and> q_tx_hash q \<noteq> None"

definition due_rows :: "int option \<Rightarrow> outcome_log \<Rightarrow> outcome_log" where
  "due_rows since rows =
     filter (\<lambda>q. executed_row q \<and> (case since of None \<Rightarrow> True | Some t \<Rightarrow> t < q_ts q)) rows"

definition list_executed :: "nat \<Rightarrow> int option \<Rightarrow> outcome_log \<Rightarrow> outcome list" where
  "list_executed limit since rows =
     map parse_row (sql_limit (wrap_i64 (int limit)) (sort_key q_ts (due_rows since rows)))"

section \<open>Profit and loss\<close>

record protocol_pnl =
  pp_fills :: nat
  pp_realized :: f64
  pp_avg :: f64

record pnl_summary =
  ps_realized_total :: f64
  ps_fills_total :: nat
  ps_last_24h :: nat
  ps_by_protocol :: "(string \<times> protocol_pnl) list"

definition non_null :: "f64 option list \<Rightarrow> f64 list" where
  "non_null xs = map the (filter (\<lambda>x. x \<noteq> None) xs)"

definition sql_agg :: "(f64 list \<Rightarrow> f64) \<Rightarrow> f64 list \<Rightarrow> f64" where
  "sql_agg f xs = (if xs = [] then Fin 0 else f xs)"

definition group_pnl ::
    "(f64 list \<Rightarrow> f64) \<Rightarrow> (f64 list \<Rightarrow> f64) \<Rightarrow> (outcome_row \<Rightarrow> string) \<Rightarrow> outcome_log
      \<Rightarrow> (string \<times> protocol_pnl) list" where
  "group_pnl sm av key rows =
     map (\<lambda>k. let g = filter (\<lambda>q. key q = k) rows; ps = non_null (map q_actual_profit g)
              in (k, \<lparr>pp_fills = length g, pp_realized = sql_agg sm ps, pp_avg = sql_agg av ps\<rparr>))
       (remdups (map key rows))"

text \<open>
  The 24-hour window compares a stored time stamp, \<open>YYYY-MM-DDThh:mm:ss...\<close>, with the text of
  \<open>datetime('now','-1 day')\<close>, \<open>YYYY-MM-DD hh:mm:ss\<close>: the letter T is above the space, so on equal
  dates the row is in the window whatever its time of day, and the comparison is one of dates.
\<close>

definition day_ns :: int where "day_ns = 86400000000000"

definition in_last_24h :: "int \<Rightarrow> int \<Rightarrow> bool" where
  "in_last_24h now ts \<longleftrightarrow> (now - day_ns) div day_ns \<le> ts div day_ns"

definition pnl_summary ::
    "(f64 list \<Rightarrow> f64) \<Rightarrow> (f64 list \<Rightarrow> f64) \<Rightarrow> int \<Rightarrow> outcome_log \<Rightarrow> pnl_summary" where
  "pnl_summary sm av now rows =
     (let fills = filter (\<lambda>q. is_fill_decision (q_decision q)) rows
      in \<lparr>ps_realized_total = sql_agg sm (map (\<lambda>q. case q_actual_profit q of None \<Rightarrow> Fin 0 | Some p \<Rightarrow> p) rows),
          ps_fills_total = length fills,
          ps_last_24h = length (filter (\<lambda>q. in_last_24h now (q_ts q)) fills),
          ps_by_protocol = group_pnl sm av q_protocol fills\<rparr>)"

definition pnl_by_venue ::
    "(f64 list \<Rightarrow> f64) \<Rightarrow> (f64 list \<Rightarrow> f64) \<Rightarrow> outcome_log \<Rightarrow> (string \<times> protocol_pnl) list" where
  "pnl_by_venue sm av rows =
     group_pnl sm av (\<lambda>q. case q_venue q of None \<Rightarrow> ''legacy'' | Some v \<Rightarrow> v)
       (filter (\<lambda>q. q_actual_profit q \<noteq> None) rows)"

section \<open>Properties\<close>

lemma parse_to_row:
  "parse_row (to_row r) = r\<lparr>o_predicted_profit := sql_real (o_predicted_profit r),
     o_actual_profit := sql_real (o_actual_profit r), o_claim_fee := sql_real (o_claim_fee r),
     o_fee := sql_real (o_fee r)\<rparr>"
  by (cases r; simp add: parse_row_def to_row_def option.map_comp o_def option.map_ident cong: option.map_cong)

lemma take_one_newest:
  fixes f :: "'a \<Rightarrow> 'b::linorder"
  assumes "\<forall>y \<in> set xs. f x < f y"
  shows "take 1 (sort_key f (xs @ [x])) = [x]"
proof -
  let ?t = "take 1 (sort_key f (xs @ [x]))"
  have "length ?t = 1" by simp
  then obtain y where y: "?t = [y]" by (metis One_nat_def length_0_conv length_Suc_conv)
  have "y \<in> set (xs @ [x])" using y by (metis in_set_takeD list.set_intros(1) set_sort)
  moreover have "y \<notin> set xs \<or> y = x"
    using take_sort_key_least [of x "xs @ [x]" 1 f y] y assms by fastforce
  ultimately show ?thesis using y by auto
qed

text \<open>A record appended to the log and newer than every row in it is what the log returns first, field
  for field, for any query it belongs to; only a NaN amount comes back as no amount (chain ids and
  gas survive their cast to \<open>i64\<close> and back).\<close>

theorem append_then_recent:
  assumes "\<forall>q \<in> set rows. q_ts q < o_ts r" and sid: "sid \<in> {None, o_solver_id r}"
  shows "recent_for 1 sid (append_outcome_row r rows) =
    [r\<lparr>o_predicted_profit := sql_real (o_predicted_profit r),
       o_actual_profit := sql_real (o_actual_profit r), o_claim_fee := sql_real (o_claim_fee r),
       o_fee := sql_real (o_fee r)\<rparr>]"
proof -
  let ?f = "\<lambda>rows. case sid of None \<Rightarrow> rows | Some s \<Rightarrow> filter (\<lambda>q. q_solver_id q = Some s) rows"
  have split: "?f (rows @ [to_row r]) = ?f rows @ [to_row r]"
    using sid by (auto simp: to_row_def split: option.splits)
  have "take 1 (newest_first (?f rows @ [to_row r])) = [to_row r]"
    unfolding newest_first_def using assms(1)
    by (intro take_one_newest) (auto simp: to_row_def split: option.splits)
  then show ?thesis
    using split by (simp add: recent_for_def append_outcome_row_def sql_limit_def parse_to_row)
qed

definition sample_outcome :: outcome where
  "sample_outcome = \<lparr>o_ts = 5, o_intent_id = ''a'', o_protocol = ''debridge'', o_src_chain = 1,
     o_dst_chain = 10, o_decision = ''executed'', o_tx_hash = Some ''0x1'', o_predicted_gas = None,
     o_gas_used = Some 21000, o_effective_gas_price = None, o_predicted_profit = None,
     o_actual_profit = Some (Fin 1), o_skip_reason = None, o_error = None, o_solver_id = Some ''s'',
     o_claim_tx_hash = None, o_claim_fee = None, o_fee = None, o_venue = None,
     o_is_native_book = Some True, o_book_market_id = None\<rparr>"

theorem append_then_recent_witness:
  "o_gas_used (hd (recent_for 1 (Some ''s'') (append_outcome_row sample_outcome []))) = Some 21000"
  using append_then_recent [of "[]" sample_outcome "Some ''s''"] by (simp add: sample_outcome_def)

lemma claim_target_SomeD:
  assumes "claim_target i rows = Some n"
  shows "n < length rows \<and> q_intent_id (rows ! n) = i \<and> q_tx_hash (rows ! n) \<noteq> None
    \<and> (\<forall>m < length rows. q_intent_id (rows ! m) = i \<longrightarrow> q_tx_hash (rows ! m) \<noteq> None
         \<longrightarrow> q_ts (rows ! m) \<le> q_ts (rows ! n))"
proof -
  let ?xs = "filter (\<lambda>(n, q). q_intent_id q = i \<and> q_tx_hash q \<noteq> None) (zip [0..<length rows] rows)"
  let ?s = "sort_key (\<lambda>(n, q). - q_ts q) ?xs"
  from assms obtain q rest where s: "?s = (n, q) # rest"
    by (auto simp: claim_target_def split: list.splits)
  have mem: "(m, p) \<in> set ?xs \<longleftrightarrow> m < length rows \<and> p = rows ! m \<and> q_intent_id p = i \<and> q_tx_hash p \<noteq> None" for m p
    by (simp only: set_filter mem_Collect_eq mem_indexed prod.case) blast
  have set_s: "set ((n, q) # rest) = set ?xs" by (simp only: s [symmetric] set_sort)
  then have "(n, q) \<in> set ?xs" by (simp only: list.set_intros set_s [symmetric])
  moreover have "q_ts p \<le> q_ts q" if "(m, p) \<in> set ?xs" for m p
  proof -
    have "sorted (map (\<lambda>(n, q). - q_ts q) ((n, q) # rest))"
      by (simp only: s [symmetric] sorted_sort_key)
    moreover have "(m, p) \<in> set ((n, q) # rest)" using that by (simp only: set_s)
    ultimately show ?thesis by fastforce
  qed
  ultimately show ?thesis unfolding mem by blast
qed

text \<open>Marking a claim changes at most one row: the newest row of that intent with a transaction
  hash gets the claim hash and fee and keeps every other field, all other rows and the number of rows
  stay; when the intent has no such row the log is unchanged and zero is reported.\<close>

theorem update_claim_one_row:
  "case update_claim i h fee rows of (k, rows') \<Rightarrow>
     length rows' = length rows
     \<and> (k = 0 \<and> rows' = rows \<and> (\<forall>q \<in> set rows. q_intent_id q = i \<longrightarrow> q_tx_hash q = None)
        \<or> k = 1 \<and> (\<exists>n < length rows. q_intent_id (rows ! n) = i \<and> q_tx_hash (rows ! n) \<noteq> None
              \<and> rows' ! n = (rows ! n)\<lparr>q_claim_tx_hash := Some h, q_claim_fee := sql_real (Some fee)\<rparr>
              \<and> (\<forall>m < length rows. m \<noteq> n \<longrightarrow> rows' ! m = rows ! m)
              \<and> (\<forall>m < length rows. q_intent_id (rows ! m) = i \<longrightarrow> q_tx_hash (rows ! m) \<noteq> None
                   \<longrightarrow> q_ts (rows ! m) \<le> q_ts (rows ! n))))"
proof (cases "claim_target i rows")
  case None
  then have "q_tx_hash (rows ! m) = None" if "m < length rows" "q_intent_id (rows ! m) = i" for m
    using that by (auto simp: claim_target_def filter_empty_conv mem_indexed split: list.splits)
  then have "\<forall>q \<in> set rows. q_intent_id q = i \<longrightarrow> q_tx_hash q = None"
    by (auto simp: in_set_conv_nth)
  with None show ?thesis by (simp add: update_claim_def)
next
  case (Some n)
  with claim_target_SomeD [OF Some] show ?thesis
    by (auto simp: update_claim_def intro!: exI [of _ n])
qed

theorem update_claim_one_row_witness:
  "fst (update_claim ''b'' ''0x2'' (Fin 1) [to_row sample_outcome]) = 0"
  using update_claim_one_row [where i = "''b''" and h = "''0x2''" and fee = "Fin 1" and rows = "[to_row sample_outcome]"]
  by (auto simp: sample_outcome_def to_row_def split: prod.splits)

text \<open>The pump's query is gap-free: it returns executed rows strictly newer than the watermark, oldest first;
  an executed row newer than the watermark that is missing from the answer was cut off by the
  limit, and is then no older than any row returned.\<close>

theorem list_executed_gap_free:
  assumes "int limit \<le> i64_max"
  shows "length (list_executed limit since rows) = min limit (length (due_rows since rows))
    \<and> sorted (map o_ts (list_executed limit since rows))
    \<and> set (list_executed limit since rows) \<subseteq> parse_row ` set (due_rows since rows)
    \<and> (\<forall>q \<in> set (due_rows since rows). parse_row q \<notin> set (list_executed limit since rows)
         \<longrightarrow> (\<forall>x \<in> set (list_executed limit since rows). o_ts x \<le> q_ts q))"
proof -
  let ?due = "due_rows since rows"
  have lim: "wrap_i64 (int limit) = int limit" using assms(1) by (intro wrap_i64_id) (simp add: in_i64_def)
  have le: "list_executed limit since rows = map parse_row (take limit (sort_key q_ts ?due))"
    by (simp add: list_executed_def sql_limit_def lim)
  have ts: "o_ts \<circ> parse_row = q_ts" by (auto simp: parse_row_def)
  have "q_ts x \<le> q_ts q"
    if "q \<in> set ?due" "parse_row q \<notin> parse_row ` set (take limit (sort_key q_ts ?due))"
      "x \<in> set (take limit (sort_key q_ts ?due))" for q x
    using that by (intro take_sort_key_least [of q "?due" limit q_ts x]) auto
  then show ?thesis unfolding le
    by (auto simp: ts sorted_map_take [of q_ts limit "?due"] min.commute parse_row_def dest!: in_set_takeD)
qed

theorem list_executed_gap_free_witness:
  "length (list_executed 3 None [to_row sample_outcome]) = 1"
  using list_executed_gap_free [of 3 None "[to_row sample_outcome]"]
  by (simp add: sample_outcome_def to_row_def due_rows_def executed_row_def is_fill_decision_def)

text \<open>The \<open>last 24 hours\<close> counter is a count by calendar date: it includes every fill of the last
  24 hours and none older than 48 hours, but between the two it also counts every fill of
  yesterday's date, for instance one 47 hours and 59 minutes old.\<close>

theorem last_24h_is_by_date:
  "(now - day_ns \<le> ts \<longrightarrow> in_last_24h now ts) \<and> (in_last_24h now ts \<longrightarrow> now - 2 * day_ns < ts)
   \<and> in_last_24h (2 * day_ns - 1) (2 * day_ns - 1 - (48 * 3600 - 60) * 1000000000)"
proof (intro conjI impI)
  assume "now - day_ns \<le> ts"
  then show "in_last_24h now ts"
    unfolding in_last_24h_def by (intro zdiv_mono1) (simp_all add: day_ns_def)
next
  assume "in_last_24h now ts"
  then show "now - 2 * day_ns < ts" unfolding in_last_24h_def day_ns_def by linarith
next
  show "in_last_24h (2 * day_ns - 1) (2 * day_ns - 1 - (48 * 3600 - 60) * 1000000000)"
    by (simp add: in_last_24h_def day_ns_def)
qed

theorem last_24h_is_by_date_witness: "in_last_24h 5 5"
  using last_24h_is_by_date [of 5 5] by (simp add: day_ns_def)

end
