(* ===== verification/Adjudicator.thy ===== *)
theory Adjudicator
  imports Json OutcomeLog
begin

text \<open>
  The fee-split adjudicator (\<open>crates/donut-adjudicator/src/lib.rs\<close>): adapter attribution, the
  70/20/10 redistribution in micro-USD, the signed and hash-chained attestation, and its
  verification.  \<open>i64\<close> products wrap as they do in a release build and a division that panics is
  \<open>Panic\<close>.  Signing, recovery, hashing, hex and the rendering of addresses, time stamps and JSON are
  the record \<open>ext\<close> of functions from other crates.
\<close>

type_synonym addr = "160 word"

record 'k ext =
  x_address :: "'k \<Rightarrow> addr"
  x_sign :: "'k \<Rightarrow> string \<Rightarrow> bytes option"
  x_sig_ok :: "bytes \<Rightarrow> bool"
  x_recover :: "bytes \<Rightarrow> string \<Rightarrow> addr option"
  x_hex :: "bytes \<Rightarrow> string"
  x_unhex :: "string \<Rightarrow> bytes option"
  x_sha256 :: "string \<Rightarrow> bytes"
  x_render :: "json \<Rightarrow> string"
  x_addr_json :: "addr \<Rightarrow> string"
  x_addr_hex :: "addr \<Rightarrow> string"
  x_ts_text :: "int \<Rightarrow> string"

section \<open>Constants and data\<close>

definition micro_usd_per_usd :: int where "micro_usd_per_usd = 1000000"
definition default_redistribution :: "int \<times> int" where "default_redistribution = (1, 1)"
definition builder_num :: int where "builder_num = 70"
definition reviewers_num :: int where "reviewers_num = 20"
definition ecosystem_num :: int where "ecosystem_num = 10"
definition share_den :: int where "share_den = 100"
definition purpose_builder :: string where "purpose_builder = ''adapter_builder''"
definition purpose_reviewers :: string where "purpose_reviewers = ''adapter_reviewers''"
definition purpose_ecosystem :: string where "purpose_ecosystem = ''adapter_ecosystem''"
definition zero_hash :: string where "zero_hash = ''0x'' @ replicate 64 CHR ''0''"

record adapter_registry =
  ar_builders :: "(string \<times> addr) list"
  ar_reviewers :: "(string \<times> addr list) list"
  ar_bps :: "(string \<times> int \<times> int) list"
  ar_ecosystem :: addr

definition registry_new :: "addr \<Rightarrow> adapter_registry" where
  "registry_new eco = \<lparr>ar_builders = [], ar_reviewers = [], ar_bps = [], ar_ecosystem = eco\<rparr>"

definition with_adapter :: "string \<Rightarrow> addr \<Rightarrow> addr list \<Rightarrow> adapter_registry \<Rightarrow> adapter_registry" where
  "with_adapter i b rs reg = reg\<lparr>ar_builders := AList.update i b (ar_builders reg),
     ar_reviewers := AList.update i rs (ar_reviewers reg)\<rparr>"

definition with_adapter_bps ::
    "string \<Rightarrow> addr \<Rightarrow> addr list \<Rightarrow> int \<Rightarrow> int \<Rightarrow> adapter_registry \<Rightarrow> adapter_registry" where
  "with_adapter_bps i b rs n d reg = reg\<lparr>ar_builders := AList.update i b (ar_builders reg),
     ar_reviewers := AList.update i rs (ar_reviewers reg),
     ar_bps := AList.update i (n, d) (ar_bps reg)\<rparr>"

definition bps_for :: "adapter_registry \<Rightarrow> string \<Rightarrow> int \<times> int" where
  "bps_for reg i = (case map_of (ar_bps reg) i of None \<Rightarrow> default_redistribution | Some p \<Rightarrow> p)"

record recipient_share =
  rs_purpose :: string
  rs_addresses :: "addr list"
  rs_share :: int
  rs_num :: int
  rs_den :: int
  rs_residual :: bool

record attestation =
  at_fill_id :: string
  at_spinner_id :: string
  at_spinner_addr :: addr
  at_adapter_id :: string
  at_protocol :: string
  at_dst_chain :: u64
  at_fee :: int
  at_profit :: int
  at_inflow :: int
  at_split_num :: int
  at_split_den :: int
  at_donut :: int
  at_recipients :: "(string \<times> recipient_share) list"
  at_ts :: int
  at_prev_hash :: string
  at_signature :: string

section \<open>Adapter attribution\<close>

definition is_solana_dst :: "u64 \<Rightarrow> bool" where
  "is_solana_dst c \<longleftrightarrow> c = 0 \<or> c = 1399811149 \<or> c = 100000001"

definition is_solana_involved :: "u64 \<Rightarrow> u64 \<Rightarrow> bool" where
  "is_solana_involved src dst \<longleftrightarrow> is_solana_dst src \<or> is_solana_dst dst"

definition adapter_id_resolve :: "string \<Rightarrow> u64 \<Rightarrow> u64 \<Rightarrow> string" where
  "adapter_id_resolve protocol src dst =
     (let p = to_lowercase protocol; solana = is_solana_involved src dst
      in if p = ''mayan_flash'' \<or> contains p ''flash'' \<and> contains p ''mayan''
         then (if solana then ''mayan-flash-solana-v1'' else ''mayan-flash-evm-v1'')
         else if starts_with p ''mayan''
         then (if solana then ''mayan-solana-swift-v1'' else ''mayan-evm-swift-v1'')
         else if contains p ''wormhole'' \<or> p = ''ntt'' \<or> contains p ''ntt''
         then ''wormhole-ntt-solana-v1''
         else if p = ''lifi'' then ''lifi-meta-v2''
         else if p = ''across'' then ''across-v3''
         else if p = ''debridge'' \<or> p = ''dln'' \<or> contains p ''debridge'' \<or> contains p ''dln''
         then (if solana then ''debridge-dln-solana-v1'' else ''debridge-dln-v1'')
         else ''unknown-'' @ p @ ''-'' @ show_nat (unat dst))"

definition default_adapter_id :: "string \<Rightarrow> u64 \<Rightarrow> string" where
  "default_adapter_id protocol dst = adapter_id_resolve protocol dst dst"

definition adapter_id_for_outcome :: "outcome \<Rightarrow> string" where
  "adapter_id_for_outcome r = adapter_id_resolve (o_protocol r) (o_src_chain r) (o_dst_chain r)"

section \<open>Canonical JSON and the chain hash\<close>

definition share_json :: "'k ext \<Rightarrow> recipient_share \<Rightarrow> json" where
  "share_json x s = JObj
     [(''purpose'', JStr (rs_purpose s)),
      (''addresses'', JArr (map (\<lambda>a. JStr (x_addr_json x a)) (rs_addresses s))),
      (''share_usd_micro'', JInt (rs_share s)),
      (''share_num'', JInt (rs_num s)),
      (''share_den'', JInt (rs_den s)),
      (''is_residual'', JBool (rs_residual s))]"

text \<open>The serialised fields, in declaration order, without the signature.\<close>

definition att_fields :: "'k ext \<Rightarrow> attestation \<Rightarrow> (string \<times> json) list" where
  "att_fields x a =
     [(''fill_id'', JStr (at_fill_id a)),
      (''spinner_id'', JStr (at_spinner_id a)),
      (''spinner_addr'', JStr (x_addr_json x (at_spinner_addr a))),
      (''adapter_id'', JStr (at_adapter_id a)),
      (''protocol'', JStr (at_protocol a)),
      (''dst_chain'', JInt (uint (at_dst_chain a))),
      (''fee_usd_micro'', JInt (at_fee a)),
      (''actual_profit_usd_micro'', JInt (at_profit a)),
      (''inflow_usd_micro'', JInt (at_inflow a)),
      (''split_num'', JInt (at_split_num a)),
      (''split_den'', JInt (at_split_den a)),
      (''donut_take_usd_micro'', JInt (at_donut a)),
      (''recipients'', JObj (map (\<lambda>(k, s). (k, share_json x s)) (at_recipients a))),
      (''ts'', JStr (x_ts_text x (at_ts a))),
      (''prev_hash'', JStr (at_prev_hash a))]"

definition to_value :: "'k ext \<Rightarrow> attestation \<Rightarrow> json" where
  "to_value x a = JObj (att_fields x a @ [(''signature_hex'', JStr (at_signature a))])"

fun remove_field :: "string \<Rightarrow> json \<Rightarrow> json" where
  "remove_field k (JObj kvs) = JObj (filter (\<lambda>(j, _). j \<noteq> k) kvs)"
| "remove_field k v = v"

definition canonical_json_for_signing :: "'k ext \<Rightarrow> attestation \<Rightarrow> string" where
  "canonical_json_for_signing x a = x_render x (sort_value (remove_field ''signature_hex'' (to_value x a)))"

definition canonical_json_with_signature :: "'k ext \<Rightarrow> attestation \<Rightarrow> string" where
  "canonical_json_with_signature x a = x_render x (sort_value (to_value x a))"

definition hash_for_chain :: "'k ext \<Rightarrow> attestation \<Rightarrow> string" where
  "hash_for_chain x a = ''0x'' @ x_hex x (x_sha256 x (canonical_json_with_signature x a))"

section \<open>Redistribution\<close>

definition compute_redistribution_micro :: "int \<Rightarrow> int \<Rightarrow> int \<Rightarrow> (int \<times> int \<times> int \<times> int) option" where
  "compute_redistribution_micro inflow num den =
     (let positive = max 0 inflow
      in case div_i64 (wrap_i64 (positive * num)) den of
           None \<Rightarrow> None
         | Some donut \<Rightarrow>
             let builder = wrap_i64 (donut * builder_num) sdiv share_den;
                 reviewers = wrap_i64 (donut * reviewers_num) sdiv share_den;
                 ecosystem = wrap_i64 (wrap_i64 (donut - builder) - reviewers)
             in Some (donut, builder, reviewers, ecosystem))"

definition compute_redistribution_micro_default :: "int \<Rightarrow> (int \<times> int \<times> int \<times> int) option" where
  "compute_redistribution_micro_default inflow =
     compute_redistribution_micro inflow (fst default_redistribution) (snd default_redistribution)"

definition usd_to_micro :: "f64 \<Rightarrow> int" where
  "usd_to_micro usd =
     (if \<not> f_finite usd then 0 else f_to_i64 (f_round (f_mul usd (fround (of_int micro_usd_per_usd)))))"

section \<open>Registry view and loader\<close>

record registry_entry =
  re_builder :: addr
  re_reviewers :: "addr list"
  re_num :: "int option"
  re_den :: "int option"

record registry_view =
  rw_ecosystem :: addr
  rw_adapters :: "(string \<times> registry_entry) list"

definition entry_bps :: "registry_entry \<Rightarrow> int \<times> int" where
  "entry_bps e =
     (case (re_num e, re_den e) of
        (Some n, Some d) \<Rightarrow> if 0 < d then (n, d) else default_redistribution
      | _ \<Rightarrow> default_redistribution)"

definition reviewers_or_default :: "adapter_registry \<Rightarrow> string \<Rightarrow> addr list" where
  "reviewers_or_default reg i = (case map_of (ar_reviewers reg) i of None \<Rightarrow> [] | Some rs \<Rightarrow> rs)"

definition registry_entry_of :: "adapter_registry \<Rightarrow> string \<Rightarrow> addr \<Rightarrow> registry_entry" where
  "registry_entry_of reg i b =
     \<lparr>re_builder = b, re_reviewers = reviewers_or_default reg i,
      re_num = map_option fst (map_of (ar_bps reg) i),
      re_den = map_option snd (map_of (ar_bps reg) i)\<rparr>"

definition registry_view :: "adapter_registry \<Rightarrow> registry_view" where
  "registry_view reg =
     \<lparr>rw_ecosystem = ar_ecosystem reg,
      rw_adapters = bt_of (map (\<lambda>(i, b). (i, registry_entry_of reg i b)) (ar_builders reg))\<rparr>"

definition load_entry :: "string \<times> registry_entry \<Rightarrow> adapter_registry \<Rightarrow> adapter_registry" where
  "load_entry p reg =
     (let (i, e) = p; (n, d) = entry_bps e
      in if (n, d) \<noteq> default_redistribution
         then with_adapter_bps i (re_builder e) (re_reviewers e) n d reg
         else with_adapter i (re_builder e) (re_reviewers e) reg)"

text \<open>\<open>load_from_path\<close> on the parsed file, and the empty fail-closed registry when the file cannot be read
  or parsed (\<open>None\<close>).\<close>

definition load_from_view :: "registry_view \<Rightarrow> adapter_registry" where
  "load_from_view v = fold load_entry (rw_adapters v) (registry_new (rw_ecosystem v))"

definition load_default :: "registry_view option \<Rightarrow> adapter_registry" where
  "load_default file = (case file of None \<Rightarrow> registry_new 0 | Some v \<Rightarrow> load_from_view v)"

section \<open>Attest\<close>

definition spinner_id_from_addr :: "'k ext \<Rightarrow> addr \<Rightarrow> string" where
  "spinner_id_from_addr x a = take 8 (x_addr_hex x a)"

text \<open>\<open>timestamp_nanos_opt\<close> is \<open>None\<close> outside the \<open>i64\<close> range.\<close>

definition derive_fill_id :: "outcome \<Rightarrow> string" where
  "derive_fill_id r =
     (case o_tx_hash r of
        Some h \<Rightarrow> if h \<noteq> [] then o_intent_id r @ '':'' @ h
                  else o_intent_id r @ '':'' @ show_int (if in_i64 (o_ts r) then o_ts r else 0)
      | None \<Rightarrow> o_intent_id r @ '':'' @ show_int (if in_i64 (o_ts r) then o_ts r else 0))"

definition unwrap_or :: "'a \<Rightarrow> 'a option \<Rightarrow> 'a" where
  "unwrap_or d x = (case x of None \<Rightarrow> d | Some a \<Rightarrow> a)"

definition recipients_for ::
    "adapter_registry \<Rightarrow> string \<Rightarrow> int \<Rightarrow> int \<Rightarrow> int \<Rightarrow> (string \<times> recipient_share) list" where
  "recipients_for reg adapter b r e =
     (let eco = ar_ecosystem reg;
          (builder_addr, reviewer_addrs) =
            (case map_of (ar_builders reg) adapter of
               Some a \<Rightarrow> (a, reviewers_or_default reg adapter)
             | None \<Rightarrow> (eco, [eco]))
      in bt_insert purpose_ecosystem
           \<lparr>rs_purpose = purpose_ecosystem, rs_addresses = [eco], rs_share = e,
            rs_num = ecosystem_num, rs_den = share_den, rs_residual = True\<rparr>
         (bt_insert purpose_reviewers
           \<lparr>rs_purpose = purpose_reviewers, rs_addresses = reviewer_addrs, rs_share = r,
            rs_num = reviewers_num, rs_den = share_den, rs_residual = False\<rparr>
         (bt_insert purpose_builder
           \<lparr>rs_purpose = purpose_builder, rs_addresses = [builder_addr], rs_share = b,
            rs_num = builder_num, rs_den = share_den, rs_residual = False\<rparr> [])))"

definition fill_inflow :: "outcome \<Rightarrow> int" where
  "fill_inflow fill =
     usd_to_micro (unwrap_or (Fin 0) (case o_fee fill of Some f \<Rightarrow> Some f | None \<Rightarrow> o_actual_profit fill))"

definition unsigned_attestation ::
    "'k ext \<Rightarrow> outcome \<Rightarrow> adapter_registry \<Rightarrow> 'k \<Rightarrow> string \<Rightarrow> attestation option" where
  "unsigned_attestation x fill reg signer prev =
     (let inflow = fill_inflow fill; adapter = adapter_id_for_outcome fill;
          (num, den) = bps_for reg adapter
      in case compute_redistribution_micro inflow num den of
           None \<Rightarrow> None
         | Some (donut, b, r, e) \<Rightarrow>
             Some \<lparr>at_fill_id = derive_fill_id fill,
                   at_spinner_id = spinner_id_from_addr x (x_address x signer),
                   at_spinner_addr = x_address x signer, at_adapter_id = adapter,
                   at_protocol = o_protocol fill, at_dst_chain = o_dst_chain fill,
                   at_fee = usd_to_micro (unwrap_or (Fin 0) (o_fee fill)),
                   at_profit = usd_to_micro (unwrap_or (Fin 0) (o_actual_profit fill)),
                   at_inflow = inflow, at_split_num = num, at_split_den = den, at_donut = donut,
                   at_recipients = recipients_for reg adapter b r e, at_ts = o_ts fill,
                   at_prev_hash = prev, at_signature = []\<rparr>)"

definition attest ::
    "'k ext \<Rightarrow> outcome \<Rightarrow> adapter_registry \<Rightarrow> 'k \<Rightarrow> string \<Rightarrow> (msg, attestation) res" where
  "attest x fill reg signer prev =
     (case unsigned_attestation x fill reg signer prev of
        None \<Rightarrow> Panic
      | Some att \<Rightarrow>
          (case x_sign x signer (canonical_json_for_signing x att) of
             None \<Rightarrow> Err (lit ''sign attestation'')
           | Some sg \<Rightarrow> Ok (att\<lparr>at_signature := ''0x'' @ x_hex x sg\<rparr>)))"

section \<open>Verify\<close>

fun sum_shares :: "(string \<times> recipient_share) list \<Rightarrow> int \<Rightarrow> nat \<Rightarrow> (msg, int \<times> nat) res" where
  "sum_shares [] tot residuals = Ok (tot, residuals)"
| "sum_shares ((key, s) # rest) tot residuals =
     (if key \<noteq> rs_purpose s
      then Err (Msg ''recipient map key `{}` does not match purpose `{}`'' [AStr key, AStr (rs_purpose s)])
      else case checked_add_i64 tot (rs_share s) of
             None \<Rightarrow> Err (lit ''recipient share sum overflow'')
           | Some tot' \<Rightarrow> sum_shares rest tot' (if rs_residual s then residuals + 1 else residuals))"

definition n_half_be :: bytes where
  "n_half_be =
     [0x7F, 0xFF, 0xFF, 0xFF, 0xFF, 0xFF, 0xFF, 0xFF,
      0xFF, 0xFF, 0xFF, 0xFF, 0xFF, 0xFF, 0xFF, 0xFF,
      0x5D, 0x57, 0x6E, 0x73, 0x57, 0xA4, 0x50, 0x1D,
      0xDF, 0xE9, 0x2F, 0x46, 0x68, 0x1B, 0x20, 0xA0]"

definition sig_s :: "bytes \<Rightarrow> bytes" where
  "sig_s sg = take 32 (drop 32 sg)"

definition verify_signature :: "'k ext \<Rightarrow> attestation \<Rightarrow> (msg, unit) res" where
  "verify_signature x att =
     (let sig_hex = (case strip_prefix (at_signature att) ''0x'' of None \<Rightarrow> at_signature att | Some h \<Rightarrow> h)
      in case x_unhex x sig_hex of
           None \<Rightarrow> Err (lit ''decode signature hex'')
         | Some sg \<Rightarrow>
             if length sg \<noteq> 65 then Err (Msg ''signature must be 65 bytes, got {}'' [ANat (length sg)])
             else if \<not> x_sig_ok x sg then Err (lit ''parse signature'')
             else if n_half_be < sig_s sg
             then Err (lit ''signature s value is in high half (malleability prevented)'')
             else case x_recover x sg (canonical_json_for_signing x att) of
                    None \<Rightarrow> Err (lit ''recover address from signature'')
                  | Some a \<Rightarrow>
                      if a \<noteq> at_spinner_addr att
                      then Err (Msg ''signature recovered {} but attestation claims spinner {}''
                             [AInt (uint a), AInt (uint (at_spinner_addr att))])
                      else Ok ())"

definition verify :: "'k ext \<Rightarrow> attestation \<Rightarrow> (msg, unit) res" where
  "verify x att =
     (if at_split_den att \<le> 0 \<or> at_split_num att < 0
      then Err (Msg ''invalid inflow redistribution fraction: {}/{}''
             [AInt (at_split_num att), AInt (at_split_den att)])
      else
        let positive = max 0 (at_inflow att);
            expected = wrap_i64 (positive * at_split_num att) sdiv at_split_den att
        in if at_donut att \<noteq> expected
           then Err (Msg ''donut_take_usd_micro mismatch: got {}, expected {} (inflow={} x {}/{})''
                  [AInt (at_donut att), AInt expected, AInt positive,
                   AInt (at_split_num att), AInt (at_split_den att)])
           else res_bind (sum_shares (at_recipients att) 0 0) (\<lambda>(tot, residuals).
             if tot \<noteq> at_donut att
             then Err (Msg ''share sum mismatch: {} != donut_take {}'' [AInt tot, AInt (at_donut att)])
             else if residuals \<noteq> 1
             then Err (Msg ''exactly one residual recipient required (found {})'' [ANat residuals])
             else verify_signature x att))"

section \<open>Redistribution is exact\<close>

definition no_overflow :: "int \<Rightarrow> int \<Rightarrow> int \<Rightarrow> bool" where
  "no_overflow inflow num den \<longleftrightarrow>
     max 0 inflow * num \<le> i64_max \<and> (max 0 inflow * num div den) * builder_num \<le> i64_max"

lemma split_shares:
  fixes d b r :: int
  assumes d: "0 \<le> d" and b: "b = d * 70 div 100" and r: "r = d * 20 div 100"
  shows "0 \<le> b" "0 \<le> r" "0 \<le> d - b - r" "10 * d \<le> 100 * (d - b - r)"
    "100 * (d - b - r) < 10 * d + 200"
proof -
  have dm: "\<exists>m. x = 100 * (x div 100) + m \<and> 0 \<le> m \<and> m < 100" for x :: int
    by (intro exI [of _ "x mod 100"]) simp
  obtain m where m: "d * 70 = 100 * b + m" "0 \<le> m" "m < 100" using dm [of "d * 70"] b by blast
  obtain n where n: "d * 20 = 100 * r + n" "0 \<le> n" "n < 100" using dm [of "d * 20"] r by blast
  show "0 \<le> b" "0 \<le> r" using m n d by linarith+
  have e: "100 * (d - b - r) = 10 * d + m + n" using m(1) n(1) by (simp add: algebra_simps)
  show "10 * d \<le> 100 * (d - b - r)" "100 * (d - b - r) < 10 * d + 200" unfolding e
    using m(2,3) n(2,3) by linarith+
  then show "0 \<le> d - b - r" using d by (simp add: algebra_simps)
qed

lemma redistribution_shape:
  assumes "0 \<le> num" "0 < den" and ov: "no_overflow inflow num den"
  obtains d b r e where "compute_redistribution_micro inflow num den = Some (d, b, r, e)"
    "d = max 0 inflow * num div den" "b + r + e = d" "b = d * 70 div 100" "r = d * 20 div 100"
    "0 \<le> b" "0 \<le> r" "0 \<le> e" "10 * d \<le> 100 * e" "100 * e < 10 * d + 200" "0 \<le> d" "d * 70 \<le> i64_max"
proof -
  define p where "p = max 0 inflow * num"
  define d where "d = p div den"
  define b where "b = d * 70 div 100"
  define r where "r = d * 20 div 100"
  have p: "0 \<le> p" using assms(1) by (simp add: p_def)
  have p_fits: "wrap_i64 p = p" using p ov by (intro wrap_i64_id) (simp add: in_i64_def no_overflow_def p_def)
  have d: "0 \<le> d" using p assms(2) by (simp add: d_def pos_imp_zdiv_nonneg_iff)
  have dov: "d * 70 \<le> i64_max" using ov by (simp add: no_overflow_def d_def p_def builder_num_def)
  have dv: "div_i64 p den = Some d" using p assms(2) by (simp add: div_i64_pos d_def)
  note shares = split_shares [OF d b_def r_def]
  have w70: "wrap_i64 (d * 70) = d * 70" using dov d by (intro wrap_i64_id) (simp add: in_i64_def)
  have w20: "wrap_i64 (d * 20) = d * 20" using dov d by (intro wrap_i64_id) (simp add: in_i64_def)
  have s70: "d * 70 sdiv 100 = b" using d by (simp only: b_def) (intro sdiv_nonneg, simp_all)
  have s20: "d * 20 sdiv 100 = r" using d by (simp only: r_def) (intro sdiv_nonneg, simp_all)
  have small: "d \<le> i64_max" using dov d by linarith
  have "in_i64 (d - b)" "in_i64 (d - b - r)" using shares small d by (simp_all add: in_i64_def)
  then have "compute_redistribution_micro inflow num den = Some (d, b, r, d - b - r)"
    by (simp only: compute_redistribution_micro_def p_def [symmetric] p_fits dv option.case Let_def
        builder_num_def reviewers_num_def share_den_def w70 w20 s70 s20 wrap_i64_id)
  moreover have "d = max 0 inflow * num div den" by (simp only: d_def p_def)
  moreover have "b + r + (d - b - r) = d" by simp
  ultimately show thesis by (rule that [OF _ _ _ b_def r_def]) (fact shares d dov)+
qed

text \<open>C15. The redistribution loses nothing: as long as the two products fit in \<open>i64\<close>, the computation does not
  panic, takes exactly the configured fraction of a positive inflow (nothing of a loss), gives the
  builder 70% and the reviewers 20% rounded down, and the ecosystem the rest: the three shares are
  non-negative and sum to the take exactly, with the ecosystem within two micro-USD above 10%.\<close>

theorem redistribution_exact:
  assumes "0 \<le> num" "0 < den" "no_overflow inflow num den"
  shows "\<exists>d b r e. compute_redistribution_micro inflow num den = Some (d, b, r, e)
    \<and> d = max 0 inflow * num div den \<and> b + r + e = d
    \<and> b = d * 70 div 100 \<and> r = d * 20 div 100
    \<and> 0 \<le> b \<and> 0 \<le> r \<and> 10 * d \<le> 100 * e \<and> 100 * e < 10 * d + 200
    \<and> (num \<le> den \<longrightarrow> d \<le> max 0 inflow)"
proof -
  obtain d b r e where
    "compute_redistribution_micro inflow num den = Some (d, b, r, e)"
    and d: "d = max 0 inflow * num div den"
    and rest: "b + r + e = d" "b = d * 70 div 100" "r = d * 20 div 100"
    "0 \<le> b" "0 \<le> r" "10 * d \<le> 100 * e" "100 * e < 10 * d + 200"
    by (rule redistribution_shape [OF assms])
  moreover have "d \<le> max 0 inflow" if "num \<le> den"
  proof -
    have "max 0 inflow * num \<le> max 0 inflow * den" using that by (intro mult_left_mono) auto
    then have "d \<le> max 0 inflow * den div den" unfolding d using assms(2) by (intro zdiv_mono1)
    with assms(2) show ?thesis by simp
  qed
  ultimately show ?thesis by blast
qed

theorem redistribution_exact_witness:
  "\<exists>d b r e. compute_redistribution_micro 1000001 1 1 = Some (d, b, r, e) \<and> b + r + e = 1000001"
  using redistribution_exact [of 1 1 1000001] by (auto simp: no_overflow_def builder_num_def)

section \<open>Attesting and verifying\<close>

text \<open>What is assumed of the signing and hex crates: hex decodes what it encoded, and a signature is
  65 bytes, parses, has its \<open>s\<close> in the low half (signers normalise it) and recovers the signer.\<close>

definition hex_ok :: "'k ext \<Rightarrow> bool" where
  "hex_ok x \<longleftrightarrow> (\<forall>b. x_unhex x (x_hex x b) = Some b)"

definition sign_ok :: "'k ext \<Rightarrow> bool" where
  "sign_ok x \<longleftrightarrow> (\<forall>k m sg. x_sign x k m = Some sg \<longrightarrow>
     length sg = 65 \<and> x_sig_ok x sg \<and> \<not> n_half_be < sig_s sg \<and> x_recover x sg m = Some (x_address x k))"

lemma canonical_signing_ignores_signature [simp]:
  "canonical_json_for_signing x (att\<lparr>at_signature := s\<rparr>) = canonical_json_for_signing x att"
  by (simp add: canonical_json_for_signing_def to_value_def att_fields_def)

lemma verify_signature_signed:
  assumes "hex_ok x" "sign_ok x" "x_sign x k (canonical_json_for_signing x att) = Some sg"
    "at_spinner_addr att = x_address x k"
  shows "verify_signature x (att\<lparr>at_signature := ''0x'' @ x_hex x sg\<rparr>) = Ok ()"
proof -
  have sp: "strip_prefix (CHR ''0'' # CHR ''x'' # h) ''0x'' = Some h" for h
    by (simp add: strip_prefix_def starts_with_def)
  have "x_unhex x (x_hex x sg) = Some sg" using assms(1) by (simp add: hex_ok_def)
  moreover have "length sg = 65 \<and> x_sig_ok x sg \<and> \<not> n_half_be < sig_s sg
      \<and> x_recover x sg (canonical_json_for_signing x att) = Some (x_address x k)"
    using assms(2,3) unfolding sign_ok_def by blast
  ultimately show ?thesis
    using assms(4) by (simp add: verify_signature_def sp Let_def)
qed

lemma purposes_order:
  "purpose_builder < purpose_ecosystem" "purpose_builder < purpose_reviewers"
  "purpose_ecosystem < purpose_reviewers"
  by code_simp+

lemma recipients_for_shares:
  "\<exists>sb sr se. recipients_for reg adapter b r e =
     [(purpose_builder, sb), (purpose_ecosystem, se), (purpose_reviewers, sr)]
   \<and> rs_purpose sb = purpose_builder \<and> rs_purpose se = purpose_ecosystem \<and> rs_purpose sr = purpose_reviewers
   \<and> rs_share sb = b \<and> rs_share sr = r \<and> rs_share se = e
   \<and> \<not> rs_residual sb \<and> \<not> rs_residual sr \<and> rs_residual se"
  using purposes_order less_imp_neq [OF purposes_order(1)] less_imp_neq [OF purposes_order(2)]
    less_imp_neq [OF purposes_order(3)] less_not_sym [OF purposes_order(1)] less_not_sym [OF purposes_order(2)]
    less_not_sym [OF purposes_order(3)]
  by (simp add: recipients_for_def Let_def split: prod.splits)

lemma sum_shares_recipients:
  assumes "0 \<le> b" "0 \<le> r" "0 \<le> e" "b + r + e \<le> i64_max"
  shows "sum_shares (recipients_for reg adapter b r e) 0 0 = Ok (b + r + e, 1)"
proof -
  have "in_i64 b" "in_i64 (b + e)" "in_i64 (b + e + r)" using assms by (simp_all add: in_i64_def)
  then show ?thesis using recipients_for_shares [of reg adapter b r e]
    by (auto simp: checked_add_i64_def)
qed

lemma attest_verifies_core:
  assumes ext: "hex_ok x" "sign_ok x"
    and frac: "bps_for reg (adapter_id_for_outcome fill) = (num, den)" "0 \<le> num" "0 < den"
    and ov: "no_overflow (fill_inflow fill) num den"
  shows "attest x fill reg k prev \<noteq> Panic
    \<and> (\<forall>att. attest x fill reg k prev = Ok att \<longrightarrow>
         verify x att = Ok () \<and> at_prev_hash att = prev \<and> at_spinner_addr att = x_address x k)"
proof -
  let ?i = "fill_inflow fill" and ?ad = "adapter_id_for_outcome fill"
  obtain d b r e where eq: "compute_redistribution_micro ?i num den = Some (d, b, r, e)"
    and d: "d = max 0 ?i * num div den" "b + r + e = d" "0 \<le> b" "0 \<le> r" "0 \<le> e" "0 \<le> d"
      "d * 70 \<le> i64_max"
    by (rule redistribution_shape [OF frac(2,3) ov]) blast
  obtain att where att: "unsigned_attestation x fill reg k prev = Some att"
    and fields: "at_donut att = d" "at_split_num att = num" "at_split_den att = den" "at_inflow att = ?i"
      "at_recipients att = recipients_for reg ?ad b r e"
      "at_prev_hash att = prev" "at_spinner_addr att = x_address x k"
    using frac(1) eq by (auto simp: unsigned_attestation_def Let_def)
  have "b + r + e \<le> i64_max" using d(2,6,7) by linarith
  then have "sum_shares (at_recipients att) 0 0 = Ok (d, 1)"
    using sum_shares_recipients [OF d(3,4,5)] d(2) by (simp add: fields(5))
  moreover have "wrap_i64 (max 0 ?i * num) sdiv den = d"
  proof -
    have "0 \<le> max 0 ?i * num" using frac by simp
    moreover from this have "wrap_i64 (max 0 ?i * num) = max 0 ?i * num"
      using ov by (intro wrap_i64_id) (simp add: in_i64_def no_overflow_def)
    ultimately show ?thesis using frac(3) d(1) by (simp add: sdiv_nonneg)
  qed
  ultimately have ver: "verify x (att\<lparr>at_signature := s\<rparr>) = verify_signature x (att\<lparr>at_signature := s\<rparr>)" for s
    using frac(2,3) by (simp add: verify_def fields Let_def)
  have "verify x (att\<lparr>at_signature := ''0x'' @ x_hex x sg\<rparr>) = Ok ()"
    if "x_sign x k (canonical_json_for_signing x att) = Some sg" for sg
    unfolding ver by (rule verify_signature_signed [OF ext that fields(7)])
  with att fields(6,7) show ?thesis by (auto simp: attest_def split: option.splits)
qed

lemma attest_donut:
  assumes "bps_for reg (adapter_id_for_outcome fill) = (num, den)" "0 \<le> num" "0 < den"
    "no_overflow (fill_inflow fill) num den" "attest x fill reg k prev = Ok att"
  shows "at_donut att = max 0 (fill_inflow fill) * num div den"
proof -
  obtain d b r e where eq: "compute_redistribution_micro (fill_inflow fill) num den = Some (d, b, r, e)"
    and d: "d = max 0 (fill_inflow fill) * num div den"
    by (rule redistribution_shape [OF assms(2-4)]) blast
  obtain u where u: "unsigned_attestation x fill reg k prev = Some u" "at_donut u = d"
    by (simp add: unsigned_attestation_def Let_def assms(1) eq)
  from assms(5) have "\<exists>sg. att = u\<lparr>at_signature := sg\<rparr>"
    by (auto simp: attest_def u(1) split: option.splits)
  then show ?thesis using u(2) d by auto
qed

text \<open>C11. What the adjudicator attests, it verifies: with a sane redistribution fraction and amounts
  that fit, \<open>attest\<close> never panics, and an attestation it returns passes \<open>verify\<close>, carries the given
  previous hash and names the signer.\<close>

theorem attest_verifies:
  assumes ext: "hex_ok x" "sign_ok x"
    and frac: "bps_for reg (adapter_id_for_outcome fill) = (num, den)" "0 \<le> num" "0 < den"
    and ov: "no_overflow (fill_inflow fill) num den"
  shows "attest x fill reg k prev \<noteq> Panic
    \<and> (\<forall>att. attest x fill reg k prev = Ok att \<longrightarrow>
         verify x att = Ok () \<and> at_prev_hash att = prev \<and> at_spinner_addr att = x_address x k)"
  by (rule attest_verifies_core [OF assms])

lemma sum_shares_Ok:
  assumes "sum_shares kvs t n = Ok (t', n')"
  shows "t' = t + sum_list (map (rs_share \<circ> snd) kvs)
    \<and> n' = n + length (filter (rs_residual \<circ> snd) kvs) \<and> (\<forall>(k, s) \<in> set kvs. k = rs_purpose s)"
  using assms
  by (induction kvs t n rule: sum_shares.induct)
    (auto simp: checked_add_i64_def split: if_splits)

lemma verify_signature_Ok:
  assumes "verify_signature x att = Ok ()"
  obtains sg where "x_unhex x (case strip_prefix (at_signature att) ''0x'' of None \<Rightarrow> at_signature att | Some h \<Rightarrow> h) = Some sg"
    "length sg = 65" "\<not> n_half_be < sig_s sg"
    "x_recover x sg (canonical_json_for_signing x att) = Some (at_spinner_addr att)"
  using assms unfolding verify_signature_def Let_def
  by (auto split: option.splits if_splits)

text \<open>A verified attestation is sound: its shares, filed under their own purposes, sum without
  overflow to the take, exactly one of them absorbs the residual, the take is the stated fraction of
  the positive inflow (when the product fits), and its 65-byte low-\<open>s\<close> signature over the canonical
  text recovers the spinner it names.\<close>

theorem verify_sound:
  assumes "verify x att = Ok ()"
  shows "sum_list (map (rs_share \<circ> snd) (at_recipients att)) = at_donut att
    \<and> (\<forall>(k, s) \<in> set (at_recipients att). k = rs_purpose s)
    \<and> length (filter (rs_residual \<circ> snd) (at_recipients att)) = 1
    \<and> 0 < at_split_den att \<and> 0 \<le> at_split_num att
    \<and> (max 0 (at_inflow att) * at_split_num att \<le> i64_max \<longrightarrow>
         at_donut att = max 0 (at_inflow att) * at_split_num att div at_split_den att)
    \<and> (\<exists>sg. length sg = 65 \<and> \<not> n_half_be < sig_s sg
         \<and> x_recover x sg (canonical_json_for_signing x att) = Some (at_spinner_addr att))"
proof -
  have den: "0 < at_split_den att" and num: "0 \<le> at_split_num att"
    and donut: "at_donut att = wrap_i64 (max 0 (at_inflow att) * at_split_num att) sdiv at_split_den att"
    and sums: "sum_shares (at_recipients att) 0 0 = Ok (at_donut att, 1)"
    and sig: "verify_signature x att = Ok ()"
    using assms by (auto simp: verify_def Let_def split: if_splits)
  have "at_donut att = max 0 (at_inflow att) * at_split_num att div at_split_den att"
    if "max 0 (at_inflow att) * at_split_num att \<le> i64_max"
  proof -
    have "0 \<le> max 0 (at_inflow att) * at_split_num att" using num by simp
    with that show ?thesis using den donut by (simp add: in_i64_def sdiv_nonneg)
  qed
  moreover have "\<exists>sg. length sg = 65 \<and> \<not> n_half_be < sig_s sg
         \<and> x_recover x sg (canonical_json_for_signing x att) = Some (at_spinner_addr att)"
    using verify_signature_Ok [OF sig] by metis
  ultimately show ?thesis using sum_shares_Ok [OF sums] den num by simp
qed

text \<open>A concrete signer for the witnesses: it signs with zero bytes and recovers address 7.\<close>

definition toy_ext :: "unit ext" where
  "toy_ext = \<lparr>x_address = (\<lambda>_. 7), x_sign = (\<lambda>_ _. Some (replicate 65 0)), x_sig_ok = (\<lambda>_. True),
     x_recover = (\<lambda>_ _. Some 7), x_hex = map (\<lambda>b. char_of (unat b)),
     x_unhex = (\<lambda>s. Some (map (\<lambda>c. of_nat (of_char c)) s)), x_sha256 = (\<lambda>_. []),
     x_render = (\<lambda>_. []), x_addr_json = (\<lambda>_. []), x_addr_hex = (\<lambda>_. replicate 40 CHR ''7''),
     x_ts_text = (\<lambda>_. [])\<rparr>"

lemma toy_ok: "hex_ok toy_ext" "sign_ok toy_ext"
proof -
  have "of_nat (unat b mod 256) = b" for b :: u8
  proof -
    have "unat b < 2 ^ LENGTH(8)" by (rule unsigned_less)
    then show ?thesis by simp
  qed
  then show "hex_ok toy_ext" by (simp add: hex_ok_def toy_ext_def map_idI)
  have "\<not> n_half_be < sig_s (replicate 65 0)" by code_simp
  then show "sign_ok toy_ext" by (simp add: sign_ok_def toy_ext_def)
qed

definition sample_fill :: outcome where
  "sample_fill = sample_outcome\<lparr>o_fee := Some (Fin 2)\<rparr>"

lemma sample_inflow: "fill_inflow sample_fill = 2000000"
  by code_simp

lemma sample_attest_frac: "bps_for (registry_new 9) (adapter_id_for_outcome sample_fill) = (1, 1)"
  "no_overflow (fill_inflow sample_fill) 1 1"
  by (simp_all add: bps_for_def registry_new_def default_redistribution_def sample_inflow
      no_overflow_def builder_num_def)

definition sample_att :: attestation where
  "sample_att = (case attest toy_ext sample_fill (registry_new 9) () zero_hash of Ok a \<Rightarrow> a)"

lemma sample_att: "attest toy_ext sample_fill (registry_new 9) () zero_hash = Ok sample_att"
proof -
  have "attest toy_ext sample_fill (registry_new 9) () zero_hash \<noteq> Panic"
    using attest_verifies_core [OF toy_ok sample_attest_frac(1) _ _ sample_attest_frac(2)] by simp
  moreover have "attest toy_ext sample_fill (registry_new 9) () zero_hash \<noteq> Err e" for e
    by (simp add: attest_def toy_ext_def split: option.splits)
  ultimately show ?thesis unfolding sample_att_def
    by (cases "attest toy_ext sample_fill (registry_new 9) () zero_hash") auto
qed

lemma sample_att_verifies: "verify toy_ext sample_att = Ok ()"
  using attest_verifies_core [OF toy_ok sample_attest_frac(1) _ _ sample_attest_frac(2)] sample_att by simp

theorem attest_verifies_witness: "verify toy_ext sample_att = Ok ()"
  using attest_verifies [OF toy_ok sample_attest_frac(1) _ _ sample_attest_frac(2)] sample_att by simp

theorem verify_sound_witness:
  "sum_list (map (rs_share \<circ> snd) (at_recipients sample_att)) = at_donut sample_att"
  using verify_sound [OF sample_att_verifies] by simp

text \<open>Verification does not enforce the 70/20/10 split: the signer of a verified attestation can replace
  its recipients by any list that still sums to the take with one residual, re-sign, and the result
  verifies; in particular everything can go to one address of its choice.\<close>

theorem verify_accepts_any_split:
  assumes "hex_ok x" "sign_ok x" "verify x att = Ok ()" "at_spinner_addr att = x_address x k"
    and rs: "sum_shares rs 0 0 = Ok (at_donut att, 1)"
    and sg: "x_sign x k (canonical_json_for_signing x (att\<lparr>at_recipients := rs\<rparr>)) = Some sg"
  shows "verify x (att\<lparr>at_recipients := rs, at_signature := ''0x'' @ x_hex x sg\<rparr>) = Ok ()"
proof -
  let ?att = "att\<lparr>at_recipients := rs\<rparr>"
  have "at_spinner_addr ?att = x_address x k" using assms(4) by simp
  from verify_signature_signed [OF assms(1,2) sg this]
  show ?thesis using assms(3) rs
    by (simp add: verify_def Let_def split: if_splits)
qed

theorem verify_accepts_any_split_witness:
  "verify toy_ext (sample_att\<lparr>at_recipients := [(''me'', \<lparr>rs_purpose = ''me'', rs_addresses = [7],
     rs_share = at_donut sample_att, rs_num = 100, rs_den = 100, rs_residual = True\<rparr>)],
     at_signature := ''0x'' @ x_hex toy_ext (replicate 65 0)\<rparr>) = Ok ()"
proof (rule verify_accepts_any_split [OF toy_ok sample_att_verifies, of "()"])
  have "at_spinner_addr sample_att = x_address toy_ext ()"
    using attest_verifies_core [OF toy_ok sample_attest_frac(1) _ _ sample_attest_frac(2)] sample_att by simp
  then show "at_spinner_addr sample_att = x_address toy_ext ()" .
  have "in_i64 (at_donut sample_att)"
    using attest_donut [OF sample_attest_frac(1) _ _ sample_attest_frac(2) sample_att]
    by (simp add: sample_inflow in_i64_def)
  then show "sum_shares [(''me'', \<lparr>rs_purpose = ''me'', rs_addresses = [7],
     rs_share = at_donut sample_att, rs_num = 100, rs_den = 100, rs_residual = True\<rparr>)] 0 0
     = Ok (at_donut sample_att, 1)"
    by (simp add: checked_add_i64_def)
qed (simp add: toy_ext_def)

text \<open>Unregistered adapters fail closed: when the registry has no builder for the fill's adapter,
  every share of the attestation is addressed to the ecosystem treasury and to nobody else.\<close>

theorem unregistered_goes_to_ecosystem:
  assumes "map_of (ar_builders reg) (adapter_id_for_outcome fill) = None"
    and "attest x fill reg k prev = Ok att"
  shows "\<forall>(p, s) \<in> set (at_recipients att). rs_addresses s = [ar_ecosystem reg]"
proof -
  from assms(2) obtain b r e where
    "at_recipients att = recipients_for reg (adapter_id_for_outcome fill) b r e"
    by (auto simp: attest_def unsigned_attestation_def Let_def split: option.splits prod.splits)
  with assms(1) show ?thesis
    by (auto simp: recipients_for_def Let_def dest!: subsetD [OF bt_insert_set])
qed

theorem unregistered_goes_to_ecosystem_witness:
  "(\<lambda>(p, s). rs_addresses s) ` set (at_recipients sample_att) \<subseteq> {[9]}"
  using unregistered_goes_to_ecosystem [OF _ sample_att] by (auto simp: registry_new_def)

section \<open>Attribution and the registry file\<close>

text \<open>Adapter attribution ignores the case of the protocol tag and, for every known protocol family,
  depends on the chains only through whether either of them is Solana, so a fill is credited to the
  same adapter in both directions; Mayan Flash is never credited to Mayan Swift, and two different
  destinations never share an unknown adapter of one protocol.\<close>

theorem adapter_attribution:
  "adapter_id_resolve (to_lowercase p) s d = adapter_id_resolve p s d
   \<and> (\<not> starts_with (adapter_id_resolve p s d) ''unknown-'' \<longrightarrow>
        is_solana_involved s d = is_solana_involved s' d' \<longrightarrow>
        adapter_id_resolve p s' d' = adapter_id_resolve p s d)
   \<and> (contains (to_lowercase p) ''flash'' \<longrightarrow> contains (to_lowercase p) ''mayan'' \<longrightarrow>
        adapter_id_resolve p s d = (if is_solana_involved s d then ''mayan-flash-solana-v1'' else ''mayan-flash-evm-v1''))
   \<and> (starts_with (adapter_id_resolve p s d) ''unknown-'' \<longrightarrow> d \<noteq> d' \<longrightarrow>
        adapter_id_resolve p s d \<noteq> adapter_id_resolve p s' d')"
proof (intro conjI impI)
  show "adapter_id_resolve (to_lowercase p) s d = adapter_id_resolve p s d"
    by (simp add: adapter_id_resolve_def)
  show "adapter_id_resolve p s' d' = adapter_id_resolve p s d"
    if "\<not> starts_with (adapter_id_resolve p s d) ''unknown-''" "is_solana_involved s d = is_solana_involved s' d'"
    using that by (auto simp: adapter_id_resolve_def Let_def starts_with_def split: if_splits)
  show "adapter_id_resolve p s d = (if is_solana_involved s d then ''mayan-flash-solana-v1'' else ''mayan-flash-evm-v1'')"
    if "contains (to_lowercase p) ''flash''" "contains (to_lowercase p) ''mayan''"
    using that by (simp add: adapter_id_resolve_def)
  show "adapter_id_resolve p s d \<noteq> adapter_id_resolve p s' d'"
    if "starts_with (adapter_id_resolve p s d) ''unknown-''" "d \<noteq> d'"
    using that by (auto simp: adapter_id_resolve_def Let_def starts_with_def word_unat_eq_iff split: if_splits)
qed

theorem adapter_attribution_witness:
  "adapter_id_resolve ''Mayan_Flash'' 1 1399811149 = ''mayan-flash-solana-v1''"
proof -
  have "contains (to_lowercase ''Mayan_Flash'') ''flash''" "contains (to_lowercase ''Mayan_Flash'') ''mayan''"
    "is_solana_involved 1 1399811149" by code_simp+
  then show ?thesis
    using adapter_attribution [where p = "''Mayan_Flash''" and s = 1 and d = 1399811149 and s' = 1 and d' = 1]
    by (simp only: if_True simp_thms)
qed

lemma load_entries_fields:
  "ar_builders (fold load_entry kvs reg) = hm.put_all (map (\<lambda>(i, e). (i, re_builder e)) kvs) (ar_builders reg)"
  "ar_reviewers (fold load_entry kvs reg) = hm.put_all (map (\<lambda>(i, e). (i, re_reviewers e)) kvs) (ar_reviewers reg)"
  "ar_bps (fold load_entry kvs reg) = hm.put_all
     (map (\<lambda>(i, e). (i, entry_bps e)) (filter (\<lambda>(i, e). entry_bps e \<noteq> default_redistribution) kvs)) (ar_bps reg)"
  "ar_ecosystem (fold load_entry kvs reg) = ar_ecosystem reg"
  by (induction kvs arbitrary: reg)
    (auto simp: hm.put_all_def load_entry_def with_adapter_def with_adapter_bps_def Let_def split: prod.splits)

lemma map_of_filter_map:
  "distinct (map fst kvs) \<Longrightarrow>
   map_of (map (\<lambda>(i, e). (i, f e)) (filter (\<lambda>(i, e). P e) kvs)) k =
     (case map_of kvs k of None \<Rightarrow> None | Some e \<Rightarrow> if P e then Some (f e) else None)"
proof (induction kvs)
  case (Cons p kvs)
  have "map_of kvs k = None" if "fst p = k" using that Cons.prems by (auto simp: map_of_eq_None_iff)
  with Cons show ?case by (cases p) auto
qed simp

lemma map_of_keyed: "map_of (map (\<lambda>(i, b). (i, f i b)) xs) k = map_option (f k) (map_of xs k)"
  by (induction xs) auto

lemma distinct_fst_filter_map:
  "distinct (map fst kvs) \<Longrightarrow> distinct (map fst (map (\<lambda>(i, e). (i, f e)) (filter (\<lambda>(i, e). P e) kvs)))"
proof -
  have fst: "map fst (map (\<lambda>(i, e). (i, f e)) ys) = map fst ys" for ys by (induction ys) auto
  show "distinct (map fst kvs) \<Longrightarrow> ?thesis" by (simp only: fst distinct_map_filter)
qed

text \<open>The published registry can be loaded back: a registry whose keys are unique and whose overrides
  have a positive denominator, serialised by \<open>view\<close> and read by \<open>load_from_path\<close>, gives every adapter
  the same builder, reviewers and redistribution fraction, and the same treasury.\<close>

theorem registry_view_load:
  assumes "distinct (map fst (ar_builders reg))"
    and den: "\<forall>(i, n, d) \<in> set (ar_bps reg). 0 < d" and reg: "i \<in> fst ` set (ar_builders reg)"
  defines "reg' \<equiv> load_from_view (registry_view reg)"
  shows "ar_ecosystem reg' = ar_ecosystem reg \<and> map_of (ar_builders reg') i = map_of (ar_builders reg) i
    \<and> reviewers_or_default reg' i = reviewers_or_default reg i \<and> bps_for reg' i = bps_for reg i"
proof -
  let ?kvs = "rw_adapters (registry_view reg)"
  have wf: "distinct (map fst ?kvs)"
    by (simp add: registry_view_def bt_wf_distinct bt_wf_bt_of)
  from reg obtain b where b: "map_of (ar_builders reg) i = Some b"
    by (metis (no_types, lifting) map_of_eq_None_iff option.exhaust)
  have "distinct (map fst (map (\<lambda>(i, b). (i, registry_entry_of reg i b)) (ar_builders reg)))"
    using assms(1) by (simp add: o_def case_prod_unfold)
  then have "map_of ?kvs i = map_of (map (\<lambda>(i, b). (i, registry_entry_of reg i b)) (ar_builders reg)) i"
    by (simp add: registry_view_def map_of_bt_of)
  also have "\<dots> = Some (registry_entry_of reg i b)" by (simp add: map_of_keyed b)
  finally have e: "map_of ?kvs i = Some (registry_entry_of reg i b)" .
  have bps: "entry_bps (registry_entry_of reg i b) = bps_for reg i"
    using den by (auto simp: entry_bps_def registry_entry_of_def bps_for_def dest!: map_of_SomeD
        split: option.splits)
  have all: "map (\<lambda>(i, e). (i, f e)) ?kvs = map (\<lambda>(i, e). (i, f e)) (filter (\<lambda>(i, e). True) ?kvs)" for f
    by simp
  have look: "map_of (hm.put_all (map (\<lambda>(i, e). (i, f e)) (filter (\<lambda>(i, e). P e) ?kvs)) []) i
      = (if P (registry_entry_of reg i b) then Some (f (registry_entry_of reg i b)) else None)" for f P
    by (simp only: hm.get_put_all_distinct [OF distinct_fst_filter_map [OF wf]] map_of_filter_map [OF wf] e)
      simp
  have "map_of (ar_builders reg') i = Some b"
    by (simp only: reg'_def load_from_view_def load_entries_fields registry_new_def adapter_registry.simps
        all look if_True) (simp add: registry_entry_of_def)
  moreover have "reviewers_or_default reg' i = reviewers_or_default reg i"
    by (simp only: reg'_def load_from_view_def load_entries_fields registry_new_def adapter_registry.simps
        all look if_True reviewers_or_default_def [of "fold load_entry a b" for a b] option.case)
      (simp add: registry_entry_of_def)
  moreover have "bps_for reg' i = bps_for reg i"
    by (simp only: reg'_def load_from_view_def load_entries_fields registry_new_def adapter_registry.simps
        look bps_for_def [of "fold load_entry a b" for a b] bps) simp
  ultimately show ?thesis
    by (simp add: b reg'_def load_from_view_def load_entries_fields registry_new_def registry_view_def)
qed

theorem registry_view_load_witness:
  "bps_for (load_from_view (registry_view
     \<lparr>ar_builders = [(''across-v3'', 5)], ar_reviewers = [], ar_bps = [(''across-v3'', 1, 2)], ar_ecosystem = 9\<rparr>))
     ''across-v3'' = (1, 2)"
  using registry_view_load [of "\<lparr>ar_builders = [(''across-v3'', 5)], ar_reviewers = [],
      ar_bps = [(''across-v3'', 1, 2)], ar_ecosystem = 9\<rparr>" "''across-v3''"]
  by (simp add: bps_for_def)

end
