(* ===== verification/Hosting.thy ===== *)
theory Hosting
  imports Adjudicator
begin

text \<open>
  The hosting registry (\<open>crates/solver-api/src/hosting.rs\<close>): SIWE nonces, provisioning of hosted
  solvers, and the per-spinner ledger of signed attestations.  The two SQLite tables and the nonce map
  are lists; \<open>persist_attestation\<close> is split where the code releases its lock, into the check of the
  chain link and the insertion transaction.  The \<open>siwe\<close> crate, checksums, the token hash and date
  parsing are the record \<open>siwe_ext\<close>.  An attestation row decodes to the attestation it was written
  from, and accrued sums are assumed to stay within \<open>i64\<close>.  Times are nanoseconds.
\<close>

section \<open>SIWE nonces\<close>

definition siwe_nonce_ttl :: int where "siwe_nonce_ttl = 300 * 1000000000"
definition siwe_clock_skew :: int where "siwe_clock_skew = 60 * 1000000000"
definition siwe_nonce_max_entries :: nat where "siwe_nonce_max_entries = 80000"
definition siwe_chain_id :: u64 where "siwe_chain_id = 1"

type_synonym nonce_store = "((string \<times> string) \<times> int) list"

definition nonce_live :: "int \<Rightarrow> int \<Rightarrow> bool" where
  "nonce_live now issued \<longleftrightarrow> max 0 (now - issued) < siwe_nonce_ttl"

definition issue_siwe_nonce :: "int \<Rightarrow> string \<Rightarrow> string \<Rightarrow> nonce_store \<Rightarrow> nonce_store" where
  "issue_siwe_nonce now address nonce store =
     (let addr = to_lowercase (trim address);
          live = filter (\<lambda>(_, issued). nonce_live now issued) store;
          kept = (if siwe_nonce_max_entries \<le> length live
                  then drop (length live - (siwe_nonce_max_entries - 1)) (sort_key snd live)
                  else live)
      in AList.update (addr, nonce) now kept)"

definition consume_siwe_nonce :: "int \<Rightarrow> string \<Rightarrow> string \<Rightarrow> nonce_store \<Rightarrow> bool \<times> nonce_store" where
  "consume_siwe_nonce now address nonce store =
     (let key = (to_lowercase (trim address), nonce)
      in case map_of store key of
           None \<Rightarrow> (False, store)
         | Some issued \<Rightarrow> (nonce_live now issued, AList.delete key store))"

section \<open>SIWE verification\<close>

record siwe_message =
  si_domain :: string
  si_chain_id :: u64
  si_address :: bytes
  si_expiration :: "string option"
  si_nonce :: string

record siwe_ext =
  y_parse :: "string \<Rightarrow> siwe_message option"
  y_verify :: "string \<Rightarrow> bytes \<Rightarrow> int \<Rightarrow> bool"
  y_checksum :: "bytes \<Rightarrow> string"
  y_hex :: "bytes \<Rightarrow> string"
  y_unhex :: "string \<Rightarrow> bytes option"
  y_rfc3339 :: "string \<Rightarrow> int option"
  y_token_hash :: "string \<Rightarrow> string"
  y_domain :: string

text \<open>\<open>str::lines\<close>: the pieces that a newline ends, without a carriage return before it, and what follows
  the last newline.\<close>

definition lines :: "string \<Rightarrow> string list" where
  "lines s =
     (let ps = split_on (\<lambda>c. c = CHR 0x0A) s
      in map (\<lambda>l. if l \<noteq> [] \<and> last l = CHR 0x0D then butlast l else l) (butlast ps)
         @ (if last ps = [] then [] else [last ps]))"

definition check_address_line :: "siwe_ext \<Rightarrow> string \<Rightarrow> msg option" where
  "check_address_line y raw =
     (if length (lines raw) \<le> 1 then None
      else let candidate = trim (lines raw ! 1)
           in if \<not> (starts_with candidate ''0x'' \<and> length candidate = 42) then None
              else case y_unhex y (trim_start_str ''0x'' candidate) of
                     None \<Rightarrow> Some (lit ''invalid SIWE message: address hex'')
                   | Some bs \<Rightarrow>
                       if length bs = 20 \<and> y_checksum y bs \<noteq> candidate
                       then Some (Msg ''invalid SIWE message: address checksum mismatch (expected {}, got {})''
                              [AStr (y_checksum y bs), AStr candidate])
                       else None)"

text \<open>Every check of \<open>verify_siwe\<close> before the nonce; the nonce to consume when all pass.\<close>

definition verify_siwe_checks ::
    "siwe_ext \<Rightarrow> int \<Rightarrow> string \<Rightarrow> string \<Rightarrow> string \<Rightarrow> msg + string" where
  "verify_siwe_checks y now raw raw_sig expected =
     (case check_address_line y raw of Some e \<Rightarrow> Inl e | None \<Rightarrow>
      case y_parse y raw of None \<Rightarrow> Inl (lit ''invalid SIWE message'') | Some m \<Rightarrow>
      if si_domain m \<noteq> y_domain y
      then Inl (Msg ''SIWE domain mismatch: expected {}, got {}'' [AStr (y_domain y), AStr (si_domain m)])
      else if si_chain_id m \<noteq> siwe_chain_id
      then Inl (Msg ''SIWE chain_id mismatch: expected {}, got {}''
             [AInt (uint siwe_chain_id), AInt (uint (si_chain_id m))])
      else if to_lowercase (''0x'' @ y_hex y (si_address m)) \<noteq> to_lowercase expected
      then Inl (Msg ''SIWE address mismatch: message says {}, request says {}''
             [AStr (''0x'' @ y_hex y (si_address m)), AStr expected])
      else case si_expiration m of None \<Rightarrow> Inl (lit ''SIWE message missing expiration_time'') | Some es \<Rightarrow>
      case y_rfc3339 y es of None \<Rightarrow> Inl (Msg ''invalid SIWE expiration_time'' [AStr es]) | Some ex \<Rightarrow>
      if ex + siwe_clock_skew \<le> now then Inl (Msg ''SIWE message expired at {}'' [AInt ex])
      else case y_unhex y (trim_start_str ''0x'' raw_sig) of
             None \<Rightarrow> Inl (lit ''invalid signature hex'')
           | Some sg \<Rightarrow>
               if length sg \<noteq> 65 then Inl (Msg ''SIWE signature must be 65 bytes, got {}'' [ANat (length sg)])
               else if \<not> y_verify y raw sg ((now - siwe_clock_skew) div 1000000000)
               then Inl (lit ''SIWE signature verification failed'')
               else Inr (si_nonce m))"

definition verify_siwe ::
    "siwe_ext \<Rightarrow> int \<Rightarrow> string \<Rightarrow> string \<Rightarrow> string \<Rightarrow> nonce_store \<Rightarrow> (msg + unit) \<times> nonce_store" where
  "verify_siwe y now raw raw_sig expected store =
     (case verify_siwe_checks y now raw raw_sig expected of
        Inl e \<Rightarrow> (Inl e, store)
      | Inr nonce \<Rightarrow>
          (case consume_siwe_nonce now expected nonce store of
             (True, store') \<Rightarrow> (Inr (), store')
           | (False, store') \<Rightarrow> (Inl (lit ''SIWE nonce not recognized or expired''), store')))"

section \<open>Provisioning\<close>

datatype signing_mode = SessionKey | RemoteSigner | SelfHosted

definition parse_mode :: "string \<Rightarrow> signing_mode" where
  "parse_mode s = (if s = ''session_key'' then SessionKey
                   else if s = ''remote_signer'' then RemoteSigner else SelfHosted)"

record hosted_solver =
  hs_id :: string
  hs_name :: string
  hs_evm :: string
  hs_solana :: "string option"
  hs_mode :: signing_mode
  hs_webhook :: "string option"
  hs_safe :: "string option"
  hs_email :: "string option"
  hs_chains :: string
  hs_protocols :: string
  hs_registered_at :: int
  hs_active :: bool
  hs_accrued :: int

record solver_row =
  sr_id :: string
  sr_name :: string
  sr_evm :: string
  sr_solana :: "string option"
  sr_mode :: string
  sr_webhook :: "string option"
  sr_safe :: "string option"
  sr_email :: "string option"
  sr_chains :: string
  sr_protocols :: string
  sr_token_hash :: string
  sr_registered_at :: int
  sr_active :: int
  sr_accrued :: int
  sr_siwe_verified :: int

record provision_request =
  pr_name :: string
  pr_evm :: string
  pr_solana :: "string option"
  pr_mode :: "string option"
  pr_webhook :: "string option"
  pr_safe :: "string option"
  pr_email :: "string option"
  pr_chains :: "string option"
  pr_protocols :: "string option"
  pr_siwe_message :: "string option"
  pr_signature :: "string option"

record hosting =
  h_solvers :: "solver_row list"
  h_atts :: "attestation list"
  h_nonces :: nonce_store

definition hosting_new :: hosting where
  "hosting_new = \<lparr>h_solvers = [], h_atts = [], h_nonces = []\<rparr>"

definition row_to_solver :: "solver_row \<Rightarrow> hosted_solver" where
  "row_to_solver r = \<lparr>hs_id = sr_id r, hs_name = sr_name r, hs_evm = sr_evm r, hs_solana = sr_solana r,
     hs_mode = parse_mode (sr_mode r), hs_webhook = sr_webhook r, hs_safe = sr_safe r,
     hs_email = sr_email r, hs_chains = sr_chains r, hs_protocols = sr_protocols r,
     hs_registered_at = sr_registered_at r, hs_active = (sr_active r \<noteq> 0), hs_accrued = sr_accrued r\<rparr>"

text \<open>\<open>INSERT OR REPLACE\<close> removes the rows that conflict on the primary key or on the unique address.\<close>

definition replace_solver :: "solver_row \<Rightarrow> solver_row list \<Rightarrow> solver_row list" where
  "replace_solver r rows = filter (\<lambda>s. sr_id s \<noteq> sr_id r \<and> sr_evm s \<noteq> sr_evm r) rows @ [r]"

definition provisioned_row :: "siwe_ext \<Rightarrow> int \<Rightarrow> string \<Rightarrow> provision_request \<Rightarrow> bool \<Rightarrow> solver_row" where
  "provisioned_row y now token req verified =
     (let addr = to_lowercase (trim (pr_evm req))
      in \<lparr>sr_id = take 8 (drop 2 addr), sr_name = pr_name req, sr_evm = addr, sr_solana = pr_solana req,
          sr_mode = unwrap_or ''self_hosted'' (pr_mode req), sr_webhook = pr_webhook req,
          sr_safe = pr_safe req, sr_email = pr_email req,
          sr_chains = unwrap_or ''base,arbitrum,optimism'' (pr_chains req),
          sr_protocols = unwrap_or ''across,debridge,mayan'' (pr_protocols req),
          sr_token_hash = y_token_hash y token, sr_registered_at = now, sr_active = 1, sr_accrued = 0,
          sr_siwe_verified = (if verified then 1 else 0)\<rparr>)"

text \<open>\<open>token\<close> is the random API token.  Only the nonce store changes when provisioning fails.\<close>

definition provision ::
    "siwe_ext \<Rightarrow> int \<Rightarrow> string \<Rightarrow> provision_request \<Rightarrow> hosting \<Rightarrow> (msg + hosted_solver \<times> string) \<times> hosting" where
  "provision y now token req h =
     (let addr = to_lowercase (trim (pr_evm req))
      in if \<not> starts_with addr ''0x'' \<or> length addr \<noteq> 42 then (Inl (lit ''invalid EVM address''), h)
         else case (case (pr_siwe_message req, pr_signature req) of
                      (Some m, Some sg) \<Rightarrow>
                        (case verify_siwe y now m sg addr (h_nonces h) of
                           (Inl e, ns) \<Rightarrow> (Inl e, ns) | (Inr _, ns) \<Rightarrow> (Inr True, ns))
                    | (None, None) \<Rightarrow> (Inr False, h_nonces h)
                    | _ \<Rightarrow> (Inl (lit ''siwe_message and signature must be provided together''), h_nonces h)) of
                (Inl e, ns) \<Rightarrow> (Inl e, h\<lparr>h_nonces := ns\<rparr>)
              | (Inr verified, ns) \<Rightarrow>
                  let row = provisioned_row y now token req verified
                  in (Inr (row_to_solver row, token),
                      h\<lparr>h_nonces := ns, h_solvers := replace_solver row (h_solvers h)\<rparr>))"

definition list_solvers :: "hosting \<Rightarrow> hosted_solver list" where
  "list_solvers h = map row_to_solver (sort_key (\<lambda>r. - sr_registered_at r) (h_solvers h))"

definition get_by_id :: "string \<Rightarrow> hosting \<Rightarrow> hosted_solver option" where
  "get_by_id i h = map_option row_to_solver (t_get sr_id i (h_solvers h))"

section \<open>The attestation ledger\<close>

datatype persist_error =
    InvalidSignature msg
  | DuplicateFill string
  | BadChain string string
  | Internal msg

text \<open>Both queries read the index on \<open>(spinner_id, ts)\<close>: equal time stamps are in insertion order,
  and the head is the last row of that order.\<close>

definition ledger_for :: "string \<Rightarrow> hosting \<Rightarrow> attestation list" where
  "ledger_for sid h = sort_key at_ts (filter (\<lambda>a. at_spinner_id a = sid) (h_atts h))"

definition ledger_head :: "'k ext \<Rightarrow> string \<Rightarrow> hosting \<Rightarrow> string \<times> nat" where
  "ledger_head x sid h =
     (let rows = ledger_for sid h
      in if rows = [] then (zero_hash, 0) else (hash_for_chain x (last rows), length rows))"

definition persist_check :: "'k ext \<Rightarrow> attestation \<Rightarrow> hosting \<Rightarrow> (persist_error, unit) res" where
  "persist_check x att h =
     (case verify x att of
        Panic \<Rightarrow> Panic
      | Err e \<Rightarrow> Err (InvalidSignature e)
      | Ok _ \<Rightarrow>
          if to_lowercase (at_spinner_id att) \<noteq> spinner_id_from_addr x (at_spinner_addr att)
          then Err (InvalidSignature (Msg ''spinner_id `{}` does not match recovered address''
                 [AStr (at_spinner_id att)]))
          else let (expected, _) = ledger_head x (at_spinner_id att) h
               in if at_prev_hash att \<noteq> expected then Err (BadChain expected (at_prev_hash att)) else Ok ())"

definition builder_share :: "attestation \<Rightarrow> int" where
  "builder_share att = (case map_of (at_recipients att) purpose_builder of None \<Rightarrow> 0 | Some s \<Rightarrow> rs_share s)"

definition builder_addrs :: "'k ext \<Rightarrow> attestation \<Rightarrow> string list" where
  "builder_addrs x att =
     (case map_of (at_recipients att) purpose_builder of
        None \<Rightarrow> []
      | Some s \<Rightarrow> map (\<lambda>a. to_lowercase (trim_start_str ''0x'' (''0x'' @ x_addr_hex x a))) (rs_addresses s))"

definition is_builder :: "'k ext \<Rightarrow> attestation \<Rightarrow> solver_row \<Rightarrow> bool" where
  "is_builder x att r \<longleftrightarrow> to_lowercase (trim_start_str ''0x'' (sr_evm r)) \<in> set (builder_addrs x att)"

definition add_accrued :: "int \<Rightarrow> solver_row \<Rightarrow> solver_row" where
  "add_accrued n r = r\<lparr>sr_accrued := sr_accrued r + n\<rparr>"

definition persist_insert :: "'k ext \<Rightarrow> attestation \<Rightarrow> hosting \<Rightarrow> (persist_error, hosting) res" where
  "persist_insert x att h =
     (case t_get at_fill_id (at_fill_id att) (h_atts h) of
        Some _ \<Rightarrow> Err (DuplicateFill (at_fill_id att))
      | None \<Rightarrow>
          let solvers = (case t_get sr_id (at_spinner_id att) (h_solvers h) of
                None \<Rightarrow> h_solvers h
              | Some r \<Rightarrow> if is_builder x att r
                          then t_update sr_id (at_spinner_id att) (add_accrued (builder_share att)) (h_solvers h)
                          else h_solvers h)
          in Ok (h\<lparr>h_atts := h_atts h @ [att], h_solvers := solvers\<rparr>))"

definition persist_attestation :: "'k ext \<Rightarrow> attestation \<Rightarrow> hosting \<Rightarrow> (persist_error, hosting) res" where
  "persist_attestation x att h = res_bind (persist_check x att h) (\<lambda>_. persist_insert x att h)"

section \<open>One-time nonces\<close>

text \<open>
  A call \<open>c\<close> presents the token \<open>key c\<close>: spending succeeds only on a held token and takes it away.
  Only a grant of the same token brings it back.
\<close>

locale one_time =
  fixes key :: "'c \<Rightarrow> 'k"
    and held :: "'k \<Rightarrow> 's \<Rightarrow> bool"
    and spend :: "'c \<Rightarrow> 's \<Rightarrow> bool \<times> 's"
    and grant :: "'g \<Rightarrow> 's \<Rightarrow> 's"
    and token :: "'g \<Rightarrow> 'k"
  assumes spend_once: "fst (spend c s) \<Longrightarrow> held (key c) s \<and> \<not> held (key c) (snd (spend c s))"
    and spend_mono: "held k (snd (spend c s)) \<Longrightarrow> held k s"
    and grant_other: "held k (grant g s) \<Longrightarrow> token g = k \<or> held k s"
begin

definition run :: "('g + 'c) list \<Rightarrow> 's \<Rightarrow> 's" where
  "run = fold (\<lambda>e s. case e of Inl g \<Rightarrow> grant g s | Inr c \<Rightarrow> snd (spend c s))"

lemma run_held: "held k (run es s) \<Longrightarrow> (\<exists>g. Inl g \<in> set es \<and> token g = k) \<or> held k s"
proof (induction es arbitrary: s)
  case (Cons e es)
  then show ?case
    by (cases e) (force simp: run_def dest: grant_other spend_mono)+
qed (simp add: run_def)

lemma no_second_spend:
  assumes "fst (spend c s)" "key c' = key c" "\<forall>g. Inl g \<in> set es \<longrightarrow> token g \<noteq> key c"
  shows "\<not> fst (spend c' (run es (snd (spend c s))))"
  using spend_once [OF assms(1)] spend_once [of c'] run_held [of "key c"] assms(2,3) by metis

end

definition nonce_key :: "string \<Rightarrow> string \<Rightarrow> string \<times> string" where
  "nonce_key address nonce = (to_lowercase (trim address), nonce)"

definition nonce_held :: "string \<times> string \<Rightarrow> nonce_store \<Rightarrow> bool" where
  "nonce_held k store \<longleftrightarrow> map_of store k \<noteq> None"

text \<open>A login attempt (time, message, signature, address) and an issued nonce (time, address, nonce), the
  two things that change the nonces.\<close>

type_synonym login_try = "int \<times> string \<times> string \<times> string"
type_synonym nonce_grant = "int \<times> string \<times> string"

fun login_key :: "siwe_ext \<Rightarrow> login_try \<Rightarrow> string \<times> string" where
  "login_key y (now, raw, sg, expected) =
     nonce_key expected (case y_parse y raw of None \<Rightarrow> [] | Some m \<Rightarrow> si_nonce m)"

fun login :: "siwe_ext \<Rightarrow> login_try \<Rightarrow> nonce_store \<Rightarrow> bool \<times> nonce_store" where
  "login y (now, raw, sg, expected) store =
     (let (r, store') = verify_siwe y now raw sg expected store in (r = Inr (), store'))"

fun granted :: "nonce_grant \<Rightarrow> nonce_store \<Rightarrow> nonce_store" where
  "granted (now, address, nonce) store = issue_siwe_nonce now address nonce store"

fun grant_key :: "nonce_grant \<Rightarrow> string \<times> string" where
  "grant_key (now, address, nonce) = nonce_key address nonce"

definition nonce_run :: "siwe_ext \<Rightarrow> (nonce_grant + login_try) list \<Rightarrow> nonce_store \<Rightarrow> nonce_store" where
  "nonce_run y = fold (\<lambda>e s. case e of Inl g \<Rightarrow> granted g s | Inr c \<Rightarrow> snd (login y c s))"

lemma nonce_held_alist_update: "nonce_held k (AList.update j v s) \<longleftrightarrow> k = j \<or> nonce_held k s"
  by (simp add: nonce_held_def update_conv')

lemma held_subset: "nonce_held k s \<Longrightarrow> set s \<subseteq> set t \<Longrightarrow> nonce_held k t"
  by (force simp: nonce_held_def map_of_eq_None_iff)

lemma verify_siwe_nonce:
  assumes "y_parse y raw = Some m" "verify_siwe_checks y now raw sg expected = Inr n"
  shows "n = si_nonce m"
  using assms unfolding verify_siwe_checks_def by (auto split: option.splits if_splits)

lemma checks_parse:
  assumes "verify_siwe_checks y now raw sg expected = Inr n"
  obtains m where "y_parse y raw = Some m"
  using assms unfolding verify_siwe_checks_def by (auto split: option.splits)

lemma held_delete: "nonce_held k (AList.delete j s) \<longleftrightarrow> k \<noteq> j \<and> nonce_held k s"
  by (simp add: nonce_held_def delete_conv' restrict_map_def)

lemma held_issue:
  assumes "nonce_held k (issue_siwe_nonce now address nonce s)"
  shows "nonce_key address nonce = k \<or> nonce_held k s"
proof -
  have pruned: "nonce_held k s" if "nonce_held k (filter P s)" for P :: "(string \<times> string) \<times> int \<Rightarrow> bool"
    by (rule held_subset [OF that]) auto
  have newest: "nonce_held k s" if "nonce_held k (drop i (sort_key snd (filter P s)))"
    for i and P :: "(string \<times> string) \<times> int \<Rightarrow> bool"
    using set_drop_subset [of i "sort_key snd (filter P s)"] by (intro held_subset [OF that]) auto
  show ?thesis
    using assms
    by (auto simp: issue_siwe_nonce_def Let_def nonce_held_alist_update nonce_key_def
        dest: pruned newest split: if_splits)
qed

interpretation login: one_time "login_key y" nonce_held "login y" granted grant_key for y
proof unfold_locales
  fix c :: login_try and s :: nonce_store
  obtain now raw sg expected where c: "c = (now, raw, sg, expected)" by (cases c) auto
  assume "fst (login y c s)"
  then obtain n where n: "verify_siwe_checks y now raw sg expected = Inr n"
    and con: "fst (consume_siwe_nonce now expected n s)"
      "snd (login y c s) = snd (consume_siwe_nonce now expected n s)"
    by (auto simp: c verify_siwe_def split: sum.splits prod.splits bool.splits)
  obtain m where m: "y_parse y raw = Some m" by (rule checks_parse [OF n])
  from con show "nonce_held (login_key y c) s \<and> \<not> nonce_held (login_key y c) (snd (login y c s))"
    using verify_siwe_nonce [OF m n]
    by (auto simp: c m consume_siwe_nonce_def Let_def nonce_key_def held_delete split: option.splits)
      (auto simp: nonce_held_def)
next
  fix k and c :: login_try and s :: nonce_store
  show "nonce_held k (snd (login y c s)) \<Longrightarrow> nonce_held k s"
    by (cases c) (auto simp: verify_siwe_def consume_siwe_nonce_def Let_def held_delete
        split: sum.splits prod.splits bool.splits option.splits)
next
  fix k and g :: nonce_grant and s :: nonce_store
  show "nonce_held k (granted g s) \<Longrightarrow> grant_key g = k \<or> nonce_held k s"
    by (cases g) (auto dest: held_issue)
qed

section \<open>The ledger as a hash chain\<close>

text \<open>
  A ledger keeps a list of entries per owner; an entry is only added when its \<open>prev\<close> is the link of
  the last entry of its owner (\<open>genesis\<close> for an empty list), and lands at the end when it is in order.
\<close>

locale chain_ledger =
  fixes entries :: "'s \<Rightarrow> 'o \<Rightarrow> 'a list"
    and owner :: "'a \<Rightarrow> 'o"
    and prev :: "'a \<Rightarrow> 'h"
    and link :: "'a \<Rightarrow> 'h"
    and genesis :: 'h
    and in_order :: "'s \<Rightarrow> 'a \<Rightarrow> bool"
    and add :: "'a \<Rightarrow> 's \<Rightarrow> 's option"
  assumes add_entries: "in_order s a \<Longrightarrow> add a s = Some s' \<Longrightarrow>
      entries s' k = (if k = owner a then entries s k @ [a] else entries s k)"
    and add_prev: "add a s = Some s' \<Longrightarrow>
      prev a = (if entries s (owner a) = [] then genesis else link (last (entries s (owner a))))"
begin

fun chained :: "'h \<Rightarrow> 'a list \<Rightarrow> bool" where
  "chained h [] = True"
| "chained h (a # as) = (prev a = h \<and> chained (link a) as)"

definition tip :: "'a list \<Rightarrow> 'h" where
  "tip as = (if as = [] then genesis else link (last as))"

lemma chained_snoc:
  "chained h (as @ [a]) \<longleftrightarrow> chained h as \<and> prev a = (if as = [] then h else link (last as))"
  by (induction as arbitrary: h) auto

definition try_add :: "'a \<Rightarrow> 's \<Rightarrow> 's" where
  "try_add a s = (case add a s of None \<Rightarrow> s | Some s' \<Rightarrow> s')"

fun all_in_order :: "'a list \<Rightarrow> 's \<Rightarrow> bool" where
  "all_in_order [] s = True"
| "all_in_order (a # as) s = (in_order s a \<and> all_in_order as (try_add a s))"

lemma chained_add:
  assumes "chained genesis (entries s k)" "in_order s a"
  shows "chained genesis (entries (try_add a s) k)"
  using assms add_entries [OF assms(2), of _ k] add_prev [of a s]
  by (auto simp: try_add_def chained_snoc split: option.splits)

lemma chained_run:
  "\<forall>k. chained genesis (entries s k) \<Longrightarrow> all_in_order as s \<Longrightarrow>
   \<forall>k. chained genesis (entries (fold try_add as s) k)"
  by (induction as arbitrary: s) (simp_all add: chained_add)

text \<open>With links that do not collide, the tip and the length determine the whole chain.\<close>

lemma tip_determines:
  "\<forall>a \<in> set as. \<forall>b \<in> set bs. link a = link b \<longrightarrow> a = b \<Longrightarrow>
   chained genesis as \<Longrightarrow> chained genesis bs \<Longrightarrow> length as = length bs \<Longrightarrow> tip as = tip bs \<Longrightarrow> as = bs"
proof (induction as arbitrary: bs rule: rev_induct)
  case (snoc a as)
  then obtain b bs' where bs: "bs = bs' @ [b]" by (cases bs rule: rev_cases) auto
  with snoc.prems have ab: "a = b" by (auto simp: tip_def)
  have "chained genesis as" "prev a = tip as" "chained genesis bs'" "prev b = tip bs'"
    using snoc.prems bs by (auto simp: chained_snoc tip_def)
  then have "as = bs'" using snoc.IH [of bs'] snoc.prems(1,4) bs ab by simp
  with ab bs show ?case by simp
qed simp

end

definition att_in_order :: "hosting \<Rightarrow> attestation \<Rightarrow> bool" where
  "att_in_order h a \<longleftrightarrow> (\<forall>b \<in> set (ledger_for (at_spinner_id a) h). at_ts b \<le> at_ts a)"

definition persist_ok :: "'k ext \<Rightarrow> attestation \<Rightarrow> hosting \<Rightarrow> hosting option" where
  "persist_ok x a h = (case persist_attestation x a h of Ok h' \<Rightarrow> Some h' | _ \<Rightarrow> None)"

abbreviation ledger_of :: "hosting \<Rightarrow> string \<Rightarrow> attestation list" where
  "ledger_of h sid \<equiv> ledger_for sid h"

lemma persist_Ok:
  assumes "persist_attestation x a h = Ok h'"
  shows "h_atts h' = h_atts h @ [a]" and "at_prev_hash a = fst (ledger_head x (at_spinner_id a) h)"
    and "verify x a = Ok ()" and "h_nonces h' = h_nonces h"
    and "t_get at_fill_id (at_fill_id a) (h_atts h) = None"
    and "to_lowercase (at_spinner_id a) = spinner_id_from_addr x (at_spinner_addr a)"
  using assms
  by (auto simp: persist_attestation_def persist_check_def persist_insert_def Let_def
      split: res.splits option.splits prod.splits if_splits)

lemma ledger_for_snoc:
  assumes "h_atts h' = h_atts h @ [a]" "att_in_order h a"
  shows "ledger_for k h' = (if k = at_spinner_id a then ledger_for k h @ [a] else ledger_for k h)"
proof (cases "k = at_spinner_id a")
  case True
  have "sort_key at_ts (xs @ [a]) = sort_key at_ts xs @ [a]" if "\<forall>b \<in> set xs. at_ts b \<le> at_ts a" for xs
    using that by (rule sort_key_snoc)
  with True assms show ?thesis by (simp add: ledger_for_def att_in_order_def)
next
  case False
  with assms(1) show ?thesis by (simp add: ledger_for_def)
qed

interpretation ledger: chain_ledger ledger_of at_spinner_id at_prev_hash "hash_for_chain x" zero_hash
    att_in_order "persist_ok x"
  for x
proof unfold_locales
  fix h a h' k
  assume "att_in_order h a" "persist_ok x a h = Some h'"
  then show "ledger_of h' k = (if k = at_spinner_id a then ledger_of h k @ [a] else ledger_of h k)"
    by (intro ledger_for_snoc persist_Ok(1) [of x]) (auto simp: persist_ok_def split: res.splits)
next
  fix h a h'
  assume "persist_ok x a h = Some h'"
  then have "persist_attestation x a h = Ok h'" by (auto simp: persist_ok_def split: res.splits)
  from persist_Ok(2) [OF this]
  show "at_prev_hash a = (if ledger_of h (at_spinner_id a) = [] then zero_hash
      else hash_for_chain x (last (ledger_of h (at_spinner_id a))))"
    by (simp add: ledger_head_def Let_def)
qed

section \<open>Properties\<close>

text \<open>Each entry's previous hash is the chain hash of the entry before it, from \<open>h\<close> on.\<close>

fun linked :: "'k ext \<Rightarrow> string \<Rightarrow> attestation list \<Rightarrow> bool" where
  "linked x h [] = True"
| "linked x h (a # as) = (at_prev_hash a = h \<and> linked x (hash_for_chain x a) as)"

definition submit :: "'k ext \<Rightarrow> attestation \<Rightarrow> hosting \<Rightarrow> hosting" where
  "submit x a h = (case persist_attestation x a h of Ok h' \<Rightarrow> h' | _ \<Rightarrow> h)"

fun submitted_in_order :: "'k ext \<Rightarrow> attestation list \<Rightarrow> hosting \<Rightarrow> bool" where
  "submitted_in_order x [] h = True"
| "submitted_in_order x (a # as) h = (att_in_order h a \<and> submitted_in_order x as (submit x a h))"

lemma linked_chained: "linked x h as = chain_ledger.chained at_prev_hash (hash_for_chain x) h as"
  by (induction as arbitrary: h) (simp_all add: ledger.chained.simps)

lemma submit_try_add: "submit x = chain_ledger.try_add (persist_ok x)"
  by (auto simp: fun_eq_iff submit_def ledger.try_add_def persist_ok_def split: res.splits)

lemma submitted_all_in_order:
  "submitted_in_order x as h = chain_ledger.all_in_order att_in_order (persist_ok x) as h"
  by (induction as arbitrary: h) (simp_all add: ledger.all_in_order.simps submit_try_add)

text \<open>C3. The ledger is a hash chain: from an empty registry, any sequence of submitted attestations, accepted
  or refused, whose time stamps do not go back within a spinner's ledger leaves every spinner's
  ledger, read oldest first, linked from the zero hash: each entry's previous hash is the chain hash
  of the entry before it.\<close>

theorem ledger_is_hash_chain:
  assumes "submitted_in_order x atts hosting_new"
  shows "linked x zero_hash (ledger_for sid (fold (submit x) atts hosting_new))"
proof -
  have "\<forall>k. linked x zero_hash (ledger_for k hosting_new)"
    by (simp add: ledger_for_def hosting_new_def)
  with ledger.chained_run [of x hosting_new atts] assms show ?thesis
    by (simp add: linked_chained submit_try_add submitted_all_in_order)
qed

theorem ledger_is_hash_chain_witness:
  "linked toy_ext zero_hash (ledger_for ''77777777'' (fold (submit toy_ext) [sample_att] hosting_new))"
  by (rule ledger_is_hash_chain) (simp add: att_in_order_def ledger_for_def hosting_new_def)

text \<open>The head is tamper evident: if the entries of two linked ledgers do not collide under the chain
  hash, and the ledgers have the same head (hash and count), they are equal, entry by entry and field
  by field.\<close>

theorem head_determines_ledger:
  assumes "\<forall>a \<in> set (ledger_for sid h). \<forall>b \<in> set (ledger_for sid h').
      hash_for_chain x a = hash_for_chain x b \<longrightarrow> a = b"
    and "linked x zero_hash (ledger_for sid h)" "linked x zero_hash (ledger_for sid h')"
    and "ledger_head x sid h = ledger_head x sid h'"
  shows "ledger_for sid h = ledger_for sid h'"
proof (rule ledger.tip_determines)
  show "length (ledger_for sid h) = length (ledger_for sid h')"
    and "chain_ledger.tip (hash_for_chain x) zero_hash (ledger_for sid h)
      = chain_ledger.tip (hash_for_chain x) zero_hash (ledger_for sid h')"
    using assms(4) by (auto simp: ledger_head_def ledger.tip_def Let_def split: if_splits)
qed (use assms in \<open>auto simp: linked_chained\<close>)

text \<open>Accepting an attestation does exactly this: it verified and names its own signer and the current head,
  its fill was new, it is appended to the table, nonces are untouched, and the accrued counter of the
  spinner's own registration, and of no other, grows by the builder share when its registered
  address is among the builder's addresses; a refused attestation changes nothing by construction.\<close>

theorem persist_effect:
  assumes "persist_attestation x a h = Ok h'"
  shows "verify x a = Ok () \<and> to_lowercase (at_spinner_id a) = spinner_id_from_addr x (at_spinner_addr a)
    \<and> at_prev_hash a = fst (ledger_head x (at_spinner_id a) h)
    \<and> t_get at_fill_id (at_fill_id a) (h_atts h) = None
    \<and> h_atts h' = h_atts h @ [a] \<and> h_nonces h' = h_nonces h
    \<and> (\<forall>i. t_get sr_id i (h_solvers h') =
         map_option (\<lambda>r. if i = at_spinner_id a \<and> is_builder x a r then add_accrued (builder_share a) r else r)
           (t_get sr_id i (h_solvers h)))"
proof (intro conjI allI)
  fix i
  have key: "sr_id (add_accrued n r) = sr_id r" for n r by (simp add: add_accrued_def)
  from assms show "t_get sr_id i (h_solvers h') =
      map_option (\<lambda>r. if i = at_spinner_id a \<and> is_builder x a r then add_accrued (builder_share a) r else r)
        (t_get sr_id i (h_solvers h))"
    by (cases "t_get sr_id i (h_solvers h)")
      (auto simp: persist_attestation_def persist_insert_def Let_def t_get_update [where key = sr_id, OF key]
        split: option.splits if_splits)
qed (rule persist_Ok [OF assms])+

text \<open>The chain check and the insertion are two critical sections: when two attestations of one spinner for different
  fills both pass the check before either is inserted, both insertions succeed, and the ledger then
  holds two entries with the same previous hash; run one after the other, the second is refused as
  soon as its previous hash is not the hash of the first.\<close>

theorem concurrent_persist_forks:
  assumes "persist_check x a h = Ok ()" "persist_check x b h = Ok ()"
    and "at_spinner_id a = at_spinner_id b" "at_fill_id a \<noteq> at_fill_id b"
    and fresh: "t_get at_fill_id (at_fill_id a) (h_atts h) = None" "t_get at_fill_id (at_fill_id b) (h_atts h) = None"
  shows "\<exists>h1 h2. persist_insert x a h = Ok h1 \<and> persist_insert x b h1 = Ok h2
      \<and> {a, b} \<subseteq> set (ledger_for (at_spinner_id a) h2) \<and> at_prev_hash a = at_prev_hash b
      \<and> (att_in_order h a \<longrightarrow> hash_for_chain x a \<noteq> at_prev_hash b \<longrightarrow>
           persist_attestation x b h1 = Err (BadChain (hash_for_chain x a) (at_prev_hash b)))"
proof -
  have prev: "at_prev_hash a = at_prev_hash b"
    using assms(1-3) by (auto simp: persist_check_def Let_def split: res.splits prod.splits if_splits)
  obtain h1 where h1: "persist_insert x a h = Ok h1" "h_atts h1 = h_atts h @ [a]"
    using fresh(1) by (auto simp: persist_insert_def Let_def)
  obtain h2 where h2: "persist_insert x b h1 = Ok h2" "h_atts h2 = h_atts h @ [a, b]"
    using fresh(2) assms(4) h1(2) by (auto simp: persist_insert_def Let_def t_get_snoc)
  have "persist_check x b h1 = Err (BadChain (hash_for_chain x a) (at_prev_hash b))"
    if "att_in_order h a" "hash_for_chain x a \<noteq> at_prev_hash b"
    using assms(2,3) that ledger_for_snoc [OF h1(2) that(1), of "at_spinner_id a"]
    by (auto simp: persist_check_def ledger_head_def Let_def split: res.splits if_splits)
  with prev h1 h2 assms(3) show ?thesis
    by (auto simp: persist_attestation_def ledger_for_def)
qed

text \<open>Ordering by the submitter's own time stamp lets a spinner fork its chain without any race: after an
  attestation whose time stamp is below the head's is accepted, the head does not move, so the next
  attestation is again required to carry, and is accepted with, the previous hash the backdated one
  already used.\<close>

theorem backdated_attestation_keeps_head:
  assumes "persist_attestation x a h = Ok h'" "ledger_for (at_spinner_id a) h \<noteq> []"
    and "at_ts a < at_ts (last (ledger_for (at_spinner_id a) h))"
  shows "fst (ledger_head x (at_spinner_id a) h') = at_prev_hash a"
proof -
  let ?rows = "filter (\<lambda>b. at_spinner_id b = at_spinner_id a) (h_atts h)"
  have "ledger_for (at_spinner_id a) h' = sort_key at_ts (?rows @ [a])"
    using persist_Ok(1) [OF assms(1)] by (simp add: ledger_for_def)
  moreover have "sort_key at_ts (?rows @ [a]) \<noteq> [] \<and> last (sort_key at_ts (?rows @ [a])) = last (sort_key at_ts ?rows)"
    using last_sort_key_snoc [where f = at_ts and a = a and xs = ?rows] assms(2,3) by (simp add: ledger_for_def)
  ultimately have "ledger_for (at_spinner_id a) h' \<noteq> []"
    "last (ledger_for (at_spinner_id a) h') = last (ledger_for (at_spinner_id a) h)"
    by (simp_all add: ledger_for_def)
  then show ?thesis
    using persist_Ok(2) [OF assms(1)] assms(2) by (simp add: ledger_head_def Let_def)
qed

text \<open>C20. A SIWE login is sound and single-use.  When verification succeeds: an address on the second line
  of the message is the checksum spelling of its bytes; the message parsed, is for this domain, chain
  and address and was not expired beyond the clock skew; the submitted signature text decodes to 65
  bytes that verify for this message; and its nonce was issued to that address within the last five
  minutes.  Afterwards no message with that nonce, whatever its text and signature, succeeds for that
  address, at any time and after any further attempts and issued nonces, unless the same nonce is
  issued to the same address again.\<close>

theorem siwe_sound_and_single_use:
  assumes "verify_siwe y now raw sg expected store = (Inr (), store')"
  shows "\<exists>m bs es ex issued.
      (\<forall>line. length (lines raw) > 1 \<and> line = trim (lines raw ! 1) \<and> starts_with line ''0x'' \<and> length line = 42
         \<longrightarrow> (\<exists>a. y_unhex y (trim_start_str ''0x'' line) = Some a \<and> (length a = 20 \<longrightarrow> y_checksum y a = line)))
      \<and> y_parse y raw = Some m \<and> si_domain m = y_domain y \<and> si_chain_id m = siwe_chain_id
      \<and> to_lowercase (''0x'' @ y_hex y (si_address m)) = to_lowercase expected
      \<and> si_expiration m = Some es \<and> y_rfc3339 y es = Some ex \<and> now < ex + siwe_clock_skew
      \<and> y_unhex y (trim_start_str ''0x'' sg) = Some bs \<and> length bs = 65
      \<and> y_verify y raw bs ((now - siwe_clock_skew) div 1000000000)
      \<and> map_of store (nonce_key expected (si_nonce m)) = Some issued \<and> nonce_live now issued
      \<and> (\<forall>es now' raw' sg' expected' m'.
           y_parse y raw' = Some m' \<and> nonce_key expected' (si_nonce m') = nonce_key expected (si_nonce m)
           \<and> (\<forall>g. Inl g \<in> set es \<longrightarrow> grant_key g \<noteq> nonce_key expected (si_nonce m))
           \<longrightarrow> fst (verify_siwe y now' raw' sg' expected' (nonce_run y es store')) \<noteq> Inr ())"
proof -
  from assms obtain n where chk: "verify_siwe_checks y now raw sg expected = Inr n"
    and con: "consume_siwe_nonce now expected n store = (True, store')"
    by (auto simp: verify_siwe_def split: sum.splits prod.splits bool.splits)
  from chk obtain m bs es ex where m: "check_address_line y raw = None" "y_parse y raw = Some m" "n = si_nonce m"
    "si_domain m = y_domain y" "si_chain_id m = siwe_chain_id"
    "to_lowercase (''0x'' @ y_hex y (si_address m)) = to_lowercase expected"
    "si_expiration m = Some es" "y_rfc3339 y es = Some ex" "now < ex + siwe_clock_skew"
    "y_unhex y (trim_start_str ''0x'' sg) = Some bs" "length bs = 65"
    "y_verify y raw bs ((now - siwe_clock_skew) div 1000000000)"
    unfolding verify_siwe_checks_def by (auto simp: not_le split: option.splits if_splits)
  from con obtain issued where issued: "map_of store (nonce_key expected n) = Some issued" "nonce_live now issued"
    by (auto simp: consume_siwe_nonce_def nonce_key_def Let_def split: option.splits)
  have spent: "login y (now, raw, sg, expected) store = (True, store')" using assms by simp
  have "fst (verify_siwe y now' raw' sg' expected' (nonce_run y es store')) \<noteq> Inr ()"
    if "y_parse y raw' = Some m'" "nonce_key expected' (si_nonce m') = nonce_key expected n"
      "\<forall>g. Inl g \<in> set es \<longrightarrow> grant_key g \<noteq> nonce_key expected n" for es now' raw' sg' expected' m'
  proof -
    have "\<not> fst (login y (now', raw', sg', expected') (login.run y es store'))"
      using login.no_second_spend [of y "(now, raw, sg, expected)" store "(now', raw', sg', expected')" es]
        spent that m(2,3) by simp
    then show ?thesis
      by (auto simp: nonce_run_def login.run_def split: prod.splits)
  qed
  moreover have "\<forall>line. length (lines raw) > 1 \<and> line = trim (lines raw ! 1) \<and> starts_with line ''0x'' \<and> length line = 42
      \<longrightarrow> (\<exists>a. y_unhex y (trim_start_str ''0x'' line) = Some a \<and> (length a = 20 \<longrightarrow> y_checksum y a = line))"
    using m(1) by (auto simp: check_address_line_def Let_def split: option.splits if_splits)
  ultimately show ?thesis using m issued by blast
qed

text \<open>The nonce store is bounded: issuing keeps it at or below 80,000 entries when it was, always makes the
  new nonce usable, keeps keys unique, and evicts only expired nonces or, at the cap, ones not
  issued after any nonce that stays.\<close>

theorem issue_nonce_bounded:
  fixes now :: int and address n :: string and store :: nonce_store
  assumes "distinct (map fst store)"
  defines "store' \<equiv> issue_siwe_nonce now address n store" and "k \<equiv> (to_lowercase (trim address), n)"
  shows "length store' \<le> siwe_nonce_max_entries \<and> map_of store' k = Some now \<and> distinct (map fst store')
    \<and> (\<forall>j issued. map_of store j = Some issued \<and> map_of store' j = None \<longrightarrow>
         \<not> nonce_live now issued \<or>
         (\<forall>i t. i \<noteq> k \<and> map_of store' i = Some t \<longrightarrow> issued \<le> t))"
proof -
  let ?cap = siwe_nonce_max_entries
  define live where "live = filter (\<lambda>(_, issued). nonce_live now issued) store"
  define kept where "kept = (if ?cap \<le> length live then drop (length live - (?cap - 1)) (sort_key snd live) else live)"
  have s': "store' = AList.update k now kept"
    by (simp add: store'_def k_def issue_siwe_nonce_def Let_def live_def kept_def)
  have len: "length kept < ?cap" by (simp add: kept_def siwe_nonce_max_entries_def)
  have "distinct (map fst live)" using assms(1) by (simp add: live_def distinct_map_filter)
  then have dist: "distinct (map fst kept)"
    using distinct_map_sort_key [of fst live snd] by (simp add: kept_def drop_map [symmetric] distinct_drop)
  have lookup: "map_of store' j = (if j = k then Some now else map_of kept j)" for j
    by (simp add: s' update_conv)
  have evict: "issued \<le> t" if "map_of store j = Some issued" "nonce_live now issued" "map_of kept j = None"
    "map_of kept i = Some t" for i j issued t
  proof -
    have "(j, issued) \<in> set live" using that by (auto simp: live_def dest: map_of_SomeD)
    moreover have "(j, issued) \<notin> set kept" using that(3) by (force simp: map_of_eq_None_iff)
    moreover have "(i, t) \<in> set kept" using that(4) by (rule map_of_SomeD)
    ultimately have "?cap \<le> length live" by (auto simp: kept_def split: if_splits)
    with \<open>(j, issued) \<in> set live\<close> \<open>(j, issued) \<notin> set kept\<close> \<open>(i, t) \<in> set kept\<close> show ?thesis
      using drop_sort_key_greatest [of "(j, issued)" live "length live - (?cap - 1)" snd "(i, t)"]
      by (simp add: kept_def)
  qed
  show ?thesis
  proof (intro conjI allI impI)
    show "length store' \<le> ?cap" using len length_alist_update [of k now kept] by (simp add: s')
    show "map_of store' k = Some now" by (simp add: lookup)
    show "distinct (map fst store')" using dist by (simp add: s' distinct_update)
    fix j issued
    assume j: "map_of store j = Some issued \<and> map_of store' j = None"
    then have "map_of kept j = None" by (auto simp: lookup split: if_splits)
    with j evict show "\<not> nonce_live now issued \<or>
        (\<forall>i t. i \<noteq> k \<and> map_of store' i = Some t \<longrightarrow> issued \<le> t)"
      by (fastforce simp: lookup)
  qed
qed

lemma t_get_replace_solver: "t_get sr_id (sr_id r) (replace_solver r rows) = Some r"
proof -
  have "t_get sr_id (sr_id r) (filter (\<lambda>s. sr_id s \<noteq> sr_id r \<and> sr_evm s \<noteq> sr_evm r) rows) = None"
    by (auto simp: t_get_None)
  then show ?thesis by (simp add: replace_solver_def t_get_snoc)
qed

text \<open>A concrete registry for the witnesses.\<close>

definition toy_siwe :: siwe_ext where
  "toy_siwe = \<lparr>y_parse = (\<lambda>_. Some \<lparr>si_domain = ''d'', si_chain_id = 1, si_address = [],
       si_expiration = Some [], si_nonce = ''n''\<rparr>),
     y_verify = (\<lambda>_ _ _. True), y_checksum = (\<lambda>_. []), y_hex = (\<lambda>_. []),
     y_unhex = (\<lambda>_. Some (replicate 65 0)), y_rfc3339 = (\<lambda>_. Some 100), y_token_hash = (\<lambda>t. t),
     y_domain = ''d''\<rparr>"

definition sample_request :: provision_request where
  "sample_request = \<lparr>pr_name = ''n'', pr_evm = ''0X'' @ replicate 40 CHR ''7'', pr_solana = None, pr_mode = None,
     pr_webhook = None, pr_safe = None, pr_email = None, pr_chains = None, pr_protocols = None,
     pr_siwe_message = None, pr_signature = None\<rparr>"

definition sample_solver_row :: solver_row where
  "sample_solver_row = (provisioned_row toy_siwe 1 ''old'' sample_request True)\<lparr>sr_accrued := 900\<rparr>"

text \<open>Provisioning takes no proof of ownership: a request without a SIWE message and signature for any
  42-character address starting with 0x succeeds, whatever is registered already, and leaves the
  registration of that id unverified, with a zero accrued counter and the hash of the new token.\<close>

theorem unauthenticated_provision_resets:
  assumes "pr_siwe_message req = None" "pr_signature req = None"
    and addr: "starts_with (to_lowercase (trim (pr_evm req))) ''0x''" "length (to_lowercase (trim (pr_evm req))) = 42"
  shows "\<exists>s h'. provision y now token req h = (Inr (s, token), h') \<and> h_nonces h' = h_nonces h
    \<and> (\<exists>r. t_get sr_id (take 8 (drop 2 (to_lowercase (trim (pr_evm req))))) (h_solvers h') = Some r
         \<and> sr_accrued r = 0 \<and> sr_siwe_verified r = 0 \<and> sr_token_hash r = y_token_hash y token
         \<and> sr_evm r = to_lowercase (trim (pr_evm req)))"
  using assms
proof -
  let ?r = "provisioned_row y now token req False"
  have "provision y now token req h = (Inr (row_to_solver ?r, token),
      h\<lparr>h_nonces := h_nonces h, h_solvers := replace_solver ?r (h_solvers h)\<rparr>)"
    using assms by (simp add: provision_def Let_def)
  moreover have "t_get sr_id (sr_id ?r) (replace_solver ?r (h_solvers h)) = Some ?r"
    by (rule t_get_replace_solver)
  moreover have "sr_id ?r = take 8 (drop 2 (to_lowercase (trim (pr_evm req))))"
    "sr_accrued ?r = 0 \<and> sr_siwe_verified ?r = 0 \<and> sr_token_hash ?r = y_token_hash y token
         \<and> sr_evm ?r = to_lowercase (trim (pr_evm req))"
    by (simp_all add: provisioned_row_def Let_def)
  ultimately show ?thesis by (intro exI [of _ "row_to_solver ?r"] exI conjI) (assumption | simp)+
qed

theorem unauthenticated_provision_resets_witness:
  "\<exists>s h'. provision toy_siwe 5 ''t'' sample_request (hosting_new\<lparr>h_solvers := [sample_solver_row]\<rparr>) = (Inr (s, ''t''), h')"
proof -
  have "starts_with (to_lowercase (trim (pr_evm sample_request))) ''0x''"
    "length (to_lowercase (trim (pr_evm sample_request))) = 42" by code_simp+
  from unauthenticated_provision_resets [OF _ _ this, of toy_siwe 5 "''t''" "hosting_new\<lparr>h_solvers := [sample_solver_row]\<rparr>"]
  show ?thesis by (auto simp: sample_request_def)
qed

section \<open>Witnesses\<close>

definition toy_att :: "outcome \<Rightarrow> string \<Rightarrow> attestation" where
  "toy_att fill prev = (case attest toy_ext fill (registry_new 9) () prev of Ok a \<Rightarrow> a)"

lemma two_usd: "usd_to_micro (Fin 2) = 2000000"
  by code_simp

lemma toy_simps:
  "x_address toy_ext k = 7" "x_sign toy_ext k m = Some (replicate 65 0)"
  "spinner_id_from_addr toy_ext 7 = ''77777777''"
proof -
  show "spinner_id_from_addr toy_ext 7 = ''77777777''" by code_simp
qed (simp_all add: toy_ext_def)

lemma toy_att:
  assumes "o_fee fill = Some (Fin 2)"
  shows "verify toy_ext (toy_att fill prev) = Ok ()" "at_spinner_id (toy_att fill prev) = ''77777777''"
    "at_spinner_addr (toy_att fill prev) = 7" "at_prev_hash (toy_att fill prev) = prev"
    "at_ts (toy_att fill prev) = o_ts fill" "at_fill_id (toy_att fill prev) = derive_fill_id fill"
proof -
  have inflow: "fill_inflow fill = 2000000" using assms by (simp add: fill_inflow_def unwrap_or_def two_usd)
  have frac: "bps_for (registry_new 9) (adapter_id_for_outcome fill) = (1, 1)"
    and ov: "no_overflow (fill_inflow fill) 1 1"
    by (simp_all add: bps_for_def registry_new_def default_redistribution_def inflow no_overflow_def builder_num_def)
  obtain d b r e where red: "compute_redistribution_micro 2000000 1 1 = Some (d, b, r, e)"
    using redistribution_shape [of 1 1 2000000] ov inflow by (metis zero_le_one zero_less_one)
  obtain u where u: "unsigned_attestation toy_ext fill (registry_new 9) () prev = Some u"
    "at_spinner_id u = ''77777777''" "at_ts u = o_ts fill" "at_fill_id u = derive_fill_id fill"
    by (simp add: unsigned_attestation_def Let_def frac red inflow toy_simps)
  obtain a where a: "attest toy_ext fill (registry_new 9) () prev = Ok a"
    and f: "at_spinner_id a = ''77777777''" "at_ts a = o_ts fill" "at_fill_id a = derive_fill_id fill"
    using u by (simp add: attest_def toy_simps)
  with attest_verifies_core [OF toy_ok frac _ _ ov, of "()" prev]
  have "verify toy_ext a = Ok ()" "at_prev_hash a = prev" "at_spinner_addr a = 7"
    by (auto simp: toy_simps)
  with a f show "verify toy_ext (toy_att fill prev) = Ok ()" "at_spinner_id (toy_att fill prev) = ''77777777''"
    "at_spinner_addr (toy_att fill prev) = 7" "at_prev_hash (toy_att fill prev) = prev"
    "at_ts (toy_att fill prev) = o_ts fill" "at_fill_id (toy_att fill prev) = derive_fill_id fill"
    by (simp_all add: toy_att_def)
qed

lemma toy_hash: "hash_for_chain toy_ext a = ''0x''"
  by (simp add: hash_for_chain_def toy_ext_def)

lemma toy_check:
  assumes "o_fee fill = Some (Fin 2)" "prev = fst (ledger_head toy_ext ''77777777'' h)"
  shows "persist_check toy_ext (toy_att fill prev) h = Ok ()"
proof -
  have "to_lowercase ''77777777'' = spinner_id_from_addr toy_ext 7" by code_simp
  with assms show ?thesis by (simp add: persist_check_def toy_att Let_def split: prod.splits)
qed

lemma toy_persist:
  assumes "o_fee fill = Some (Fin 2)" "prev = fst (ledger_head toy_ext ''77777777'' h)"
    "t_get at_fill_id (derive_fill_id fill) (h_atts h) = None" "h_solvers h = []"
  shows "persist_attestation toy_ext (toy_att fill prev) h = Ok (h\<lparr>h_atts := h_atts h @ [toy_att fill prev]\<rparr>)"
  using toy_check [OF assms(1,2)] assms
  by (simp add: persist_attestation_def persist_insert_def toy_att Let_def)

abbreviation "fill_a \<equiv> sample_fill"
abbreviation "fill_b \<equiv> sample_fill\<lparr>o_intent_id := ''b'', o_ts := 3\<rparr>"

lemma fills: "o_fee fill_a = Some (Fin 2)" "o_fee fill_b = Some (Fin 2)" "o_ts fill_a = 5"
  "derive_fill_id fill_a = ''a:0x1''" "derive_fill_id fill_b = ''b:0x1''"
  by (simp_all add: sample_fill_def sample_outcome_def derive_fill_id_def)

abbreviation "ledger_a \<equiv> hosting_new\<lparr>h_atts := [toy_att fill_a zero_hash]\<rparr>"

lemma head_new: "ledger_head x sid hosting_new = (zero_hash, 0)"
  by (simp add: ledger_head_def ledger_for_def hosting_new_def)

lemma ledger_a: "ledger_for ''77777777'' ledger_a = [toy_att fill_a zero_hash]"
  by (simp add: ledger_for_def toy_att fills)

lemma persist_a: "persist_attestation toy_ext (toy_att fill_a zero_hash) hosting_new = Ok ledger_a"
  using toy_persist [of fill_a zero_hash hosting_new] by (simp add: fills head_new) (simp add: hosting_new_def)

theorem persist_effect_witness:
  "verify toy_ext (toy_att fill_a zero_hash) = Ok () \<and> h_atts ledger_a = [toy_att fill_a zero_hash]"
  using persist_effect [OF persist_a] by (simp add: hosting_new_def)

theorem head_determines_ledger_witness:
  "ledger_for ''77777777'' ledger_a = ledger_for ''77777777'' (ledger_a\<lparr>h_nonces := [((''x'', ''y''), 1)]\<rparr>)"
proof (rule head_determines_ledger [of _ _ _ toy_ext])
  have same: "ledger_for ''77777777'' (ledger_a\<lparr>h_nonces := ns\<rparr>) = [toy_att fill_a zero_hash]" for ns
    using ledger_a by (simp add: ledger_for_def)
  show "linked toy_ext zero_hash (ledger_for ''77777777'' ledger_a)"
    by (simp add: ledger_a toy_att fills)
  show "linked toy_ext zero_hash (ledger_for ''77777777'' (ledger_a\<lparr>h_nonces := [((''x'', ''y''), 1)]\<rparr>))"
    by (simp add: same toy_att fills)
  show "\<forall>a \<in> set (ledger_for ''77777777'' ledger_a).
      \<forall>b \<in> set (ledger_for ''77777777'' (ledger_a\<lparr>h_nonces := [((''x'', ''y''), 1)]\<rparr>)).
        hash_for_chain toy_ext a = hash_for_chain toy_ext b \<longrightarrow> a = b"
    by (simp add: ledger_a same)
  show "ledger_head toy_ext ''77777777'' ledger_a
      = ledger_head toy_ext ''77777777'' (ledger_a\<lparr>h_nonces := [((''x'', ''y''), 1)]\<rparr>)"
    by (simp add: ledger_head_def ledger_a same)
qed

theorem concurrent_persist_forks_witness:
  "\<exists>h1 h2. persist_insert toy_ext (toy_att fill_a zero_hash) hosting_new = Ok h1
      \<and> persist_insert toy_ext (toy_att fill_b zero_hash) h1 = Ok h2"
proof -
  have "persist_check toy_ext (toy_att fill_a zero_hash) hosting_new = Ok ()"
    "persist_check toy_ext (toy_att fill_b zero_hash) hosting_new = Ok ()"
    by (rule toy_check; simp add: fills head_new)+
  from concurrent_persist_forks [OF this] show ?thesis
    by (simp add: toy_att fills hosting_new_def) blast
qed

theorem backdated_attestation_keeps_head_witness:
  "fst (ledger_head toy_ext ''77777777'' (ledger_a\<lparr>h_atts := h_atts ledger_a @ [toy_att fill_b ''0x'']\<rparr>)) = ''0x''"
proof -
  have head: "fst (ledger_head toy_ext ''77777777'' ledger_a) = ''0x''"
    by (simp add: ledger_head_def ledger_a toy_hash)
  have "persist_attestation toy_ext (toy_att fill_b ''0x'') ledger_a
      = Ok (ledger_a\<lparr>h_atts := h_atts ledger_a @ [toy_att fill_b ''0x'']\<rparr>)"
    by (rule toy_persist) (simp_all add: fills head t_get_def toy_att, simp add: hosting_new_def)
  from backdated_attestation_keeps_head [OF this] show ?thesis
    by (simp add: toy_att fills ledger_a)
qed

theorem siwe_sound_and_single_use_witness:
  "fst (verify_siwe toy_siwe 12 ''again'' ''s'' ''0x'' (nonce_run toy_siwe [Inl (11, ''0x'', ''m'')] [])) \<noteq> Inr ()"
proof -
  have "verify_siwe toy_siwe 10 [] [] ''0x'' [((''0x'', ''n''), 5)] = (Inr (), [])" by code_simp
  from siwe_sound_and_single_use [OF this] show ?thesis
    by (elim exE conjE) (auto simp: toy_siwe_def nonce_key_def)
qed

theorem issue_nonce_bounded_witness:
  "length (issue_siwe_nonce 7 ''0xA'' ''n'' []) \<le> siwe_nonce_max_entries"
  using issue_nonce_bounded [of "[]" 7 "''0xA''" "''n''"] by simp

end
