(* ===== verification/Api.thy ===== *)
theory Api
  imports Hosting
begin

unbundle bit_operations_syntax

text \<open>
  The HTTP boundary of the solver API (\<open>crates/solver-api/src/lib.rs\<close>): the bearer-token gate in front
  of every mutating route, and the attestation routes over the hosting registry.  A request is the
  value of its \<open>Authorization\<close> header (\<open>None\<close>: absent, or not visible ASCII) and its decoded body, a
  reply its status and what the client reads of its body.
\<close>

section \<open>The token gate\<close>

definition byte_at :: "string \<Rightarrow> nat \<Rightarrow> u8" where
  "byte_at s i = (if i < length s then of_nat (of_char (s ! i)) else 0)"

definition ct_acc :: "string \<Rightarrow> string \<Rightarrow> u8" where
  "ct_acc p e = fold (\<lambda>i acc. acc OR (byte_at p i XOR byte_at e i)) [0..<max (length p) (length e)] 0"

definition provided_token :: "string option \<Rightarrow> string" where
  "provided_token hdr =
     (case Option.bind hdr (\<lambda>s. strip_prefix s ''Bearer '') of None \<Rightarrow> '''' | Some t \<Rightarrow> trim t)"

text \<open>\<open>env\<close> is the variable \<open>SOLVER_API_TOKEN\<close>.\<close>

definition require_solver_api_token :: "string option \<Rightarrow> string option \<Rightarrow> bool" where
  "require_solver_api_token env hdr =
     (case env of
        None \<Rightarrow> False
      | Some expected \<Rightarrow>
          if trim expected = [] then False
          else let provided = provided_token hdr
               in if length provided \<noteq> length expected \<or> ct_acc provided expected \<noteq> 0 then False else True)"

section \<open>Attestation routes\<close>

text \<open>A handler that panics closes the connection: the client sees no status.\<close>

definition donut_attest_handler :: "'k ext \<Rightarrow> attestation \<Rightarrow> hosting \<Rightarrow> nat option \<times> hosting" where
  "donut_attest_handler x att h =
     (case persist_attestation x att h of
        Ok h' \<Rightarrow> (Some 200, h')
      | Err e \<Rightarrow>
          ((case e of InvalidSignature _ \<Rightarrow> Some 400 | DuplicateFill _ \<Rightarrow> Some 409
            | BadChain _ _ \<Rightarrow> Some 422 | Internal _ \<Rightarrow> Some 500), h)
      | Panic \<Rightarrow> (None, h))"

definition donut_head_handler :: "'k ext \<Rightarrow> string \<Rightarrow> hosting \<Rightarrow> string" where
  "donut_head_handler x sid h = fst (ledger_head x sid h)"

definition donut_ledger_handler :: "string \<Rightarrow> hosting \<Rightarrow> string list" where
  "donut_ledger_handler sid h = map at_fill_id (ledger_for sid h)"

text \<open>The gated route.\<close>

definition attest_route :: "'k ext \<Rightarrow> string option \<Rightarrow> string option \<Rightarrow> attestation \<Rightarrow> hosting \<Rightarrow> nat option \<times> hosting" where
  "attest_route x env hdr att h =
     (if require_solver_api_token env hdr then donut_attest_handler x att h else (Some 401, h))"

section \<open>The comparison\<close>

lemma or_zero_iff: "(a :: u8) OR b = 0 \<longleftrightarrow> a = 0 \<and> b = 0"
  by (rule or_eq_0_iff)

lemma xor_zero_iff: "(a :: u8) XOR b = 0 \<longleftrightarrow> a = b"
  by (metis xor.assoc xor_self_eq xor.left_neutral xor.right_neutral)

lemma ct_acc_fold:
  "fold (\<lambda>i acc. acc OR (byte_at p i XOR byte_at e i)) is a = 0 \<longleftrightarrow>
     a = 0 \<and> (\<forall>i \<in> set is. byte_at p i = byte_at e i)"
  by (induction "is" arbitrary: a) (auto simp: or_zero_iff xor_zero_iff)

lemma byte_inj: "of_nat (of_char c) = (of_nat (of_char d) :: u8) \<longleftrightarrow> c = d"
proof
  assume "of_nat (of_char c) = (of_nat (of_char d) :: u8)"
  then have "(of_char c :: nat) mod 256 = of_char d mod 256"
    by (simp add: word_of_nat_eq_iff take_bit_eq_mod)
  then have "char_of ((of_char c :: nat) mod 256) = (char_of ((of_char d :: nat) mod 256) :: char)" by (rule arg_cong)
  then show "c = d" by simp
qed simp

lemma ct_equal: "length p = length e \<and> ct_acc p e = 0 \<longleftrightarrow> p = e"
proof
  assume eq: "length p = length e \<and> ct_acc p e = 0"
  then have "\<forall>i < length e. byte_at p i = byte_at e i" by (simp add: ct_acc_def ct_acc_fold)
  with eq show "p = e" by (intro nth_equalityI) (auto simp: byte_at_def byte_inj)
qed (auto simp only: ct_acc_def ct_acc_fold)

lemma trim_edges:
  assumes "trim s \<noteq> []"
  shows "\<not> is_space (hd (trim s)) \<and> \<not> is_space (last (trim s))"
proof -
  let ?a = "dropWhile is_space s"
  let ?b = "dropWhile is_space (rev ?a)"
  have b: "?b \<noteq> []" using assms by (simp only: trim_def rev_is_Nil_conv not_False_eq_True)
  have "?a \<noteq> []" using b by (metis dropWhile.simps(1) rev.simps(1))
  obtain u where u: "rev ?a = u @ ?b" by (metis takeWhile_dropWhile_id)
  have "last ?b = last (u @ ?b)" using b by (rule last_appendR [symmetric])
  then have "last ?b = hd ?a" unfolding u [symmetric] using \<open>?a \<noteq> []\<close> by (simp only: last_rev)
  moreover have "\<not> is_space (hd ?a)" using \<open>?a \<noteq> []\<close> by (rule hd_dropWhile)
  moreover have "\<not> is_space (hd ?b)" using b by (rule hd_dropWhile)
  ultimately show ?thesis using b by (simp only: trim_def hd_rev last_rev not_False_eq_True simp_thms)
qed

lemma trim_idem [simp]: "trim (trim s) = trim s"
proof (cases "trim s = []")
  case True
  then show ?thesis by (simp only: trim_def [of "[]"]) simp
next
  case False
  then have "dropWhile is_space (trim s) = trim s" "dropWhile is_space (rev (trim s)) = rev (trim s)"
    using trim_edges [of s] by (auto simp: dropWhile_eq_self_iff hd_rev)
  then show ?thesis by (simp add: trim_def [of "trim s"])
qed

text \<open>The constant-time gate is string equality: a request passes exactly when a token that is not
  blank is configured and the header is \<open>Bearer\<close> with that token, up to white space around the token
  sent.  The configured token is not trimmed, so one with white space at either end (a trailing line
  break in an environment file) locks every caller out.\<close>

theorem token_gate_exact:
  "require_solver_api_token env hdr \<longleftrightarrow>
     (\<exists>t. env = Some t \<and> t \<noteq> [] \<and> trim t = t \<and> provided_token hdr = t)"
proof (cases env)
  case None
  then show ?thesis by (simp add: require_solver_api_token_def)
next
  case (Some t)
  have "trim [] = []" by (simp add: trim_def)
  then have "trim (provided_token hdr) = provided_token hdr"
    by (simp add: provided_token_def split: option.split)
  moreover have "require_solver_api_token env hdr \<longleftrightarrow> trim t \<noteq> [] \<and> provided_token hdr = t"
    using ct_equal [of "provided_token hdr" t] by (simp add: require_solver_api_token_def Let_def Some) blast
  ultimately show ?thesis unfolding Some by auto
qed

end
