(* ===== verification/Pump.thy ===== *)
theory Pump
  imports Api
begin

text \<open>
  The attestation pump (\<open>crates/solver-main/src/attestation_pump.rs\<close>): it reads executed fills from the
  outcome log, has the adjudicator attest each, and posts the attestations to the hosting registry
  behind the token gate.  The HTTP client is the documented behaviour of a request with a time-out: it
  is delivered and answered, lost on the way, or delivered with its reply lost; which of these comes
  next is the schedule \<open>w_net\<close> (no faults once it is used up).
\<close>

section \<open>Requests over the network\<close>

datatype fault = Deliver | Lose_Request | Lose_Reply

record world =
  w_srv :: hosting
  w_net :: "fault list"

definition exchange :: "(hosting \<Rightarrow> 'r option \<times> hosting) \<Rightarrow> world \<Rightarrow> 'r option \<times> world" where
  "exchange req w =
     (let (r, h) = req (w_srv w)
      in case w_net w of
           [] \<Rightarrow> (r, w\<lparr>w_srv := h\<rparr>)
         | f # fs \<Rightarrow>
             (case f of
                Deliver \<Rightarrow> (r, w\<lparr>w_srv := h, w_net := fs\<rparr>)
              | Lose_Request \<Rightarrow> (None, w\<lparr>w_net := fs\<rparr>)
              | Lose_Reply \<Rightarrow> (None, w\<lparr>w_srv := h, w_net := fs\<rparr>)))"

section \<open>The pump\<close>

text \<open>The configuration and the loaded registry, the signer, and the token the server is configured with.\<close>

record 'k pump_env =
  pe_ext :: "'k ext"
  pe_reg :: adapter_registry
  pe_signer :: 'k
  pe_token :: string
  pe_server_token :: "string option"

definition pump_spinner_id :: "'k pump_env \<Rightarrow> string" where
  "pump_spinner_id E = spinner_id_from_addr (pe_ext E) (x_address (pe_ext E) (pe_signer E))"

definition pump_fill_id :: "outcome \<Rightarrow> string" where
  "pump_fill_id r =
     (let nanos = (if in_i64 (o_ts r) then o_ts r else 0)
      in case o_tx_hash r of
           None \<Rightarrow> o_intent_id r @ '':'' @ show_int nanos
         | Some h \<Rightarrow> if h \<noteq> [] then o_intent_id r @ '':'' @ h else o_intent_id r @ '':'' @ show_int nanos)"

datatype post_status = PsOk | PsDuplicate | PsBadChain | PsOther nat

datatype post_outcome = Persisted string | Duplicate | Resynced string

definition bearer :: "string \<Rightarrow> string" where
  "bearer t = ''Bearer '' @ t"

definition post_attestation :: "'k pump_env \<Rightarrow> attestation \<Rightarrow> world \<Rightarrow> post_status option \<times> world" where
  "post_attestation E att w =
     (let (st, w') = exchange (attest_route (pe_ext E) (pe_server_token E) (Some (bearer (pe_token E))) att) w
      in (map_option (\<lambda>n. if n = 200 then PsOk else if n = 409 then PsDuplicate
            else if n = 422 then PsBadChain else PsOther n) st, w'))"

definition fetch_head :: "'k pump_env \<Rightarrow> world \<Rightarrow> string option \<times> world" where
  "fetch_head E = exchange (\<lambda>h. (Some (donut_head_handler (pe_ext E) (pump_spinner_id E) h), h))"

definition bootstrap_seen_set :: "'k pump_env \<Rightarrow> world \<Rightarrow> string list option \<times> world" where
  "bootstrap_seen_set E = exchange (\<lambda>h. (Some (donut_ledger_handler (pump_spinner_id E) h), h))"

definition attest_and_post ::
    "'k pump_env \<Rightarrow> outcome \<Rightarrow> string \<Rightarrow> world \<Rightarrow> (msg, post_outcome) res \<times> world" where
  "attest_and_post E r prev w =
     (case attest (pe_ext E) r (pe_reg E) (pe_signer E) prev of
        Panic \<Rightarrow> (Panic, w)
      | Err e \<Rightarrow> (Err e, w)
      | Ok att \<Rightarrow>
          (case post_attestation E att w of
             (None, w1) \<Rightarrow> (Err (lit ''request failed''), w1)
           | (Some PsOk, w1) \<Rightarrow> (Ok (Persisted (hash_for_chain (pe_ext E) att)), w1)
           | (Some PsDuplicate, w1) \<Rightarrow> (Ok Duplicate, w1)
           | (Some (PsOther n), w1) \<Rightarrow> (Err (Msg ''server returned {}'' [ANat n]), w1)
           | (Some PsBadChain, w1) \<Rightarrow>
               let (head, w2) = fetch_head E w1; new_head = (case head of None \<Rightarrow> prev | Some h \<Rightarrow> h)
               in case attest (pe_ext E) r (pe_reg E) (pe_signer E) new_head of
                    Panic \<Rightarrow> (Panic, w2)
                  | Err e \<Rightarrow> (Err e, w2)
                  | Ok att2 \<Rightarrow>
                      (case post_attestation E att2 w2 of
                         (None, w3) \<Rightarrow> (Err (lit ''request failed''), w3)
                       | (Some PsOk, w3) \<Rightarrow> (Ok (Persisted (hash_for_chain (pe_ext E) att2)), w3)
                       | (Some PsDuplicate, w3) \<Rightarrow> (Ok Duplicate, w3)
                       | (Some PsBadChain, w3) \<Rightarrow> (Ok (Resynced new_head), w3)
                       | (Some (PsOther n), w3) \<Rightarrow> (Ok (Resynced new_head), w3))))"

record pump =
  pu_seen :: "string set"
  pu_prev :: string
  pu_last :: "int option"
  pu_dead :: bool

definition pump_boot :: "'k pump_env \<Rightarrow> world \<Rightarrow> pump \<times> world" where
  "pump_boot E w =
     (let (ids, w1) = bootstrap_seen_set E w; (head, w2) = fetch_head E w1
      in (\<lparr>pu_seen = (case ids of None \<Rightarrow> {} | Some xs \<Rightarrow> set xs),
           pu_prev = (case head of None \<Rightarrow> zero_hash | Some h \<Rightarrow> h), pu_last = None, pu_dead = False\<rparr>, w2))"

text \<open>One scanned row.  A panic ends the task.\<close>

definition pump_row :: "'k pump_env \<Rightarrow> outcome \<Rightarrow> pump \<times> world \<Rightarrow> pump \<times> world" where
  "pump_row E r pw =
     (let (p, w) = pw; fid = pump_fill_id r;
          p1 = (if (case pu_last p of None \<Rightarrow> True | Some t \<Rightarrow> t < o_ts r)
                then p\<lparr>pu_last := Some (o_ts r)\<rparr> else p)
      in if pu_dead p then (p, w)
         else if fid \<in> pu_seen p1 then (p1, w)
         else (case attest_and_post E r (pu_prev p1) w of
                 (Panic, w1) \<Rightarrow> (p1\<lparr>pu_dead := True\<rparr>, w1)
               | (Err e, w1) \<Rightarrow> (p1, w1)
               | (Ok (Persisted h), w1) \<Rightarrow> (p1\<lparr>pu_seen := insert fid (pu_seen p1), pu_prev := h\<rparr>, w1)
               | (Ok Duplicate, w1) \<Rightarrow>
                   let (head, w2) = fetch_head E w1; p2 = p1\<lparr>pu_seen := insert fid (pu_seen p1)\<rparr>
                   in ((case head of None \<Rightarrow> p2 | Some h \<Rightarrow> p2\<lparr>pu_prev := h\<rparr>), w2)
               | (Ok (Resynced h), w1) \<Rightarrow> (p1\<lparr>pu_prev := h\<rparr>, w1)))"

definition pump_tick :: "'k pump_env \<Rightarrow> outcome_log \<Rightarrow> pump \<times> world \<Rightarrow> pump \<times> world" where
  "pump_tick E rows pw =
     (if pu_dead (fst pw) then pw else fold (pump_row E) (list_executed 500 (pu_last (fst pw)) rows) pw)"

text \<open>The fills a registry holds.\<close>

definition srv_ids :: "world \<Rightarrow> string set" where
  "srv_ids w = at_fill_id ` set (h_atts (w_srv w))"
section \<open>What a request can do\<close>

lemma pump_fill_id_agrees: "pump_fill_id r = derive_fill_id r"
  by (simp add: pump_fill_id_def derive_fill_id_def Let_def split: option.split)

text \<open>The registry only gains fills, and only those of the given set.\<close>

definition gains :: "string set \<Rightarrow> world \<Rightarrow> world \<Rightarrow> bool" where
  "gains F w w' \<longleftrightarrow> srv_ids w \<subseteq> srv_ids w' \<and> srv_ids w' \<subseteq> srv_ids w \<union> F"

lemma gains_refl [simp]: "gains F w w"
  by (simp add: gains_def)

lemma gains_trans: "gains F w w1 \<Longrightarrow> gains G w1 w2 \<Longrightarrow> gains (F \<union> G) w w2"
  by (auto simp: gains_def)

lemma gains_trans_same: "gains F w w1 \<Longrightarrow> gains F w1 w2 \<Longrightarrow> gains F w w2"
  using gains_trans [of F w w1 F w2] by simp

lemma duplicate_held:
  assumes "persist_attestation x att h = Err (DuplicateFill i)"
  shows "at_fill_id att \<in> at_fill_id ` set (h_atts h)"
proof -
  have "t_get at_fill_id (at_fill_id att) (h_atts h) \<noteq> None"
    using assms
    by (auto simp: persist_attestation_def persist_check_def persist_insert_def Let_def
        split: res.splits option.splits prod.splits if_splits)
  then show ?thesis by (auto simp: t_get_None)
qed

lemma handler_effect:
  assumes "attest_route x env hdr att h = (st, h')"
  shows "(st = Some 200 \<and> h_atts h' = h_atts h @ [att] \<and> t_get at_fill_id (at_fill_id att) (h_atts h) = None
      \<or> st \<noteq> Some 200 \<and> h' = h)
    \<and> (st = Some 409 \<longrightarrow> at_fill_id att \<in> at_fill_id ` set (h_atts h))"
proof (cases "require_solver_api_token env hdr")
  case True
  then have route: "donut_attest_handler x att h = (st, h')" using assms by (simp add: attest_route_def)
  show ?thesis
  proof (cases "persist_attestation x att h")
    case (Ok h1)
    with route show ?thesis using persist_Ok(1,5) [OF Ok] by (auto simp: donut_attest_handler_def)
  next
    case (Err e)
    with route show ?thesis using duplicate_held [of x att h] by (cases e) (auto simp: donut_attest_handler_def)
  next
    case Panic
    with route show ?thesis by (auto simp: donut_attest_handler_def)
  qed
qed (use assms in \<open>auto simp: attest_route_def\<close>)

lemma post_effect:
  assumes "post_attestation E att w = (st, w')"
  shows "(h_atts (w_srv w') = h_atts (w_srv w)
        \<or> h_atts (w_srv w') = h_atts (w_srv w) @ [att] \<and> t_get at_fill_id (at_fill_id att) (h_atts (w_srv w)) = None)
    \<and> (st \<in> {Some PsOk, Some PsDuplicate} \<longrightarrow> at_fill_id att \<in> srv_ids w')"
proof -
  obtain s h where h: "attest_route (pe_ext E) (pe_server_token E) (Some (bearer (pe_token E))) att (w_srv w) = (s, h)"
    by fastforce
  from handler_effect [OF h] assms show ?thesis unfolding srv_ids_def
    by (auto simp: post_attestation_def exchange_def h Let_def split: list.splits fault.splits if_splits)
qed

lemma fetch_head_effect: "fetch_head E w = (r, w') \<Longrightarrow> w_srv w' = w_srv w"
  by (auto simp: fetch_head_def exchange_def Let_def split: list.splits fault.splits)

lemma attest_fields:
  assumes "attest x fill reg k prev = Ok att"
  shows "at_fill_id att = derive_fill_id fill" "at_prev_hash att = prev"
    "at_spinner_id att = spinner_id_from_addr x (x_address x k)" "at_spinner_addr att = x_address x k"
  using assms
  by (auto simp: attest_def unsigned_attestation_def Let_def split: option.splits prod.splits)

definition extends_by :: "string \<Rightarrow> world \<Rightarrow> world \<Rightarrow> bool" where
  "extends_by i w w' \<longleftrightarrow> (\<exists>news. h_atts (w_srv w') = h_atts (w_srv w) @ news \<and> at_fill_id ` set news \<subseteq> {i})
     \<and> (t_unique at_fill_id (h_atts (w_srv w)) \<longrightarrow> t_unique at_fill_id (h_atts (w_srv w')))"

lemma extends_refl [simp]: "w_srv w' = w_srv w \<Longrightarrow> extends_by i w w'"
  by (auto simp: extends_by_def)

lemma extends_trans: "extends_by i w w1 \<Longrightarrow> extends_by i w1 w2 \<Longrightarrow> extends_by i w w2"
  unfolding extends_by_def by (metis append.assoc image_Un set_append Un_subset_iff)

lemma extends_gains: "extends_by i w w' \<Longrightarrow> gains {i} w w'"
  by (force simp: extends_by_def gains_def srv_ids_def)

lemma post_extends: "post_attestation E att w = (st, w') \<Longrightarrow> extends_by (at_fill_id att) w w'"
  using post_effect [of E att w st w'] by (auto simp: extends_by_def t_unique_snoc)

lemma attest_and_post_effect:
  assumes "attest_and_post E r prev w = (o', w')"
  shows "extends_by (derive_fill_id r) w w'
    \<and> ((\<exists>h. o' = Ok (Persisted h)) \<or> o' = Ok Duplicate \<longrightarrow> derive_fill_id r \<in> srv_ids w')"
proof (cases "attest (pe_ext E) r (pe_reg E) (pe_signer E) prev")
  case (Ok att)
  obtain st w1 where p1: "post_attestation E att w = (st, w1)" by fastforce
  note e1 = post_extends [OF p1] and f1 = post_effect [OF p1]
  have id1: "at_fill_id att = derive_fill_id r" using attest_fields(1) [OF Ok] .
  show ?thesis
  proof (cases "st = Some PsBadChain")
    case False
    with assms Ok p1 e1 f1 id1 show ?thesis
      by (cases st) (auto simp: attest_and_post_def split: post_status.splits)
  next
    case True
    obtain hd w2 where f: "fetch_head E w1 = (hd, w2)" by fastforce
    let ?h = "case hd of None \<Rightarrow> prev | Some h \<Rightarrow> h"
    have e2: "extends_by (derive_fill_id r) w w2"
      using e1 id1 fetch_head_effect [OF f] by (auto simp: extends_by_def)
    show ?thesis
    proof (cases "attest (pe_ext E) r (pe_reg E) (pe_signer E) ?h")
      case (Ok att2)
      obtain st2 w3 where p3: "post_attestation E att2 w2 = (st2, w3)" by fastforce
      have id2: "at_fill_id att2 = derive_fill_id r" using attest_fields(1) [OF Ok] .
      have "extends_by (derive_fill_id r) w w3" using extends_trans [OF e2] post_extends [OF p3] id2 by simp
      with assms \<open>attest _ _ _ _ prev = _\<close> p1 True f Ok p3 post_effect [OF p3] id2 show ?thesis
        by (cases st2) (auto simp: attest_and_post_def Let_def split: post_status.splits)
    qed (use assms Ok p1 True f e2 in \<open>auto simp: attest_and_post_def Let_def\<close>)
  qed
qed (use assms in \<open>auto simp: attest_and_post_def\<close>)
section \<open>What a tick can do\<close>

definition later :: "int \<Rightarrow> int option \<Rightarrow> int option" where
  "later t l = (case l of None \<Rightarrow> Some t | Some s \<Rightarrow> Some (max s t))"

text \<open>What a scanned row does under any network: the registry gains at most its fill, once, the watermark
  moves to its time stamp at the latest, and only fills the registry holds become seen.\<close>

lemma pump_row_effect:
  assumes "pump_row E r (p, w) = (p', w')" "\<not> pu_dead p"
  shows "extends_by (derive_fill_id r) w w' \<and> pu_last p' = later (o_ts r) (pu_last p)
    \<and> pu_seen p' \<subseteq> pu_seen p \<union> (srv_ids w' \<inter> {derive_fill_id r})"
proof -
  let ?p1 = "if (case pu_last p of None \<Rightarrow> True | Some t \<Rightarrow> t < o_ts r) then p\<lparr>pu_last := Some (o_ts r)\<rparr> else p"
  have p1: "pu_last ?p1 = later (o_ts r) (pu_last p)" "pu_seen ?p1 = pu_seen p" "pu_dead ?p1 = pu_dead p"
    "pu_prev ?p1 = pu_prev p"
    by (auto simp: later_def max_def split: option.split)
  obtain o' w1 where a: "attest_and_post E r (pu_prev p) w = (o', w1)" by fastforce
  note e = attest_and_post_effect [OF a]
  show ?thesis
  proof (cases "derive_fill_id r \<in> pu_seen p")
    case True
    with assms p1 show ?thesis by (simp add: pump_row_def Let_def pump_fill_id_agrees)
  next
    case fresh: False
    let ?q = "case o' of Panic \<Rightarrow> (?p1\<lparr>pu_dead := True\<rparr>, w1) | Err e \<Rightarrow> (?p1, w1)
      | Ok (Persisted h) \<Rightarrow> (?p1\<lparr>pu_seen := insert (derive_fill_id r) (pu_seen ?p1), pu_prev := h\<rparr>, w1)
      | Ok Duplicate \<Rightarrow> (let (head, w2) = fetch_head E w1; p2 = ?p1\<lparr>pu_seen := insert (derive_fill_id r) (pu_seen ?p1)\<rparr>
                        in ((case head of None \<Rightarrow> p2 | Some h \<Rightarrow> p2\<lparr>pu_prev := h\<rparr>), w2))
      | Ok (Resynced h) \<Rightarrow> (?p1\<lparr>pu_prev := h\<rparr>, w1)"
    have step: "?q = (p', w')"
      using assms fresh p1
      by (cases o') (simp_all add: pump_row_def Let_def pump_fill_id_agrees a split: post_outcome.splits)
    obtain hd w2 where f: "fetch_head E w1 = (hd, w2)" by fastforce
    have "srv_ids w2 = srv_ids w1" "extends_by (derive_fill_id r) w w2"
      using fetch_head_effect [OF f] e by (auto simp: srv_ids_def extends_by_def)
    show ?thesis
    proof (cases o')
      case (Ok q)
      with step e p1 f \<open>srv_ids w2 = _\<close> \<open>extends_by _ w w2\<close> show ?thesis
        by (cases q; cases hd) auto
    qed (use step e p1 in auto)
  qed
qed

lemma pump_row_dead: "pu_dead p \<Longrightarrow> pump_row E r (p, w) = (p, w)"
  by (simp add: pump_row_def Let_def)

lemma later_max: "later t (later s l) = later (max s t) l" "(\<exists>m. later t l = Some m \<and> t \<le> m)"
  by (auto simp: later_def max_def split: option.split)

definition scan :: "'k pump_env \<Rightarrow> outcome list \<Rightarrow> pump \<times> world \<Rightarrow> pump \<times> world" where
  "scan E rs = fold (pump_row E) rs"

lemma scan_dead: "pu_dead p \<Longrightarrow> scan E rs (p, w) = (p, w)"
  by (induction rs) (simp_all add: scan_def pump_row_dead)

lemma scan_effect:
  "scan E rs (p, w) = (p', w') \<Longrightarrow>
   gains (derive_fill_id ` set rs) w w' \<and> (t_unique at_fill_id (h_atts (w_srv w)) \<longrightarrow> t_unique at_fill_id (h_atts (w_srv w')))
   \<and> (pu_seen p \<subseteq> srv_ids w \<longrightarrow> pu_seen p' \<subseteq> srv_ids w')
   \<and> (\<forall>m. pu_last p = Some m \<longrightarrow> (\<exists>m'. pu_last p' = Some m' \<and> m \<le> m'))
   \<and> (\<not> pu_dead p' \<longrightarrow> (\<forall>r \<in> set rs. \<exists>m. pu_last p' = Some m \<and> o_ts r \<le> m))"
proof (induction rs arbitrary: p w)
  case (Cons r rs)
  show ?case
  proof (cases "pu_dead p")
    case True
    with Cons.prems scan_dead [OF True, of E "r # rs"] show ?thesis by simp
  next
    case alive: False
    obtain p1 w1 where one: "pump_row E r (p, w) = (p1, w1)" by fastforce
    have rest: "scan E rs (p1, w1) = (p', w')" using Cons.prems one by (simp add: scan_def)
    note e = pump_row_effect [OF one alive] and ih = Cons.IH [OF rest]
    have g: "gains (derive_fill_id ` set (r # rs)) w w'"
      using gains_trans [OF extends_gains, of "derive_fill_id r" w w1 "derive_fill_id ` set rs" w'] e ih by simp
    have u: "t_unique at_fill_id (h_atts (w_srv w)) \<longrightarrow> t_unique at_fill_id (h_atts (w_srv w'))"
      using e ih by (auto simp: extends_by_def)
    have "srv_ids w \<subseteq> srv_ids w1" using e extends_gains by (auto simp: gains_def)
    then have s: "pu_seen p \<subseteq> srv_ids w \<longrightarrow> pu_seen p' \<subseteq> srv_ids w'"
      using e ih by blast
    obtain m where m: "pu_last p1 = Some m" "o_ts r \<le> m" using e later_max(2) by metis
    with ih obtain m' where m': "pu_last p' = Some m'" "m \<le> m'" by blast
    have "\<forall>k. pu_last p = Some k \<longrightarrow> k \<le> m" using e m by (auto simp: later_def)
    with g u s m m' ih show ?thesis by (auto intro: order_trans)
  qed
qed (simp add: scan_def)

lemma tick_scan:
  "\<not> pu_dead p \<Longrightarrow> pump_tick E rows (p, w) = scan E (list_executed 500 (pu_last p) rows) (p, w)"
  by (simp add: pump_tick_def scan_def)

lemma tick_dead: "pu_dead p \<Longrightarrow> pump_tick E rows (p, w) = (p, w)"
  by (simp add: pump_tick_def)

lemma wrap_500: "wrap_i64 500 = 500"
  by (rule wrap_i64_id) (simp add: in_i64_def)

lemma list_executed_500:
  "list_executed 500 since rows = map parse_row (take 500 (sort_key q_ts (due_rows since rows)))"
  by (simp add: list_executed_def sql_limit_def wrap_500)

lemma listed_after:
  assumes "r \<in> set (list_executed 500 (Some t) rows)"
  shows "t < o_ts r" "\<exists>q \<in> set rows. r = parse_row q"
  using assms by (auto simp: list_executed_500 due_rows_def parse_row_def dest!: in_set_takeD)
section \<open>A healthy network\<close>

text \<open>What a fill needs to be attested: the signing crates work, the signer's short id is in lower case (it
  is printed in lower-case hex), the pump's token passes the gate, and the fill's adapter has a sane
  fraction and an amount that fits.\<close>

definition ready :: "'k pump_env \<Rightarrow> outcome \<Rightarrow> bool" where
  "ready E r \<longleftrightarrow> hex_ok (pe_ext E) \<and> sign_ok (pe_ext E) \<and> (\<forall>m. x_sign (pe_ext E) (pe_signer E) m \<noteq> None)
     \<and> to_lowercase (pump_spinner_id E) = pump_spinner_id E
     \<and> require_solver_api_token (pe_server_token E) (Some (bearer (pe_token E)))
     \<and> (\<exists>num den. bps_for (pe_reg E) (adapter_id_for_outcome r) = (num, den) \<and> 0 \<le> num \<and> 0 < den
          \<and> no_overflow (fill_inflow r) num den)"

definition own_att :: "'k pump_env \<Rightarrow> attestation \<Rightarrow> bool" where
  "own_att E a \<longleftrightarrow> verify (pe_ext E) a = Ok () \<and> at_spinner_id a = pump_spinner_id E
     \<and> at_spinner_addr a = x_address (pe_ext E) (pe_signer E)"

lemma attest_ready:
  assumes "ready E r"
  obtains att where "attest (pe_ext E) r (pe_reg E) (pe_signer E) prev = Ok att" "own_att E att"
    "at_prev_hash att = prev" "at_fill_id att = derive_fill_id r"
proof -
  let ?x = "pe_ext E"
  obtain num den where frac: "bps_for (pe_reg E) (adapter_id_for_outcome r) = (num, den)" "0 \<le> num" "0 < den"
    "no_overflow (fill_inflow r) num den" and ext: "hex_ok ?x" "sign_ok ?x"
    and sg: "\<forall>m. x_sign ?x (pe_signer E) m \<noteq> None"
    using assms by (auto simp: ready_def)
  note core = attest_verifies_core [OF ext frac, of "pe_signer E" prev]
  have "attest ?x r (pe_reg E) (pe_signer E) prev \<noteq> Err e" for e
    using sg by (auto simp: attest_def split: option.splits) (metis option.distinct(1))
  with core obtain att where a: "attest ?x r (pe_reg E) (pe_signer E) prev = Ok att"
    by (cases "attest ?x r (pe_reg E) (pe_signer E) prev") auto
  with core have "own_att E att" using attest_fields [OF a] by (auto simp: own_att_def pump_spinner_id_def)
  with a attest_fields [OF a] that show ?thesis by blast
qed

text \<open>The registry's answer to an attestation of the pump's own.\<close>

lemma persist_own:
  assumes "own_att E a" "to_lowercase (pump_spinner_id E) = pump_spinner_id E"
  shows "persist_attestation (pe_ext E) a h =
    (let head = fst (ledger_head (pe_ext E) (pump_spinner_id E) h)
     in if at_prev_hash a \<noteq> head then Err (BadChain head (at_prev_hash a)) else persist_insert (pe_ext E) a h)"
proof -
  have "to_lowercase (at_spinner_id a) = spinner_id_from_addr (pe_ext E) (at_spinner_addr a)"
    using assms by (simp add: own_att_def pump_spinner_id_def)
  then show ?thesis using assms(1)
    by (simp add: persist_attestation_def persist_check_def own_att_def Let_def split: prod.split)
qed

lemma post_own:
  assumes "ready E r" "own_att E a" "w_net w = []"
  shows "if at_prev_hash a \<noteq> fst (ledger_head (pe_ext E) (pump_spinner_id E) (w_srv w))
    then post_attestation E a w = (Some PsBadChain, w)
    else if at_fill_id a \<in> srv_ids w then post_attestation E a w = (Some PsDuplicate, w)
    else \<exists>w'. post_attestation E a w = (Some PsOk, w') \<and> w_net w' = []
           \<and> h_atts (w_srv w') = h_atts (w_srv w) @ [a]"
proof -
  have tok: "require_solver_api_token (pe_server_token E) (Some (bearer (pe_token E)))"
    and low: "to_lowercase (pump_spinner_id E) = pump_spinner_id E"
    using assms(1) by (simp_all add: ready_def)
  let ?h = "w_srv w"
  have post: "post_attestation E a w =
      (let (st, h) = donut_attest_handler (pe_ext E) a ?h
       in (map_option (\<lambda>n. if n = 200 then PsOk else if n = 409 then PsDuplicate
            else if n = 422 then PsBadChain else PsOther n) st, w\<lparr>w_srv := h\<rparr>))"
    using tok assms(3) by (simp add: post_attestation_def exchange_def attest_route_def split: prod.split)
  have ids: "t_get at_fill_id (at_fill_id a) (h_atts ?h) = None \<longleftrightarrow> at_fill_id a \<notin> srv_ids w"
    by (simp add: t_get_None srv_ids_def)
  consider (bad) "at_prev_hash a \<noteq> fst (ledger_head (pe_ext E) (pump_spinner_id E) ?h)"
    | (dup) s where "at_prev_hash a = fst (ledger_head (pe_ext E) (pump_spinner_id E) ?h)" "at_fill_id a \<in> srv_ids w"
        "t_get at_fill_id (at_fill_id a) (h_atts ?h) = Some s"
    | (new) "at_prev_hash a = fst (ledger_head (pe_ext E) (pump_spinner_id E) ?h)" "at_fill_id a \<notin> srv_ids w"
        "t_get at_fill_id (at_fill_id a) (h_atts ?h) = None"
    using ids by (cases "t_get at_fill_id (at_fill_id a) (h_atts ?h)") auto
  then show ?thesis
  proof cases
    case bad
    then show ?thesis by (simp add: post donut_attest_handler_def persist_own [OF assms(2) low] Let_def)
  next
    case dup
    then show ?thesis by (simp add: post donut_attest_handler_def persist_own [OF assms(2) low] persist_insert_def Let_def)
  next
    case new
    then show ?thesis using assms(3)
      by (simp add: post donut_attest_handler_def persist_own [OF assms(2) low] persist_insert_def Let_def)
  qed
qed

lemma fetch_head_fine:
  "w_net w = [] \<Longrightarrow> fetch_head E w = (Some (fst (ledger_head (pe_ext E) (pump_spinner_id E) (w_srv w))), w)"
  by (simp add: fetch_head_def exchange_def donut_head_handler_def)

text \<open>With a healthy network a post heals a stale chain hash by itself: whatever previous hash the pump
  holds, the fill is in the registry afterwards.\<close>

lemma post_heals:
  assumes "ready E r" "w_net w = []"
  shows "\<exists>o' w'. attest_and_post E r prev w = (Ok o', w') \<and> (o' = Duplicate \<or> (\<exists>h. o' = Persisted h)) \<and> w_net w' = []
    \<and> (if derive_fill_id r \<in> srv_ids w then w' = w
       else \<exists>a. h_atts (w_srv w') = h_atts (w_srv w) @ [a] \<and> own_att E a \<and> at_fill_id a = derive_fill_id r)"
proof -
  let ?head = "fst (ledger_head (pe_ext E) (pump_spinner_id E) (w_srv w))"
  obtain a where a: "attest (pe_ext E) r (pe_reg E) (pe_signer E) prev = Ok a" "own_att E a"
    "at_prev_hash a = prev" "at_fill_id a = derive_fill_id r"
    using attest_ready [OF assms(1)] .
  obtain b where b: "attest (pe_ext E) r (pe_reg E) (pe_signer E) ?head = Ok b" "own_att E b"
    "at_prev_hash b = ?head" "at_fill_id b = derive_fill_id r"
    using attest_ready [OF assms(1)] .
  note pa = post_own [OF assms(1) a(2) assms(2)] and pb = post_own [OF assms(1) b(2) assms(2)]
  show ?thesis
  proof (cases "derive_fill_id r \<in> srv_ids w")
    case True
    with pa pb a b fetch_head_fine [OF assms(2), of E] assms(2) show ?thesis
      by (cases "prev = ?head") (simp_all add: attest_and_post_def)
  next
    case False
    show ?thesis
    proof (cases "prev = ?head")
      case True
      with False pa a obtain w' where "post_attestation E a w = (Some PsOk, w')" "w_net w' = []"
        "h_atts (w_srv w') = h_atts (w_srv w) @ [a]" by auto
      with False a show ?thesis by (auto simp: attest_and_post_def)
    next
      case stale: False
      from False pb b obtain w' where "post_attestation E b w = (Some PsOk, w')" "w_net w' = []"
        "h_atts (w_srv w') = h_atts (w_srv w) @ [b]" by auto
      with False stale pa a b fetch_head_fine [OF assms(2), of E] show ?thesis by (auto simp: attest_and_post_def)
    qed
  qed
qed
lemma row_heals:
  assumes "ready E r" "w_net w = []" "\<not> pu_dead p" "pu_seen p \<subseteq> srv_ids w" "pump_row E r (p, w) = (p', w')"
  shows "w_net w' = [] \<and> \<not> pu_dead p' \<and> derive_fill_id r \<in> srv_ids w'
    \<and> (\<exists>news. h_atts (w_srv w') = h_atts (w_srv w) @ news \<and> (\<forall>a \<in> set news. own_att E a))"
proof (cases "derive_fill_id r \<in> pu_seen p")
  case True
  with assms show ?thesis by (auto simp: pump_row_def Let_def pump_fill_id_agrees split: if_splits option.splits)
next
  case fresh: False
  obtain o' w1 where a: "attest_and_post E r (pu_prev p) w = (Ok o', w1)" "o' = Duplicate \<or> (\<exists>h. o' = Persisted h)"
    "w_net w1 = []"
    "if derive_fill_id r \<in> srv_ids w then w1 = w
     else \<exists>a. h_atts (w_srv w1) = h_atts (w_srv w) @ [a] \<and> own_att E a \<and> at_fill_id a = derive_fill_id r"
    using post_heals [OF assms(1,2), of "pu_prev p"] by blast
  then have "derive_fill_id r \<in> srv_ids w1
      \<and> (\<exists>news. h_atts (w_srv w1) = h_atts (w_srv w) @ news \<and> (\<forall>a \<in> set news. own_att E a))"
    by (cases "derive_fill_id r \<in> srv_ids w") (force simp: srv_ids_def)+
  moreover have "w' = w1" "\<not> pu_dead p'"
    using assms(3,5) fresh a(1,2) fetch_head_fine [OF a(3), of E]
    by (auto simp: pump_row_def Let_def pump_fill_id_agrees split: if_splits)
  ultimately show ?thesis using a(3) by simp
qed

lemma scan_heals:
  "\<forall>r \<in> set rs. ready E r \<Longrightarrow> w_net w = [] \<Longrightarrow> \<not> pu_dead p \<Longrightarrow> pu_seen p \<subseteq> srv_ids w \<Longrightarrow>
   scan E rs (p, w) = (p', w') \<Longrightarrow>
   w_net w' = [] \<and> \<not> pu_dead p' \<and> derive_fill_id ` set rs \<subseteq> srv_ids w'
   \<and> (\<exists>news. h_atts (w_srv w') = h_atts (w_srv w) @ news \<and> (\<forall>a \<in> set news. own_att E a))"
proof (induction rs arbitrary: p w)
  case (Cons r rs)
  obtain p1 w1 where one: "pump_row E r (p, w) = (p1, w1)" by fastforce
  have rest: "scan E rs (p1, w1) = (p', w')" using Cons.prems(5) one by (simp add: scan_def)
  have h: "w_net w1 = [] \<and> \<not> pu_dead p1 \<and> derive_fill_id r \<in> srv_ids w1
      \<and> (\<exists>news. h_atts (w_srv w1) = h_atts (w_srv w) @ news \<and> (\<forall>a \<in> set news. own_att E a))"
    using Cons.prems one by (intro row_heals) auto
  have "scan E [r] (p, w) = (p1, w1)" using one by (simp add: scan_def)
  from scan_effect [OF this] Cons.prems(4) have "pu_seen p1 \<subseteq> srv_ids w1" by blast
  with Cons.IH [OF _ _ _ _ rest] Cons.prems(1) h
  have ih: "w_net w' = [] \<and> \<not> pu_dead p' \<and> derive_fill_id ` set rs \<subseteq> srv_ids w'
   \<and> (\<exists>news. h_atts (w_srv w') = h_atts (w_srv w1) @ news \<and> (\<forall>a \<in> set news. own_att E a))" by simp
  moreover have "srv_ids w1 \<subseteq> srv_ids w'" using scan_effect [OF rest] by (simp add: gains_def)
  ultimately show ?case using h by auto
qed (simp add: scan_def)

lemma boot_fine:
  assumes "w_net w = []"
  shows "\<exists>p. pump_boot E w = (p, w) \<and> \<not> pu_dead p \<and> pu_last p = None
    \<and> pu_seen p = at_fill_id ` set (ledger_for (pump_spinner_id E) (w_srv w))"
  using assms
  by (simp add: pump_boot_def bootstrap_seen_set_def exchange_def donut_ledger_handler_def fetch_head_fine)

lemma ledger_subset: "set (ledger_for sid h) \<subseteq> set (h_atts h)"
  by (auto simp: ledger_for_def)

section \<open>Catching up\<close>

text \<open>One read returns at most 500 rows, the oldest first; the next one starts after the last of them.\<close>

definition in_turn :: "outcome_log \<Rightarrow> outcome_log" where
  "in_turn rows = sort_key q_ts (due_rows None rows)"

lemma set_in_turn [simp]: "set (in_turn rows) = set (due_rows None rows)" "length (in_turn rows) = length (due_rows None rows)"
  by (simp_all add: in_turn_def)

lemma o_ts_parse [simp]: "o_ts (parse_row q) = q_ts q" by (simp add: parse_row_def)

lemma scan_last:
  "scan E rs (p, w) = (p', w') \<Longrightarrow> \<not> pu_dead p' \<Longrightarrow> sorted (map o_ts rs) \<Longrightarrow> rs \<noteq> []
   \<Longrightarrow> \<forall>t. pu_last p = Some t \<longrightarrow> t \<le> o_ts (hd rs) \<Longrightarrow> pu_last p' = Some (o_ts (last rs))"
proof (induction rs arbitrary: p w)
  case (Cons r rs)
  have alive: "\<not> pu_dead p" using Cons.prems(1,2) scan_dead by (metis prod.inject)
  obtain p1 w1 where one: "pump_row E r (p, w) = (p1, w1)" by fastforce
  have rest: "scan E rs (p1, w1) = (p', w')" using Cons.prems(1) one by (simp add: scan_def)
  have l: "pu_last p1 = Some (o_ts r)"
    using pump_row_effect [OF one alive] Cons.prems(5) by (auto simp: later_def split: option.split)
  show ?case
  proof (cases rs)
    case Nil
    with rest l show ?thesis by (simp add: scan_def)
  next
    case (Cons r' rs')
    with Cons.IH [OF rest] Cons.prems(2,3) l show ?thesis by simp
  qed
qed simp

lemma rows_after:
  assumes "0 < n" "n \<le> length (in_turn rows)" "n = length (in_turn rows) \<or> distinct (map q_ts (due_rows None rows))"
  shows "list_executed 500 (Some (q_ts (in_turn rows ! (n - 1)))) rows = map parse_row (take 500 (drop n (in_turn rows)))"
proof -
  let ?S = "in_turn rows" and ?t = "q_ts (in_turn rows ! (n - 1))"
  have s: "sorted (map q_ts ?S)" by (simp add: in_turn_def)
  have before: "q_ts q \<le> ?t" if q: "q \<in> set (take n ?S)" for q
  proof -
    obtain i where "i < n" "q = ?S ! i" using q assms(2) by (auto simp: in_set_conv_nth)
    with sorted_nth_mono [OF s, of i "n - 1"] assms(1,2) show ?thesis by simp
  qed
  have behind: "?t < q_ts q" if q: "q \<in> set (drop n ?S)" for q
  proof -
    obtain i where "i < length (drop n ?S)" "q = drop n ?S ! i" using q unfolding in_set_conv_nth by blast
    then have i: "n + i < length ?S" "q = ?S ! (n + i)" by simp_all
    then have "distinct (map q_ts ?S)" using assms(3) by (simp add: in_turn_def distinct_map)
    then have "q_ts (?S ! (n - 1)) \<noteq> q_ts (?S ! (n + i))"
      using i(1) assms(1) nth_eq_iff_index_eq [of "map q_ts ?S" "n - 1" "n + i"] by simp
    moreover have "n - 1 \<le> n + i" by simp
    ultimately show ?thesis using sorted_nth_mono [OF s, of "n - 1" "n + i"] i by simp
  qed
  have "filter (\<lambda>q. ?t < q_ts q) (take n ?S @ drop n ?S) = drop n ?S"
    using before behind by (simp only: filter_append) (force simp: filter_empty_conv filter_id_conv not_less)
  then have "filter (\<lambda>q. ?t < q_ts q) ?S = drop n ?S" by simp
  moreover have "sort_key q_ts (due_rows (Some ?t) rows) = filter (\<lambda>q. ?t < q_ts q) ?S"
    by (simp add: in_turn_def filter_sort due_rows_def conj_commute)
  ultimately show ?thesis by (simp add: list_executed_500)
qed

text \<open>The pump has worked through the first \<open>n\<close> rows.\<close>

definition caught_up :: "outcome_log \<Rightarrow> nat \<Rightarrow> pump \<times> world \<Rightarrow> bool" where
  "caught_up rows n pw \<longleftrightarrow> n \<le> length (in_turn rows) \<and> \<not> pu_dead (fst pw) \<and> w_net (snd pw) = []
     \<and> pu_seen (fst pw) \<subseteq> srv_ids (snd pw) \<and> derive_fill_id ` parse_row ` set (take n (in_turn rows)) \<subseteq> srv_ids (snd pw)
     \<and> pu_last (fst pw) = (if n = 0 then None else Some (q_ts (in_turn rows ! (n - 1))))"

definition own_added :: "'k pump_env \<Rightarrow> world \<Rightarrow> world \<Rightarrow> bool" where
  "own_added E w w' \<longleftrightarrow> (\<exists>news. h_atts (w_srv w') = h_atts (w_srv w) @ news \<and> (\<forall>a \<in> set news. own_att E a))"

lemma own_added_trans: "own_added E u v \<Longrightarrow> own_added E v w \<Longrightarrow> own_added E u w"
  by (auto simp: own_added_def)

lemma tick_catches_up:
  assumes "caught_up rows n (p, w)" "n = 0 \<or> n = length (in_turn rows) \<or> distinct (map q_ts (due_rows None rows))"
    and "\<forall>q \<in> set (due_rows None rows). ready E (parse_row q)" "pump_tick E rows (p, w) = (p', w')"
  shows "caught_up rows (min (n + 500) (length (in_turn rows))) (p', w') \<and> own_added E w w'"
proof -
  let ?S = "in_turn rows" and ?rs = "map parse_row (take 500 (drop n (in_turn rows)))"
  have le: "list_executed 500 (pu_last p) rows = ?rs"
    using assms(1,2) rows_after [of n rows]
    by (cases "n = 0") (simp_all add: caught_up_def list_executed_500 in_turn_def)
  have run: "scan E ?rs (p, w) = (p', w')" using assms(1,4) le by (simp add: tick_scan caught_up_def)
  have sub: "set (take 500 (drop n ?S)) \<subseteq> set (due_rows None rows)"
    by (metis set_in_turn(1) set_take_subset set_drop_subset order_trans)
  have h: "w_net w' = [] \<and> \<not> pu_dead p' \<and> derive_fill_id ` set ?rs \<subseteq> srv_ids w' \<and> own_added E w w'"
    unfolding own_added_def using scan_heals [OF _ _ _ _ run] assms(1,3) sub by (force simp: caught_up_def)
  have e: "srv_ids w \<subseteq> srv_ids w'" "pu_seen p' \<subseteq> srv_ids w'"
    using scan_effect [OF run] assms(1) by (simp_all add: gains_def caught_up_def)
  have n: "n \<le> length ?S" and at: "pu_last p = (if n = 0 then None else Some (q_ts (?S ! (n - 1))))"
    using assms(1) by (simp_all add: caught_up_def)
  have part: "take (min (n + 500) (length ?S)) ?S = take n ?S @ take 500 (drop n ?S)"
    by (simp add: take_add [symmetric] min_def)
  have last: "pu_last p' = (if min (n + 500) (length ?S) = 0 then None else Some (q_ts (?S ! (min (n + 500) (length ?S) - 1))))"
  proof (cases "n = length ?S")
    case True
    with run at show ?thesis by (simp add: scan_def)
  next
    case False
    have s: "sorted (map q_ts ?S)" by (simp add: in_turn_def)
    then have "sorted (map q_ts (take 500 (drop n ?S)))" by (metis drop_map sorted_wrt_drop sorted_wrt_take take_map)
    then have "sorted (map o_ts ?rs)" by (simp add: o_def)
    moreover have "\<forall>t. pu_last p = Some t \<longrightarrow> t \<le> o_ts (hd ?rs)"
      using at n False sorted_nth_mono [OF s, of "n - 1" n] by (simp add: hd_map hd_drop_conv_nth)
    moreover have ne: "?rs \<noteq> []" using n False by simp
    ultimately have "pu_last p' = Some (o_ts (last ?rs))" using scan_last [OF run] h by blast
    moreover have "last (take 500 (drop n ?S)) = ?S ! (n + (min (length ?S - n) 500 - 1))"
      using n False by (simp add: last_conv_nth)
    moreover have "n + (min (length ?S - n) 500 - 1) = min (n + 500) (length ?S) - 1"
      using n False by (auto simp: min_def)
    moreover have "due_rows None rows \<noteq> []" using n False set_in_turn(2) [of rows] by (metis le_zero_eq list.size(3))
    ultimately show ?thesis using n False ne by (simp add: last_map)
  qed
  have fills: "derive_fill_id ` parse_row ` set (take (min (n + 500) (length ?S)) ?S) \<subseteq> srv_ids w'"
  proof -
    have "derive_fill_id ` parse_row ` set (take n ?S) \<subseteq> srv_ids w" using assms(1) by (simp add: caught_up_def)
    moreover have "derive_fill_id ` parse_row ` set (take 500 (drop n ?S)) \<subseteq> srv_ids w'" using h by simp
    ultimately show ?thesis unfolding part set_append image_Un using e(1) by blast
  qed
  have "min (n + 500) (length ?S) \<le> length ?S" by simp
  with h e(2) fills last show ?thesis unfolding caught_up_def fst_conv snd_conv by blast
qed

section \<open>Histories\<close>

text \<open>What happens around the registry: the pump is restarted, ticks, the network changes, and others post.\<close>

datatype pump_event =
    Restart
  | Tick outcome_log
  | Network "fault list"
  | Foreign "string option" attestation

fun pump_event_step :: "'k pump_env \<Rightarrow> pump_event \<Rightarrow> pump \<times> world \<Rightarrow> pump \<times> world" where
  "pump_event_step E Restart pw = pump_boot E (snd pw)"
| "pump_event_step E (Tick rows) pw = pump_tick E rows pw"
| "pump_event_step E (Network fs) pw = (fst pw, (snd pw)\<lparr>w_net := fs\<rparr>)"
| "pump_event_step E (Foreign hdr a) pw =
     (fst pw, (snd pw)\<lparr>w_srv := snd (attest_route (pe_ext E) (pe_server_token E) hdr a (w_srv (snd pw)))\<rparr>)"

lemma boot_effect:
  "pump_boot E w = (p, w') \<Longrightarrow> w_srv w' = w_srv w \<and> pu_seen p \<subseteq> srv_ids w'"
proof -
  assume boot: "pump_boot E w = (p, w')"
  obtain ids w1 where b: "bootstrap_seen_set E w = (ids, w1)" by fastforce
  obtain hd w2 where f: "fetch_head E w1 = (hd, w2)" by fastforce
  have "w_srv w1 = w_srv w \<and> (\<forall>xs. ids = Some xs \<longrightarrow> set xs \<subseteq> srv_ids w)"
    using b
    by (auto simp: bootstrap_seen_set_def exchange_def donut_ledger_handler_def srv_ids_def Let_def
        split: list.splits fault.splits dest!: subsetD [OF ledger_subset])
  with fetch_head_effect [OF f] boot b f show ?thesis
    by (auto simp: pump_boot_def srv_ids_def split: option.splits)
qed

definition pump_sound :: "pump \<times> world \<Rightarrow> bool" where
  "pump_sound pw \<longleftrightarrow> pu_seen (fst pw) \<subseteq> srv_ids (snd pw) \<and> t_unique at_fill_id (h_atts (w_srv (snd pw)))"

lemma pump_sound_step: "pump_sound pw \<Longrightarrow> pump_sound (pump_event_step E e pw)"
proof (cases e)
  case Restart
  assume sound: "pump_sound pw"
  obtain p w' where b: "pump_boot E (snd pw) = (p, w')" by fastforce
  from boot_effect [OF b] sound show ?thesis by (auto simp: pump_sound_def Restart b srv_ids_def)
next
  case (Tick rows)
  assume sound: "pump_sound pw"
  obtain p w p' w' where pw: "pw = (p, w)" "pump_tick E rows pw = (p', w')" by (metis surj_pair)
  show ?thesis
  proof (cases "pu_dead p")
    case True
    with Tick sound pw show ?thesis by (simp add: tick_dead)
  next
    case False
    with pw have "scan E (list_executed 500 (pu_last p) rows) (p, w) = (p', w')" by (simp add: tick_scan)
    from scan_effect [OF this] sound pw Tick show ?thesis by (simp add: pump_sound_def)
  qed
next
  case (Foreign hdr a)
  assume "pump_sound pw"
  then show ?thesis
    using handler_effect [of "pe_ext E" "pe_server_token E" hdr a "w_srv (snd pw)"]  Foreign
    by (cases "attest_route (pe_ext E) (pe_server_token E) hdr a (w_srv (snd pw))")
      (auto simp: pump_sound_def srv_ids_def t_unique_snoc)
qed (auto simp: pump_sound_def srv_ids_def)
section \<open>Properties\<close>

text \<open>C12. After a restart the pump catches up.  Whatever state the registry was left in, if no network fault is pending and
  every executed row of the log is ready (the signing crates work, the token passes the gate and the split fits the
  integers), a freshly started pump leaves the fills of all of them in the registry after as many ticks as one read of 500
  rows needs to cover the log.  It appends nothing but verified attestations of its own signer and is alive for the
  next tick.  With more than 500 executed rows their time stamps must be distinct: the next read starts
  strictly after the last row read.\<close>

theorem restart_attests_every_fill:
  assumes "w_net w = []" "0 < k" "length (due_rows None rows) \<le> 500 * k"
    and "length (due_rows None rows) \<le> 500 \<or> distinct (map q_ts (due_rows None rows))"
    and "\<forall>q \<in> set (due_rows None rows). ready E (parse_row q)"
    and "(pump_tick E rows ^^ k) (pump_boot E w) = (p', w')"
  shows "derive_fill_id ` parse_row ` set (due_rows None rows) \<subseteq> srv_ids w'
    \<and> (\<exists>news. h_atts (w_srv w') = h_atts (w_srv w) @ news \<and> (\<forall>a \<in> set news. own_att E a))
    \<and> \<not> pu_dead p' \<and> w_net w' = []"
proof -
  let ?S = "in_turn rows"
  obtain p where p: "pump_boot E w = (p, w)" "\<not> pu_dead p" "pu_last p = None"
    "pu_seen p = at_fill_id ` set (ledger_for (pump_spinner_id E) (w_srv w))"
    using boot_fine [OF assms(1)] by blast
  have start: "caught_up rows 0 (p, w)"
    using p assms(1) ledger_subset [of "pump_spinner_id E" "w_srv w"] by (auto simp: caught_up_def srv_ids_def)
  have "caught_up rows (min (500 * n) (length ?S)) ((pump_tick E rows ^^ n) (p, w))
      \<and> own_added E w (snd ((pump_tick E rows ^^ n) (p, w)))" for n
  proof (induction n)
    case (Suc n)
    obtain p1 w1 where one: "(pump_tick E rows ^^ n) (p, w) = (p1, w1)" by fastforce
    obtain p2 w2 where two: "pump_tick E rows (p1, w1) = (p2, w2)" by fastforce
    have m: "min (min (500 * n) (length ?S) + 500) (length ?S) = min (500 * Suc n) (length ?S)" by simp
    have "caught_up rows (min (500 * Suc n) (length ?S)) (p2, w2) \<and> own_added E w1 w2"
      using tick_catches_up [OF _ _ assms(5) two, of "min (500 * n) (length ?S)"] Suc one assms(4) unfolding m
      by (cases "n = 0") auto
    with Suc one two own_added_trans show ?case by auto
  qed (use start in \<open>simp_all add: own_added_def\<close>)
  from this [of k] show ?thesis
    using assms(3,6) p(1) by (simp add: caught_up_def own_added_def min_absorb2)
qed

text \<open>C13. No fill is attested twice and nothing is taken for attested that is not: whatever the network does,
  however often the pump restarts and whoever else posts, the registry holds each fill at most once,
  and every fill the pump believes settled is in it.\<close>

theorem attested_at_most_once:
  assumes "fold (pump_event_step E) es (pump_boot E \<lparr>w_srv = hosting_new, w_net = fs\<rparr>) = (p, w)"
  shows "distinct (map at_fill_id (h_atts (w_srv w))) \<and> pu_seen p \<subseteq> at_fill_id ` set (h_atts (w_srv w))"
proof -
  have run: "pump_sound (fold (pump_event_step E) es pw)" if "pump_sound pw" for pw
    using that
  proof (induction es arbitrary: pw)
    case (Cons e es)
    from Cons.IH [OF pump_sound_step [OF Cons.prems]] show ?case by simp
  qed simp
  obtain p0 w0 where b: "pump_boot E \<lparr>w_srv = hosting_new, w_net = fs\<rparr> = (p0, w0)" by fastforce
  have "pump_sound (p0, w0)"
    using boot_effect [OF b] by (simp add: pump_sound_def hosting_new_def t_unique_def)
  from run [OF this] assms b show ?thesis by (simp add: pump_sound_def t_unique_def srv_ids_def)
qed

lemma watermark_blocks:
  "pu_last p = Some m \<Longrightarrow> t \<le> m \<Longrightarrow> fid \<notin> srv_ids w \<Longrightarrow>
   \<forall>rows \<in> set logs. \<forall>q \<in> set rows. derive_fill_id (parse_row q) = fid \<longrightarrow> q_ts q \<le> t \<Longrightarrow>
   fid \<notin> srv_ids (snd (fold (pump_tick E) logs (p, w)))"
proof (induction logs arbitrary: p w m)
  case (Cons rows logs)
  obtain p1 w1 where t: "pump_tick E rows (p, w) = (p1, w1)" by fastforce
  have "fid \<notin> srv_ids w1 \<and> (\<exists>m1. pu_last p1 = Some m1 \<and> t \<le> m1)"
  proof (cases "pu_dead p")
    case True
    with t Cons.prems show ?thesis by (simp add: tick_dead)
  next
    case False
    let ?rs = "list_executed 500 (Some m) rows"
    have sc: "scan E ?rs (p, w) = (p1, w1)" using t False Cons.prems(1) by (simp add: tick_scan)
    have "fid \<notin> derive_fill_id ` set ?rs"
    proof
      assume "fid \<in> derive_fill_id ` set ?rs"
      then obtain r q where "r \<in> set ?rs" "fid = derive_fill_id r" "q \<in> set rows" "r = parse_row q"
        using listed_after(2) by blast
      with listed_after(1) [of r m rows] Cons.prems(2,4) show False by (force simp: parse_row_def)
    qed
    with scan_effect [OF sc] Cons.prems(1-3) show ?thesis by (auto simp: gains_def intro: order_trans)
  qed
  then obtain m1 where m1: "pu_last p1 = Some m1" "t \<le> m1" and out: "fid \<notin> srv_ids w1" by blast
  have "\<forall>rows \<in> set logs. \<forall>q \<in> set rows. derive_fill_id (parse_row q) = fid \<longrightarrow> q_ts q \<le> t"
    using Cons.prems(4) by simp
  from Cons.IH [OF m1 out this] t show ?case by simp
qed simp

text \<open>A post that fails is not retried, although it is announced that the next tick retries it: a tick moves the
  watermark past every row it scans, so a fill that is not in the registry after the tick that scanned
  it stays out of it in all later ticks of the same process, whatever the network does, unless the log
  gains a younger row for the fill.\<close>

theorem failed_post_not_retried:
  assumes "\<not> pu_dead p" "r \<in> set (list_executed 500 (pu_last p) rows)"
    and "pump_tick E rows (p, w) = (p', w')" "\<not> pu_dead p'" "derive_fill_id r \<notin> srv_ids w'"
    and "\<forall>rows \<in> set logs. \<forall>q \<in> set rows. derive_fill_id (parse_row q) = derive_fill_id r \<longrightarrow> q_ts q \<le> o_ts r"
  shows "derive_fill_id r \<notin> srv_ids (snd (fold (pump_tick E) logs (p', w')))"
proof -
  have "scan E (list_executed 500 (pu_last p) rows) (p, w) = (p', w')" using assms(1,3) by (simp add: tick_scan)
  from scan_effect [OF this] assms(2,4) obtain m where "pu_last p' = Some m" "o_ts r \<le> m" by blast
  from watermark_blocks [OF this assms(5,6)] show ?thesis .
qed
section \<open>Witnesses\<close>

definition toy_env :: "unit pump_env" where
  "toy_env = \<lparr>pe_ext = toy_ext, pe_reg = registry_new 9, pe_signer = (), pe_token = ''t'', pe_server_token = Some ''t''\<rparr>"

lemma toy_token: "require_solver_api_token (Some ''t'') (Some (bearer ''t''))"
  by code_simp

lemma toy_ready: "ready toy_env sample_fill"
proof -
  have "pump_spinner_id toy_env = ''77777777''" by (simp add: pump_spinner_id_def toy_env_def toy_simps)
  moreover have "to_lowercase ''77777777'' = ''77777777''" by code_simp
  ultimately show ?thesis
    using toy_ok toy_token sample_attest_frac by (simp add: ready_def toy_simps) (simp add: toy_env_def toy_simps)
qed

lemma pump_sample_parse: "parse_row (to_row sample_fill) = sample_fill"
  by (simp add: parse_row_def to_row_def sample_fill_def sample_outcome_def sql_real_def)

lemma sample_due: "due_rows None [to_row sample_fill] = [to_row sample_fill]"
  by (simp add: due_rows_def executed_row_def to_row_def is_fill_decision_def sample_fill_def sample_outcome_def)

theorem restart_attests_every_fill_witness:
  "derive_fill_id sample_fill
     \<in> srv_ids (snd ((pump_tick toy_env [to_row sample_fill] ^^ 1) (pump_boot toy_env \<lparr>w_srv = hosting_new, w_net = []\<rparr>)))"
proof -
  have "length (due_rows None [to_row sample_fill]) \<le> 500 * 1"
    "length (due_rows None [to_row sample_fill]) \<le> 500 \<or> distinct (map q_ts (due_rows None [to_row sample_fill]))"
    "\<forall>q \<in> set (due_rows None [to_row sample_fill]). ready toy_env (parse_row q)"
    by (simp_all add: sample_due pump_sample_parse toy_ready)
  from restart_attests_every_fill [OF _ _ this prod.collapse [symmetric], of "\<lparr>w_srv = hosting_new, w_net = []\<rparr>"]
  show ?thesis by (simp add: sample_due pump_sample_parse)
qed

theorem attested_at_most_once_witness:
  "distinct (map at_fill_id (h_atts (w_srv (snd (fold (pump_event_step toy_env)
     [Tick [to_row sample_fill], Restart, Tick [to_row sample_fill]]
     (pump_boot toy_env \<lparr>w_srv = hosting_new, w_net = [Deliver, Deliver, Lose_Reply]\<rparr>))))))"
  using attested_at_most_once [OF prod.collapse [symmetric]] by blast

theorem failed_post_not_retried_witness:
  "derive_fill_id sample_fill \<notin> srv_ids (snd (fold (pump_tick toy_env) [[to_row sample_fill], [to_row sample_fill]]
     (\<lparr>pu_seen = {}, pu_prev = zero_hash, pu_last = Some 5, pu_dead = False\<rparr>, \<lparr>w_srv = hosting_new, w_net = []\<rparr>)))"
proof -
  let ?p = "\<lparr>pu_seen = {}, pu_prev = zero_hash, pu_last = None, pu_dead = False\<rparr>"
  let ?w = "\<lparr>w_srv = hosting_new, w_net = [Lose_Request]\<rparr>"
  have l: "list_executed 500 None [to_row sample_fill] = [sample_fill]"
    by (simp add: list_executed_500 sample_due pump_sample_parse)
  obtain att where att: "attest toy_ext sample_fill (registry_new 9) () zero_hash = Ok att" using sample_att by blast
  have "post_attestation toy_env a ?w = (None, ?w\<lparr>w_net := []\<rparr>)" for a
    by (simp add: post_attestation_def exchange_def split: prod.split)
  then have "attest_and_post toy_env sample_fill zero_hash ?w = (Err (lit ''request failed''), ?w\<lparr>w_net := []\<rparr>)"
    using att by (simp add: attest_and_post_def) (simp add: toy_env_def)
  then have t: "pump_tick toy_env [to_row sample_fill] (?p, ?w) = (?p\<lparr>pu_last := Some 5\<rparr>, ?w\<lparr>w_net := []\<rparr>)"
    by (simp add: pump_tick_def l pump_row_def Let_def fills)
  have "derive_fill_id r \<notin> srv_ids (?w\<lparr>w_net := []\<rparr>)" for r by (simp add: srv_ids_def hosting_new_def)
  moreover have "\<forall>rows \<in> set [[to_row sample_fill], [to_row sample_fill]]. \<forall>q \<in> set rows.
      derive_fill_id (parse_row q) = derive_fill_id sample_fill \<longrightarrow> q_ts q \<le> o_ts sample_fill"
    by (simp add: to_row_def)
  ultimately show ?thesis
    using failed_post_not_retried [OF _ _ t, of sample_fill "[[to_row sample_fill], [to_row sample_fill]]"] l by simp
qed

end
