(* ===== verification/Guards.thy ===== *)
theory Guards
  imports OutcomeLog
begin

text \<open>
  The intent handed to the controller (\<open>genome-client\<close>), the pure guard helpers of
  \<open>crates/executor/src/lambda_controller.rs\<close> and the estimate classification of
  \<open>crates/executor/src/estimate.rs\<close>.  Environment variables are optional strings.
\<close>

type_synonym evm_addr = "160 word"

section \<open>Intents\<close>

record intent =
  i_id :: string
  i_protocol :: string
  i_src_chain :: u64
  i_dst_chain :: u64
  i_src_token :: string
  i_dst_token :: string
  i_amount :: string
  i_depositor :: string
  i_recipient :: string
  i_tx_hash :: string
  i_detected_at :: u64
  i_output_amount :: "string option"
  i_deposit_id :: "int option"
  i_give_amount :: "string option"
  i_take_amount :: "string option"
  i_order_id :: "string option"
  i_dln_allowed_taker_dst :: "string option"
  i_dln_external_call :: "string option"
  i_mayan_order_id :: "string option"
  i_deadline :: "u64 option"
  i_is_solana_source :: "bool option"
  i_fill_deadline :: "u32 option"
  i_exclusivity_deadline :: "u32 option"
  i_exclusive_relayer :: "string option"
  i_message :: "string option"
  i_batch_id :: "u64 option"
  i_mayan_auction_mode :: "u8 option"
  i_is_solana_destination :: "bool option"

section \<open>Token heuristics\<close>

definition zero_address_text :: string where
  "zero_address_text = ''0x0000000000000000000000000000000000000000''"

definition six_dec :: "string list" where
  "six_dec =
     [''0xa0b86991c6218b36c1d19d4a2e9eb0ce3606eb48'',
      ''0xaf88d065e77c8cc2239327c5edb3a432268e5831'',
      ''0xff970a61a04b1ca14834a43f5de4533ebddb5cc8'',
      ''0x833589fcd6edb6e08f4c7c32d4f71b54bda02913'',
      ''0x0b2c639c533813f4aa9d7837caf62653d097ff85'',
      ''0x7f5c764cbc14f9669b88837ca1490cca17c31607'',
      ''0x3c499c542cef5e3811e1192ce70d8cc03d5c3359'',
      ''0x2791bca1f2de4661ed88a30c99a7a9449aa84174'',
      ''0x176211869ca2b568f2a7d4ee941e073a821ee1ff'',
      ''0x06efdbff2a14a7c8e15944d1f4a48f9f95f663a4'',
      ''0x2a22f9c3b484c3629090feed35f17ff8f88f76f0'',
      ''0xddafbb505ad214d7b80b1f830fccc89b60fb7a83'',
      ''0x1c7d4b196cb0c7b01d743fbc6116a902379c7238'',
      ''0x036cbd53842c5426634e7929541ec2318f3dcf7e'',
      ''0xdac17f958d2ee523a2206206994597c13d831ec7'',
      ''0xfd086bc7cd5c481dcc9c85ebe478a1c0b69fcbb9'',
      ''0x94b008aa00579c1307b0ef2c499ad98a8ce58e58'',
      ''0xc2132d05d31c914a87c6611c10748aeb04b58e8f'',
      ''0x078d782b760474a361dda7ff6e249887ddf39eb0'',
      ''0x2d270e6886d130d724215a266106e6832161eaed'',
      ''0xd988097fb8612cc24eec14542bc03424c656005f'',
      ''0x9c3c9283d3e44854697cd22d3faa240cfb032889'',
      ''0xe0b7927c4af23765cb51314a0e0521a9645f0e2a'',
      ''0xb97ef9ef8734c71904d8002f8b6bc66dd9c48a6e'',
      ''0x1d17cbcf0d6d143135ae902365d2e5e2a16538d4'',
      ''0xfde4c96c8593536e31f229ea8f37b2ada2699bb2'',
      ''0xf55bec9cafdbe8730f096aa55dad6d22d44099df'',
      ''0x0200c29006150606b650577bbe7b6248f58470c1'',
      ''0xf0f161fda2712db8b566946122a5af183995e2ed'',
      ''0x9702230a8ea53601f5cd2dc00fdbc13d4df4a8c7'',
      ''0xc7198437980c041c805a1edcba50c1ce5db95118'',
      ''usdc'',
      ''usdt'']"

definition token_decimals :: "string \<Rightarrow> nat" where
  "token_decimals token =
     (let lower = to_lowercase token
      in if lower = zero_address_text \<or> lower = ''native''
            \<or> lower = ''0x000000000000000000000000000000000000800a'' then 18
         else if lower \<in> set six_dec then 6 else 18)"

definition weth_address_for_chain :: "u64 \<Rightarrow> string option" where
  "weth_address_for_chain c = map_of
     [(8453, ''0x4200000000000000000000000000000000000006''),
      (10, ''0x4200000000000000000000000000000000000006''),
      (42161, ''0x82af49447d8a07e3bd95bd0d56f35241523fbab1''),
      (1, ''0xc02aaa39b223fe8d0a0e5c4f27ead9083c756cc2''),
      (59144, ''0xe5d7c2a44ffddf6b295a15c148167daaaf5cf34f''),
      (130, ''0x4200000000000000000000000000000000000006''),
      (57073, ''0x4200000000000000000000000000000000000006''),
      (34443, ''0x4200000000000000000000000000000000000006''),
      (534352, ''0x5300000000000000000000000000000000000004''),
      (137, ''0x7ceB23fD6bC0adD59E62ac25578270cFf1b9f619''),
      (56, ''0xbb4CdB9CBd36B01bD1cBaEBF2De08d9173bc095c''),
      (43114, ''0x49d5c2bdffac6ce2bfdb6640f4f80f226bc10bab''),
      (324, ''0x5aea5775959fbc2557cc8789bc1bf90a239d9a91'')] c"

definition eth_like :: "string list" where
  "eth_like =
     [''0x0000000000000000000000000000000000000000'',
      ''native'',
      ''0x000000000000000000000000000000000000800a'',
      ''0x4200000000000000000000000000000000000006'',
      ''0x82af49447d8a07e3bd95bd0d56f35241523fbab1'',
      ''0xc02aaa39b223fe8d0a0e5c4f27ead9083c756cc2'',
      ''0xe5d7c2a44ffddf6b295a15c148167daaaf5cf34f'',
      ''0x5300000000000000000000000000000000000004'',
      ''0x7ceb23fd6bc0add59e62ac25578270cff1b9f619'',
      ''0x49d5c2bdffac6ce2bfdb6640f4f80f226bc10bab'',
      ''0x5aea5775959fbc2557cc8789bc1bf90a239d9a91'']"

text \<open>\<open>ETH_PRICE_USD\<close> is the argument \<open>price\<close>.\<close>

definition token_price_heuristic :: "string option \<Rightarrow> string \<Rightarrow> f64" where
  "token_price_heuristic price token =
     (if to_lowercase token \<in> set eth_like
      then (case Option.bind price parse_f64 of None \<Rightarrow> Fin 3000 | Some p \<Rightarrow> p)
      else Fin 1)"

definition intent_amount_usd :: "string option \<Rightarrow> intent \<Rightarrow> f64" where
  "intent_amount_usd price i =
     (if contains (i_amount i) ''.''
      then (let v = (case parse_f64 (i_amount i) of None \<Rightarrow> Fin 0 | Some v \<Rightarrow> v)
            in if f_gt v (Fin 10000000) then Fin 0 else v)
      else (case parse_u128 (i_amount i) of
              None \<Rightarrow> Fin 0
            | Some n \<Rightarrow>
                f_mul (f_div (fround (of_nat n)) (fround (10 ^ token_decimals (i_src_token i))))
                  (token_price_heuristic price (i_src_token i))))"

definition dln_destination :: evm_addr where
  "dln_destination = 0xE7351Fd770A37282b91D153Ee690B63579D6dd7f"

definition dln_destination_address :: "u64 \<Rightarrow> evm_addr option" where
  "dln_destination_address c =
     (if c \<in> set [1, 10, 56, 137, 42161, 8453, 43114, 59144, 534352, 57073, 34443, 100]
      then Some dln_destination else None)"

definition debridge_non_evm_chain_name :: "u64 \<Rightarrow> string option" where
  "debridge_non_evm_chain_name c = map_of
     [(100000001, ''Solana''),
      (100000002, ''NEAR''),
      (100000003, ''Tron''),
      (100000004, ''Ton''),
      (100000005, ''Aptos''),
      (100000006, ''Sui''),
      (100000007, ''Eclipse (Solana SVM)''),
      (100000022, ''Neon EVM on Solana''),
      (100000023, ''Sonic (Solana SVM)''),
      (100000027, ''Solana (alt chain ID)''),
      (100000030, ''Grass (Solana SVM)''),
      (100000031, ''Svm-Unknown-31'')] c"

definition stable_tokens :: "string list" where
  "stable_tokens =
     [''0x833589fcd6edb6e08f4c7c32d4f71b54bda02913'',
      ''0xaf88d065e77c8cc2239327c5edb3a432268e5831'',
      ''0x0b2c639c533813f4aa9d7837caf62653d097ff85'',
      ''0xa0b86991c6218b36c1d19d4a2e9eb0ce3606eb48'',
      ''0x2791bca1f2de4661ed88a30c99a7a9449aa84174'',
      ''0x176211869ca2b568f2a7d4ee941e073a821ee1ff'',
      ''0x078d782b760474a361dda7ff6e249887ddf39eb0'',
      ''0x06efdbff2a14a7c8e15944d1f4a48f9f95f663a4'',
      ''0x2d270e6886d130d724215a266106e6832161eaed'',
      ''0xd988097fb8612cc24eec14542bc03424c656005f'',
      ''0x9c3c9283d3e44854697cd22d3faa240cfb032889'',
      ''0xe0b7927c4af23765cb51314a0e0521a9645f0e2a'',
      ''0xb97ef9ef8734c71904d8002f8b6bc66dd9c48a6e'',
      ''0x1d17cbcf0d6d143135ae902365d2e5e2a16538d4'',
      ''0xdac17f958d2ee523a2206206994597c13d831ec7'',
      ''0xfd086bc7cd5c481dcc9c85ebe478a1c0b69fcbb9'',
      ''0x94b008aa00579c1307b0ef2c499ad98a8ce58e58'',
      ''0xc2132d05d31c914a87c6611c10748aeb04b58e8f'',
      ''0xfde4c96c8593536e31f229ea8f37b2ada2699bb2'',
      ''0xf55bec9cafdbe8730f096aa55dad6d22d44099df'',
      ''0x0200c29006150606b650577bbe7b6248f58470c1'',
      ''0xf0f161fda2712db8b566946122a5af183995e2ed'',
      ''0x9702230a8ea53601f5cd2dc00fdbc13d4df4a8c7'',
      ''0xc7198437980c041c805a1edcba50c1ce5db95118'']"

definition claim_fee_usd :: "intent \<Rightarrow> f64" where
  "claim_fee_usd i =
     (let give = (case Option.bind (i_give_amount i) parse_f64 of None \<Rightarrow> Fin 0 | Some x \<Rightarrow> x);
          take = (case Option.bind (i_take_amount i) parse_f64 of None \<Rightarrow> Fin 0 | Some x \<Rightarrow> x);
          divisor = (if trim (to_lowercase (i_dst_token i)) \<in> set stable_tokens
                     then fround (10 ^ 6) else fround (10 ^ 18))
      in f_div (f_max (f_sub give take) (Fin 0)) divisor)"

section \<open>Pre-broadcast guards\<close>

datatype across_spread_skip = OutputExceedsInput msg | SpreadTooThin msg

text \<open>\<open>(a - b) as f64 / a as f64 * 100.0\<close>\<close>

definition spread_pct :: "nat \<Rightarrow> nat \<Rightarrow> f64" where
  "spread_pct a b = f_mul (f_div (fround (of_nat (a - b))) (fround (of_nat a))) (Fin 100)"

definition across_spread_skip :: "string \<Rightarrow> string option \<Rightarrow> across_spread_skip option" where
  "across_spread_skip amount output_amount =
     (case parse_u128 amount of None \<Rightarrow> None | Some inp \<Rightarrow>
      case Option.bind output_amount parse_u128 of None \<Rightarrow> None | Some out \<Rightarrow>
      if inp = 0 then None
      else if sat_mul_u128 inp 1000 < out then None
      else if inp < out
      then Some (OutputExceedsInput (Msg ''across_output_exceeds_input:out={}>in={}'' [ANat out, ANat inp]))
      else if f_lt (spread_pct inp out) (fround (1 / 100))
      then Some (SpreadTooThin (Msg ''across_spread_too_thin:{:.4}pct'' [AF64 (spread_pct inp out)]))
      else None)"

definition across_message_hook_skip_reason :: "string option \<Rightarrow> msg option" where
  "across_message_hook_skip_reason message =
     (case message of
        None \<Rightarrow> None
      | Some m \<Rightarrow> if m \<noteq> [] \<and> m \<noteq> ''0x'' \<and> m \<noteq> ''0x0''
                  then Some (lit ''across_message_hook_unsupported'') else None)"

definition across_fill_deadline_skip_reason :: "u32 option \<Rightarrow> u32 \<Rightarrow> msg option" where
  "across_fill_deadline_skip_reason fill_deadline now_unix =
     (case fill_deadline of
        None \<Rightarrow> None
      | Some dl \<Rightarrow> if dl < sat_add_word now_unix 30
                   then Some (Msg ''across_fill_deadline_expired:dl={}<now={}'' [AInt (uint dl), AInt (uint now_unix)])
                   else None)"

section \<open>Estimate outcomes\<close>

datatype estimate_outcome =
    OkGas u64
  | InsufficientFundsLike string
  | EstReverted string
  | AbiInvalid string
  | OkComputeUnits u64
  | InsufficientLamports string
  | RouteNotImplemented string

fun is_green :: "estimate_outcome \<Rightarrow> bool" where
  "is_green (OkGas _) = True"
| "is_green (InsufficientFundsLike _) = True"
| "is_green (OkComputeUnits _) = True"
| "is_green (InsufficientLamports _) = True"
| "is_green _ = False"

fun estimate_tag :: "estimate_outcome \<Rightarrow> string" where
  "estimate_tag (OkGas _) = ''ok_gas''"
| "estimate_tag (InsufficientFundsLike _) = ''insufficient_funds_like''"
| "estimate_tag (EstReverted _) = ''reverted''"
| "estimate_tag (AbiInvalid _) = ''abi_invalid''"
| "estimate_tag (OkComputeUnits _) = ''ok_compute_units''"
| "estimate_tag (InsufficientLamports _) = ''insufficient_lamports''"
| "estimate_tag (RouteNotImplemented _) = ''route_not_implemented''"

definition contains_any :: "string \<Rightarrow> string list \<Rightarrow> bool" where
  "contains_any s ps \<longleftrightarrow> (\<exists>p \<in> set ps. contains s p)"

definition classify_evm_error :: "string \<Rightarrow> estimate_outcome" where
  "classify_evm_error m =
     (let lower = to_lowercase m
      in if contains_any lower [''insufficient funds'', ''not enough funds'',
              ''gas required exceeds allowance'', ''insufficient balance'']
         then InsufficientFundsLike m
         else if contains_any lower [''revert'', ''execution failed'', ''out of gas'', ''vm exception'',
              ''invalid opcode'']
         then EstReverted m
         else AbiInvalid m)"

definition classify_solana_error :: "string \<Rightarrow> estimate_outcome" where
  "classify_solana_error m =
     (let lower = to_lowercase m
      in if contains_any lower [''insufficient lamports'', ''insufficient funds for fee'',
              ''account does not have enough sol'']
         then InsufficientLamports m
         else if contains_any lower [''custom program error'', ''program failed'']
         then EstReverted m
         else AbiInvalid m)"

end
