(* ===== verification/Lambda.thy ===== *)
theory Lambda
  imports Guards Wallet
begin

text \<open>
  The lambda controller (\<open>crates/executor/src/lambda_controller.rs\<close>).  \<open>lambda_execute\<close> is cut into
  stages in the order of the source; a stage either stops with the value the function returns or goes
  on.  The state is the wallet, the outcome log, the transactions handed to a node or broadcaster, and
  a counter of clock reads.  Everything outside the file that it asks (environment variables, spinner,
  RPC nodes, Solana broadcasters, calldata builders, address rendering) is the record \<open>lambda_env\<close>.
\<close>

section \<open>Outcomes, environment and state\<close>

datatype lambda_outcome =
    LConfirmed string u64
  | LReverted string msg
  | LSkipped msg
  | LFailed string msg

datatype claim_outcome =
    CClaimed string f64
  | CNotEligible msg
  | CFailed msg

type_synonym lambda_result = "msg + lambda_outcome"

record chain_wiring =
  cw_chain_id :: u64
  cw_rpc_url :: string
  cw_operator :: evm_addr
  cw_across_adapter :: evm_addr

record test_run =
  tr_is_profitable :: bool
  tr_net_profit_usd :: f64
  tr_gas_units :: u64

record relay_data =
  rd_depositor :: "string option"
  rd_recipient :: "string option"
  rd_exclusive_relayer :: "string option"
  rd_output_token :: "string option"
  rd_output_amount :: "string option"
  rd_fill_deadline :: "u32 option"
  rd_exclusivity_deadline :: "u32 option"
  rd_message :: "string option"
  rd_deposit_id :: "int option"

record evm_tx =
  tx_rpc_url :: string
  tx_to :: evm_addr
  tx_data :: bytes
  tx_value :: "nat option"
  tx_fees :: "(nat \<times> nat) option"

datatype sent = EvmTx evm_tx | SolanaTx string intent

record receipt =
  rc_gas_used :: u64
  rc_gas_price :: nat
  rc_status :: bool

record solana_port =
  sp_ready :: bool
  sp_build :: "intent \<Rightarrow> string + u64"
  sp_key :: "string + unit"
  sp_send :: "intent \<Rightarrow> string + string"

record lambda_env =
  v_clock :: "nat \<Rightarrow> int"
  v_sum :: "f64 list \<Rightarrow> f64"
  v_dry_run :: bool
  v_threshold :: f64
  v_signer :: evm_addr
  v_addr_hex :: "evm_addr \<Rightarrow> string"
  v_chains :: "(u64 \<times> chain_wiring) list"
  v_logging :: bool
  v_max_notional :: "string option"
  v_eth_price :: "string option"
  v_skip_estimate :: "string option"
  v_test_run :: "string \<Rightarrow> string \<Rightarrow> string + test_run"
  v_proof :: "string \<Rightarrow> string + bytes"
  v_relay_tx :: "string \<Rightarrow> string \<Rightarrow> relay_data option"
  v_relay_deposit :: "int \<Rightarrow> u64 \<Rightarrow> string \<Rightarrow> relay_data option"
  v_parse_addr :: "string \<Rightarrow> evm_addr option"
  v_erc20_balance :: "u64 \<Rightarrow> evm_addr \<Rightarrow> bytes option"
  v_native_balance :: "u64 \<Rightarrow> nat option"
  v_u256 :: "nat \<Rightarrow> string \<Rightarrow> nat option"
  v_flash :: solana_port
  v_mayan_sol :: solana_port
  v_dln_sol :: solana_port
  v_ntt :: solana_port
  v_mayan_simple :: "intent \<Rightarrow> string + evm_addr \<times> bytes"
  v_mayan_vaa :: "intent \<Rightarrow> string + evm_addr \<times> bytes"
  v_debridge_calldata :: "intent \<Rightarrow> evm_addr \<Rightarrow> string + bytes"
  v_spoke_calldata :: "intent \<Rightarrow> evm_addr \<Rightarrow> u64 \<Rightarrow> string + bytes"
  v_adapter_calldata :: "intent \<Rightarrow> string + bytes"
  v_verified_call :: "u64 \<Rightarrow> bytes \<Rightarrow> evm_addr \<Rightarrow> bytes \<Rightarrow> bytes"
  v_estimate :: "u64 \<Rightarrow> evm_addr \<Rightarrow> evm_addr \<Rightarrow> bytes \<Rightarrow> nat option \<Rightarrow> estimate_outcome"
  v_gas_price :: "u64 \<Rightarrow> nat \<times> nat"
  v_rpc_ok :: "string \<Rightarrow> bool"
  v_send :: "evm_tx \<Rightarrow> string + string"
  v_receipt :: "string \<Rightarrow> string + receipt"
  v_claim_selector :: bytes
  v_dln_source :: "u64 \<Rightarrow> evm_addr option"
  v_claim_unlock :: "intent \<Rightarrow> evm_addr \<Rightarrow> string + bytes"

record lstate =
  l_wallet :: wallet
  l_log :: outcome_log
  l_sent :: "sent list"
  l_tick :: nat

datatype 'a step = Stop lambda_result lstate | Go 'a lstate

fun step_bind :: "'a step \<Rightarrow> ('a \<Rightarrow> lstate \<Rightarrow> 'b step) \<Rightarrow> 'b step" where
  "step_bind (Stop r s) f = Stop r s"
| "step_bind (Go a s) f = f a s"

section \<open>Effects\<close>

definition clock :: "lambda_env \<Rightarrow> lstate \<Rightarrow> int \<times> lstate" where
  "clock v s = (v_clock v (l_tick s), s\<lparr>l_tick := Suc (l_tick s)\<rparr>)"

text \<open>\<open>self.transition\<close>: a refused transition is only logged.\<close>

definition trans_to ::
    "lambda_env \<Rightarrow> string \<Rightarrow> intent_state \<Rightarrow> string option \<Rightarrow> msg option \<Rightarrow> lstate \<Rightarrow> lstate" where
  "trans_to v i st h e s =
     (let (now, s') = clock v s
      in s'\<lparr>l_wallet := or_else2 (transition now i st h e (l_wallet s)) (l_wallet s)\<rparr>)"

definition free_hold :: "string \<Rightarrow> lstate \<Rightarrow> lstate" where
  "free_hold i s = s\<lparr>l_wallet := release i (l_wallet s)\<rparr>"

definition append_outcome :: "lambda_env \<Rightarrow> outcome \<Rightarrow> lstate \<Rightarrow> lstate" where
  "append_outcome v r s = (if v_logging v then s\<lparr>l_log := append_outcome_row r (l_log s)\<rparr> else s)"

definition outcome_for :: "int \<Rightarrow> intent \<Rightarrow> string \<Rightarrow> outcome" where
  "outcome_for ts it decision =
     \<lparr>o_ts = ts, o_intent_id = i_id it, o_protocol = i_protocol it, o_src_chain = i_src_chain it,
      o_dst_chain = i_dst_chain it, o_decision = decision, o_tx_hash = None, o_predicted_gas = None,
      o_gas_used = None, o_effective_gas_price = None, o_predicted_profit = None,
      o_actual_profit = None, o_skip_reason = None, o_error = None, o_solver_id = None,
      o_claim_tx_hash = None, o_claim_fee = None, o_fee = None, o_venue = None,
      o_is_native_book = None, o_book_market_id = None\<rparr>"

definition append_solana_confirmed ::
    "lambda_env \<Rightarrow> intent \<Rightarrow> string \<Rightarrow> u64 \<Rightarrow> f64 option \<Rightarrow> lstate \<Rightarrow> lstate" where
  "append_solana_confirmed v it sig units predicted s =
     (let (now, s') = clock v s
      in append_outcome v ((outcome_for now it ''executed'')\<lparr>o_tx_hash := Some sig,
           o_predicted_gas := Some units, o_gas_used := Some units,
           o_predicted_profit := predicted, o_actual_profit := predicted\<rparr>) s')"

text \<open>The two ways out before a broadcast: record the state and reason, give the reservation up.\<close>

definition skip :: "lambda_env \<Rightarrow> intent \<Rightarrow> msg \<Rightarrow> lstate \<Rightarrow> 'a step" where
  "skip v it reason s = Stop (Inr (LSkipped reason))
     (free_hold (i_id it) (trans_to v (i_id it) SkipUnprofitable None (Some reason) s))"

definition fail :: "lambda_env \<Rightarrow> intent \<Rightarrow> intent_state \<Rightarrow> string \<Rightarrow> msg \<Rightarrow> lstate \<Rightarrow> 'a step" where
  "fail v it st stage err s = Stop (Inr (LFailed stage err))
     (free_hold (i_id it) (trans_to v (i_id it) st None (Some err) s))"

section \<open>Protocol tags\<close>

definition is_debridge :: "intent \<Rightarrow> bool" where
  "is_debridge it \<longleftrightarrow> contains (to_lowercase (i_protocol it)) ''debridge'' \<or> contains (to_lowercase (i_protocol it)) ''dln''"

definition is_mayan :: "intent \<Rightarrow> bool" where
  "is_mayan it \<longleftrightarrow> contains (to_lowercase (i_protocol it)) ''mayan''"

definition is_across :: "intent \<Rightarrow> bool" where
  "is_across it \<longleftrightarrow> contains (to_lowercase (i_protocol it)) ''across''"

definition is_solana_src :: "intent \<Rightarrow> bool" where
  "is_solana_src it \<longleftrightarrow> i_is_solana_source it = Some True \<or> i_src_chain it = 1399811149"

definition direct_fill :: "chain_wiring \<Rightarrow> bool" where
  "direct_fill w \<longleftrightarrow> cw_operator w = 0"

definition bypass_spinner :: "chain_wiring \<Rightarrow> intent \<Rightarrow> bool" where
  "bypass_spinner w it \<longleftrightarrow> direct_fill w \<or> is_debridge it \<or> is_mayan it"

section \<open>Admission: notional cap, wiring, reservation, profitability\<close>

definition max_notional :: "lambda_env \<Rightarrow> f64" where
  "max_notional v = (case Option.bind (v_max_notional v) parse_f64 of None \<Rightarrow> Fin 200 | Some x \<Rightarrow> x)"

definition stage_notional :: "lambda_env \<Rightarrow> intent \<Rightarrow> lstate \<Rightarrow> unit step" where
  "stage_notional v it s =
     (let amount = intent_amount_usd (v_eth_price v) it; cap = max_notional v
      in if f_gt amount cap
         then let reason = Msg ''notional_cap_exceeded:amount=${:.2}>cap=${:.2}'' [AF64 amount, AF64 cap];
                  (now, s') = clock v s
              in Stop (Inr (LSkipped reason))
                   (append_outcome v ((outcome_for now it ''skip_notional_cap'')\<lparr>o_skip_reason := Some reason\<rparr>) s')
         else Go () s)"

definition stage_wiring :: "lambda_env \<Rightarrow> intent \<Rightarrow> lstate \<Rightarrow> (int \<times> chain_wiring) step" where
  "stage_wiring v it s =
     (let (started, s') = clock v s
      in case map_of (v_chains v) (i_dst_chain it) of
           Some w \<Rightarrow> Go (started, w) s'
         | None \<Rightarrow> Stop (Inr (LSkipped (Msg ''no chain wiring for dst {}{}''
                     (AInt (uint (i_dst_chain it)) #
                      (case debridge_non_evm_chain_name (i_dst_chain it) of None \<Rightarrow> [] | Some n \<Rightarrow> [AStr n]))))) s')"

definition new_intent_of :: "lambda_env \<Rightarrow> intent \<Rightarrow> new_intent" where
  "new_intent_of v it = \<lparr>ni_id = i_id it, ni_protocol = i_protocol it, ni_src_chain = sint (i_src_chain it),
     ni_dst_chain = sint (i_dst_chain it), ni_amount_usd = intent_amount_usd (v_eth_price v) it\<rparr>"

definition stage_reserve :: "lambda_env \<Rightarrow> intent \<Rightarrow> lstate \<Rightarrow> unit step" where
  "stage_reserve v it s =
     (let (now, s1) = clock v s
      in case record_detected now (new_intent_of v it) (l_wallet s1) of
           Inl e \<Rightarrow> Stop (Inl (Msg ''wallet record_detected: {}'' [AMsg (wallet_error_msg e)])) s1
         | Inr (_, w1) \<Rightarrow>
             let s2 = s1\<lparr>l_wallet := w1\<rparr>
             in if v_dry_run v then Go () s2
                else let (now2, s3) = clock v s2
                     in case reserve (v_sum v) now2 (i_id it) (intent_amount_usd (v_eth_price v) it) w1 of
                          Inr w2 \<Rightarrow> Go () (s3\<lparr>l_wallet := w2\<rparr>)
                        | Inl e \<Rightarrow>
                            let reason = Msg ''reserve_failed:{}'' [AMsg (wallet_error_msg e)]
                            in Stop (Inr (LSkipped reason))
                                 (trans_to v (i_id it) SkipUnprofitable None (Some reason) s3))"

definition stage_adapter :: "lambda_env \<Rightarrow> intent \<Rightarrow> chain_wiring \<Rightarrow> lstate \<Rightarrow> unit step" where
  "stage_adapter v it w s =
     (if is_across it \<and> cw_across_adapter w = 0
      then skip v it (Msg ''no Across SpokePool on chain {}'' [AInt (uint (i_dst_chain it))]) s
      else Go () s)"

definition stage_test_run :: "lambda_env \<Rightarrow> intent \<Rightarrow> chain_wiring \<Rightarrow> lstate \<Rightarrow> test_run option step" where
  "stage_test_run v it w s =
     (let s1 = trans_to v (i_id it) ProfitabilityCheck None None s
      in if bypass_spinner w it then Go None s1
         else case v_test_run v (i_protocol it) (i_id it) of
                Inr t \<Rightarrow> Go (Some t) s1
              | Inl e \<Rightarrow> if v_dry_run v then Go None s1
                         else fail v it SkipUnprofitable ''spinner_test_run'' (Msg ''spinner_test_run:{}'' [AStr e]) s1)"

definition stage_profit :: "lambda_env \<Rightarrow> intent \<Rightarrow> int \<Rightarrow> test_run option \<Rightarrow> lstate \<Rightarrow> unit step" where
  "stage_profit v it started test s =
     (case test of
        None \<Rightarrow> Go () s
      | Some t \<Rightarrow>
          if \<not> tr_is_profitable t \<or> f_lt (tr_net_profit_usd t) (v_threshold v)
          then let reason = (if \<not> tr_is_profitable t then lit ''unprofitable''
                             else Msg ''below_threshold:${:.4}<${:.2}'' [AF64 (tr_net_profit_usd t), AF64 (v_threshold v)]);
                   s1 = free_hold (i_id it) (trans_to v (i_id it) SkipUnprofitable None (Some reason) s)
               in Stop (Inr (LSkipped reason))
                    (append_outcome v ((outcome_for started it ''skip_unprofitable'')\<lparr>
                       o_predicted_gas := Some (tr_gas_units t),
                       o_predicted_profit := Some (tr_net_profit_usd t),
                       o_skip_reason := Some reason\<rparr>) s1)
          else Go () s)"

section \<open>Order checks for deBridge\<close>

definition stage_taker :: "lambda_env \<Rightarrow> intent \<Rightarrow> lstate \<Rightarrow> unit step" where
  "stage_taker v it s =
     (case i_dln_allowed_taker_dst it of
        Some taker \<Rightarrow>
          if is_debridge it
          then let clean = trim_start_char CHR ''0'' (trim_start_str ''0x'' taker);
                   our = v_addr_hex v (v_signer v);
                   is_ours = (to_lowercase clean = to_lowercase our
                              \<or> ends_with (to_lowercase taker) (to_lowercase our))
               in if clean \<noteq> [] \<and> \<not> is_ours
                  then skip v it (Msg ''debridge_exclusive_taker:{}'' [AStr (take 20 taker)]) s
                  else Go () s
          else Go () s
      | None \<Rightarrow> Go () s)"

definition stage_external_call :: "lambda_env \<Rightarrow> intent \<Rightarrow> lstate \<Rightarrow> unit step" where
  "stage_external_call v it s =
     (case i_dln_external_call it of
        Some ext \<Rightarrow>
          if is_debridge it \<and> (\<exists>c \<in> set (trim_start_str ''0x'' ext). c \<noteq> CHR ''0'')
          then skip v it (lit ''debridge_external_call_unsupported'') s
          else Go () s
      | None \<Rightarrow> Go () s)"

definition debridge_spread_skip :: "intent \<Rightarrow> msg option" where
  "debridge_spread_skip it =
     (case (Option.bind (i_give_amount it) parse_u128, Option.bind (i_take_amount it) parse_u128) of
        (Some g, Some t) \<Rightarrow>
          if t \<le> sat_mul_u128 g 1000
          then if t = 0 \<or> g \<le> t
               then Some (Msg ''debridge_no_spread:give={g}<=take={t}'' [ANat g, ANat t])
               else if f_lt (spread_pct g t) (fround (1 / 100))
               then Some (Msg ''debridge_spread_too_thin:{spread_pct:.3}pct'' [AF64 (spread_pct g t)])
               else None
          else None
      | _ \<Rightarrow> None)"

definition stage_debridge_spread :: "lambda_env \<Rightarrow> intent \<Rightarrow> lstate \<Rightarrow> unit step" where
  "stage_debridge_spread v it s =
     (if is_debridge it
      then case debridge_spread_skip it of Some r \<Rightarrow> skip v it r s | None \<Rightarrow> Go () s
      else Go () s)"

text \<open>A \<open>balanceOf\<close> answer: 128 low bits of the first word, zero when it is shorter.\<close>

definition be_nat :: "bytes \<Rightarrow> nat" where
  "be_nat bs = foldl (\<lambda>n b. 256 * n + unat b) 0 bs"

definition balance_of_word :: "bytes \<Rightarrow> nat" where
  "balance_of_word r = (if 32 \<le> length r then be_nat (take 16 (drop 16 r)) else 0)"

definition is_erc20_token :: "string \<Rightarrow> bool" where
  "is_erc20_token t \<longleftrightarrow> t \<noteq> [] \<and> t \<noteq> ''native''
     \<and> t \<noteq> ''0xeeeeeeeeeeeeeeeeeeeeeeeeeeeeeeeeeeeeeeee'' \<and> t \<noteq> zero_address_text"

text \<open>The balance and the requirement when a known balance is short; unknown answers pass.\<close>

definition erc20_short ::
    "lambda_env \<Rightarrow> chain_wiring \<Rightarrow> evm_addr option \<Rightarrow> string option \<Rightarrow> (nat \<times> nat) option" where
  "erc20_short v w token amount =
     (case Option.bind amount parse_u128 of None \<Rightarrow> None | Some required \<Rightarrow>
      if required = 0 then None
      else case token of None \<Rightarrow> None | Some t \<Rightarrow>
      case v_erc20_balance v (cw_chain_id w) t of None \<Rightarrow> None | Some r \<Rightarrow>
      if balance_of_word r < required then Some (balance_of_word r, required) else None)"

definition stage_debridge_balance :: "lambda_env \<Rightarrow> intent \<Rightarrow> chain_wiring \<Rightarrow> lstate \<Rightarrow> unit step" where
  "stage_debridge_balance v it w s =
     (let take_token = to_lowercase (trim (i_dst_token it))
      in if is_debridge it \<and> is_erc20_token take_token
         then case erc20_short v w (v_parse_addr v take_token) (i_take_amount it) of
                Some (bal, required) \<Rightarrow>
                  skip v it (Msg ''debridge_erc20_insufficient:have={}<need={}'' [ANat bal, ANat required]) s
              | None \<Rightarrow> Go () s
         else Go () s)"

section \<open>Proof and relay data\<close>

definition proof_candidates :: "intent \<Rightarrow> string list" where
  "proof_candidates it =
     (case i_deposit_id it of None \<Rightarrow> [] | Some d \<Rightarrow> [show_int d])
     @ (if i_tx_hash it \<noteq> [] \<and> i_tx_hash it \<noteq> ''0x'' then [i_tx_hash it] else [])
     @ [i_id it]"

fun try_proofs :: "(string \<Rightarrow> string + bytes) \<Rightarrow> string list \<Rightarrow> string \<Rightarrow> string + bytes" where
  "try_proofs fetch [] last_err = Inl last_err"
| "try_proofs fetch (k # ks) last_err =
     (case fetch k of Inr b \<Rightarrow> Inr b | Inl e \<Rightarrow> try_proofs fetch ks e)"

definition stage_proof :: "lambda_env \<Rightarrow> intent \<Rightarrow> chain_wiring \<Rightarrow> lstate \<Rightarrow> bytes step" where
  "stage_proof v it w s =
     (if bypass_spinner w it then Go [] s
      else let s1 = trans_to v (i_id it) ProofFetch None None s; keys = proof_candidates it
           in case try_proofs (v_proof v) keys [] of
                Inr b \<Rightarrow> Go b s1
              | Inl e \<Rightarrow>
                  if v_dry_run v then Go [] s1
                  else fail v it ProofMissing ''proof_fetch''
                         (Msg ''proof_fetch (tried {:?}): {}'' (map AStr keys @ [AStr e])) s1)"

definition parse_id_tail :: "string \<Rightarrow> int option" where
  "parse_id_tail t = find_map parse_i64 (rsplit '':_'' t)"

definition or_opt :: "'a option \<Rightarrow> 'a option \<Rightarrow> 'a option" where
  "or_opt a b = (case a of None \<Rightarrow> b | Some x \<Rightarrow> Some x)"

definition blank_addr :: "string \<Rightarrow> bool" where
  "blank_addr a \<longleftrightarrow> a = [] \<or> a = zero_address_text"

definition patch_intent :: "relay_data \<Rightarrow> intent \<Rightarrow> intent" where
  "patch_intent r it = it\<lparr>
     i_output_amount := or_opt (i_output_amount it) (rd_output_amount r),
     i_fill_deadline := or_opt (i_fill_deadline it) (rd_fill_deadline r),
     i_exclusivity_deadline := or_opt (i_exclusivity_deadline it) (rd_exclusivity_deadline r),
     i_exclusive_relayer := (if i_exclusive_relayer it \<in> {None, Some ''0x''}
                             then rd_exclusive_relayer r else i_exclusive_relayer it),
     i_dst_token := (if blank_addr (i_dst_token it)
                     then (case rd_output_token r of None \<Rightarrow> i_dst_token it | Some x \<Rightarrow> x) else i_dst_token it),
     i_recipient := (if blank_addr (i_recipient it)
                     then (case rd_recipient r of None \<Rightarrow> i_recipient it | Some x \<Rightarrow> x) else i_recipient it),
     i_depositor := (if blank_addr (i_depositor it)
                     then (case rd_depositor r of None \<Rightarrow> i_depositor it | Some x \<Rightarrow> x) else i_depositor it),
     i_deposit_id := or_opt (i_deposit_id it) (rd_deposit_id r),
     i_message := or_opt (i_message it) (rd_message r)\<rparr>"

definition find_relay :: "lambda_env \<Rightarrow> intent \<Rightarrow> string \<Rightarrow> relay_data option" where
  "find_relay v it src_rpc =
     (let h = i_tx_hash it;
          real_hash = (h \<noteq> [] \<and> starts_with h ''0x'' \<and> length h = 66 \<and> \<not> starts_with h ''synthetic_'');
          by_tx = (if real_hash then v_relay_tx v h src_rpc else None)
      in case by_tx of
           Some r \<Rightarrow> Some r
         | None \<Rightarrow>
             (case or_opt (i_deposit_id it) (parse_id_tail (i_id it)) of
                None \<Rightarrow> None
              | Some d \<Rightarrow> v_relay_deposit v d (i_src_chain it) src_rpc))"

definition stage_enrich :: "lambda_env \<Rightarrow> intent \<Rightarrow> chain_wiring \<Rightarrow> lstate \<Rightarrow> intent step" where
  "stage_enrich v it w s =
     (if direct_fill w \<and> \<not> is_debridge it \<and> \<not> is_mayan it
      then let needs = (i_fill_deadline it = None \<or> i_output_amount it = None \<or> i_deposit_id it = None);
               src_rpc = (case map_of (v_chains v) (i_src_chain it) of None \<Rightarrow> [] | Some sw \<Rightarrow> cw_rpc_url sw)
           in if needs \<and> src_rpc \<noteq> []
              then case find_relay v it src_rpc of
                     Some r \<Rightarrow> Go (patch_intent r it) s
                   | None \<Rightarrow> skip v it (Msg ''across_enrichment_failed:{}'' [AStr (i_id it)]) s
              else Go it s
      else Go it s)"

section \<open>Claim-info and deadline guards\<close>

definition unix_secs :: "int \<Rightarrow> int" where
  "unix_secs ns = max 0 (ns div 1000000000)"

definition stage_exclusivity :: "lambda_env \<Rightarrow> intent \<Rightarrow> chain_wiring \<Rightarrow> lstate \<Rightarrow> unit step" where
  "stage_exclusivity v it w s =
     (if direct_fill w
      then let (t, s1) = clock v s; now = (word_of_int (unix_secs t) :: u32);
               deadline = (case i_exclusivity_deadline it of None \<Rightarrow> 0 | Some d \<Rightarrow> d);
               relayer = (case i_exclusive_relayer it of None \<Rightarrow> [] | Some r \<Rightarrow> r);
               ours = (to_lowercase relayer = to_lowercase (''0x'' @ v_addr_hex v (v_signer v))
                       \<or> relayer = zero_address_text \<or> relayer = [] \<or> relayer = ''0x'')
           in if now < deadline \<and> \<not> ours
              then skip v it (Msg ''exclusive_window_active:deadline={excl_deadline}>now={now},relayer={excl_relayer}''
                     [AInt (uint deadline), AInt (uint now), AStr relayer]) s1
              else Go () s1
      else Go () s)"

definition ok_missing :: "bool \<Rightarrow> arg" where
  "ok_missing m = AStr (if m then ''missing'' else ''ok'')"

definition stage_claim_info :: "lambda_env \<Rightarrow> intent \<Rightarrow> chain_wiring \<Rightarrow> lstate \<Rightarrow> unit step" where
  "stage_claim_info v it w s =
     (let no_out = (case i_output_amount it of None \<Rightarrow> True | Some a \<Rightarrow> a = [] \<or> a = ''0'');
          no_deadline = (i_fill_deadline it = None);
          no_recipient = blank_addr (i_recipient it);
          has_hash = (case i_mayan_order_id it of None \<Rightarrow> False | Some h \<Rightarrow> 66 \<le> length h)
      in if is_across it \<and> direct_fill w \<and> (no_out \<or> no_deadline \<or> no_recipient)
         then skip v it (Msg ''incomplete_claim_info:output={} deadline={} recipient={}''
                [ok_missing no_out, ok_missing no_deadline, ok_missing no_recipient]) s
         else if is_mayan it \<and> (no_recipient \<or> \<not> has_hash)
         then skip v it (Msg ''incomplete_claim_info:recipient={} order_hash={}''
                [ok_missing no_recipient, ok_missing (\<not> has_hash)]) s
         else Go () s)"

definition stage_mayan_deadline :: "lambda_env \<Rightarrow> intent \<Rightarrow> lstate \<Rightarrow> unit step" where
  "stage_mayan_deadline v it s =
     (case i_deadline it of
        Some dl \<Rightarrow>
          if is_mayan it
          then let (t, s1) = clock v s; now = (word_of_int (unix_secs t) :: u64)
               in if dl < sat_add_word now 30
                  then skip v it (Msg ''mayan_deadline_expired:dl={dl}<now+30={}'' [AInt (uint dl), AInt (uint (now + 30))]) s1
                  else Go () s1
          else Go () s
      | None \<Rightarrow> Go () s)"

section \<open>Solana fills\<close>

text \<open>
  The four Solana paths run the same steps in different orders: \<open>gated\<close> first checks that the program
  is configured; \<open>dry_first\<close> tests for a dry run before the intent is built (Mayan Swift builds it first).
\<close>

definition solana_broadcast ::
    "lambda_env \<Rightarrow> intent \<Rightarrow> solana_port \<Rightarrow> string \<Rightarrow> string \<Rightarrow> test_run option \<Rightarrow> u64 \<Rightarrow> lstate \<Rightarrow> 'a step" where
  "solana_broadcast v it port kind send_tag test units s =
     (case sp_key port of
        Inl e \<Rightarrow> skip v it (Msg ''solana_key_not_configured:{}'' [AStr e]) s
      | Inr _ \<Rightarrow>
          let s1 = trans_to v (i_id it) Broadcast None None s;
              s2 = s1\<lparr>l_sent := l_sent s1 @ [SolanaTx kind it]\<rparr>
          in case sp_send port it of
               Inr sig \<Rightarrow>
                 let s3 = trans_to v (i_id it) Confirmed (Some sig) None s2;
                     s4 = append_solana_confirmed v it sig units (map_option tr_net_profit_usd test) s3
                 in Stop (Inr (LConfirmed sig units)) (free_hold (i_id it) s4)
             | Inl e \<Rightarrow> fail v it Reverted ''broadcast'' (Msg send_tag [AStr e]) s2)"

definition dry_run_skip :: "lambda_env \<Rightarrow> intent \<Rightarrow> lstate \<Rightarrow> 'a step" where
  "dry_run_skip v it s = skip v it (lit ''dry_run'') s"

definition solana_fill ::
    "lambda_env \<Rightarrow> intent \<Rightarrow> solana_port \<Rightarrow> string \<Rightarrow> msg option \<Rightarrow> string \<Rightarrow> string \<Rightarrow> test_run option \<Rightarrow> lstate \<Rightarrow> 'a step" where
  "solana_fill v it port kind not_ready build_tag send_tag test s =
     (case (if sp_ready port then None else not_ready) of
        Some reason \<Rightarrow> skip v it reason s
      | None \<Rightarrow>
          if v_dry_run v then dry_run_skip v it s
          else case sp_build port it of
                 Inl e \<Rightarrow> fail v it CalldataError ''calldata_build'' (Msg build_tag [AStr e]) s
               | Inr units \<Rightarrow> solana_broadcast v it port kind send_tag test units s)"

definition stage_flash :: "lambda_env \<Rightarrow> intent \<Rightarrow> test_run option \<Rightarrow> lstate \<Rightarrow> unit step" where
  "stage_flash v it test s =
     (if contains (to_lowercase (i_protocol it)) ''flash'' \<and> is_solana_src it
      then solana_fill v it (v_flash v) ''mayan_flash'' (Some (lit ''mayan_flash_program_not_configured''))
             ''mayan_flash_intent_build:{}'' ''mayan_flash_send:{:#}'' test s
      else Go () s)"

definition auction_mode :: "intent \<Rightarrow> u8" where
  "auction_mode it = (case i_mayan_auction_mode it of None \<Rightarrow> 2 | Some m \<Rightarrow> m)"

definition stage_mayan_solana :: "lambda_env \<Rightarrow> intent \<Rightarrow> test_run option \<Rightarrow> lstate \<Rightarrow> unit step" where
  "stage_mayan_solana v it test s =
     (if is_mayan it \<and> is_solana_src it
      then if auction_mode it \<noteq> 0 then skip v it (lit ''mayan_auction_mode_requires_registration'') s
           else case sp_build (v_mayan_sol v) it of
                  Inl e \<Rightarrow> fail v it CalldataError ''calldata_build'' (Msg ''mayan_solana_intent_build:{}'' [AStr e]) s
                | Inr units \<Rightarrow>
                    if v_dry_run v then dry_run_skip v it s
                    else solana_broadcast v it (v_mayan_sol v) ''mayan_solana'' ''solana_send_transaction:{:#}'' test units s
      else Go () s)"

definition stage_dln_solana :: "lambda_env \<Rightarrow> intent \<Rightarrow> test_run option \<Rightarrow> lstate \<Rightarrow> unit step" where
  "stage_dln_solana v it test s =
     (if is_debridge it \<and> (i_dst_chain it = 100000001 \<or> i_is_solana_destination it = Some True)
      then solana_fill v it (v_dln_sol v) ''dln_solana'' (Some (lit ''dln_solana_program_not_configured''))
             ''dln_solana_intent_build:{}'' ''dln_solana_send_transaction:{:#}'' test s
      else Go () s)"

definition stage_ntt :: "lambda_env \<Rightarrow> intent \<Rightarrow> test_run option \<Rightarrow> lstate \<Rightarrow> unit step" where
  "stage_ntt v it test s =
     (if (contains (to_lowercase (i_protocol it)) ''wormhole'' \<or> contains (to_lowercase (i_protocol it)) ''ntt'')
         \<and> \<not> is_solana_src it
      then solana_fill v it (v_ntt v) ''wormhole_ntt'' None
             ''wormhole_ntt_intent_build:{}'' ''wormhole_ntt_send:{:#}'' test s
      else Go () s)"

section \<open>EVM pre-flight checks\<close>

definition stage_mayan_auction :: "lambda_env \<Rightarrow> intent \<Rightarrow> lstate \<Rightarrow> unit step" where
  "stage_mayan_auction v it s =
     (if is_mayan it \<and> \<not> is_solana_src it \<and> auction_mode it \<noteq> 0
      then skip v it (lit ''mayan_auction_mode_requires_registration'') s
      else Go () s)"

fun spread_skip_reason :: "across_spread_skip \<Rightarrow> msg" where
  "spread_skip_reason (OutputExceedsInput r) = r"
| "spread_skip_reason (SpreadTooThin r) = r"

definition plain_across :: "chain_wiring \<Rightarrow> intent \<Rightarrow> bool" where
  "plain_across w it \<longleftrightarrow> direct_fill w \<and> \<not> is_debridge it \<and> \<not> is_mayan it"

definition stage_across_spread :: "lambda_env \<Rightarrow> intent \<Rightarrow> chain_wiring \<Rightarrow> lstate \<Rightarrow> unit step" where
  "stage_across_spread v it w s =
     (if plain_across w it
      then case across_spread_skip (i_amount it) (i_output_amount it) of
             Some k \<Rightarrow> skip v it (spread_skip_reason k) s
           | None \<Rightarrow> Go () s
      else Go () s)"

definition stage_across_hook :: "lambda_env \<Rightarrow> intent \<Rightarrow> chain_wiring \<Rightarrow> lstate \<Rightarrow> unit step" where
  "stage_across_hook v it w s =
     (if (direct_fill w \<or> is_across it) \<and> \<not> is_debridge it \<and> \<not> is_mayan it
      then case across_message_hook_skip_reason (i_message it) of
             Some r \<Rightarrow> skip v it r s
           | None \<Rightarrow> Go () s
      else Go () s)"

definition stage_across_source :: "lambda_env \<Rightarrow> intent \<Rightarrow> lstate \<Rightarrow> unit step" where
  "stage_across_source v it s =
     (let dep = i_depositor it;
          has_id = (i_deposit_id it \<noteq> None \<or> parse_id_tail (i_id it) \<noteq> None \<or> parse_id_tail (i_tx_hash it) \<noteq> None)
      in if is_across it \<and> \<not> is_mayan it \<and> \<not> is_debridge it
            \<and> \<not> (starts_with dep ''0x'' \<or> starts_with dep ''0X'') \<and> 10 < length dep
         then skip v it (Msg ''across_solana_src_unsupported:depositor={}'' [AStr (take 12 dep)]) s
         else if is_across it \<and> \<not> is_mayan it \<and> \<not> is_debridge it \<and> \<not> has_id
         then skip v it (Msg ''across_no_deposit_id:{}'' [AStr (i_id it)]) s
         else Go () s)"

definition stage_across_deadline :: "lambda_env \<Rightarrow> intent \<Rightarrow> chain_wiring \<Rightarrow> lstate \<Rightarrow> unit step" where
  "stage_across_deadline v it w s =
     (if (direct_fill w \<or> is_across it) \<and> \<not> is_debridge it \<and> \<not> is_mayan it
      then let (t, s1) = clock v s
           in case across_fill_deadline_skip_reason (i_fill_deadline it) (word_of_int (unix_secs t)) of
                Some r \<Rightarrow> skip v it r s1
              | None \<Rightarrow> Go () s1
      else Go () s)"

definition stage_across_balance :: "lambda_env \<Rightarrow> intent \<Rightarrow> chain_wiring \<Rightarrow> lstate \<Rightarrow> unit step" where
  "stage_across_balance v it w s =
     (if plain_across w it \<and> is_erc20_token (to_lowercase (trim (i_dst_token it)))
      then case erc20_short v w (v_parse_addr v (i_dst_token it)) (i_output_amount it) of
             Some (bal, required) \<Rightarrow> skip v it (Msg ''erc20_insufficient:have={}<need={}'' [ANat bal, ANat required]) s
           | None \<Rightarrow> Go () s
      else Go () s)"

definition eth_fill_value :: "lambda_env \<Rightarrow> chain_wiring \<Rightarrow> intent \<Rightarrow> nat option" where
  "eth_fill_value v w it =
     (let dst = to_lowercase (i_dst_token it);
          weth_matches = (case weth_address_for_chain (cw_chain_id w) of None \<Rightarrow> False | Some a \<Rightarrow> to_lowercase a = dst);
          native = (dst = zero_address_text \<or> dst = ''native'');
          native_out = (if is_mayan it then weth_matches \<or> native else native)
      in if native_out
         then Option.bind (i_output_amount it) (\<lambda>a.
                if starts_with a ''0x'' \<or> starts_with a ''0X''
                then v_u256 v 16 (trim_start_str ''0X'' (trim_start_str ''0x'' a))
                else v_u256 v 10 a)
         else None)"

section \<open>Calldata\<close>

text \<open>The target and calldata of the fill, or the error and its text.\<close>

definition fill_call :: "lambda_env \<Rightarrow> chain_wiring \<Rightarrow> intent \<Rightarrow> bytes \<Rightarrow> msg + evm_addr \<times> bytes" where
  "fill_call v w it proof =
     (let wrap = (\<lambda>e. Msg ''calldata_build:{}'' [AStr e])
      in if is_mayan it
         then (case (if auction_mode it = 0 then v_mayan_simple v it else v_mayan_vaa v it) of
                 Inl e \<Rightarrow> Inl (wrap e) | Inr c \<Rightarrow> Inr c)
         else if is_debridge it
         then (case dln_destination_address (i_dst_chain it) of
                 None \<Rightarrow> Inl (Msg ''no DlnDestination address for chain {}'' [AInt (uint (i_dst_chain it))])
               | Some a \<Rightarrow>
                   (case v_debridge_calldata v it (v_signer v) of Inl e \<Rightarrow> Inl (wrap e) | Inr c \<Rightarrow> Inr (a, c)))
         else if direct_fill w
         then (case v_spoke_calldata v it (v_signer v) (cw_chain_id w) of
                 Inl e \<Rightarrow> Inl (wrap e) | Inr c \<Rightarrow> Inr (cw_across_adapter w, c))
         else (case v_adapter_calldata v it of
                 Inl e \<Rightarrow> Inl (wrap e)
               | Inr c \<Rightarrow> Inr (cw_operator w,
                   v_verified_call v (case i_batch_id it of None \<Rightarrow> 0 | Some b \<Rightarrow> b) proof (cw_across_adapter w) c)))"

definition stage_calldata ::
    "lambda_env \<Rightarrow> intent \<Rightarrow> chain_wiring \<Rightarrow> bytes \<Rightarrow> lstate \<Rightarrow> (evm_addr \<times> bytes) step" where
  "stage_calldata v it w proof s =
     (case fill_call v w it proof of
        Inl err \<Rightarrow> fail v it CalldataError ''calldata_build'' err s
      | Inr c \<Rightarrow> Go c s)"

definition stage_dry_run :: "lambda_env \<Rightarrow> intent \<Rightarrow> int \<Rightarrow> test_run option \<Rightarrow> lstate \<Rightarrow> unit step" where
  "stage_dry_run v it started test s =
     (if v_dry_run v
      then let s1 = trans_to v (i_id it) SkipUnprofitable None (Some (lit ''dry_run'')) s;
               s2 = append_outcome v ((outcome_for started it ''dry_run'')\<lparr>
                      o_predicted_gas := map_option tr_gas_units test,
                      o_predicted_profit := map_option tr_net_profit_usd test,
                      o_skip_reason := Some (lit ''dry_run'')\<rparr>) s1
           in Stop (Inr (LSkipped (lit ''dry_run''))) (free_hold (i_id it) s2)
      else Go () s)"

section \<open>Estimate gate and broadcast\<close>

definition gate_estimate ::
    "lambda_env \<Rightarrow> intent \<Rightarrow> chain_wiring \<Rightarrow> evm_addr \<times> bytes \<Rightarrow> nat option \<Rightarrow> estimate_outcome" where
  "gate_estimate v it w call value =
     (let skip_estimate = (\<not> is_debridge it \<and> \<not> is_mayan it \<and> v_skip_estimate v = Some ''1'');
          est = (if skip_estimate then OkGas 200000
                 else v_estimate v (cw_chain_id w) (v_signer v) (fst call) (snd call) value)
      in case est of
           InsufficientFundsLike m \<Rightarrow>
             if is_debridge it \<and> contains (to_lowercase m) ''execution reverted'' then EstReverted m else est
         | _ \<Rightarrow> est)"

fun estimate_detail :: "estimate_outcome \<Rightarrow> string" where
  "estimate_detail (EstReverted m) = m"
| "estimate_detail (AbiInvalid m) = m"
| "estimate_detail (RouteNotImplemented m) = m"
| "estimate_detail _ = []"

definition stage_estimate ::
    "lambda_env \<Rightarrow> intent \<Rightarrow> chain_wiring \<Rightarrow> evm_addr \<times> bytes \<Rightarrow> nat option \<Rightarrow> lstate \<Rightarrow> unit step" where
  "stage_estimate v it w call value s =
     (let est = gate_estimate v it w call value
      in if \<not> is_green est
         then skip v it (Msg ''estimate_gate:{}:{}'' [AStr (estimate_tag est), AStr (estimate_detail est)]) s
         else Go () s)"

definition stage_native_balance ::
    "lambda_env \<Rightarrow> intent \<Rightarrow> chain_wiring \<Rightarrow> nat option \<Rightarrow> lstate \<Rightarrow> unit step" where
  "stage_native_balance v it w value s =
     (case value of None \<Rightarrow> Go () s | Some required \<Rightarrow>
      case v_native_balance v (cw_chain_id w) of None \<Rightarrow> Go () s | Some bal \<Rightarrow>
      if bal < required
      then skip v it (Msg ''native_out_insufficient_eth:have={}wei<need={}wei'' [ANat bal, ANat required]) s
      else Go () s)"

definition stage_send ::
    "lambda_env \<Rightarrow> intent \<Rightarrow> chain_wiring \<Rightarrow> evm_addr \<times> bytes \<Rightarrow> nat option \<Rightarrow> lstate \<Rightarrow> string step" where
  "stage_send v it w call value s =
     (let s1 = trans_to v (i_id it) Broadcast None None s
      in if \<not> v_rpc_ok v (cw_rpc_url w)
         then Stop (Inl (Msg ''rpc parse: {}'' [AStr (cw_rpc_url w)])) s1
         else let tx = \<lparr>tx_rpc_url = cw_rpc_url w, tx_to = fst call, tx_data = snd call, tx_value = value,
                        tx_fees = Some (v_gas_price v (cw_chain_id w))\<rparr>;
                  s2 = s1\<lparr>l_sent := l_sent s1 @ [EvmTx tx]\<rparr>
              in case v_send v tx of
                   Inl e \<Rightarrow> fail v it Reverted ''broadcast'' (Msg ''send_transaction:{}'' [AStr e]) s2
                 | Inr h \<Rightarrow> Go h (trans_to v (i_id it) PendingConfirmation (Some h) None s2))"

definition executed_outcome ::
    "int \<Rightarrow> intent \<Rightarrow> string \<Rightarrow> string \<Rightarrow> test_run option \<Rightarrow> receipt \<Rightarrow> outcome" where
  "executed_outcome started it decision h test r =
     (outcome_for started it decision)\<lparr>o_tx_hash := Some h,
        o_predicted_gas := map_option tr_gas_units test, o_gas_used := Some (rc_gas_used r),
        o_effective_gas_price := Some (show_nat (rc_gas_price r)),
        o_predicted_profit := map_option tr_net_profit_usd test\<rparr>"

definition stage_receipt ::
    "lambda_env \<Rightarrow> intent \<Rightarrow> int \<Rightarrow> test_run option \<Rightarrow> string \<Rightarrow> lstate \<Rightarrow> lambda_result \<times> lstate" where
  "stage_receipt v it started test h s =
     (case v_receipt v h of
        Inl e \<Rightarrow>
          let err = Msg ''get_receipt:{}'' [AStr e]
          in (Inr (LFailed ''receipt'' err),
              free_hold (i_id it) (trans_to v (i_id it) Reverted (Some h) (Some err) s))
      | Inr r \<Rightarrow>
          if \<not> rc_status r
          then let err = lit ''receipt status=0'';
                   s1 = free_hold (i_id it) (trans_to v (i_id it) Reverted (Some h) (Some err) s)
               in (Inr (LReverted h err),
                   append_outcome v ((executed_outcome started it ''executed_failed'' h test r)\<lparr>o_error := Some err\<rparr>) s1)
          else let s1 = free_hold (i_id it) (trans_to v (i_id it) Confirmed (Some h) None s)
               in (Inr (LConfirmed h (rc_gas_used r)),
                   append_outcome v ((executed_outcome started it ''executed'' h test r)\<lparr>
                     o_actual_profit := map_option tr_net_profit_usd test\<rparr>) s1))"

section \<open>The controller\<close>

definition admit :: "lambda_env \<Rightarrow> intent \<Rightarrow> lstate \<Rightarrow> (int \<times> chain_wiring \<times> test_run option) step" where
  "admit v it s =
     step_bind (stage_notional v it s) (\<lambda>_ s.
     step_bind (stage_wiring v it s) (\<lambda>(started, w) s.
     step_bind (stage_reserve v it s) (\<lambda>_ s.
     step_bind (stage_adapter v it w s) (\<lambda>_ s.
     step_bind (stage_test_run v it w s) (\<lambda>test s.
     step_bind (stage_profit v it started test s) (\<lambda>_ s.
     Go (started, w, test) s))))))"

text \<open>The checks between the profitability decision and the calldata, and what they fetch.\<close>

definition screen_order :: "lambda_env \<Rightarrow> intent \<Rightarrow> chain_wiring \<Rightarrow> lstate \<Rightarrow> (bytes \<times> intent) step" where
  "screen_order v it w s =
     step_bind (stage_taker v it s) (\<lambda>_ s.
     step_bind (stage_external_call v it s) (\<lambda>_ s.
     step_bind (stage_debridge_spread v it s) (\<lambda>_ s.
     step_bind (stage_debridge_balance v it w s) (\<lambda>_ s.
     step_bind (stage_proof v it w s) (\<lambda>proof s.
     step_bind (stage_enrich v it w s) (\<lambda>it s.
     step_bind (stage_exclusivity v it w s) (\<lambda>_ s.
     step_bind (stage_claim_info v it w s) (\<lambda>_ s.
     step_bind (stage_mayan_deadline v it s) (\<lambda>_ s.
     Go (proof, it) (trans_to v (i_id it) CalldataBuild None None s))))))))))"

definition fill_solana :: "lambda_env \<Rightarrow> intent \<Rightarrow> test_run option \<Rightarrow> lstate \<Rightarrow> unit step" where
  "fill_solana v it test s =
     step_bind (stage_flash v it test s) (\<lambda>_ s.
     step_bind (stage_mayan_solana v it test s) (\<lambda>_ s.
     step_bind (stage_dln_solana v it test s) (\<lambda>_ s.
     stage_ntt v it test s)))"

definition fill_evm ::
    "lambda_env \<Rightarrow> intent \<Rightarrow> chain_wiring \<Rightarrow> int \<Rightarrow> test_run option \<Rightarrow> bytes \<Rightarrow> lstate \<Rightarrow> string step" where
  "fill_evm v it w started test proof s =
     (let value = eth_fill_value v w it in
     step_bind (stage_mayan_auction v it s) (\<lambda>_ s.
     step_bind (stage_across_spread v it w s) (\<lambda>_ s.
     step_bind (stage_across_hook v it w s) (\<lambda>_ s.
     step_bind (stage_across_source v it s) (\<lambda>_ s.
     step_bind (stage_across_deadline v it w s) (\<lambda>_ s.
     step_bind (stage_across_balance v it w s) (\<lambda>_ s.
     step_bind (stage_calldata v it w proof s) (\<lambda>call s.
     step_bind (stage_dry_run v it started test s) (\<lambda>_ s.
     step_bind (stage_estimate v it w call value s) (\<lambda>_ s.
     step_bind (stage_native_balance v it w value s) (\<lambda>_ s.
     stage_send v it w call value s)))))))))))"

definition broadcast_run ::
    "lambda_env \<Rightarrow> intent \<Rightarrow> lstate \<Rightarrow> (int \<times> test_run option \<times> intent \<times> string) step" where
  "broadcast_run v it s =
     step_bind (admit v it s) (\<lambda>(started, w, test) s.
     step_bind (screen_order v it w s) (\<lambda>(proof, it') s.
     step_bind (fill_solana v it' test s) (\<lambda>_ s.
     step_bind (fill_evm v it' w started test proof s) (\<lambda>h s.
     Go (started, test, it', h) s))))"

definition lambda_execute :: "lambda_env \<Rightarrow> intent \<Rightarrow> lstate \<Rightarrow> lambda_result \<times> lstate" where
  "lambda_execute v it s =
     (case broadcast_run v it s of
        Stop r s' \<Rightarrow> (r, s')
      | Go (started, test, it', h) s' \<Rightarrow> stage_receipt v it' started test h s')"

section \<open>Claims\<close>

definition note_revenue :: "lambda_env \<Rightarrow> string \<Rightarrow> f64 \<Rightarrow> lstate \<Rightarrow> lstate" where
  "note_revenue v i fee s =
     (let (now, s') = clock v s
      in s'\<lparr>l_wallet := or_else (record_revenue now i fee (l_wallet s)) (l_wallet s)\<rparr>)"

definition claim_tx :: "chain_wiring \<Rightarrow> evm_addr \<Rightarrow> bytes \<Rightarrow> evm_tx" where
  "claim_tx w to data =
     \<lparr>tx_rpc_url = cw_rpc_url w, tx_to = to, tx_data = data, tx_value = None, tx_fees = None\<rparr>"

definition lambda_claim ::
    "lambda_env \<Rightarrow> string \<Rightarrow> f64 \<Rightarrow> lstate \<Rightarrow> (msg + claim_outcome) \<times> lstate" where
  "lambda_claim v i fee s =
     (case List.find (\<lambda>r. ir_id r = i) (list_intents (Some ''CONFIRMED'') 1000 (l_wallet s)) of
        None \<Rightarrow> (Inr (CNotEligible (lit ''intent not in CONFIRMED state'')), s)
      | Some rec \<Rightarrow>
     (case map_of (v_chains v) (word_of_int (ir_dst_chain rec)) of
        None \<Rightarrow> (Inl (Msg ''no chain wiring for dst {}'' [AInt (ir_dst_chain rec)]), s)
      | Some w \<Rightarrow>
          if v_dry_run v then (Inr (CNotEligible (lit ''dry_run'')), s)
          else if \<not> v_rpc_ok v (cw_rpc_url w) then (Inl (Msg ''rpc parse: {}'' [AStr (cw_rpc_url w)]), s)
          else let tx = claim_tx w (cw_operator w) (v_claim_selector v);
                   s1 = s\<lparr>l_sent := l_sent s @ [EvmTx tx]\<rparr>
               in case v_send v tx of
                    Inl e \<Rightarrow> (Inr (CFailed (Msg ''send_transaction:{}'' [AStr e])), s1)
                  | Inr h \<Rightarrow>
                      (case v_receipt v h of
                         Inl e \<Rightarrow> (Inr (CFailed (Msg ''get_receipt:{}'' [AStr e])), s1)
                       | Inr r \<Rightarrow>
                           if \<not> rc_status r
                           then (Inr (CFailed (Msg ''claim reverted (tx {})'' [AStr h])), s1)
                           else (Inr (CClaimed h fee),
                                 trans_to v i Claimed (Some h) None (note_revenue v i fee s1)))))"

definition claim_eligible :: "wallet \<Rightarrow> string \<Rightarrow> bool" where
  "claim_eligible w i \<longleftrightarrow>
     i \<in> ir_id ` set (list_intents (Some ''CONFIRMED'') 1000 w @ list_intents (Some ''CLAIM_PENDING'') 1000 w)"

definition lambda_claim_debridge ::
    "lambda_env \<Rightarrow> intent \<Rightarrow> lstate \<Rightarrow> (msg + claim_outcome) \<times> lstate" where
  "lambda_claim_debridge v it s =
     (if \<not> claim_eligible (l_wallet s) (i_id it)
      then (Inr (CNotEligible (lit ''intent not in CONFIRMED or CLAIM_PENDING state'')), s)
      else case map_of (v_chains v) (i_src_chain it) of
        None \<Rightarrow> (Inr (CNotEligible (Msg ''no chain wiring for src chain {}'' [AInt (uint (i_src_chain it))])), s)
      | Some w \<Rightarrow>
          if v_dry_run v then (Inr (CNotEligible (lit ''dry_run'')), s)
          else case v_dln_source v (i_src_chain it) of
            None \<Rightarrow> (Inr (CFailed (Msg ''no DlnSource address for src chain {}'' [AInt (uint (i_src_chain it))])), s)
          | Some dln_src \<Rightarrow>
         (case v_claim_unlock v it (v_signer v) of
            Inl e \<Rightarrow> (Inr (CFailed (Msg ''build_claim_unlock_calldata: {}'' [AStr e])), s)
          | Inr data \<Rightarrow>
              if \<not> v_rpc_ok v (cw_rpc_url w) then (Inl (Msg ''rpc parse: {}'' [AStr (cw_rpc_url w)]), s)
              else let tx = claim_tx w dln_src data; s1 = s\<lparr>l_sent := l_sent s @ [EvmTx tx]\<rparr>
                   in case v_send v tx of
                        Inl e \<Rightarrow> (Inr (CFailed (Msg ''send_transaction:{}'' [AStr e])), s1)
                      | Inr h \<Rightarrow>
                          let s2 = trans_to v (i_id it) ClaimPending None None s1
                          in (case v_receipt v h of
                                Inl e \<Rightarrow> (Inr (CFailed (Msg ''get_receipt:{}'' [AStr e])),
                                         trans_to v (i_id it) Confirmed None None s2)
                              | Inr r \<Rightarrow>
                                  if \<not> rc_status r
                                  then (Inr (CFailed (Msg ''claimUnlock reverted (tx {})'' [AStr h])),
                                        trans_to v (i_id it) Confirmed None None s2)
                                  else let fee = claim_fee_usd it;
                                           s3 = (if f_gt fee (Fin 0) then note_revenue v (i_id it) fee s2 else s2)
                                       in (Inr (CClaimed h fee), trans_to v (i_id it) Claimed (Some h) None s3))))"

end
