(* ===== verification/LambdaSafety.thy ===== *)
theory LambdaSafety
  imports Lambda
begin

text \<open>
  What a run of the controller does to the wallet, the outcome log and the transactions it hands
  out.  Every stage satisfies one contract, \<open>stage_ok\<close>: going on, it \<open>advances\<close> the run, and
  stopping, it \<open>settles\<close> it; the contract composes along \<open>step_bind\<close>.
\<close>

named_theorems stage_rules \<open>the contract of each stage\<close>

section \<open>Contracts of steps\<close>

definition post :: "('a \<Rightarrow> lstate \<Rightarrow> bool) \<Rightarrow> (lambda_result \<Rightarrow> lstate \<Rightarrow> bool) \<Rightarrow> 'a step \<Rightarrow> bool" where
  "post Q R m = (case m of Stop r s \<Rightarrow> R r s | Go a s \<Rightarrow> Q a s)"

lemma post_simps [simp]: "post Q R (Stop r s) = R r s" "post Q R (Go a s) = Q a s"
  by (simp_all add: post_def)

lemma post_bind: "post Q R (step_bind m f) \<longleftrightarrow> post (\<lambda>a s. post Q R (f a s)) R m"
  by (cases m) auto

lemma post_bindI:
  "post Q' R' m \<Longrightarrow> (\<And>a s. Q' a s \<Longrightarrow> post Q R (f a s)) \<Longrightarrow> (\<And>r s. R' r s \<Longrightarrow> R r s) \<Longrightarrow> post Q R (step_bind m f)"
  by (cases m) auto

lemma post_mono:
  "post Q R m \<Longrightarrow> (\<And>a s. Q a s \<Longrightarrow> Q' a s) \<Longrightarrow> (\<And>r s. R r s \<Longrightarrow> R' r s) \<Longrightarrow> post Q' R' m"
  by (cases m) auto

section \<open>What a run may do\<close>

abbreviation intent_in :: "lstate \<Rightarrow> string \<Rightarrow> intent_record option" where
  "intent_in s i \<equiv> intent i (l_wallet s)"

definition alive :: "string \<Rightarrow> lstate \<Rightarrow> bool" where
  "alive i s \<longleftrightarrow> (\<exists>st. state_of (l_wallet s) i = Some st \<and> \<not> is_terminal st)"

text \<open>The rows of the others, the revenue and the budget are out of reach of a run of \<open>i\<close>.\<close>

definition others_kept :: "string \<Rightarrow> lstate \<Rightarrow> lstate \<Rightarrow> bool" where
  "others_kept i s s' \<longleftrightarrow>
     (\<forall>j. j \<noteq> i \<longrightarrow> intent_in s' j = intent_in s j \<and>
        t_get rv_id j (w_reservations (l_wallet s')) = t_get rv_id j (w_reservations (l_wallet s)))
     \<and> w_revenue (l_wallet s') = w_revenue (l_wallet s) \<and> w_budget (l_wallet s') = w_budget (l_wallet s)"

text \<open>A stage that goes on after the reservation.\<close>

definition advances :: "string \<Rightarrow> lstate \<Rightarrow> lstate \<Rightarrow> bool" where
  "advances i s s' \<longleftrightarrow> others_kept i s s' \<and> (alive i s \<longrightarrow> alive i s')
     \<and> w_reservations (l_wallet s') = w_reservations (l_wallet s)
     \<and> l_sent s' = l_sent s \<and> l_log s' = l_log s"

text \<open>The lifecycle state a reported outcome stands for.\<close>

fun fits :: "lambda_outcome \<Rightarrow> intent_state \<Rightarrow> bool" where
  "fits (LConfirmed h g) st = (st = Confirmed)"
| "fits (LReverted h e) st = (st = Reverted)"
| "fits (LSkipped r) st = (st = SkipUnprofitable)"
| "fits (LFailed stage e) st =
     ((stage, st) \<in> {(''spinner_test_run'', SkipUnprofitable), (''proof_fetch'', ProofMissing),
        (''calldata_build'', CalldataError), (''broadcast'', Reverted), (''receipt'', Reverted)})"

fun tx_of :: "lambda_outcome \<Rightarrow> string option" where
  "tx_of (LConfirmed h g) = Some h"
| "tx_of (LReverted h e) = Some h"
| "tx_of _ = None"

text \<open>How many transactions an outcome admits.\<close>

fun sends :: "lambda_outcome \<Rightarrow> nat set" where
  "sends (LConfirmed h g) = {1}"
| "sends (LReverted h e) = {1}"
| "sends (LSkipped r) = {0}"
| "sends (LFailed stage e) = (if stage = ''broadcast'' \<or> stage = ''receipt'' then {1} else {0})"

definition final_row :: "string \<Rightarrow> lambda_outcome \<Rightarrow> lstate \<Rightarrow> bool" where
  "final_row i oc s \<longleftrightarrow> (\<exists>row st. intent_in s i = Some row \<and> ir_state row = as_str st \<and> fits oc st
     \<and> (\<forall>h. tx_of oc = Some h \<longrightarrow> ir_tx_hash row = Some h))"

definition logged :: "lambda_env \<Rightarrow> intent \<Rightarrow> lambda_outcome \<Rightarrow> lstate \<Rightarrow> lstate \<Rightarrow> bool" where
  "logged v it oc s s' \<longleftrightarrow>
     l_log s' = l_log s \<or> v_logging v \<and> (\<exists>row. l_log s' = append_outcome_row row (l_log s)
       \<and> o_intent_id row = i_id it \<and> o_tx_hash row = tx_of oc
       \<and> (o_decision row = ''executed'' \<longleftrightarrow> (\<exists>h g. oc = LConfirmed h g)))"

text \<open>\<open>K\<close> bounds the EVM transactions handed out on the way.\<close>

definition settles :: "(evm_tx \<Rightarrow> bool) \<Rightarrow> lambda_env \<Rightarrow> intent \<Rightarrow> lambda_result \<Rightarrow> lstate \<Rightarrow> lstate \<Rightarrow> bool" where
  "settles K v it r s s' \<longleftrightarrow> others_kept (i_id it) s s' \<and>
     (\<exists>new. l_sent s' = l_sent s @ new \<and> (v_dry_run v \<longrightarrow> new = [])
       \<and> (\<forall>tx. EvmTx tx \<in> set new \<longrightarrow> K tx) \<and>
       (case r of
          Inl e \<Rightarrow> new = [] \<and> l_log s' = l_log s
            \<and> w_reservations (l_wallet s') = w_reservations (l_wallet s)
            \<and> (alive (i_id it) s \<longrightarrow> state_of (l_wallet s') (i_id it) = Some Broadcast)
        | Inr oc \<Rightarrow> length new \<in> sends oc \<and> \<not> held (l_wallet s') (i_id it)
            \<and> logged v it oc s s'
            \<and> (v_logging v \<and> tx_of oc \<noteq> None \<longrightarrow> l_log s' \<noteq> l_log s)
            \<and> (alive (i_id it) s \<longrightarrow> final_row (i_id it) oc s')))"

lemma others_kept_refl [simp]: "others_kept i s s"
  by (simp add: others_kept_def)

lemma others_kept_trans: "others_kept i s t \<Longrightarrow> others_kept i t u \<Longrightarrow> others_kept i s u"
  by (simp add: others_kept_def)

lemma advances_refl [simp]: "advances i s s"
  by (simp add: advances_def)

lemma advances_trans: "advances i s t \<Longrightarrow> advances i t u \<Longrightarrow> advances i s u"
  by (auto simp: advances_def intro: others_kept_trans)

lemma settles_after: "advances (i_id it) s t \<Longrightarrow> settles K v it r t u \<Longrightarrow> settles K v it r s u"
  by (cases r) (auto simp: advances_def settles_def logged_def intro: others_kept_trans)

section \<open>Effects\<close>

lemma clock_simps [simp]:
  "fst (clock v s) = v_clock v (l_tick s)" "l_wallet (snd (clock v s)) = l_wallet s"
  "l_log (snd (clock v s)) = l_log s" "l_sent (snd (clock v s)) = l_sent s"
  by (simp_all add: clock_def)

lemma clock_advances: "clock v s = (t, s') \<Longrightarrow> advances i s s'"
  by (auto simp: clock_def advances_def others_kept_def alive_def)

lemma trans_to_simps [simp]:
  "l_sent (trans_to v i st h e s) = l_sent s" "l_log (trans_to v i st h e s) = l_log s"
  by (simp_all add: trans_to_def clock_def)

lemma l_wallet_trans_to:
  "l_wallet (trans_to v i st h e s) =
     or_else2 (transition (v_clock v (l_tick s)) i st h e (l_wallet s)) (l_wallet s)"
  by (simp add: trans_to_def clock_def)

lemma transition_alive:
  "alive i s \<longleftrightarrow> (\<exists>r w'. transition now i st h e (l_wallet s) = Inr (r, w'))"
  using try_transition_enabled [of now h e i st "l_wallet s"]
  by (auto simp: alive_def try_transition_def split: sum.splits)

lemma trans_to_dead: "\<not> alive i s \<Longrightarrow> l_wallet (trans_to v i st h e s) = l_wallet s"
  using transition_alive [of i s "v_clock v (l_tick s)" st h e]
  by (auto simp: l_wallet_trans_to or_else2_def split: sum.splits)

lemma trans_to_alive:
  assumes "alive i s"
  shows "\<exists>r. transition (v_clock v (l_tick s)) i st h e (l_wallet s) = Inr (r, l_wallet (trans_to v i st h e s))"
  using assms transition_alive [of i s "v_clock v (l_tick s)" st h e]
  by (auto simp: l_wallet_trans_to or_else2_def)

lemma trans_to_others: "others_kept i s (trans_to v i st h e s)"
proof (cases "alive i s")
  case True
  then obtain r where "transition (v_clock v (l_tick s)) i st h e (l_wallet s) = Inr (r, l_wallet (trans_to v i st h e s))"
    using trans_to_alive by blast
  note tr = this
  from tr show ?thesis using intent_transition [OF tr]
    by (elim transition_cases) (auto simp: others_kept_def t_get_delete)
qed (simp add: others_kept_def trans_to_dead)

lemma trans_to_alive_iff: "\<not> is_terminal st \<Longrightarrow> alive i (trans_to v i st h e s) \<longleftrightarrow> alive i s"
  by (metis trans_to_alive trans_to_dead alive_def state_of_transition)

lemma trans_to_reservations:
  "\<not> is_terminal st \<Longrightarrow> w_reservations (l_wallet (trans_to v i st h e s)) = w_reservations (l_wallet s)"
proof (cases "alive i s")
  case True
  moreover assume "\<not> is_terminal st"
  ultimately show ?thesis using trans_to_alive [OF True, of v st h e] by (auto elim: transition_cases)
qed (simp add: trans_to_dead)

lemma trans_to_row:
  assumes "alive i s"
  shows "\<exists>row. intent_in (trans_to v i st h e s) i = Some row \<and> ir_state row = as_str st
    \<and> (\<forall>x. h = Some x \<longrightarrow> ir_tx_hash row = Some x)"
proof -
  obtain r where tr: "transition (v_clock v (l_tick s)) i st h e (l_wallet s) = Inr (r, l_wallet (trans_to v i st h e s))"
    using trans_to_alive [OF assms] by blast
  then have "ir_state r = as_str st \<and> (\<forall>x. h = Some x \<longrightarrow> ir_tx_hash r = Some x)"
    by (elim transition_cases) (auto simp: set_state_def coalesce_def)
  with intent_transition [OF tr, of i] show ?thesis by simp
qed

lemma trans_to_advances: "\<not> is_terminal st \<Longrightarrow> advances i s (trans_to v i st h e s)"
  by (simp add: advances_def trans_to_others trans_to_alive_iff trans_to_reservations)

lemma free_hold_simps [simp]:
  "l_sent (free_hold i s) = l_sent s" "l_log (free_hold i s) = l_log s"
  "l_wallet (free_hold i s) = release i (l_wallet s)"
  by (simp_all add: free_hold_def)

lemma free_hold_others: "others_kept i s (free_hold i s)"
  by (auto simp: others_kept_def release_def intent_def t_get_delete)

lemma append_outcome_simps [simp]:
  "l_sent (append_outcome v r s) = l_sent s" "l_wallet (append_outcome v r s) = l_wallet s"
  "l_log (append_outcome v r s) = (if v_logging v then append_outcome_row r (l_log s) else l_log s)"
  by (simp_all add: append_outcome_def)

lemma others_kept_cong:
  "l_wallet s' = l_wallet s'' \<Longrightarrow> others_kept i s s' = others_kept i s s''"
  "l_wallet s = l_wallet s1 \<Longrightarrow> others_kept i s s' = others_kept i s1 s'"
  by (simp_all add: others_kept_def)

lemma final_row_cong: "intent_in s' i = intent_in s i \<Longrightarrow> final_row i oc s' = final_row i oc s"
  by (simp add: final_row_def)

lemma final_row_trans_to:
  "alive i s \<Longrightarrow> fits oc st \<Longrightarrow> (\<And>x. tx_of oc = Some x \<Longrightarrow> h = Some x) \<Longrightarrow> final_row i oc (trans_to v i st h e s)"
  using trans_to_row [of i s v st h e] by (auto simp: final_row_def)

section \<open>Ways out\<close>

lemma others_kept_close:
  assumes "others_kept i s s1" "l_wallet s' = release i (l_wallet (trans_to v i st h e s1))"
  shows "others_kept i s s'"
proof -
  have "others_kept i s (free_hold i (trans_to v i st h e s1))"
    using assms(1) trans_to_others free_hold_others by (blast intro: others_kept_trans)
  then show ?thesis using assms(2) by (simp add: others_kept_def)
qed

lemma settles_close:
  assumes "others_kept (i_id it) s t" "alive (i_id it) s \<longrightarrow> alive (i_id it) t"
    and "l_sent s' = l_sent s @ new" "v_dry_run v \<longrightarrow> new = []" "length new \<in> sends oc"
    and "l_wallet s' = release (i_id it) (l_wallet (trans_to v (i_id it) st h e t))"
    and "\<forall>tx. EvmTx tx \<in> set new \<longrightarrow> K tx"
    and "fits oc st" "\<And>x. tx_of oc = Some x \<Longrightarrow> h = Some x"
    and "logged v it oc s s'" "v_logging v \<and> tx_of oc \<noteq> None \<longrightarrow> l_log s' \<noteq> l_log s"
  shows "settles K v it (Inr oc) s s'"
proof -
  have "final_row (i_id it) oc s'" if "alive (i_id it) s"
  proof -
    have "final_row (i_id it) oc (trans_to v (i_id it) st h e t)"
      using assms(2,8,9) that by (blast intro: final_row_trans_to)
    then show ?thesis by (simp add: assms(6) final_row_cong [where s' = s' and s = "trans_to v (i_id it) st h e t"])
  qed
  with assms others_kept_close [OF assms(1,6)] show ?thesis
    by (simp add: settles_def)
qed

lemma logged_same: "l_log s' = l_log s \<Longrightarrow> logged v it oc s s'"
  by (simp add: logged_def)

lemma append_row_neq [simp]: "append_outcome_row r l \<noteq> l"
  by (simp add: append_outcome_row_def)

lemma logged_append:
  assumes "l_log s' = (if v_logging v then append_outcome_row r (l_log s) else l_log s)"
    and "o_intent_id r = i_id it" "o_tx_hash r = tx_of oc"
    and "o_decision r = ''executed'' \<longleftrightarrow> (\<exists>h g. oc = LConfirmed h g)"
  shows "logged v it oc s s' \<and> (v_logging v \<longrightarrow> l_log s' \<noteq> l_log s)"
  using assms by (auto simp: logged_def)

definition stage_ok :: "lambda_env \<Rightarrow> intent \<Rightarrow> lstate \<Rightarrow> ('a \<Rightarrow> bool) \<Rightarrow> 'a step \<Rightarrow> bool" where
  "stage_ok v it s G m \<longleftrightarrow> post (\<lambda>a s'. advances (i_id it) s s' \<and> G a) (\<lambda>r s'. settles (\<lambda>_. False) v it r s s') m"

lemma stage_ok_Go: "advances (i_id it) s s' \<Longrightarrow> G a \<Longrightarrow> stage_ok v it s G (Go a s')"
  by (simp add: stage_ok_def)

lemma stage_ok_Stop: "settles (\<lambda>_. False) v it r s s' \<Longrightarrow> stage_ok v it s G (Stop r s')"
  by (simp add: stage_ok_def)

lemma stage_ok_bind:
  assumes "stage_ok v it s G m" "\<And>a s'. G a \<Longrightarrow> stage_ok v it s' H (f a s')"
  shows "stage_ok v it s H (step_bind m f)"
  unfolding stage_ok_def post_bind
proof (rule post_mono [OF assms(1) [unfolded stage_ok_def]])
  fix a s'
  assume *: "advances (i_id it) s s' \<and> G a"
  then have "stage_ok v it s' H (f a s')" using assms(2) by blast
  then show "post (\<lambda>a t. advances (i_id it) s t \<and> H a) (\<lambda>r t. settles (\<lambda>_. False) v it r s t) (f a s')"
    unfolding stage_ok_def
    by (rule post_mono) (use * in \<open>auto intro: advances_trans settles_after\<close>)
qed

lemma stage_ok_after: "advances (i_id it) s s1 \<Longrightarrow> stage_ok v it s1 G m \<Longrightarrow> stage_ok v it s G m"
  unfolding stage_ok_def by (erule post_mono) (auto intro: advances_trans settles_after)

lemma stage_ok_mono: "stage_ok v it s G m \<Longrightarrow> (\<And>a. G a \<Longrightarrow> H a) \<Longrightarrow> stage_ok v it s H m"
  unfolding stage_ok_def by (erule post_mono) auto

lemma settles_same_id: "i_id it' = i_id it \<Longrightarrow> settles K v it' r s s' = settles K v it r s s'"
  by (cases r) (simp_all add: settles_def logged_def)

lemma stage_ok_same_id:
  assumes "i_id it' = i_id it"
  shows "stage_ok v it' s G m = stage_ok v it s G m"
  by (simp only: stage_ok_def assms settles_same_id [OF assms])

lemma stage_ok_skip [stage_rules]: "stage_ok v it s G (skip v it m s)"
  unfolding skip_def
  by (rule stage_ok_Stop, rule settles_close [where st = SkipUnprofitable and h = None and t = s])
    (auto intro: logged_same)

lemma stage_ok_fail:
  assumes "fits (LFailed stage m) st" "stage \<noteq> ''broadcast''" "stage \<noteq> ''receipt''"
  shows "stage_ok v it s G (fail v it st stage m s)"
  unfolding fail_def
  by (rule stage_ok_Stop, rule settles_close [where st = st and h = None and t = s])
    (use assms in \<open>auto intro: logged_same simp del: fits.simps\<close>)

lemma stage_ok_fail_sent:
  assumes "\<not> v_dry_run v" "others_kept (i_id it) s s1" "alive (i_id it) s \<longrightarrow> alive (i_id it) s1"
    and "l_sent s1 = l_sent s @ [SolanaTx k x]" "l_log s1 = l_log s"
  shows "stage_ok v it s G (fail v it Reverted ''broadcast'' m s1)"
  unfolding fail_def
  by (rule stage_ok_Stop, rule settles_close [where st = Reverted and h = None and t = s1 and new = "[SolanaTx k x]"])
    (use assms in \<open>auto intro: logged_same\<close>)

section \<open>Admission after the reservation\<close>

lemma stage_ok_adapter [stage_rules]:
  "stage_ok v it s (\<lambda>_. is_across it \<longrightarrow> cw_across_adapter w \<noteq> 0) (stage_adapter v it w s)"
  by (auto simp: stage_adapter_def intro: stage_rules stage_ok_Go)

lemma stage_ok_test_run [stage_rules]:
  "stage_ok v it s
     (\<lambda>t. if bypass_spinner w it then t = None
        else v_dry_run v \<or> (\<exists>x. t = Some x \<and> v_test_run v (i_protocol it) (i_id it) = Inr x))
     (stage_test_run v it w s)"
  unfolding stage_test_run_def Let_def
  by (rule stage_ok_after [OF trans_to_advances])
    (auto intro!: stage_ok_Go stage_ok_fail split: sum.split)

lemma stage_ok_skip_log:
  assumes "l_wallet s' = release (i_id it) (l_wallet (trans_to v (i_id it) SkipUnprofitable None (Some m) s))"
    and "l_sent s' = l_sent s" "l_log s' = (if v_logging v then append_outcome_row r (l_log s) else l_log s)"
    and "o_intent_id r = i_id it" "o_tx_hash r = None" "o_decision r \<noteq> ''executed''"
  shows "stage_ok v it s G (Stop (Inr (LSkipped m)) s')"
  by (rule stage_ok_Stop, rule settles_close [where st = SkipUnprofitable and h = None and t = s and new = "[]"])
    (use assms in \<open>auto simp: logged_def\<close>)

lemma append_log:
  "l_log (append_outcome v r (free_hold i (trans_to v i st h e s))) =
     (if v_logging v then append_outcome_row r (l_log s) else l_log s)"
  by simp

lemma stage_ok_profit [stage_rules]:
  "stage_ok v it s (\<lambda>_. \<forall>t. test = Some t \<longrightarrow> tr_is_profitable t \<and> \<not> f_lt (tr_net_profit_usd t) (v_threshold v))
     (stage_profit v it started test s)"
proof (cases test)
  case None
  then show ?thesis by (auto simp: stage_profit_def intro: stage_ok_Go)
next
  case (Some t)
  show ?thesis
  proof (cases "\<not> tr_is_profitable t \<or> f_lt (tr_net_profit_usd t) (v_threshold v)")
    case True
    then show ?thesis using Some
      by (simp only: stage_profit_def option.case if_True Let_def)
        (rule stage_ok_skip_log, simp, simp, rule append_log, simp_all add: outcome_for_def)
  next
    case False
    with Some show ?thesis by (auto simp: stage_profit_def intro: stage_ok_Go)
  qed
qed

section \<open>Screening\<close>

lemma stage_ok_guard:
  "(\<And>r. m = Some r \<Longrightarrow> stage_ok v it s G (f r)) \<Longrightarrow> (m = None \<Longrightarrow> stage_ok v it s G g) \<Longrightarrow>
   stage_ok v it s G (case m of Some r \<Rightarrow> f r | None \<Rightarrow> g)"
  by (cases m) auto

lemma stage_ok_if:
  "(b \<Longrightarrow> stage_ok v it s G x) \<Longrightarrow> (\<not> b \<Longrightarrow> stage_ok v it s G y) \<Longrightarrow> stage_ok v it s G (if b then x else y)"
  by simp

lemma stage_ok_pair:
  "(\<And>a b. x = (a, b) \<Longrightarrow> stage_ok v it s G (f a b)) \<Longrightarrow> stage_ok v it s G (case x of (a, b) \<Rightarrow> f a b)"
  by (cases x) auto

text \<open>What the guards of an order mean, said positively: the reserved taker is absent or the signer; a token
  balance that is known covers the amount; the exclusive window is over at some clock reading, or the relayer
  is absent or the signer; a Mayan order had thirty seconds left at some clock reading; no Solana path takes the
  order.\<close>

definition taker_allowed :: "lambda_env \<Rightarrow> intent \<Rightarrow> bool" where
  "taker_allowed v it \<longleftrightarrow>
     (\<forall>taker. is_debridge it \<and> i_dln_allowed_taker_dst it = Some taker \<longrightarrow>
        trim_start_char CHR ''0'' (trim_start_str ''0x'' taker) = []
        \<or> to_lowercase (trim_start_char CHR ''0'' (trim_start_str ''0x'' taker)) = to_lowercase (v_addr_hex v (v_signer v))
        \<or> ends_with (to_lowercase taker) (to_lowercase (v_addr_hex v (v_signer v))))"

definition covers :: "lambda_env \<Rightarrow> chain_wiring \<Rightarrow> evm_addr option \<Rightarrow> string option \<Rightarrow> bool" where
  "covers v w token amount \<longleftrightarrow>
     (\<forall>need t r. Option.bind amount parse_u128 = Some need \<and> token = Some t
        \<and> v_erc20_balance v (cw_chain_id w) t = Some r \<longrightarrow> need \<le> balance_of_word r)"

definition window_open :: "lambda_env \<Rightarrow> chain_wiring \<Rightarrow> intent \<Rightarrow> bool" where
  "window_open v w it \<longleftrightarrow> (direct_fill w \<longrightarrow>
     (\<exists>k. \<forall>d. i_exclusivity_deadline it = Some d \<longrightarrow> d \<le> (word_of_int (unix_secs (v_clock v k)) :: u32))
     \<or> (case i_exclusive_relayer it of None \<Rightarrow> True
        | Some r \<Rightarrow> r \<in> {[], ''0x'', zero_address_text} \<or> to_lowercase r = to_lowercase (''0x'' @ v_addr_hex v (v_signer v))))"

definition mayan_in_time :: "lambda_env \<Rightarrow> intent \<Rightarrow> bool" where
  "mayan_in_time v it \<longleftrightarrow>
     (\<forall>dl. is_mayan it \<and> i_deadline it = Some dl \<longrightarrow>
        (\<exists>k. sat_add_word (word_of_int (unix_secs (v_clock v k))) 30 \<le> dl))"

definition evm_path :: "intent \<Rightarrow> bool" where
  "evm_path it \<longleftrightarrow>
     \<not> (is_solana_src it \<and> (is_mayan it \<or> contains (to_lowercase (i_protocol it)) ''flash''))
     \<and> \<not> (is_debridge it \<and> (i_dst_chain it = 100000001 \<or> i_is_solana_destination it = Some True))
     \<and> (contains (to_lowercase (i_protocol it)) ''wormhole'' \<or> contains (to_lowercase (i_protocol it)) ''ntt''
          \<longrightarrow> is_solana_src it)"

definition across_source :: "intent \<Rightarrow> bool" where
  "across_source it \<longleftrightarrow> (is_across it \<and> \<not> is_mayan it \<and> \<not> is_debridge it \<longrightarrow>
     (length (i_depositor it) \<le> 10 \<or> starts_with (i_depositor it) ''0x'' \<or> starts_with (i_depositor it) ''0X'')
     \<and> (i_deposit_id it \<noteq> None \<or> parse_id_tail (i_id it) \<noteq> None \<or> parse_id_tail (i_tx_hash it) \<noteq> None))"

lemma erc20_short_None: "erc20_short v w token amount = None \<Longrightarrow> covers v w token amount"
  by (auto simp: erc20_short_def covers_def split: if_splits)

lemma stage_ok_taker [stage_rules]: "stage_ok v it s (\<lambda>_. taker_allowed v it) (stage_taker v it s)"
  unfolding stage_taker_def Let_def taker_allowed_def
  by (intro stage_ok_guard stage_ok_if stage_rules stage_ok_Go) auto

lemma stage_ok_external_call [stage_rules]:
  "stage_ok v it s
     (\<lambda>_. is_debridge it \<longrightarrow> (\<forall>x. i_dln_external_call it = Some x \<longrightarrow> (\<forall>c \<in> set (trim_start_str ''0x'' x). c = CHR ''0'')))
     (stage_external_call v it s)"
  unfolding stage_external_call_def
  by (intro stage_ok_guard stage_ok_if stage_rules stage_ok_Go) auto

lemma stage_ok_debridge_spread [stage_rules]:
  "stage_ok v it s (\<lambda>_. is_debridge it \<longrightarrow> debridge_spread_skip it = None) (stage_debridge_spread v it s)"
  unfolding stage_debridge_spread_def
  by (intro stage_ok_guard stage_ok_if stage_rules stage_ok_Go) auto

lemma stage_ok_debridge_balance [stage_rules]:
  "stage_ok v it s
     (\<lambda>_. is_debridge it \<and> is_erc20_token (to_lowercase (trim (i_dst_token it))) \<longrightarrow>
        covers v w (v_parse_addr v (to_lowercase (trim (i_dst_token it)))) (i_take_amount it))
     (stage_debridge_balance v it w s)"
  unfolding stage_debridge_balance_def Let_def
  by (intro stage_ok_if stage_ok_guard stage_ok_pair stage_rules stage_ok_Go) (auto dest: erc20_short_None)

lemma stage_ok_proof [stage_rules]:
  "stage_ok v it s
     (\<lambda>p. if bypass_spinner w it then p = []
        else v_dry_run v \<or> try_proofs (v_proof v) (proof_candidates it) [] = Inr p)
     (stage_proof v it w s)"
proof (cases "bypass_spinner w it")
  case True
  then show ?thesis by (simp add: stage_proof_def stage_ok_Go)
next
  case False
  show ?thesis
  proof (cases "try_proofs (v_proof v) (proof_candidates it) []")
    case (Inl e)
    then show ?thesis using False
      by (simp add: stage_proof_def Let_def stage_ok_Go trans_to_advances
          stage_ok_after [OF trans_to_advances stage_ok_fail])
  next
    case (Inr b)
    with False show ?thesis by (simp add: stage_proof_def Let_def stage_ok_Go trans_to_advances)
  qed
qed

text \<open>The intent after enrichment: what the signal left out is filled in, nothing else changes.\<close>

definition enriched :: "lambda_env \<Rightarrow> intent \<Rightarrow> intent \<Rightarrow> bool" where
  "enriched v it it' \<longleftrightarrow> it' = it
     \<or> \<not> is_debridge it \<and> \<not> is_mayan it \<and> (\<exists>rpc r. find_relay v it rpc = Some r \<and> it' = patch_intent r it)"

lemma patch_intent_keeps [simp]:
  "i_id (patch_intent r it) = i_id it" "i_protocol (patch_intent r it) = i_protocol it"
  "i_src_chain (patch_intent r it) = i_src_chain it" "i_dst_chain (patch_intent r it) = i_dst_chain it"
  "i_amount (patch_intent r it) = i_amount it" "i_tx_hash (patch_intent r it) = i_tx_hash it"
  by (simp_all add: patch_intent_def)

lemma stage_ok_enrich [stage_rules]: "stage_ok v it s (enriched v it) (stage_enrich v it w s)"
  unfolding stage_enrich_def Let_def enriched_def
  by (auto intro!: stage_ok_if stage_ok_Go stage_rules split: option.split)

lemma enriched_id: "enriched v it it' \<Longrightarrow> i_id it' = i_id it"
  by (auto simp: enriched_def)

lemma stage_ok_exclusivity [stage_rules]: "stage_ok v it s (\<lambda>_. window_open v w it) (stage_exclusivity v it w s)"
proof (cases "clock v s")
  case (Pair t s1)
  then have t: "t = v_clock v (l_tick s)" by (simp add: clock_def)
  let ?now = "word_of_int (unix_secs (v_clock v (l_tick s))) :: u32"
  have late: "window_open v w it" if "\<not> ?now < (case i_exclusivity_deadline it of None \<Rightarrow> 0 | Some d \<Rightarrow> d)"
  proof -
    have "\<forall>d. i_exclusivity_deadline it = Some d \<longrightarrow> d \<le> ?now" using that by (auto simp: not_less)
    then show ?thesis unfolding window_open_def by blast
  qed
  show ?thesis
    unfolding stage_exclusivity_def Let_def Pair prod.case t
    by (rule stage_ok_if, rule stage_ok_after [OF clock_advances [OF Pair]], intro stage_ok_if stage_rules stage_ok_Go)
      (use late in \<open>auto simp: window_open_def intro!: stage_ok_Go split: option.splits\<close>)
qed

definition claim_info_complete :: "chain_wiring \<Rightarrow> intent \<Rightarrow> bool" where
  "claim_info_complete w it \<longleftrightarrow>
     (is_across it \<and> direct_fill w \<longrightarrow>
        (\<exists>a dl. i_output_amount it = Some a \<and> a \<notin> {[], ''0''} \<and> i_fill_deadline it = Some dl) \<and> \<not> blank_addr (i_recipient it))
     \<and> (is_mayan it \<longrightarrow> \<not> blank_addr (i_recipient it) \<and> (\<exists>h. i_mayan_order_id it = Some h \<and> 66 \<le> length h))"

lemma stage_ok_claim_info [stage_rules]:
  "stage_ok v it s (\<lambda>_. claim_info_complete w it) (stage_claim_info v it w s)"
  unfolding stage_claim_info_def Let_def
  by (intro stage_ok_if stage_rules)
    (auto simp: claim_info_complete_def intro!: stage_ok_Go split: option.splits)

lemma stage_ok_mayan_deadline [stage_rules]: "stage_ok v it s (\<lambda>_. mayan_in_time v it) (stage_mayan_deadline v it s)"
proof (cases "clock v s")
  case (Pair t s1)
  then have t: "t = v_clock v (l_tick s)" by (simp add: clock_def)
  show ?thesis
    unfolding stage_mayan_deadline_def Let_def Pair prod.case t
    by (rule stage_ok_guard, rule stage_ok_if, rule stage_ok_after [OF clock_advances [OF Pair]],
        intro stage_ok_if stage_rules stage_ok_Go)
      (auto simp: mayan_in_time_def not_less intro: stage_ok_Go)
qed

section \<open>Solana fills\<close>

lemma stage_ok_solana_broadcast [stage_rules]:
  assumes "\<not> v_dry_run v"
  shows "stage_ok v it s G (solana_broadcast v it port kind tag test units s)"
proof (cases "sp_key port")
  case (Inl e)
  then show ?thesis by (simp add: solana_broadcast_def stage_rules)
next
  case (Inr u)
  let ?s1 = "trans_to v (i_id it) Broadcast None None s"
  let ?s2 = "?s1\<lparr>l_sent := l_sent ?s1 @ [SolanaTx kind it]\<rparr>"
  have s2: "others_kept (i_id it) s ?s2" "alive (i_id it) s \<longrightarrow> alive (i_id it) ?s2"
    using trans_to_advances [of Broadcast "i_id it" s v None None]
    by (auto simp: advances_def others_kept_def alive_def)
  show ?thesis
  proof (cases "sp_send port it")
    case (Inl e)
    with Inr s2 assms show ?thesis
      by (simp add: solana_broadcast_def Let_def) (rule stage_ok_fail_sent, auto)
  next
    case (Inr sig)
    have "settles (\<lambda>_. False) v it (Inr (LConfirmed sig units)) s
      (free_hold (i_id it) (append_solana_confirmed v it sig units (map_option tr_net_profit_usd test)
        (trans_to v (i_id it) Confirmed (Some sig) None ?s2)))" (is "settles _ _ _ _ _ ?s'")
    proof (rule settles_close [where st = Confirmed and h = "Some sig" and e = None and t = ?s2])
      show "l_sent ?s' = l_sent s @ [SolanaTx kind it]"
        by (simp add: append_solana_confirmed_def clock_def)
      show "logged v it (LConfirmed sig units) s ?s'"
        by (auto simp: logged_def append_solana_confirmed_def clock_def outcome_for_def)
      show "v_logging v \<and> tx_of (LConfirmed sig units) \<noteq> None \<longrightarrow> l_log ?s' \<noteq> l_log s"
        by (simp add: append_solana_confirmed_def clock_def)
    qed (use s2 assms in \<open>simp_all add: append_solana_confirmed_def clock_def\<close>)
    then show ?thesis using Inr \<open>sp_key port = Inr u\<close>
      by (simp add: solana_broadcast_def Let_def stage_ok_Stop)
  qed
qed

lemma stage_ok_solana_fill [stage_rules]: "stage_ok v it s G (solana_fill v it port kind nr b tag test s)"
  unfolding solana_fill_def dry_run_skip_def
  by (auto intro!: stage_ok_guard stage_ok_if stage_rules stage_ok_fail split: sum.split)

lemma stage_ok_flash [stage_rules]: "stage_ok v it s (\<lambda>_. \<not> (contains (to_lowercase (i_protocol it)) ''flash'' \<and> is_solana_src it)) (stage_flash v it test s)"
  by (auto simp: stage_flash_def intro: stage_rules stage_ok_Go)

lemma stage_ok_mayan_solana [stage_rules]: "stage_ok v it s (\<lambda>_. \<not> (is_mayan it \<and> is_solana_src it)) (stage_mayan_solana v it test s)"
  by (auto simp: stage_mayan_solana_def dry_run_skip_def intro!: stage_rules stage_ok_Go stage_ok_fail split: sum.split)

lemma stage_ok_dln_solana [stage_rules]: "stage_ok v it s (\<lambda>_. \<not> (is_debridge it \<and> (i_dst_chain it = 100000001 \<or> i_is_solana_destination it = Some True))) (stage_dln_solana v it test s)"
  by (auto simp: stage_dln_solana_def intro!: stage_rules stage_ok_Go)

lemma stage_ok_ntt [stage_rules]: "stage_ok v it s (\<lambda>_. \<not> ((contains (to_lowercase (i_protocol it)) ''wormhole'' \<or> contains (to_lowercase (i_protocol it)) ''ntt'') \<and> \<not> is_solana_src it)) (stage_ntt v it test s)"
  by (auto simp: stage_ntt_def intro!: stage_rules stage_ok_Go)

section \<open>EVM fills\<close>

lemma stage_ok_mayan_auction [stage_rules]:
  "stage_ok v it s (\<lambda>_. is_mayan it \<and> \<not> is_solana_src it \<longrightarrow> auction_mode it = 0) (stage_mayan_auction v it s)"
  by (auto simp: stage_mayan_auction_def intro: stage_rules stage_ok_Go)

lemma stage_ok_across_spread [stage_rules]:
  "stage_ok v it s (\<lambda>_. plain_across w it \<longrightarrow> across_spread_skip (i_amount it) (i_output_amount it) = None)
     (stage_across_spread v it w s)"
  unfolding stage_across_spread_def
  by (intro stage_ok_if stage_ok_guard stage_rules stage_ok_Go) auto

lemma stage_ok_across_hook [stage_rules]:
  "stage_ok v it s (\<lambda>_. (direct_fill w \<or> is_across it) \<and> \<not> is_debridge it \<and> \<not> is_mayan it
       \<longrightarrow> across_message_hook_skip_reason (i_message it) = None)
     (stage_across_hook v it w s)"
  unfolding stage_across_hook_def
  by (intro stage_ok_if stage_ok_guard stage_rules stage_ok_Go) (auto simp: plain_across_def)

lemma stage_ok_across_source [stage_rules]: "stage_ok v it s (\<lambda>_. across_source it) (stage_across_source v it s)"
  unfolding stage_across_source_def Let_def
  by (intro stage_ok_if stage_rules stage_ok_Go) (auto simp: across_source_def not_less)

lemma stage_ok_across_deadline [stage_rules]:
  "stage_ok v it s
     (\<lambda>_. (direct_fill w \<or> is_across it) \<and> \<not> is_debridge it \<and> \<not> is_mayan it
        \<longrightarrow> (\<exists>k. across_fill_deadline_skip_reason (i_fill_deadline it)
        (word_of_int (unix_secs (v_clock v k))) = None))
     (stage_across_deadline v it w s)"
proof (cases "clock v s")
  case (Pair t s1)
  then have t: "t = v_clock v (l_tick s)" by (simp add: clock_def)
  show ?thesis
    unfolding stage_across_deadline_def Let_def Pair prod.case
    by (rule stage_ok_if, rule stage_ok_after [OF clock_advances [OF Pair]])
      (auto simp: plain_across_def t intro!: stage_ok_guard stage_rules stage_ok_Go)
qed

lemma stage_ok_across_balance [stage_rules]:
  "stage_ok v it s
     (\<lambda>_. plain_across w it \<and> is_erc20_token (to_lowercase (trim (i_dst_token it))) \<longrightarrow>
        covers v w (v_parse_addr v (i_dst_token it)) (i_output_amount it))
     (stage_across_balance v it w s)"
  unfolding stage_across_balance_def
  by (intro stage_ok_if stage_ok_guard stage_ok_pair stage_rules stage_ok_Go) (auto dest: erc20_short_None)

lemma stage_ok_calldata [stage_rules]:
  "stage_ok v it s (\<lambda>c. fill_call v w it proof = Inr c) (stage_calldata v it w proof s)"
  by (cases "fill_call v w it proof") (simp_all add: stage_calldata_def stage_ok_Go stage_ok_fail)

lemma stage_ok_dry_run [stage_rules]:
  "stage_ok v it s (\<lambda>_. \<not> v_dry_run v) (stage_dry_run v it started test s)"
proof (cases "v_dry_run v")
  case True
  then show ?thesis
    by (simp only: stage_dry_run_def if_True Let_def)
      (rule stage_ok_skip_log [where r = "(outcome_for started it ''dry_run'')\<lparr>
          o_predicted_gas := map_option tr_gas_units test,
          o_predicted_profit := map_option tr_net_profit_usd test,
          o_skip_reason := Some (lit ''dry_run'')\<rparr>"], simp_all add: outcome_for_def)
qed (simp add: stage_dry_run_def stage_ok_Go)

lemma stage_ok_estimate [stage_rules]:
  "stage_ok v it s (\<lambda>_. is_green (gate_estimate v it w call val)) (stage_estimate v it w call val s)"
  unfolding stage_estimate_def Let_def by (intro stage_ok_if stage_rules stage_ok_Go) auto

lemma stage_ok_native_balance [stage_rules]:
  "stage_ok v it s
     (\<lambda>_. \<forall>need bal. val = Some need \<and> v_native_balance v (cw_chain_id w) = Some bal \<longrightarrow> need \<le> bal)
     (stage_native_balance v it w val s)"
  unfolding stage_native_balance_def by (auto intro!: stage_rules stage_ok_Go split: option.split)

section \<open>The rest of the run: broadcast and receipt\<close>

text \<open>A transaction is out: the intent waits for its receipt.\<close>

definition fill_tx :: "lambda_env \<Rightarrow> chain_wiring \<Rightarrow> evm_addr \<times> bytes \<Rightarrow> nat option \<Rightarrow> evm_tx" where
  "fill_tx v w call val = \<lparr>tx_rpc_url = cw_rpc_url w, tx_to = fst call, tx_data = snd call,
     tx_value = val, tx_fees = Some (v_gas_price v (cw_chain_id w))\<rparr>"

definition pending :: "lambda_env \<Rightarrow> string \<Rightarrow> evm_tx \<Rightarrow> string \<Rightarrow> lstate \<Rightarrow> lstate \<Rightarrow> bool" where
  "pending v i tx h s s' \<longleftrightarrow> others_kept i s s' \<and> (alive i s \<longrightarrow> alive i s')
     \<and> l_sent s' = l_sent s @ [EvmTx tx] \<and> l_log s' = l_log s \<and> \<not> v_dry_run v \<and> v_send v tx = Inr h"

lemma pending_after: "advances i s t \<Longrightarrow> pending v i tx h t u \<Longrightarrow> pending v i tx h s u"
  by (auto simp: pending_def advances_def intro: others_kept_trans)

lemma stage_send_post:
  assumes "\<not> v_dry_run v"
  shows "post (\<lambda>h s'. pending v (i_id it) (fill_tx v w call val) h s s') (\<lambda>r s'. settles ((=) (fill_tx v w call val)) v it r s s')
    (stage_send v it w call val s)"
proof -
  let ?s1 = "trans_to v (i_id it) Broadcast None None s"
  let ?s2 = "?s1\<lparr>l_sent := l_sent ?s1 @ [EvmTx (fill_tx v w call val)]\<rparr>"
  have s1: "others_kept (i_id it) s ?s1" "alive (i_id it) s \<longrightarrow> alive (i_id it) ?s1"
    "w_reservations (l_wallet ?s1) = w_reservations (l_wallet s)"
    using trans_to_advances [of Broadcast "i_id it" s v None None] by (auto simp: advances_def)
  then have s2: "others_kept (i_id it) s ?s2" "alive (i_id it) s \<longrightarrow> alive (i_id it) ?s2"
    by (auto simp: others_kept_def alive_def)
  show ?thesis
  proof (cases "v_rpc_ok v (cw_rpc_url w)")
    case False
    have "state_of (l_wallet ?s1) (i_id it) = Some Broadcast" if "alive (i_id it) s"
      using trans_to_row [OF that, of v Broadcast None None] by (auto simp: state_of_def from_str_def)
    with False s1 show ?thesis by (simp add: stage_send_def Let_def settles_def)
  next
    case ok: True
    show ?thesis
    proof (cases "v_send v (fill_tx v w call val)")
      case (Inl e)
      with ok s2 assms show ?thesis
        by (simp add: stage_send_def Let_def fill_tx_def [symmetric] fail_def)
          (rule settles_close [where st = Reverted and h = None and t = ?s2 and new = "[EvmTx (fill_tx v w call val)]"],
            auto intro: logged_same)
    next
      case (Inr h)
      let ?s3 = "trans_to v (i_id it) PendingConfirmation (Some h) None ?s2"
      have "advances (i_id it) ?s2 ?s3" by (rule trans_to_advances) simp
      with s2 Inr assms have "pending v (i_id it) (fill_tx v w call val) h s ?s3"
        by (auto simp: pending_def advances_def intro: others_kept_trans)
      with Inr ok show ?thesis by (simp add: stage_send_def Let_def fill_tx_def [symmetric])
    qed
  qed
qed

lemma stage_receipt_settles:
  assumes p: "pending v (i_id it) tx h s s1" and run: "stage_receipt v it started test h s1 = (r, s')"
  shows "settles ((=) tx) v it r s s'"
proof (cases "v_receipt v h")
  case (Inl e)
  with run p show ?thesis
    unfolding stage_receipt_def Let_def
    by clarsimp (rule settles_close [where st = Reverted and h = "Some h" and t = s1 and new = "[EvmTx tx]"],
        auto simp: pending_def intro: logged_same)
next
  case (Inr rc)
  show ?thesis
  proof (cases "rc_status rc")
    case True
    with Inr run p show ?thesis
      unfolding stage_receipt_def Let_def
      by clarsimp (rule settles_close [where st = Confirmed and h = "Some h" and t = s1 and new = "[EvmTx tx]"],
          auto simp: pending_def logged_def executed_outcome_def outcome_for_def)
  next
    case False
    with Inr run p show ?thesis
      unfolding stage_receipt_def Let_def
      by clarsimp (rule settles_close [where st = Reverted and h = "Some h" and t = s1 and new = "[EvmTx tx]"],
          auto simp: pending_def logged_def executed_outcome_def outcome_for_def)
  qed
qed

section \<open>The whole run\<close>

text \<open>The wallet as the reservation stage leaves it.\<close>

definition reserved_at :: "lambda_env \<Rightarrow> intent \<Rightarrow> lstate \<Rightarrow> lstate \<Rightarrow> bool" where
  "reserved_at v it s s1 \<longleftrightarrow> others_kept (i_id it) s s1 \<and> l_sent s1 = l_sent s \<and> l_log s1 = l_log s
     \<and> (intent_in s (i_id it) = None \<or> alive (i_id it) s \<longrightarrow> alive (i_id it) s1)
     \<and> (if v_dry_run v then w_reservations (l_wallet s1) = w_reservations (l_wallet s)
        else held (l_wallet s1) (i_id it) \<and> (held (l_wallet s) (i_id it) \<or>
          \<not> f_gt (f_add (reserved_total (v_sum v) (l_wallet s)) (intent_amount_usd (v_eth_price v) it))
                 (w_budget (l_wallet s))))"

text \<open>A run that ends before it holds anything.\<close>

definition refused :: "lambda_env \<Rightarrow> intent \<Rightarrow> lambda_result \<Rightarrow> lstate \<Rightarrow> lstate \<Rightarrow> bool" where
  "refused v it r s s' \<longleftrightarrow> others_kept (i_id it) s s' \<and> l_sent s' = l_sent s
     \<and> w_reservations (l_wallet s') = w_reservations (l_wallet s)
     \<and> (case r of Inl e \<Rightarrow> l_wallet s' = l_wallet s \<and> l_log s' = l_log s
        | Inr oc \<Rightarrow> (\<exists>m. oc = LSkipped m) \<and> logged v it oc s s' \<and>
            (l_wallet s' = l_wallet s \<or>
             (intent_in s (i_id it) = None \<or> alive (i_id it) s \<longrightarrow> final_row (i_id it) oc s')))"

lemma alive_cong: "intent_in s' i = intent_in s i \<Longrightarrow> alive i s' = alive i s"
  by (simp add: alive_def state_of_def)

lemma recorded:
  assumes "record_detected now (new_intent_of v it) w = Inr (rec, w1)" "l_wallet s = w" "l_wallet s1 = w1"
  shows "others_kept (i_id it) s s1 \<and> w_reservations w1 = w_reservations w \<and> w_budget w1 = w_budget w
    \<and> (intent_in s (i_id it) = None \<or> alive (i_id it) s \<longrightarrow> alive (i_id it) s1)"
proof -
  have id: "ni_id (new_intent_of v it) = i_id it" by (simp add: new_intent_of_def)
  have fresh: "alive (i_id it) s1" if "intent (i_id it) w = None"
  proof -
    have "ir_state rec = as_str IntentDetected"
      using assms(1) that id by (auto simp: record_detected_def intent_def Let_def split: if_splits)
    with intent_record_detected [OF assms(1), of "i_id it"] id assms(3) show ?thesis
      by (simp add: alive_def state_of_def from_str_def)
  qed
  have same: "intent (i_id it) w1 = intent (i_id it) w" if "intent (i_id it) w \<noteq> None"
    using assms(1) that id by (auto simp: record_detected_def intent_def)
  show ?thesis
    using intent_record_detected [OF assms(1)] fresh same assms(2,3) id alive_cong [where s' = s1 and i = "i_id it" and s = s]
    by (cases "intent (i_id it) w") (auto simp: others_kept_def)
qed

lemma stage_notional_post:
  "post (\<lambda>_ s'. s' = s \<and> \<not> f_gt (intent_amount_usd (v_eth_price v) it) (max_notional v))
     (\<lambda>r s'. refused v it r s s' \<and> l_wallet s' = l_wallet s) (stage_notional v it s)"
  by (auto simp: stage_notional_def Let_def clock_def refused_def logged_def others_kept_def outcome_for_def)

lemma stage_wiring_post:
  "post (\<lambda>(started, w) s'. l_wallet s' = l_wallet s \<and> l_sent s' = l_sent s \<and> l_log s' = l_log s
        \<and> map_of (v_chains v) (i_dst_chain it) = Some w)
     (\<lambda>r s'. refused v it r s s' \<and> l_wallet s' = l_wallet s) (stage_wiring v it s)"
  by (auto simp: stage_wiring_def clock_def refused_def others_kept_def intro: logged_same split: option.split)

lemma reserve_split:
  assumes "reserve sm now i a w = Inr w'"
  shows "held w' i \<and> intent j w' = intent j w \<and> w_revenue w' = w_revenue w \<and> w_budget w' = w_budget w
    \<and> (j \<noteq> i \<longrightarrow> t_get rv_id j (w_reservations w') = t_get rv_id j (w_reservations w))
    \<and> (held w i \<or> \<not> f_gt (f_add (reserved_total sm w) a) (w_budget w))"
  using assms
  by (auto simp: reserve_def held_def intent_def Let_def t_get_snoc split: option.splits if_splits)

lemma reserved_total_cong: "w_reservations w = w_reservations w' \<Longrightarrow> reserved_total sm w = reserved_total sm w'"
  by (simp add: reserved_total_def)

lemma stage_reserve_post:
  "post (\<lambda>_ s1. reserved_at v it s s1) (\<lambda>r s'. refused v it r s s') (stage_reserve v it s)"
proof (cases "record_detected (v_clock v (l_tick s)) (new_intent_of v it) (l_wallet s)")
  case (Inl e)
  then show ?thesis by (simp add: stage_reserve_def clock_def refused_def others_kept_def)
next
  case (Inr q)
  then obtain rec w1 where rd: "record_detected (v_clock v (l_tick s)) (new_intent_of v it) (l_wallet s) = Inr (rec, w1)"
    by (cases q) auto
  let ?s2 = "s\<lparr>l_tick := Suc (l_tick s), l_wallet := w1\<rparr>"
  let ?s3 = "?s2\<lparr>l_tick := Suc (Suc (l_tick s))\<rparr>"
  let ?amt = "intent_amount_usd (v_eth_price v) it"
  have s2: "others_kept (i_id it) s ?s2" "w_reservations w1 = w_reservations (l_wallet s)"
    "w_budget w1 = w_budget (l_wallet s)" "intent_in s (i_id it) = None \<or> alive (i_id it) s \<longrightarrow> alive (i_id it) ?s2"
    using recorded [OF rd refl, of ?s2] by simp_all
  show ?thesis
  proof (cases "v_dry_run v")
    case True
    with s2 rd show ?thesis by (simp add: stage_reserve_def clock_def Let_def reserved_at_def)
  next
    case live: False
    show ?thesis
    proof (cases "reserve (v_sum v) (v_clock v (Suc (l_tick s))) (i_id it) ?amt w1")
      case (Inl e)
      let ?m = "Msg ''reserve_failed:{}'' [AMsg (wallet_error_msg e)]"
      let ?s' = "trans_to v (i_id it) SkipUnprofitable None (Some ?m) ?s3"
      have nh: "\<not> held w1 (i_id it)" using Inl by (auto simp: reserve_def held_def split: option.splits)
      have s3: "others_kept (i_id it) s ?s3" "intent_in s (i_id it) = None \<or> alive (i_id it) s \<longrightarrow> alive (i_id it) ?s3"
        using s2 by (auto simp: others_kept_def alive_def)
      have "w_reservations (l_wallet ?s') = w_reservations w1"
        using nh trans_to_alive [of "i_id it" ?s3 v SkipUnprofitable None "Some ?m"]
          trans_to_dead [of "i_id it" ?s3 v SkipUnprofitable None "Some ?m"]
        by (cases "alive (i_id it) ?s3") (auto elim!: transition_cases simp: held_def t_delete_absent)
      moreover have "final_row (i_id it) (LSkipped ?m) ?s'" if "alive (i_id it) ?s3"
        by (rule final_row_trans_to [OF that]) simp_all
      ultimately have "refused v it (Inr (LSkipped ?m)) s ?s'"
        using s2(2) s3 others_kept_trans [OF s3(1) trans_to_others]
        by (auto simp: refused_def intro: logged_same)
      with Inl rd live show ?thesis by (simp add: stage_reserve_def clock_def Let_def)
    next
      case (Inr w2)
      let ?s4 = "?s3\<lparr>l_wallet := w2\<rparr>"
      have "others_kept (i_id it) ?s2 ?s4"
        using reserve_split [OF Inr] by (simp add: others_kept_def)
      moreover have "alive (i_id it) ?s4 = alive (i_id it) ?s2"
        by (rule alive_cong) (use reserve_split [OF Inr] in simp)
      ultimately have "reserved_at v it s ?s4"
        using s2 reserve_split [OF Inr, of "i_id it"] live reserved_total_cong [OF s2(2), of "v_sum v"]
        by (auto simp: reserved_at_def held_def intro: others_kept_trans)
      with Inr rd live show ?thesis by (simp add: stage_reserve_def clock_def Let_def)
    qed
  qed
qed

text \<open>What holds when the admission is over.\<close>

definition test_passed :: "lambda_env \<Rightarrow> intent \<Rightarrow> chain_wiring \<Rightarrow> test_run option \<Rightarrow> bool" where
  "test_passed v it w test \<longleftrightarrow>
     (if bypass_spinner w it then test = None
      else v_dry_run v \<or> (\<exists>t. test = Some t \<and> v_test_run v (i_protocol it) (i_id it) = Inr t))
     \<and> (\<forall>t. test = Some t \<longrightarrow> tr_is_profitable t \<and> \<not> f_lt (tr_net_profit_usd t) (v_threshold v))"

definition admitted :: "lambda_env \<Rightarrow> intent \<Rightarrow> chain_wiring \<Rightarrow> test_run option \<Rightarrow> bool" where
  "admitted v it w test \<longleftrightarrow>
     \<not> f_gt (intent_amount_usd (v_eth_price v) it) (max_notional v)
     \<and> map_of (v_chains v) (i_dst_chain it) = Some w
     \<and> (is_across it \<longrightarrow> cw_across_adapter w \<noteq> 0) \<and> test_passed v it w test"

definition after_hold :: "(evm_tx \<Rightarrow> bool) \<Rightarrow> lambda_env \<Rightarrow> intent \<Rightarrow> lambda_result \<Rightarrow> lstate \<Rightarrow> lstate \<Rightarrow> bool" where
  "after_hold K v it r s s' \<longleftrightarrow> refused v it r s s' \<or> (\<exists>s1. reserved_at v it s s1 \<and> settles K v it r s1 s')"

lemma refused_shift:
  "l_wallet t = l_wallet s \<Longrightarrow> l_sent t = l_sent s \<Longrightarrow> l_log t = l_log s \<Longrightarrow> refused v it r t s' \<Longrightarrow> refused v it r s s'"
  by (cases r) (simp_all add: refused_def logged_def others_kept_def alive_def)

lemma reserved_shift:
  "l_wallet t = l_wallet s \<Longrightarrow> l_sent t = l_sent s \<Longrightarrow> l_log t = l_log s \<Longrightarrow> reserved_at v it t s' \<Longrightarrow> reserved_at v it s s'"
  by (cases "v_dry_run v") (simp_all add: reserved_at_def others_kept_def alive_def)

lemma admit_tail:
  "stage_ok v it s1 (\<lambda>(st, w', test). st = started \<and> w' = w \<and> (is_across it \<longrightarrow> cw_across_adapter w \<noteq> 0) \<and> test_passed v it w test)
     (step_bind (stage_adapter v it w s1) (\<lambda>_ s.
      step_bind (stage_test_run v it w s) (\<lambda>test s.
      step_bind (stage_profit v it started test s) (\<lambda>_ s. Go (started, w, test) s))))"
  by (rule stage_ok_bind [OF stage_ok_adapter], rule stage_ok_bind [OF stage_ok_test_run],
      rule stage_ok_bind [OF stage_ok_profit], rule stage_ok_Go)
    (auto simp: test_passed_def)

lemma admit_post:
  "post (\<lambda>(started, w, test) s'. (\<exists>s1. reserved_at v it s s1 \<and> advances (i_id it) s1 s') \<and> admitted v it w test)
     (\<lambda>r s'. after_hold (\<lambda>_. False) v it r s s') (admit v it s)"
  unfolding admit_def
proof (rule post_bindI [OF stage_notional_post], goal_cases)
  case (1 u s0)
  then have s0: "s0 = s" "\<not> f_gt (intent_amount_usd (v_eth_price v) it) (max_notional v)" by auto
  show ?case unfolding s0(1)
  proof (rule post_bindI [OF stage_wiring_post], goal_cases)
    case (1 sw s2)
    then obtain started w where sw: "sw = (started, w)" "map_of (v_chains v) (i_dst_chain it) = Some w"
      "l_wallet s2 = l_wallet s" "l_sent s2 = l_sent s" "l_log s2 = l_log s" by (cases sw) auto
    show ?case unfolding sw(1) prod.case
    proof (rule post_bindI [OF stage_reserve_post], goal_cases)
      case (1 u s1)
      then have r: "reserved_at v it s s1" using reserved_shift [OF sw(3-5)] by blast
      show ?case
        by (rule post_mono [OF admit_tail [unfolded stage_ok_def]])
          (use r s0(2) sw(2) in \<open>auto simp: admitted_def after_hold_def\<close>)
    qed (use refused_shift [OF sw(3-5)] in \<open>auto simp: after_hold_def\<close>)
  qed (auto simp: after_hold_def)
qed (auto simp: after_hold_def)

definition screened :: "lambda_env \<Rightarrow> intent \<Rightarrow> chain_wiring \<Rightarrow> bytes \<Rightarrow> intent \<Rightarrow> bool" where
  "screened v it w proof it' \<longleftrightarrow> enriched v it it' \<and> claim_info_complete w it'
     \<and> (is_debridge it \<longrightarrow> debridge_spread_skip it = None
          \<and> (\<forall>x. i_dln_external_call it = Some x \<longrightarrow> (\<forall>c \<in> set (trim_start_str ''0x'' x). c = CHR ''0'')))
     \<and> taker_allowed v it \<and> window_open v w it' \<and> mayan_in_time v it'
     \<and> (is_debridge it \<and> is_erc20_token (to_lowercase (trim (i_dst_token it))) \<longrightarrow>
          covers v w (v_parse_addr v (to_lowercase (trim (i_dst_token it)))) (i_take_amount it))
     \<and> (if bypass_spinner w it then proof = []
        else v_dry_run v \<or> try_proofs (v_proof v) (proof_candidates it) [] = Inr proof)"

lemma stage_ok_screen: "stage_ok v it s (\<lambda>(proof, it'). screened v it w proof it') (screen_order v it w s)"
  unfolding screen_order_def
proof (rule stage_ok_bind [OF stage_ok_taker], rule stage_ok_bind [OF stage_ok_external_call],
    rule stage_ok_bind [OF stage_ok_debridge_spread], rule stage_ok_bind [OF stage_ok_debridge_balance],
    rule stage_ok_bind [OF stage_ok_proof], rule stage_ok_bind [OF stage_ok_enrich], goal_cases)
  case (1 u1 s1 u2 s2 u3 s3 u4 s4 pf s5 it' s6)
  have "stage_ok v it' s6 (\<lambda>(pf, it'). screened v it w pf it')
     (step_bind (stage_exclusivity v it' w s6) (\<lambda>_ s.
      step_bind (stage_claim_info v it' w s) (\<lambda>_ s.
      step_bind (stage_mayan_deadline v it' s) (\<lambda>_ s.
      Go (pf, it') (trans_to v (i_id it') CalldataBuild None None s)))))"
    by (rule stage_ok_bind [OF stage_ok_exclusivity], rule stage_ok_bind [OF stage_ok_claim_info],
        rule stage_ok_bind [OF stage_ok_mayan_deadline], rule stage_ok_Go)
      (use 1 in \<open>auto simp: screened_def trans_to_advances\<close>)
  then show ?case using stage_ok_same_id [OF enriched_id [OF 1(6)]] by blast
qed

lemma stage_ok_fill_solana: "stage_ok v it s (\<lambda>_. evm_path it) (fill_solana v it test s)"
  unfolding fill_solana_def
  by (rule stage_ok_bind [OF stage_ok_flash], rule stage_ok_bind [OF stage_ok_mayan_solana],
      rule stage_ok_bind [OF stage_ok_dln_solana], rule stage_ok_mono [OF stage_ok_ntt]) (auto simp: evm_path_def)

text \<open>What holds of the order, the calldata and the chain when an EVM fill goes out.\<close>

definition fill_cleared :: "lambda_env \<Rightarrow> chain_wiring \<Rightarrow> intent \<Rightarrow> bytes \<Rightarrow> evm_addr \<times> bytes \<Rightarrow> bool" where
  "fill_cleared v w it proof call \<longleftrightarrow> \<not> v_dry_run v
     \<and> (plain_across w it \<longrightarrow> across_spread_skip (i_amount it) (i_output_amount it) = None
          \<and> across_message_hook_skip_reason (i_message it) = None
          \<and> (\<exists>k. across_fill_deadline_skip_reason (i_fill_deadline it) (word_of_int (unix_secs (v_clock v k))) = None))
     \<and> ((direct_fill w \<or> is_across it) \<and> \<not> is_debridge it \<and> \<not> is_mayan it \<longrightarrow>
          across_message_hook_skip_reason (i_message it) = None
          \<and> (\<exists>k. across_fill_deadline_skip_reason (i_fill_deadline it) (word_of_int (unix_secs (v_clock v k))) = None))
     \<and> (plain_across w it \<and> is_erc20_token (to_lowercase (trim (i_dst_token it))) \<longrightarrow>
          covers v w (v_parse_addr v (i_dst_token it)) (i_output_amount it))
     \<and> across_source it \<and> (is_mayan it \<and> \<not> is_solana_src it \<longrightarrow> auction_mode it = 0)
     \<and> fill_call v w it proof = Inr call
     \<and> is_green (gate_estimate v it w call (eth_fill_value v w it))
     \<and> (\<forall>need bal. eth_fill_value v w it = Some need \<and> v_native_balance v (cw_chain_id w) = Some bal \<longrightarrow> need \<le> bal)"

definition cleared :: "lambda_env \<Rightarrow> intent \<Rightarrow> evm_tx \<Rightarrow> bool" where
  "cleared v it tx \<longleftrightarrow> (\<exists>w test pf it' call.
     admitted v it w test \<and> screened v it w pf it' \<and> evm_path it' \<and> fill_cleared v w it' pf call
     \<and> tx = fill_tx v w call (eth_fill_value v w it'))"

lemma settles_mono: "settles K v it r s s' \<Longrightarrow> (\<And>tx. K tx \<Longrightarrow> K' tx) \<Longrightarrow> settles K' v it r s s'"
  by (auto simp: settles_def)

lemma stage_ok_checks:
  "stage_ok v it s (fill_cleared v w it pf)
     (step_bind (stage_mayan_auction v it s) (\<lambda>_ s.
      step_bind (stage_across_spread v it w s) (\<lambda>_ s.
      step_bind (stage_across_hook v it w s) (\<lambda>_ s.
      step_bind (stage_across_source v it s) (\<lambda>_ s.
      step_bind (stage_across_deadline v it w s) (\<lambda>_ s.
      step_bind (stage_across_balance v it w s) (\<lambda>_ s.
      step_bind (stage_calldata v it w pf s) (\<lambda>call s.
      step_bind (stage_dry_run v it started test s) (\<lambda>_ s.
      step_bind (stage_estimate v it w call (eth_fill_value v w it) s) (\<lambda>_ s.
      step_bind (stage_native_balance v it w (eth_fill_value v w it) s) (\<lambda>_ s. Go call s)))))))))))"
  by (rule stage_ok_bind [OF stage_ok_mayan_auction], rule stage_ok_bind [OF stage_ok_across_spread],
      rule stage_ok_bind [OF stage_ok_across_hook], rule stage_ok_bind [OF stage_ok_across_source],
      rule stage_ok_bind [OF stage_ok_across_deadline], rule stage_ok_bind [OF stage_ok_across_balance],
      rule stage_ok_bind [OF stage_ok_calldata], rule stage_ok_bind [OF stage_ok_dry_run],
      rule stage_ok_bind [OF stage_ok_estimate], rule stage_ok_bind [OF stage_ok_native_balance],
      rule stage_ok_Go)
    (auto simp: fill_cleared_def plain_across_def)

lemma step_bind_assoc: "step_bind (step_bind m f) g = step_bind m (\<lambda>a s. step_bind (f a s) g)"
  by (cases m) auto

lemma fill_evm_post:
  "post (\<lambda>h s'. \<exists>call. fill_cleared v w it pf call \<and> pending v (i_id it) (fill_tx v w call (eth_fill_value v w it)) h s s')
     (\<lambda>r s'. settles (\<lambda>tx. \<exists>call. fill_cleared v w it pf call \<and> tx = fill_tx v w call (eth_fill_value v w it)) v it r s s')
     (fill_evm v it w started test pf s)"
proof -
  let ?K = "\<lambda>tx. \<exists>call. fill_cleared v w it pf call \<and> tx = fill_tx v w call (eth_fill_value v w it)"
  let ?send = "\<lambda>call s. stage_send v it w call (eth_fill_value v w it) s"
  have "post (\<lambda>h s'. \<exists>call. fill_cleared v w it pf call \<and> pending v (i_id it) (fill_tx v w call (eth_fill_value v w it)) h s s')
     (\<lambda>r s'. settles ?K v it r s s') (step_bind m ?send)"
    if ok: "stage_ok v it s (fill_cleared v w it pf) m" for m
  proof (rule post_bindI [OF ok [unfolded stage_ok_def]], goal_cases)
    case (1 call s')
    then have live: "\<not> v_dry_run v" by (simp add: fill_cleared_def)
    have step: "advances (i_id it) s s'" and call: "fill_cleared v w it pf call" using 1 by auto
    show ?case
    proof (rule post_mono [OF stage_send_post [OF live]], goal_cases)
      case (1 h s1)
      then show ?case using call pending_after [OF step] by blast
    next
      case (2 r s1)
      show ?case
        by (rule settles_mono [OF settles_after [OF step 2]]) (use call in blast)
    qed
  qed (auto intro: settles_mono)
  from this [OF stage_ok_checks [of v it s w pf started test]] show ?thesis
    by (simp only: fill_evm_def Let_def step_bind_assoc step_bind.simps)
qed

lemma broadcast_run_post:
  "post (\<lambda>(started, test, it', h) s'. i_id it' = i_id it \<and>
        (\<exists>s1 tx. reserved_at v it s s1 \<and> cleared v it tx \<and> pending v (i_id it) tx h s1 s'))
     (\<lambda>r s'. after_hold (cleared v it) v it r s s') (broadcast_run v it s)"
  unfolding broadcast_run_def
proof (rule post_bindI [OF admit_post], goal_cases)
  case (1 a s2)
  obtain started w test where a: "a = (started, w, test)" by (cases a)
  from 1 obtain s1 where s1: "reserved_at v it s s1" "advances (i_id it) s1 s2" and adm: "admitted v it w test"
    by (auto simp: a)
  have quiet: "after_hold (cleared v it) v it r s u" if "advances (i_id it) s1 t" "settles K v it r t u"
    "\<And>tx. K tx \<Longrightarrow> cleared v it tx" for K r t u
    using settles_mono [OF settles_after [OF that(1,2)] that(3)] s1(1) by (auto simp: after_hold_def)
  show ?case unfolding a prod.case
  proof (rule post_bindI [OF stage_ok_screen [unfolded stage_ok_def]], goal_cases)
    case (1 b s3)
    obtain pf it' where b: "b = (pf, it')" by (cases b)
    from 1 have s3: "advances (i_id it) s1 s3" and scr: "screened v it w pf it'"
      using s1(2) by (auto simp: b intro: advances_trans)
    then have id: "i_id it' = i_id it" using enriched_id [of v it it'] by (simp add: screened_def)
    show ?case unfolding b prod.case
    proof (rule post_bindI [OF stage_ok_fill_solana [where it = it', unfolded stage_ok_def]], goal_cases)
      case (1 u s4)
      with s3 id have s4: "advances (i_id it) s1 s4" and evm: "evm_path it'" by (auto intro: advances_trans)
      let ?tx = "\<lambda>call. fill_tx v w call (eth_fill_value v w it')"
      have clear: "cleared v it (?tx call)" if "fill_cleared v w it' pf call" for call
        unfolding cleared_def using adm scr evm that by blast
      show ?case
      proof (rule post_bindI [OF fill_evm_post], goal_cases)
        case (1 h s5)
        then obtain call where call: "fill_cleared v w it' pf call" and p: "pending v (i_id it) (?tx call) h s4 s5"
          by (auto simp: id)
        from clear [OF call] pending_after [OF s4 p] s1(1) show ?case by (auto simp: id)
      next
        case (2 r s5)
        then have "settles (\<lambda>tx. \<exists>call. fill_cleared v w it' pf call \<and> tx = ?tx call) v it r s4 s5"
          by (simp add: settles_same_id [OF id])
        from quiet [OF s4 this] clear show ?case by blast
      qed
    next
      case (2 r s4)
      then have "settles (\<lambda>_. False) v it r s3 s4" using settles_same_id [OF id] by blast
      from quiet [OF s3 this] show ?case by blast
    qed
  next
    case (2 r s3)
    from quiet [OF s1(2) this] show ?case by blast
  qed
next
  case (2 r s')
  then show ?case using settles_mono [where K = "\<lambda>_. False" and K' = "cleared v it"] by (auto simp: after_hold_def)
qed

lemma execute_run: "lambda_execute v it s = (r, s') \<Longrightarrow> after_hold (cleared v it) v it r s s'"
proof (cases "broadcast_run v it s")
  case (Stop q t)
  moreover assume "lambda_execute v it s = (r, s')"
  ultimately show ?thesis using broadcast_run_post [where v = v and it = it and s = s] by (simp add: lambda_execute_def)
next
  case (Go a t)
  assume run: "lambda_execute v it s = (r, s')"
  obtain started test it' h where a: "a = (started, test, it', h)" by (cases a)
  with Go broadcast_run_post [where v = v and it = it and s = s] obtain s1 tx where
    id: "i_id it' = i_id it" and s1: "reserved_at v it s s1" "cleared v it tx" "pending v (i_id it) tx h s1 t"
    by auto
  have "settles ((=) tx) v it' r s1 s'"
    by (rule stage_receipt_settles [where started = started and test = test])
      (use run Go a s1 id in \<open>auto simp: lambda_execute_def\<close>)
  then have "settles (cleared v it) v it r s1 s'"
    using s1(2) settles_same_id [OF id] by (auto elim: settles_mono)
  with s1(1) show ?thesis by (auto simp: after_hold_def)
qed

end
