(* ===== verification/LambdaProps.thy ===== *)
theory LambdaProps
  imports LambdaSafety
begin

text \<open>
  The properties of the controller: what a run leaves behind, what it sends and when, what it
  reports, and how claims move a confirmed fill on.  The witnesses run a direct Across fill.
\<close>

section \<open>A sample run\<close>

definition sample_port :: solana_port where
  "sample_port = \<lparr>sp_ready = False, sp_build = (\<lambda>_. Inl ''no''), sp_key = Inl ''no'', sp_send = (\<lambda>_. Inl ''no'')\<rparr>"

definition sample_wiring :: chain_wiring where
  "sample_wiring = \<lparr>cw_chain_id = 10, cw_rpc_url = ''http://op'', cw_operator = 0, cw_across_adapter = 7\<rparr>"

definition sample_env :: lambda_env where
  "sample_env = \<lparr>v_clock = (\<lambda>_. 1000 * 1000000000), v_sum = (\<lambda>_. Fin 0), v_dry_run = False,
     v_threshold = Fin 0, v_signer = 1, v_addr_hex = (\<lambda>_. ''01''), v_chains = [(10, sample_wiring)],
     v_logging = True, v_max_notional = None, v_eth_price = None, v_skip_estimate = None,
     v_test_run = (\<lambda>_ _. Inl ''down''), v_proof = (\<lambda>_. Inl ''down''), v_relay_tx = (\<lambda>_ _. None),
     v_relay_deposit = (\<lambda>_ _ _. None), v_parse_addr = (\<lambda>_. None), v_erc20_balance = (\<lambda>_ _. None),
     v_native_balance = (\<lambda>_. None), v_u256 = (\<lambda>_ _. None), v_flash = sample_port,
     v_mayan_sol = sample_port, v_dln_sol = sample_port, v_ntt = sample_port,
     v_mayan_simple = (\<lambda>_. Inl ''no''), v_mayan_vaa = (\<lambda>_. Inl ''no''),
     v_debridge_calldata = (\<lambda>_ _. Inl ''no''), v_spoke_calldata = (\<lambda>_ _ _. Inr [1, 2]),
     v_adapter_calldata = (\<lambda>_. Inl ''no''), v_verified_call = (\<lambda>_ _ _ _. []),
     v_estimate = (\<lambda>_ _ _ _ _. OkGas 21000), v_gas_price = (\<lambda>_. (1, 1)), v_rpc_ok = (\<lambda>_. True),
     v_send = (\<lambda>_. Inr ''0xh''), v_receipt = (\<lambda>_. Inr \<lparr>rc_gas_used = 20000, rc_gas_price = 1, rc_status = True\<rparr>),
     v_claim_selector = [9], v_dln_source = (\<lambda>_. None), v_claim_unlock = (\<lambda>_ _. Inl ''no'')\<rparr>"

definition sample_intent :: intent where
  "sample_intent = \<lparr>i_id = ''a:5'', i_protocol = ''across'', i_src_chain = 1, i_dst_chain = 10,
     i_src_token = ''usdc'', i_dst_token = ''usdc'', i_amount = ''4000000'', i_depositor = ''0x2'',
     i_recipient = ''0x3'', i_tx_hash = [], i_detected_at = 0, i_output_amount = Some ''3000000'',
     i_deposit_id = Some 5, i_give_amount = None, i_take_amount = None, i_order_id = None,
     i_dln_allowed_taker_dst = None, i_dln_external_call = None, i_mayan_order_id = None,
     i_deadline = None, i_is_solana_source = None, i_fill_deadline = Some 2000,
     i_exclusivity_deadline = None, i_exclusive_relayer = None, i_message = None, i_batch_id = None,
     i_mayan_auction_mode = None, i_is_solana_destination = None\<rparr>"

definition sample_state :: lstate where
  "sample_state = \<lparr>l_wallet = open_wallet (Fin 100), l_log = [], l_sent = [], l_tick = 0\<rparr>"

definition sample_tx :: evm_tx where
  "sample_tx = \<lparr>tx_rpc_url = ''http://op'', tx_to = 7, tx_data = [1, 2], tx_value = None, tx_fees = Some (1, 1)\<rparr>"

lemma sample_tags:
  "is_across sample_intent" "\<not> is_debridge sample_intent" "\<not> is_mayan sample_intent"
  "\<not> contains (to_lowercase (i_protocol sample_intent)) ''flash''"
  "\<not> contains (to_lowercase (i_protocol sample_intent)) ''wormhole''"
  "\<not> contains (to_lowercase (i_protocol sample_intent)) ''ntt''"
  by code_simp+

lemmas parse_defs = parse_u128_def parse_unsigned_def digits_val_def digit_val_def is_digit_def starts_with_def Let_def

lemma sample_parse: "parse_u128 ''4000000'' = Some 4000000" "parse_u128 ''3000000'' = Some 3000000"
  by (simp_all add: parse_defs)

lemma fround_quarter: "fround (1 / 4) = Fin (1 / 4)"
proof -
  have "fval (1 / 4) = 1 / 4" using fval_exact [of 1 "- 2"] by (simp add: power_int_minus)
  then show ?thesis by (simp add: fround_def Let_def)
qed

lemma sample_divs:
  "f_mul (f_div (Fin 4000000) (Fin 1000000)) (Fin 1) = Fin 4"
  "f_mul (f_div (Fin 1000000) (Fin 4000000)) (Fin 100) = Fin 25"
  using fround_of_int [of 4] fround_of_int [of 25] fround_quarter by simp_all

lemma sample_tokens: "token_decimals ''usdc'' = 6" "token_price_heuristic None ''usdc'' = Fin 1"
  by (simp_all add: token_decimals_def token_price_heuristic_def six_dec_def eth_like_def to_lowercase_def
      lower_char_def zero_address_text_def Let_def)

lemma sample_amount: "intent_amount_usd None sample_intent = Fin 4"
  using sample_parse(1) sample_divs(1) sample_tokens fround_of_nat [of 4000000] fround_of_nat [of 1000000]
  by (simp add: intent_amount_usd_def sample_intent_def starts_with_def)

lemma hundredth_small: "\<not> f_lt (Fin 25) (fround (1 / 100))"
  using fround_mono [of "1 / 100" 1] fround_of_int [of 1] by (cases "fround (1 / 100)") auto

lemma sample_spread: "across_spread_skip ''4000000'' (Some ''3000000'') = None"
  using sample_parse sample_divs(2) fround_of_nat [of 1000000] fround_of_nat [of 4000000] hundredth_small
  by (simp add: across_spread_skip_def sat_mul_u128_def spread_pct_def)


lemmas run_defs = lambda_execute_def broadcast_run_def admit_def screen_order_def fill_solana_def fill_evm_def

lemma sample_env_simps [simp]:
  "v_clock sample_env = (\<lambda>_. 1000 * 1000000000)" "v_sum sample_env = (\<lambda>_. Fin 0)"
  "\<not> v_dry_run sample_env" "v_threshold sample_env = Fin 0" "v_chains sample_env = [(10, sample_wiring)]"
  "v_logging sample_env" "v_max_notional sample_env = None" "v_eth_price sample_env = None"
  "v_skip_estimate sample_env = None" "v_estimate sample_env = (\<lambda>_ _ _ _ _. OkGas 21000)"
  "v_gas_price sample_env = (\<lambda>_. (1, 1))" "v_rpc_ok sample_env = (\<lambda>_. True)" "v_send sample_env = (\<lambda>_. Inr ''0xh'')"
  "v_receipt sample_env = (\<lambda>_. Inr \<lparr>rc_gas_used = 20000, rc_gas_price = 1, rc_status = True\<rparr>)"
  "v_spoke_calldata sample_env = (\<lambda>_ _ _. Inr [1, 2])" "v_parse_addr sample_env = (\<lambda>_. None)"
  by (simp_all add: sample_env_def)

lemma sample_wiring_simps [simp]:
  "cw_chain_id sample_wiring = 10" "cw_rpc_url sample_wiring = ''http://op''"
  "cw_operator sample_wiring = 0" "cw_across_adapter sample_wiring = 7"
  by (simp_all add: sample_wiring_def)

lemma sample_intent_simps [simp]:
  "i_id sample_intent = ''a:5''" "i_dst_chain sample_intent = 10" "i_amount sample_intent = ''4000000''"
  "i_output_amount sample_intent = Some ''3000000''" "i_deposit_id sample_intent = Some 5"
  "i_recipient sample_intent = ''0x3''" "i_depositor sample_intent = ''0x2''"
  "i_fill_deadline sample_intent = Some 2000" "i_dln_allowed_taker_dst sample_intent = None"
  "i_dln_external_call sample_intent = None" "i_deadline sample_intent = None" "i_message sample_intent = None"
  "i_exclusivity_deadline sample_intent = None" "i_exclusive_relayer sample_intent = None"
  "i_is_solana_destination sample_intent = None" "i_dst_token sample_intent = ''usdc''"
  by (simp_all add: sample_intent_def)

lemma sample_kind [simp]: "direct_fill sample_wiring" "bypass_spinner sample_wiring sample_intent"
  by (simp_all add: direct_fill_def bypass_spinner_def)

lemma sample_admit: "\<exists>s1. admit sample_env sample_intent sample_state = Go (1000 * 1000000000, sample_wiring, None) s1
    \<and> l_sent s1 = []"
proof -
  have "\<not> f_gt (Fin 4) (Fin 200)" "f_add (Fin 0) (Fin 4) = Fin 4" using fround_of_int [of 4] by simp_all
  then show ?thesis using sample_tags
    by (simp add: admit_def stage_notional_def stage_wiring_def stage_reserve_def stage_adapter_def
      stage_test_run_def stage_profit_def sample_amount clock_def max_notional_def sample_state_def
      record_detected_def new_intent_of_def reserve_def reserved_total_def open_wallet_def Let_def)
qed

lemma sample_screen: "\<exists>s1. screen_order sample_env sample_intent sample_wiring s = Go ([], sample_intent) s1
    \<and> l_sent s1 = l_sent s"
  using sample_tags
  by (simp add: screen_order_def stage_taker_def stage_external_call_def stage_debridge_spread_def
      stage_debridge_balance_def stage_proof_def stage_enrich_def stage_exclusivity_def clock_def
      stage_claim_info_def stage_mayan_deadline_def blank_addr_def zero_address_text_def Let_def)

lemma sample_solana: "fill_solana sample_env sample_intent test s = Go () s"
  using sample_tags
  by (simp add: fill_solana_def stage_flash_def stage_mayan_solana_def stage_dln_solana_def stage_ntt_def)

lemma sample_value: "eth_fill_value sample_env sample_wiring sample_intent = None"
  using sample_tags
  by (simp add: eth_fill_value_def to_lowercase_def lower_char_def zero_address_text_def Let_def)

lemma sample_deadline: "across_fill_deadline_skip_reason (Some 2000) (word_of_int (unix_secs (1000 * 1000000000))) = None"
  by (simp add: across_fill_deadline_skip_reason_def unix_secs_def sat_add_word_def)

lemma sample_fill: "\<exists>s1. fill_evm sample_env sample_intent sample_wiring st test pf s = Go ''0xh'' s1
    \<and> l_sent s1 = l_sent s @ [EvmTx sample_tx]"
  using sample_tags sample_deadline
  by (simp add: fill_evm_def stage_mayan_auction_def stage_across_spread_def sample_spread
      stage_across_hook_def across_message_hook_skip_reason_def stage_across_source_def
      stage_across_deadline_def stage_across_balance_def erc20_short_def stage_calldata_def fill_call_def
      stage_dry_run_def stage_estimate_def gate_estimate_def stage_native_balance_def stage_send_def
      sample_value sample_tx_def clock_def starts_with_def Let_def split: option.split)

lemma sample_run:
  "\<exists>s'. lambda_execute sample_env sample_intent sample_state = (Inr (LConfirmed ''0xh'' 20000), s')
     \<and> l_sent s' = [EvmTx sample_tx]"
proof -
  obtain s1 where "admit sample_env sample_intent sample_state = Go (1000 * 1000000000, sample_wiring, None) s1"
    "l_sent s1 = []" using sample_admit by blast
  moreover obtain s2 where "screen_order sample_env sample_intent sample_wiring s1 = Go ([], sample_intent) s2"
    "l_sent s2 = l_sent s1" using sample_screen by blast
  moreover obtain s3 where "fill_evm sample_env sample_intent sample_wiring (1000 * 1000000000) None [] s2 = Go ''0xh'' s3"
    "l_sent s3 = l_sent s2 @ [EvmTx sample_tx]" using sample_fill by blast
  ultimately show ?thesis
    by (simp add: lambda_execute_def broadcast_run_def sample_solana stage_receipt_def Let_def)
qed

lemma sample_not_held: "\<not> held (l_wallet sample_state) ''a:5''" "intent ''a:5'' (l_wallet sample_state) = None"
  by (simp_all add: sample_state_def open_wallet_def held_def intent_def)

section \<open>Properties\<close>

lemma refused_not_held: "refused v it r s s' \<Longrightarrow> held (l_wallet s') j = held (l_wallet s) j"
  by (simp add: refused_def held_def)

lemma others_after_hold: "after_hold K v it r s s' \<Longrightarrow> others_kept (i_id it) s s'"
  by (auto simp: after_hold_def refused_def reserved_at_def settles_def intro: others_kept_trans)

lemma settles_sent:
  "settles K v it r s s' \<Longrightarrow> \<exists>new. l_sent s' = l_sent s @ new \<and> (v_dry_run v \<longrightarrow> new = [])
     \<and> (case r of Inl e \<Rightarrow> new = [] | Inr oc \<Rightarrow> length new \<in> sends oc)"
  by (cases r) (auto simp: settles_def)

lemma settles_held: "settles K v it r s s' \<Longrightarrow> held (l_wallet s') j \<Longrightarrow> held (l_wallet s) j"
  by (cases "j = i_id it"; cases r) (auto simp: settles_def others_kept_def held_def)

text \<open>C6. A run that returns an outcome leaves no reservation behind for an intent that held none,
  and it never touches what belongs to others: their rows and reservations, the recorded revenue
  and the budget are as before (also when the run ends in an error).\<close>

theorem execute_releases:
  assumes "lambda_execute v it s = (r, s')" "\<not> held (l_wallet s) (i_id it)"
  shows "(\<forall>oc. r = Inr oc \<longrightarrow> \<not> held (l_wallet s') (i_id it))
    \<and> (\<forall>j. j \<noteq> i_id it \<longrightarrow> intent j (l_wallet s') = intent j (l_wallet s)
        \<and> t_get rv_id j (w_reservations (l_wallet s')) = t_get rv_id j (w_reservations (l_wallet s)))
    \<and> w_revenue (l_wallet s') = w_revenue (l_wallet s) \<and> w_budget (l_wallet s') = w_budget (l_wallet s)"
proof -
  have run: "after_hold (cleared v it) v it r s s'" by (rule execute_run [OF assms(1)])
  have "\<not> held (l_wallet s') (i_id it)" if "r = Inr oc" for oc
    using run that assms(2) by (auto simp: after_hold_def refused_not_held settles_def)
  with others_after_hold [OF run] show ?thesis by (auto simp: others_kept_def)
qed

theorem execute_releases_witness:
  "\<not> held (l_wallet (snd (lambda_execute sample_env sample_intent sample_state))) ''a:5''"
proof -
  obtain s' where "lambda_execute sample_env sample_intent sample_state = (Inr (LConfirmed ''0xh'' 20000), s')"
    using sample_run by blast
  with execute_releases [OF this] sample_not_held show ?thesis by simp
qed

text \<open>C9. A run hands out at most one transaction, and how many it handed out can be read from its
  outcome: none for a skip or an error, exactly one for a confirmed or reverted fill.  In dry-run
  mode it hands out none, reserves nothing, and never reports a confirmed fill.\<close>

theorem execute_sends_at_most_one:
  assumes "lambda_execute v it s = (r, s')"
  shows "\<exists>new. l_sent s' = l_sent s @ new \<and> length new \<le> 1
    \<and> (case r of Inl e \<Rightarrow> new = [] | Inr oc \<Rightarrow> length new \<in> sends oc)
    \<and> (v_dry_run v \<longrightarrow> new = [] \<and> (\<forall>j. held (l_wallet s') j \<longrightarrow> held (l_wallet s) j)
        \<and> (\<forall>h g. r \<noteq> Inr (LConfirmed h g)))"
proof -
  have sends: "n \<le> 1" if "n \<in> sends oc" for n oc using that by (cases oc) (auto split: if_splits)
  from execute_run [OF assms] consider
      (refused) "refused v it r s s'"
    | (settled) s1 where "reserved_at v it s s1" "settles (cleared v it) v it r s1 s'"
    by (auto simp: after_hold_def)
  then show ?thesis
  proof cases
    case refused
    then show ?thesis using refused_not_held [OF refused]
      by (cases r) (auto simp: refused_def)
  next
    case settled
    then obtain new where new: "l_sent s' = l_sent s @ new" "v_dry_run v \<longrightarrow> new = []"
      "case r of Inl e \<Rightarrow> new = [] | Inr oc \<Rightarrow> length new \<in> sends oc"
      using settles_sent [OF settled(2)] settled(1) by (auto simp: reserved_at_def)
    have "held (l_wallet s) j" if "v_dry_run v" "held (l_wallet s') j" for j
      using settles_held [OF settled(2) that(2)] settled(1) that(1) by (simp add: reserved_at_def held_def)
    moreover have "length new \<le> 1" using new(3) sends by (cases r) auto
    ultimately show ?thesis using new by (intro exI [of _ new]) auto
  qed
qed

theorem execute_sends_at_most_one_witness:
  "length (l_sent (snd (lambda_execute sample_env sample_intent sample_state))) = 1"
proof -
  obtain s' where run: "lambda_execute sample_env sample_intent sample_state = (Inr (LConfirmed ''0xh'' 20000), s')"
    using sample_run by blast
  with execute_sends_at_most_one [OF run] show ?thesis by (auto simp: sample_state_def)
qed

text \<open>C10. The lifecycle row tells what happened: for an intent that is new or not yet terminal, the
  run ends with the row in the state its outcome stands for (confirmed, reverted, skipped, proof
  missing, calldata error), carrying the transaction hash it reports; a skip may instead leave the
  wallet exactly as it was.\<close>

theorem execute_reports_state:
  assumes "lambda_execute v it s = (Inr oc, s')" "intent (i_id it) (l_wallet s) = None \<or> alive (i_id it) s"
  shows "(\<exists>row st. intent (i_id it) (l_wallet s') = Some row \<and> ir_state row = as_str st \<and> fits oc st
      \<and> (\<forall>h. tx_of oc = Some h \<longrightarrow> ir_tx_hash row = Some h))
    \<or> (\<exists>m. oc = LSkipped m) \<and> l_wallet s' = l_wallet s"
  using execute_run [OF assms(1)] assms(2)
  by (auto simp: after_hold_def refused_def settles_def reserved_at_def final_row_def)

theorem execute_reports_state_witness:
  "map_option ir_tx_hash (intent ''a:5'' (l_wallet (snd (lambda_execute sample_env sample_intent sample_state))))
     = Some (Some ''0xh'')"
proof -
  obtain s' where run: "lambda_execute sample_env sample_intent sample_state = (Inr (LConfirmed ''0xh'' 20000), s')"
    using sample_run by blast
  with execute_reports_state [OF run] sample_not_held show ?thesis by auto
qed

text \<open>The outcome log: a run adds at most one row, about this intent, with the transaction hash
  it reports, marked executed exactly when the fill is confirmed; every reported hash is logged.\<close>

theorem execute_logs:
  assumes "lambda_execute v it s = (Inr oc, s')"
  shows "(l_log s' = l_log s \<and> (v_logging v \<longrightarrow> tx_of oc = None))
    \<or> v_logging v \<and> (\<exists>row. l_log s' = append_outcome_row row (l_log s) \<and> o_intent_id row = i_id it
        \<and> o_tx_hash row = tx_of oc \<and> (o_decision row = ''executed'' \<longleftrightarrow> (\<exists>h g. oc = LConfirmed h g)))"
  using execute_run [OF assms]
  by (auto simp: after_hold_def refused_def settles_def reserved_at_def logged_def)

theorem execute_logs_witness:
  "\<exists>row. l_log (snd (lambda_execute sample_env sample_intent sample_state)) = append_outcome_row row []
     \<and> o_decision row = ''executed''"
proof -
  obtain s' where run: "lambda_execute sample_env sample_intent sample_state = (Inr (LConfirmed ''0xh'' 20000), s')"
    using sample_run by blast
  with execute_logs [OF run] show ?thesis by (auto simp: sample_state_def)
qed

text \<open>C1. No EVM fill without its guards.  When a run hands out an EVM transaction, the run is live;
  the notional is within the cap; the intent held its reservation, or the reservation was within the
  budget; the destination chain is wired, with a SpokePool for an Across order; unless the spinner is bypassed,
  its test run of this intent succeeded and was profitable above the threshold, and the proof is the first the
  spinner had; no Solana path takes the order.  The order, as signalled with gaps filled from the source
  chain, has what a claim needs; on a direct fill its exclusive window is over at a clock reading of the run's clock,
  or is the signer's; a Mayan order had thirty seconds left and has auction mode 0.  A deBridge order reserves no
  other taker, has no external call and a spread, and its take token is covered by a known balance.
  An Across order names its deposit on an EVM chain, has no hook and was not about to expire;
  a direct one pays less than it receives, covered by a known token balance.  The gas estimate is green, a known
  native balance covers the value, and the transaction is the calldata built for this order.\<close>

theorem execute_evm_cleared:
  assumes "lambda_execute v it s = (r, s')" "l_sent s' = l_sent s @ [EvmTx tx]"
  shows "\<not> v_dry_run v \<and> \<not> f_gt (intent_amount_usd (v_eth_price v) it) (max_notional v)
    \<and> (held (l_wallet s) (i_id it) \<or>
        \<not> f_gt (f_add (reserved_total (v_sum v) (l_wallet s)) (intent_amount_usd (v_eth_price v) it)) (w_budget (l_wallet s)))
    \<and> (\<exists>w pf it' call. map_of (v_chains v) (i_dst_chain it) = Some w \<and> (is_across it \<longrightarrow> cw_across_adapter w \<noteq> 0)
        \<and> (bypass_spinner w it \<and> pf = [] \<or>
            (\<exists>t. v_test_run v (i_protocol it) (i_id it) = Inr t \<and> tr_is_profitable t
               \<and> \<not> f_lt (tr_net_profit_usd t) (v_threshold v))
            \<and> try_proofs (v_proof v) (proof_candidates it) [] = Inr pf)
        \<and> enriched v it it' \<and> evm_path it' \<and> claim_info_complete w it' \<and> window_open v w it'
        \<and> mayan_in_time v it' \<and> (is_mayan it' \<longrightarrow> auction_mode it' = 0)
        \<and> taker_allowed v it
        \<and> (is_debridge it \<longrightarrow> debridge_spread_skip it = None
             \<and> (\<forall>x. i_dln_external_call it = Some x \<longrightarrow> (\<forall>c \<in> set (trim_start_str ''0x'' x). c = CHR ''0''))
             \<and> (is_erc20_token (to_lowercase (trim (i_dst_token it))) \<longrightarrow>
                  covers v w (v_parse_addr v (to_lowercase (trim (i_dst_token it)))) (i_take_amount it)))
        \<and> across_source it'
        \<and> ((direct_fill w \<or> is_across it') \<and> \<not> is_debridge it' \<and> \<not> is_mayan it' \<longrightarrow>
             across_message_hook_skip_reason (i_message it') = None
             \<and> (\<exists>k. across_fill_deadline_skip_reason (i_fill_deadline it') (word_of_int (unix_secs (v_clock v k))) = None))
        \<and> (plain_across w it' \<longrightarrow> across_spread_skip (i_amount it') (i_output_amount it') = None
             \<and> (is_erc20_token (to_lowercase (trim (i_dst_token it'))) \<longrightarrow>
                  covers v w (v_parse_addr v (i_dst_token it')) (i_output_amount it')))
        \<and> fill_call v w it' pf = Inr call \<and> tx_to tx = fst call \<and> tx_data tx = snd call
        \<and> tx_value tx = eth_fill_value v w it' \<and> tx_rpc_url tx = cw_rpc_url w
        \<and> is_green (gate_estimate v it' w call (tx_value tx))
        \<and> (\<forall>need bal. tx_value tx = Some need \<and> v_native_balance v (cw_chain_id w) = Some bal \<longrightarrow> need \<le> bal))"
proof -
  from execute_run [OF assms(1)] assms(2) obtain s1 where
    s1: "reserved_at v it s s1" and st: "settles (cleared v it) v it r s1 s'"
    by (auto simp: after_hold_def refused_def)
  then have c: "cleared v it tx" and live: "\<not> v_dry_run v"
    using assms(2) by (auto simp: settles_def reserved_at_def)
  from c obtain w test pf it' call where
    adm: "admitted v it w test" and scr: "screened v it w pf it'" and evm: "evm_path it'"
    and ok: "fill_cleared v w it' pf call" and tx: "tx = fill_tx v w call (eth_fill_value v w it')"
    by (auto simp: cleared_def)
  have spun: "bypass_spinner w it \<and> pf = [] \<or>
      (\<exists>t. v_test_run v (i_protocol it) (i_id it) = Inr t \<and> tr_is_profitable t \<and> \<not> f_lt (tr_net_profit_usd t) (v_threshold v))
      \<and> try_proofs (v_proof v) (proof_candidates it) [] = Inr pf"
    using adm scr live unfolding admitted_def test_passed_def screened_def
    by (cases "bypass_spinner w it") auto
  have held: "held (l_wallet s) (i_id it) \<or> \<not> f_gt (f_add (reserved_total (v_sum v) (l_wallet s))
      (intent_amount_usd (v_eth_price v) it)) (w_budget (l_wallet s))"
    using s1 live by (simp add: reserved_at_def)
  have auction: "is_mayan it' \<longrightarrow> auction_mode it' = 0"
    using evm ok by (auto simp: evm_path_def fill_cleared_def)
  have fields: "tx_to tx = fst call" "tx_data tx = snd call" "tx_value tx = eth_fill_value v w it'"
    "tx_rpc_url tx = cw_rpc_url w" by (simp_all add: tx fill_tx_def)
  have adm: "\<not> f_gt (intent_amount_usd (v_eth_price v) it) (max_notional v)"
    "map_of (v_chains v) (i_dst_chain it) = Some w" "is_across it \<longrightarrow> cw_across_adapter w \<noteq> 0"
    using adm by (simp_all add: admitted_def)
  show ?thesis unfolding fields
    by (intro conjI live adm(1) held, rule exI [of _ w], rule exI [of _ pf], rule exI [of _ it'], rule exI [of _ call])
      (intro conjI adm spun evm auction refl; use scr ok in \<open>simp add: screened_def fill_cleared_def\<close>)
qed

theorem execute_evm_cleared_witness: "\<not> f_gt (intent_amount_usd None sample_intent) (Fin 200)"
proof -
  obtain s' where run: "lambda_execute sample_env sample_intent sample_state = (Inr (LConfirmed ''0xh'' 20000), s')"
    and sent: "l_sent s' = [EvmTx sample_tx]" using sample_run by blast
  have "l_sent s' = l_sent sample_state @ [EvmTx sample_tx]" using sent by (simp add: sample_state_def)
  from conjunct1 [OF conjunct2 [OF execute_evm_cleared [OF run this]]] show ?thesis by (simp add: max_notional_def)
qed

end
