(* ===== verification/LambdaClaims.thy ===== *)
theory LambdaClaims
  imports LambdaProps
begin

text \<open>
  Claims of confirmed fills: the same-chain claim of the Universal Operator and the deBridge
  \<open>claimUnlock\<close> on the source chain, with their effect on the lifecycle, the reservations and the
  revenue table.
\<close>

section \<open>Eligible intents\<close>

lemma listed_row:
  assumes "wallet_inv w" "r \<in> set (list_intents (Some st) n w)"
  shows "intent (ir_id r) w = Some r \<and> ir_state r = st"
proof -
  have "r \<in> set (w_intents w) \<and> ir_state r = st"
    using assms(2) by (auto simp: list_intents_def dest: in_set_takeD)
  with assms(1) show ?thesis by (auto simp: intent_def wallet_inv_def intro: t_get_unique)
qed

lemma eligible_state:
  assumes "wallet_inv (l_wallet s)" "claim_eligible (l_wallet s) i"
  shows "state_of (l_wallet s) i \<in> {Some Confirmed, Some ClaimPending} \<and> alive i s"
proof -
  from assms(2) obtain r where i: "i = ir_id r" and r: "r \<in> set (list_intents (Some ''CONFIRMED'') 1000 (l_wallet s)) \<or>
    r \<in> set (list_intents (Some ''CLAIM_PENDING'') 1000 (l_wallet s))"
    by (auto simp: claim_eligible_def)
  then have "intent i (l_wallet s) = Some r \<and> ir_state r \<in> {''CONFIRMED'', ''CLAIM_PENDING''}"
    using listed_row [OF assms(1)] by auto
  then have "state_of (l_wallet s) i \<in> {Some Confirmed, Some ClaimPending}"
    by (auto simp: state_of_def from_str_def)
  then show ?thesis by (auto simp: alive_def)
qed

section \<open>Effects of a claim\<close>

definition claim_others_kept :: "string \<Rightarrow> lstate \<Rightarrow> lstate \<Rightarrow> bool" where
  "claim_others_kept i s s' \<longleftrightarrow> (\<forall>j. j \<noteq> i \<longrightarrow> intent_in s' j = intent_in s j
     \<and> t_get rv_id j (w_reservations (l_wallet s')) = t_get rv_id j (w_reservations (l_wallet s))
     \<and> t_get rr_id j (w_revenue (l_wallet s')) = t_get rr_id j (w_revenue (l_wallet s)))"

lemma claim_others_refl [simp]: "l_wallet s' = l_wallet s \<Longrightarrow> claim_others_kept i s s'"
  by (simp add: claim_others_kept_def)

lemma claim_others_trans: "claim_others_kept i s t \<Longrightarrow> claim_others_kept i t u \<Longrightarrow> claim_others_kept i s u"
  by (simp add: claim_others_kept_def)

lemma claim_others_trans_to: "claim_others_kept i s (trans_to v i st h e s)"
  using trans_to_others [of i s v st h e] by (auto simp: claim_others_kept_def others_kept_def)

lemma note_revenue_simps [simp]:
  "l_sent (note_revenue v i fee s) = l_sent s" "l_log (note_revenue v i fee s) = l_log s"
  "intent_in (note_revenue v i fee s) j = intent_in s j"
  by (auto simp: note_revenue_def clock_def or_else_def intent_record_revenue split: sum.splits)

lemma claim_others_revenue: "claim_others_kept i s (note_revenue v i fee s)"
  by (auto simp: claim_others_kept_def note_revenue_def clock_def or_else_def record_revenue_def intent_def
      t_get_delete t_get_replace split: sum.splits)

lemma revenue_noted:
  "fee \<noteq> NaN \<Longrightarrow> map_option rr_profit_usd (t_get rr_id i (w_revenue (l_wallet (note_revenue v i fee s)))) = Some fee"
  by (simp add: note_revenue_def clock_def or_else_def record_revenue_def t_get_replace)

lemma trans_to_revenue [simp]: "w_revenue (l_wallet (trans_to v i st h e s)) = w_revenue (l_wallet s)"
  using trans_to_others [of i s v st h e] by (simp add: others_kept_def)

lemma state_trans_to: "alive i s \<Longrightarrow> state_of (l_wallet (trans_to v i st h e s)) i = Some st"
  using trans_to_alive [of i s v st h e] state_of_transition by fastforce

lemma alive_trans_to: "alive i s \<Longrightarrow> \<not> is_terminal st \<Longrightarrow> alive i (trans_to v i st h e s)"
  by (simp add: trans_to_alive_iff)

lemma alive_sent [simp]: "alive i (s\<lparr>l_sent := xs\<rparr>) = alive i s"
  by (simp add: alive_def)

lemma alive_revenue [simp]: "alive i (note_revenue v i fee s) = alive i s"
  by (rule alive_cong) simp

lemma claimed_row:
  assumes "alive i s"
  shows "state_of (l_wallet (trans_to v i Claimed (Some h) None s)) i = Some Claimed
    \<and> \<not> held (l_wallet (trans_to v i Claimed (Some h) None s)) i
    \<and> map_option ir_tx_hash (intent_in (trans_to v i Claimed (Some h) None s) i) = Some (Some h)"
proof -
  obtain r where tr: "transition (v_clock v (l_tick s)) i Claimed (Some h) None (l_wallet s)
      = Inr (r, l_wallet (trans_to v i Claimed (Some h) None s))"
    using trans_to_alive [OF assms] by blast
  show ?thesis
    using state_trans_to [OF assms] held_transition [OF tr] trans_to_row [OF assms, of v Claimed "Some h" None] by auto
qed

text \<open>What each outcome of a claim leaves behind; \<open>\<tau>\<close> is the transaction it would send.\<close>

definition claim_effect :: "string \<Rightarrow> evm_tx \<Rightarrow> (msg + claim_outcome) \<Rightarrow> lstate \<Rightarrow> lstate \<Rightarrow> bool" where
  "claim_effect i \<tau> r s s' \<longleftrightarrow> claim_others_kept i s s' \<and>
     (case r of
        Inl e \<Rightarrow> s' = s
      | Inr (CNotEligible m) \<Rightarrow> s' = s
      | Inr (CFailed m) \<Rightarrow> l_sent s' \<in> {l_sent s, l_sent s @ [EvmTx \<tau>]}
          \<and> w_revenue (l_wallet s') = w_revenue (l_wallet s)
          \<and> w_reservations (l_wallet s') = w_reservations (l_wallet s)
          \<and> (l_wallet s' = l_wallet s \<or> state_of (l_wallet s') i = Some Confirmed)
      | Inr (CClaimed h fee) \<Rightarrow> l_sent s' = l_sent s @ [EvmTx \<tau>]
          \<and> state_of (l_wallet s') i = Some Claimed \<and> \<not> held (l_wallet s') i
          \<and> map_option ir_tx_hash (intent_in s' i) = Some (Some h)
          \<and> map_option rr_profit_usd (t_get rr_id i (w_revenue (l_wallet s'))) =
             (if f_gt fee (Fin 0) then Some fee
              else map_option rr_profit_usd (t_get rr_id i (w_revenue (l_wallet s)))))"

lemma f_gt_not_NaN: "f_gt x y \<Longrightarrow> x \<noteq> NaN"
  by (cases y) auto

lemma settled_effect:
  assumes "alive i s2" "claim_others_kept i s s2" "l_sent s2 = l_sent s @ [EvmTx \<tau>]"
    and "w_revenue (l_wallet s2) = w_revenue (l_wallet s)"
  shows "claim_effect i \<tau> (Inr (CClaimed h fee)) s
    (trans_to v i Claimed (Some h) None (if f_gt fee (Fin 0) then note_revenue v i fee s2 else s2))"
proof -
  let ?s3 = "if f_gt fee (Fin 0) then note_revenue v i fee s2 else s2"
  have s3: "alive i ?s3" "claim_others_kept i s ?s3" "l_sent ?s3 = l_sent s @ [EvmTx \<tau>]"
    using assms claim_others_trans [OF assms(2) claim_others_revenue] by simp_all
  have "map_option rr_profit_usd (t_get rr_id i (w_revenue (l_wallet ?s3))) =
      (if f_gt fee (Fin 0) then Some fee else map_option rr_profit_usd (t_get rr_id i (w_revenue (l_wallet s))))"
    using assms(4) revenue_noted [OF f_gt_not_NaN] by simp
  moreover have "claim_others_kept i s (trans_to v i Claimed (Some h) None ?s3)"
    by (rule claim_others_trans [OF s3(2) claim_others_trans_to])
  ultimately show ?thesis using claimed_row [OF s3(1), of v h] s3(3) by (simp add: claim_effect_def)
qed

text \<open>C14. A deBridge claim that is refused or fails before its transaction leaves everything as it was;
  one whose transaction is rejected, lost or reverted leaves the intent where it was or back in
  CONFIRMED, with reservations and revenue untouched; one that succeeds sent exactly one
  \<open>claimUnlock\<close> to the source contract of the order's source chain, settles the intent as CLAIMED
  with that transaction hash, and records a positive spread as its revenue.  Nothing of another
  intent changes.\<close>

theorem claim_debridge_effect:
  assumes inv: "wallet_inv (l_wallet s)" and run: "lambda_claim_debridge v it s = (r, s')"
  shows "\<exists>\<tau>. claim_effect (i_id it) \<tau> r s s'
    \<and> (l_sent s' = l_sent s \<or> (\<exists>w a data. map_of (v_chains v) (i_src_chain it) = Some w
         \<and> v_dln_source v (i_src_chain it) = Some a \<and> v_claim_unlock v it (v_signer v) = Inr data
         \<and> \<tau> = claim_tx w a data \<and> \<not> v_dry_run v))"
proof (cases "claim_eligible (l_wallet s) (i_id it) \<and> \<not> v_dry_run v \<and>
    (\<exists>w a data. map_of (v_chains v) (i_src_chain it) = Some w \<and> v_dln_source v (i_src_chain it) = Some a
       \<and> v_claim_unlock v it (v_signer v) = Inr data \<and> v_rpc_ok v (cw_rpc_url w))")
  case False
  then have "claim_effect (i_id it) (claim_tx w a d) r s s' \<and> l_sent s' = l_sent s" for w a d
    using run by (auto simp: lambda_claim_debridge_def claim_effect_def split: if_splits option.splits sum.splits)
  then show ?thesis by blast
next
  case True
  then obtain w a data where w: "map_of (v_chains v) (i_src_chain it) = Some w"
    "v_dln_source v (i_src_chain it) = Some a" "v_claim_unlock v it (v_signer v) = Inr data"
    "v_rpc_ok v (cw_rpc_url w)" and el: "claim_eligible (l_wallet s) (i_id it)" "\<not> v_dry_run v" by auto
  let ?tx = "claim_tx w a data" and ?i = "i_id it" and ?fee = "claim_fee_usd it"
  let ?s1 = "s\<lparr>l_sent := l_sent s @ [EvmTx ?tx]\<rparr>"
  let ?s2 = "trans_to v ?i ClaimPending None None ?s1"
  have live: "alive ?i s" using eligible_state [OF inv el(1)] by simp
  then have live2: "alive ?i ?s2" by (simp add: alive_trans_to)
  have k2: "claim_others_kept ?i s ?s2" using claim_others_trans_to [of ?i ?s1] by (simp add: claim_others_kept_def)
  have rolled: "claim_effect ?i ?tx (Inr (CFailed m)) s (trans_to v ?i Confirmed None None ?s2)" for m
    using claim_others_trans [OF k2 claim_others_trans_to] state_trans_to [OF live2]
    by (simp add: claim_effect_def trans_to_reservations)
  have "claim_effect ?i ?tx r s s'"
  proof (cases "v_send v ?tx")
    case (Inl e)
    then show ?thesis using run w el by (simp add: lambda_claim_debridge_def Let_def) (auto simp: claim_effect_def)
  next
    case (Inr h)
    show ?thesis
    proof (cases "v_receipt v h")
      case (Inl e)
      then show ?thesis using run w el \<open>v_send v ?tx = Inr h\<close> rolled
        by (simp add: lambda_claim_debridge_def Let_def) blast
    next
      case rc: (Inr q)
      show ?thesis
      proof (cases "rc_status q")
        case False
        then show ?thesis using run w el Inr rc rolled
          by (simp add: lambda_claim_debridge_def Let_def) blast
      next
        case True
        have "claim_effect ?i ?tx (Inr (CClaimed h ?fee)) s
            (trans_to v ?i Claimed (Some h) None (if f_gt ?fee (Fin 0) then note_revenue v ?i ?fee ?s2 else ?s2))"
          by (rule settled_effect [OF live2 k2]) simp_all
        with run w el Inr rc True show ?thesis by (simp add: lambda_claim_debridge_def Let_def)
      qed
    qed
  qed
  with w el show ?thesis by (intro exI [of _ ?tx]) auto
qed

definition claim_env :: lambda_env where
  "claim_env = sample_env\<lparr>v_dln_source := (\<lambda>_. Some 3), v_claim_unlock := (\<lambda>_ _. Inr [4])\<rparr>"

definition claim_intent :: intent where
  "claim_intent = sample_intent\<lparr>i_src_chain := 10\<rparr>"

definition claim_state :: "string \<Rightarrow> lstate" where
  "claim_state st = sample_state\<lparr>l_wallet := open_wallet (Fin 100)\<lparr>w_intents :=
     [sample_row\<lparr>ir_id := ''a:5'', ir_state := st\<rparr>]\<rparr>\<rparr>"

lemma claim_state_inv: "st \<in> {''CONFIRMED'', ''CLAIM_PENDING''} \<Longrightarrow> wallet_inv (l_wallet (claim_state st))"
proof -
  assume "st \<in> {''CONFIRMED'', ''CLAIM_PENDING''}"
  then have "\<exists>x. st = as_str x" by (metis as_str.simps(10) as_str.simps(11) insertE singletonD)
  then show ?thesis
    by (simp add: claim_state_def sample_state_def wallet_inv_def open_wallet_def sample_row_def t_unique_def)
qed

lemma claim_state_eligible: "st \<in> {''CONFIRMED'', ''CLAIM_PENDING''} \<Longrightarrow> claim_eligible (l_wallet (claim_state st)) ''a:5''"
  by (auto simp: claim_eligible_def claim_state_def sample_state_def open_wallet_def list_intents_def clamp_limit_def
      sample_row_def)

lemma claim_env_simps [simp]:
  "v_chains claim_env = [(10, sample_wiring)]" "\<not> v_dry_run claim_env" "v_dln_source claim_env = (\<lambda>_. Some 3)"
  "v_claim_unlock claim_env = (\<lambda>_ _. Inr [4])" "v_rpc_ok claim_env = (\<lambda>_. True)" "v_send claim_env = (\<lambda>_. Inr ''0xh'')"
  "v_receipt claim_env = (\<lambda>_. Inr \<lparr>rc_gas_used = 20000, rc_gas_price = 1, rc_status = True\<rparr>)"
  "i_id claim_intent = ''a:5''" "i_src_chain claim_intent = 10"
  by (simp_all add: claim_env_def claim_intent_def)

theorem claim_debridge_effect_witness:
  "state_of (l_wallet (snd (lambda_claim_debridge claim_env claim_intent (claim_state ''CONFIRMED'')))) ''a:5'' = Some Claimed"
proof -
  obtain fee s' where run: "lambda_claim_debridge claim_env claim_intent (claim_state ''CONFIRMED'') = (Inr (CClaimed ''0xh'' fee), s')"
    using claim_state_eligible by (simp add: lambda_claim_debridge_def Let_def)
  from claim_debridge_effect [OF claim_state_inv run] show ?thesis
    by (auto simp: run claim_effect_def)
qed

text \<open>A claim already in flight is sent again: while an intent is CLAIM_PENDING it stays eligible,
  so another call of the claim loop hands out a second \<open>claimUnlock\<close> for the same order, although
  the state was set so that concurrent loops would skip it.\<close>

theorem pending_claim_sent_again:
  assumes "state_of (l_wallet s) (i_id it) = Some ClaimPending" "claim_eligible (l_wallet s) (i_id it)"
    and "\<not> v_dry_run v" "map_of (v_chains v) (i_src_chain it) = Some w" "v_dln_source v (i_src_chain it) = Some a"
    and "v_claim_unlock v it (v_signer v) = Inr data" "v_rpc_ok v (cw_rpc_url w)"
  shows "l_sent (snd (lambda_claim_debridge v it s)) = l_sent s @ [EvmTx (claim_tx w a data)]"
  using assms by (auto simp: lambda_claim_debridge_def Let_def split: sum.split)

theorem pending_claim_sent_again_witness:
  "length (l_sent (snd (lambda_claim_debridge claim_env claim_intent (claim_state ''CLAIM_PENDING'')))) = 1"
proof -
  have "state_of (l_wallet (claim_state ''CLAIM_PENDING'')) (i_id claim_intent) = Some ClaimPending"
    by (simp add: claim_state_def sample_state_def open_wallet_def state_of_def intent_def sample_row_def from_str_def t_get_def)
  from pending_claim_sent_again [OF this, of claim_env sample_wiring 3 "[4]"] claim_state_eligible
  show ?thesis by (simp add: claim_state_def sample_state_def)
qed

section \<open>The claim of the Universal Operator\<close>

text \<open>The operator's claim: it needs a CONFIRMED intent with wiring for its destination chain, it
  sends one \<open>claim()\<close> to that chain's operator, and only a successful receipt moves the intent to
  CLAIMED, frees its reservation and records the fee; every other outcome leaves the wallet as it
  was, and nothing of another intent changes.\<close>

theorem claim_operator_effect:
  assumes inv: "wallet_inv (l_wallet s)" and run: "lambda_claim v i fee s = (r, s')" and fee: "fee \<noteq> NaN"
  shows "claim_others_kept i s s' \<and>
    (if \<exists>h. r = Inr (CClaimed h fee)
     then (\<exists>rec w. intent i (l_wallet s) = Some rec \<and> ir_state rec = ''CONFIRMED''
            \<and> map_of (v_chains v) (word_of_int (ir_dst_chain rec)) = Some w
            \<and> l_sent s' = l_sent s @ [EvmTx (claim_tx w (cw_operator w) (v_claim_selector v))])
          \<and> state_of (l_wallet s') i = Some Claimed \<and> \<not> held (l_wallet s') i
          \<and> map_option rr_profit_usd (t_get rr_id i (w_revenue (l_wallet s'))) = Some fee
     else l_wallet s' = l_wallet s)"
proof (cases "List.find (\<lambda>r. ir_id r = i) (list_intents (Some ''CONFIRMED'') 1000 (l_wallet s))")
  case None
  then show ?thesis using run by (auto simp: lambda_claim_def)
next
  case (Some rec)
  then have rec: "intent i (l_wallet s) = Some rec" "ir_state rec = ''CONFIRMED''" and id: "ir_id rec = i"
    using listed_row [OF inv, of rec "''CONFIRMED''" 1000] by (auto simp: find_Some_iff)
  then have live: "alive i s" by (simp add: alive_def state_of_def from_str_def)
  show ?thesis
  proof (cases "\<exists>h. r = Inr (CClaimed h fee)")
    case False
    then show ?thesis using run Some
      by (auto simp: lambda_claim_def Let_def split: option.splits if_splits sum.splits)
  next
    case True
    then obtain h w where w: "map_of (v_chains v) (word_of_int (ir_dst_chain rec)) = Some w"
      and s': "s' = trans_to v i Claimed (Some h) None (note_revenue v i fee
        (s\<lparr>l_sent := l_sent s @ [EvmTx (claim_tx w (cw_operator w) (v_claim_selector v))]\<rparr>))" (is "_ = trans_to _ _ _ _ _ (note_revenue _ _ _ ?s1)")
      using run Some by (auto simp: lambda_claim_def Let_def split: option.splits if_splits sum.splits)
    have "claim_others_kept i s ?s1" by simp
    then have "claim_others_kept i s s'"
      unfolding s' by (blast intro: claim_others_trans claim_others_revenue claim_others_trans_to)
    moreover have "alive i (note_revenue v i fee ?s1)" using live by simp
    ultimately show ?thesis
      using claimed_row [of i "note_revenue v i fee ?s1" v h] revenue_noted [OF fee, of i v ?s1] rec w True
      by (simp add: s')
  qed
qed

theorem claim_operator_effect_witness:
  "state_of (l_wallet (snd (lambda_claim claim_env ''a:5'' (Fin 2) (claim_state ''CONFIRMED'')))) ''a:5'' = Some Claimed"
proof -
  have dst: "ir_dst_chain (sample_row\<lparr>ir_id := ''a:5'', ir_state := ''CONFIRMED''\<rparr>) = 10" by (simp add: sample_row_def)
  obtain s' where run: "lambda_claim claim_env ''a:5'' (Fin 2) (claim_state ''CONFIRMED'') = (Inr (CClaimed ''0xh'' (Fin 2)), s')"
    by (simp add: lambda_claim_def claim_state_def sample_state_def open_wallet_def list_intents_def clamp_limit_def
        sample_row_def Let_def)
  from claim_operator_effect [OF claim_state_inv run] show ?thesis by (simp add: run)
qed

end
