(* ===== verification/LambdaLive.thy ===== *)
theory LambdaLive
  imports LambdaClaims
begin

text \<open>
  When the controller does fill (progress), and where its guards let through what they are meant to
  stop: the notional cap, the reservation of a run that ends in an error, the estimate gate.
\<close>

section \<open>The arithmetic guards\<close>

lemma fround_pos_nat: "0 < n \<Longrightarrow> f_le (Fin 1) (fround (of_nat n))"
  using fround_mono [of 1 "of_nat n"] fround_of_int [of 1] by simp

lemma spread_pct_par: "0 < a \<Longrightarrow> spread_pct a a = Fin 0"
  using fround_pos_nat [of a] by (cases "fround (of_nat a)") (auto simp: spread_pct_def)

lemma hundredth_pos: "f_lt (Fin 0) (fround (1 / 100))"
proof -
  have "fval (1 / 128) = 1 / 128" using fval_exact [of 1 "- 7"] by (simp add: power_int_minus)
  then have "fround (1 / 128) = Fin (1 / 128)" by (simp add: fround_def Let_def)
  with fround_mono [of "1 / 128" "1 / 100"] show ?thesis by (cases "fround (1 / 100)") auto
qed

text \<open>No fill at or below par.  When the spread guard of an Across fill lets an order through whose
  amounts are known, positive and on the same scale, the fill pays strictly less than it receives;
  the deBridge guard does the same for its give and take amounts, and never lets a zero take pass.\<close>

theorem spread_guards_above_par:
  assumes "parse_u128 amount = Some inp" "parse_u128 out_amount = Some out" "0 < inp" "out \<le> sat_mul_u128 inp 1000"
    and "across_spread_skip amount (Some out_amount) = None"
    and "i_give_amount it = Some gv" "i_take_amount it = Some tk" "parse_u128 gv = Some g" "parse_u128 tk = Some t"
    and "t \<le> sat_mul_u128 g 1000" "debridge_spread_skip it = None"
  shows "out < inp \<and> 0 < t \<and> t < g"
proof -
  have "out \<noteq> inp"
  proof
    assume "out = inp"
    with assms(1-5) spread_pct_par [of inp] hundredth_pos show False
      by (simp add: across_spread_skip_def)
  qed
  moreover have "out \<le> inp" using assms(1-5) by (auto simp: across_spread_skip_def split: if_splits)
  moreover have "0 < t \<and> t < g" using assms(6-) by (auto simp: debridge_spread_skip_def split: if_splits)
  ultimately show ?thesis by simp
qed

theorem spread_guards_above_par_witness: "(3000000 :: nat) < 4000000"
proof -
  let ?it = "sample_intent\<lparr>i_give_amount := Some ''4000000'', i_take_amount := Some ''3000000''\<rparr>"
  have "debridge_spread_skip ?it = None"
    using sample_parse sample_divs(2) fround_of_nat [of 1000000] fround_of_nat [of 4000000] hundredth_small
    by (simp add: debridge_spread_skip_def sat_mul_u128_def spread_pct_def)
  from spread_guards_above_par [OF sample_parse _ _ sample_spread _ _ sample_parse _ this]
  show ?thesis by (simp add: sat_mul_u128_def)
qed

text \<open>The deadline guard is exact and its clock addition cannot wrap: a fill passes just when the
  order has no deadline or its deadline is at least thirty seconds away, where near the end of the
  32-bit clock the sum saturates.\<close>

theorem fill_deadline_guard_exact:
  "across_fill_deadline_skip_reason deadline now = None \<longleftrightarrow>
     (case deadline of None \<Rightarrow> True | Some d \<Rightarrow> min (unat now + 30) (2 ^ 32 - 1) \<le> unat d)"
proof (cases deadline)
  case (Some d)
  have "unat (30 :: u32) = 30" by simp
  with Some unat_sat_add_word [of now 30] show ?thesis
    by (simp add: across_fill_deadline_skip_reason_def word_less_nat_alt not_less min_le_iff_disj)
qed (simp add: across_fill_deadline_skip_reason_def)

section \<open>Progress\<close>

lemma quiet_stages:
  "\<not> is_debridge it \<Longrightarrow> stage_taker v it s = Go () s"
  "\<not> is_debridge it \<Longrightarrow> stage_external_call v it s = Go () s"
  "\<not> is_mayan it \<Longrightarrow> stage_mayan_deadline v it s = Go () s"
  by (simp_all add: stage_taker_def stage_external_call_def stage_mayan_deadline_def split: option.split)

text \<open>C21. A direct Across fill goes through.  When the amount is within the cap and the budget, the
  destination is wired for direct fills, the order is complete, pays less than it receives, carries no
  hook and no exclusivity, has not expired, known balances suffice, the estimate is green and the node
  accepts the transaction and returns a successful receipt, the run confirms the fill with the
  transaction's hash and gas.\<close>

theorem direct_across_fill_confirms:
  assumes live: "\<not> v_dry_run v"
    and cap: "\<not> f_gt (intent_amount_usd (v_eth_price v) it) (max_notional v)"
    and wired: "map_of (v_chains v) (i_dst_chain it) = Some w" "direct_fill w" "cw_across_adapter w \<noteq> 0"
    and room: "\<exists>rec w1 w2. record_detected (v_clock v (Suc (l_tick s))) (new_intent_of v it) (l_wallet s) = Inr (rec, w1)
        \<and> reserve (v_sum v) (v_clock v (Suc (Suc (l_tick s)))) (i_id it) (intent_amount_usd (v_eth_price v) it) w1 = Inr w2"
    and kind: "is_across it" "\<not> is_debridge it" "\<not> is_mayan it"
      "\<not> contains (to_lowercase (i_protocol it)) ''flash''" "\<not> contains (to_lowercase (i_protocol it)) ''wormhole''"
      "\<not> contains (to_lowercase (i_protocol it)) ''ntt''" "starts_with (i_depositor it) ''0x''"
    and info: "i_output_amount it = Some out" "out \<notin> {[], ''0''}" "i_fill_deadline it = Some dl" "i_deposit_id it = Some d"
      "\<not> blank_addr (i_recipient it)" "i_exclusivity_deadline it = None" "i_message it = None"
    and spread: "across_spread_skip (i_amount it) (Some out) = None"
    and time: "\<forall>k. across_fill_deadline_skip_reason (Some dl) (word_of_int (unix_secs (v_clock v k))) = None"
    and balance: "erc20_short v w (v_parse_addr v (i_dst_token it)) (Some out) = None"
      "\<forall>need bal. eth_fill_value v w it = Some need \<and> v_native_balance v (cw_chain_id w) = Some bal \<longrightarrow> need \<le> bal"
    and calldata: "v_spoke_calldata v it (v_signer v) (cw_chain_id w) = Inr data"
      "is_green (gate_estimate v it w (cw_across_adapter w, data) (eth_fill_value v w it))"
    and node: "v_rpc_ok v (cw_rpc_url w)" "v_send v (fill_tx v w (cw_across_adapter w, data) (eth_fill_value v w it)) = Inr h"
      "v_receipt v h = Inr rc" "rc_status rc"
  shows "fst (lambda_execute v it s) = Inr (LConfirmed h (rc_gas_used rc))"
proof -
  have byp: "bypass_spinner w it" using wired(2) by (simp add: bypass_spinner_def)
  obtain started s1 where s1: "admit v it s = Go (started, w, None) s1"
    using room live cap wired kind byp
    by (fastforce simp: admit_def stage_notional_def stage_wiring_def stage_reserve_def stage_adapter_def
        stage_test_run_def stage_profit_def clock_def Let_def)
  have no_deadline: "\<not> (x :: u32) < 0" for x by simp
  obtain s2 where s2: "screen_order v it w s1 = Go ([], it) s2"
    using kind byp info wired
    by (auto simp: screen_order_def quiet_stages stage_debridge_spread_def stage_debridge_balance_def
        stage_proof_def stage_enrich_def stage_exclusivity_def clock_def stage_claim_info_def Let_def)
  have s3: "fill_solana v it None s2 = Go () s2"
    using kind by (simp add: fill_solana_def stage_flash_def stage_mayan_solana_def stage_dln_solana_def stage_ntt_def)
  have native: "stage_native_balance v it w (eth_fill_value v w it) t = Go () t" for t
    using balance(2) by (auto simp: stage_native_balance_def split: option.split)
  have "\<exists>s4. fill_evm v it w started None [] s2 = Go h s4"
    using live wired kind info spread time balance(1) calldata node native
    by (simp add: fill_evm_def stage_mayan_auction_def stage_across_spread_def stage_across_hook_def
      across_message_hook_skip_reason_def stage_across_source_def stage_across_deadline_def
      stage_across_balance_def stage_calldata_def fill_call_def stage_dry_run_def stage_estimate_def
      stage_send_def fill_tx_def clock_def Let_def)
  with s1 s2 s3 node(3,4) show ?thesis
    by (auto simp: lambda_execute_def broadcast_run_def stage_receipt_def Let_def)
qed

theorem direct_across_fill_confirms_witness:
  "fst (lambda_execute sample_env sample_intent sample_state) = Inr (LConfirmed ''0xh'' 20000)"
proof -
  have room: "\<exists>rec w1 w2. record_detected (v_clock sample_env (Suc (l_tick sample_state)))
        (new_intent_of sample_env sample_intent) (l_wallet sample_state) = Inr (rec, w1)
      \<and> reserve (v_sum sample_env) (v_clock sample_env (Suc (Suc (l_tick sample_state)))) (i_id sample_intent)
        (intent_amount_usd (v_eth_price sample_env) sample_intent) w1 = Inr w2"
    using fround_of_int [of 4]
    by (simp add: record_detected_def new_intent_of_def sample_amount sample_state_def open_wallet_def reserve_def
        reserved_total_def Let_def)
  have erc: "erc20_short sample_env sample_wiring (v_parse_addr sample_env (i_dst_token sample_intent)) (Some ''3000000'') = None"
    by (simp add: erc20_short_def split: option.split)
  have green: "is_green (gate_estimate sample_env sample_intent sample_wiring (cw_across_adapter sample_wiring, [1, 2])
      (eth_fill_value sample_env sample_wiring sample_intent))"
    by (simp add: gate_estimate_def)
  show ?thesis
    using direct_across_fill_confirms [where v = sample_env and it = sample_intent and s = sample_state
        and w = sample_wiring and out = "''3000000''" and dl = 2000 and d = 5 and data = "[1, 2]" and h = "''0xh''"
        and rc = "\<lparr>rc_gas_used = 20000, rc_gas_price = 1, rc_status = True\<rparr>", OF _ _ _ _ _ room _ _ _ _ _ _ _ _ _ _ _ _ _ _ _ _ erc _ _ green]
      sample_tags sample_spread sample_deadline
    by (simp add: sample_amount max_notional_def starts_with_def blank_addr_def zero_address_text_def sample_value)
qed

section \<open>Guards that let through what they name\<close>

text \<open>An amount written with a decimal point and above ten million dollars counts as nothing, which
  is meant to have it skipped by the notional cap; it passes the cap instead, whatever the cap, and
  asks for a reservation of zero dollars.\<close>

theorem huge_decimal_amount_passes_cap:
  assumes "contains (i_amount it) ''.''" "parse_f64 (i_amount it) = Some x" "f_gt x (Fin 10000000)"
    and "max_notional v = Fin cap" "0 \<le> cap"
  shows "intent_amount_usd (v_eth_price v) it = Fin 0 \<and> stage_notional v it s = Go () s"
  using assms by (simp add: intent_amount_usd_def stage_notional_def Let_def)

theorem huge_decimal_amount_passes_cap_witness:
  "stage_notional sample_env (sample_intent\<lparr>i_amount := ''20000000.5''\<rparr>) sample_state = Go () sample_state"
proof -
  have "parse_decimal ''20000000.5'' = Some (40000001 / 2)"
    by (simp add: parse_decimal_def is_digit_def digits_val_def digit_val_def starts_with_def power_int_minus Let_def)
  moreover have "fround (40000001 / 2) = Fin (40000001 / 2)"
  proof -
    have "fval (40000001 / 2) = 40000001 / 2" using fval_exact [of 40000001 "- 1"] by (simp add: power_int_minus)
    then show ?thesis by (simp add: fround_def Let_def)
  qed
  ultimately have "parse_f64 ''20000000.5'' = Some (Fin (40000001 / 2))"
    by (simp add: parse_f64_def to_lowercase_def lower_char_def starts_with_def Let_def)
  then show ?thesis
    using huge_decimal_amount_passes_cap [of "sample_intent\<lparr>i_amount := ''20000000.5''\<rparr>" _ sample_env 200 sample_state]
    by (simp add: max_notional_def starts_with_def)
qed

text \<open>A gas estimate that failed because the call reverts counts as green when the node's text also
  mentions an insufficient balance: for every order but a deBridge one the broadcast gate then lets
  the fill through.\<close>

theorem reverting_estimate_passes_gate:
  assumes "contains (to_lowercase m) ''insufficient balance''" "\<not> is_debridge it"
    and "v_estimate v (cw_chain_id w) (v_signer v) (fst call) (snd call) val = classify_evm_error m"
  shows "stage_estimate v it w call val s = Go () s"
  using assms by (auto simp: stage_estimate_def gate_estimate_def classify_evm_error_def contains_any_def Let_def)

theorem reverting_estimate_passes_gate_witness:
  "stage_estimate (sample_env\<lparr>v_estimate := (\<lambda>_ _ _ _ _. classify_evm_error ''execution reverted: insufficient balance'')\<rparr>)
     sample_intent sample_wiring (7, []) None sample_state = Go () sample_state"
  by (rule reverting_estimate_passes_gate [of "''execution reverted: insufficient balance''"])
    (use sample_tags in \<open>simp_all add: to_lowercase_def lower_char_def starts_with_def\<close>)

section \<open>A run that ends in an error\<close>

text \<open>A live run that ends in an error after it touched the wallet keeps its reservation: nothing was
  sent, yet the intent is left in BROADCAST, which is not terminal, and its budget stays held until the
  stale sweep.\<close>

theorem error_keeps_reservation:
  assumes "lambda_execute v it s = (Inl e, s')" "l_wallet s' \<noteq> l_wallet s" "\<not> v_dry_run v"
    and "intent (i_id it) (l_wallet s) = None \<or> alive (i_id it) s"
  shows "held (l_wallet s') (i_id it) \<and> state_of (l_wallet s') (i_id it) = Some Broadcast \<and> l_sent s' = l_sent s"
  using execute_run [OF assms(1)] assms(2-)
  by (auto simp: after_hold_def refused_def reserved_at_def settles_def held_def)

definition unparsed_env :: lambda_env where
  "unparsed_env = sample_env\<lparr>v_rpc_ok := (\<lambda>_. False)\<rparr>"

lemma unparsed_env_simps [simp]:
  "v_clock unparsed_env = v_clock sample_env" "v_sum unparsed_env = v_sum sample_env" "\<not> v_dry_run unparsed_env"
  "v_chains unparsed_env = [(10, sample_wiring)]" "v_max_notional unparsed_env = None" "v_eth_price unparsed_env = None"
  "v_skip_estimate unparsed_env = None" "v_estimate unparsed_env = v_estimate sample_env"
  "v_rpc_ok unparsed_env = (\<lambda>_. False)" "v_spoke_calldata unparsed_env = v_spoke_calldata sample_env"
  "v_parse_addr unparsed_env = v_parse_addr sample_env" "v_erc20_balance unparsed_env = v_erc20_balance sample_env"
  by (simp_all add: unparsed_env_def)

lemma unparsed_run:
  "\<exists>e s'. lambda_execute unparsed_env sample_intent sample_state = (Inl e, s') \<and> w_reservations (l_wallet s') \<noteq> []"
proof -
  have "\<not> f_gt (Fin 4) (Fin 200)" "f_add (Fin 0) (Fin 4) = Fin 4" using fround_of_int [of 4] by simp_all
  then obtain s1 where s1: "admit unparsed_env sample_intent sample_state = Go (1000 * 1000000000, sample_wiring, None) s1"
    "w_reservations (l_wallet s1) \<noteq> []"
    using sample_tags
    by (auto simp: admit_def stage_notional_def stage_wiring_def stage_reserve_def stage_adapter_def
      stage_test_run_def stage_profit_def sample_amount clock_def max_notional_def sample_state_def
      record_detected_def new_intent_of_def reserve_def reserved_total_def open_wallet_def trans_to_reservations Let_def)
  then obtain s2 where s2: "screen_order unparsed_env sample_intent sample_wiring s1 = Go ([], sample_intent) s2"
    "w_reservations (l_wallet s2) \<noteq> []"
    using sample_tags
    by (auto simp: screen_order_def quiet_stages stage_debridge_spread_def stage_debridge_balance_def
        stage_proof_def stage_enrich_def stage_exclusivity_def clock_def stage_claim_info_def blank_addr_def
        zero_address_text_def trans_to_reservations Let_def)
  have s3: "fill_solana unparsed_env sample_intent None s2 = Go () s2"
    using sample_tags by (simp add: fill_solana_def stage_flash_def stage_mayan_solana_def stage_dln_solana_def stage_ntt_def)
  have val: "eth_fill_value unparsed_env sample_wiring sample_intent = None"
    using sample_tags
    by (simp add: eth_fill_value_def to_lowercase_def lower_char_def zero_address_text_def Let_def)
  have "\<exists>e s4. fill_evm unparsed_env sample_intent sample_wiring (1000 * 1000000000) None [] s2 = Stop (Inl e) s4
      \<and> w_reservations (l_wallet s4) \<noteq> []"
    using sample_tags sample_deadline s2(2)
    by (simp add: fill_evm_def stage_mayan_auction_def stage_across_spread_def sample_spread
      stage_across_hook_def across_message_hook_skip_reason_def stage_across_source_def
      stage_across_deadline_def stage_across_balance_def erc20_short_def stage_calldata_def fill_call_def
      stage_dry_run_def stage_estimate_def gate_estimate_def stage_native_balance_def stage_send_def
      val clock_def starts_with_def trans_to_reservations Let_def split: option.split)
  with s1 s2 s3 show ?thesis by (auto simp: lambda_execute_def broadcast_run_def)
qed

theorem error_keeps_reservation_witness:
  "held (l_wallet (snd (lambda_execute unparsed_env sample_intent sample_state))) ''a:5''"
proof -
  obtain e s' where run: "lambda_execute unparsed_env sample_intent sample_state = (Inl e, s')"
    and "w_reservations (l_wallet s') \<noteq> []" using unparsed_run by blast
  then have "l_wallet s' \<noteq> l_wallet sample_state" by (auto simp: sample_state_def open_wallet_def)
  from error_keeps_reservation [OF run this] show ?thesis using sample_not_held by (simp add: run)
qed

end
