(* ===== verification/Permits.thy ===== *)
theory Permits
  imports Guards
begin

text \<open>
  Well permits (\<open>crates/solver-registry/src/lib.rs\<close>): the reply of the Spinner to a permit request and
  the local guard that checks a permit's deadline, signature and single use.  Hashing, hex decoding,
  256-bit parsing and public-key recovery are third-party and are the record \<open>crypto\<close>.
\<close>

section \<open>Types\<close>

record fill_permit =
  fp_intent_id :: string
  fp_solver :: string
  fp_chain_id :: u64
  fp_amount_wei :: string
  fp_deadline :: u64
  fp_nonce :: u64
  fp_signature :: string

datatype registry_error =
    HttpError string
  | IntentNotFound string
  | SolverBanned string
  | DuplicatePermit string u64
  | AmountExceedsReward
  | SpinnerError string
  | InvalidSignature
  | PermitExpired
  | PermitAlreadyUsed
  | RegistrySqlite string

record crypto =
  cy_keccak :: "bytes \<Rightarrow> bytes"
  cy_hex_decode :: "string \<Rightarrow> bytes option"
  cy_parse_u256 :: "string \<Rightarrow> nat option"
  cy_recover :: "bytes \<Rightarrow> bytes \<Rightarrow> evm_addr option"

record used_permit =
  up_key :: "string \<times> int"
  up_used_at :: int
  up_tx_hash :: "string option"

record auth_guard =
  ag_signer :: evm_addr
  ag_used :: "used_permit list"

section \<open>Requesting a permit\<close>

datatype http_reply = NoReply string | Reply nat string "fill_permit option"

definition request_permit :: "string \<Rightarrow> u64 \<Rightarrow> string \<Rightarrow> http_reply \<Rightarrow> registry_error + fill_permit" where
  "request_permit intent_id chain_id solver reply =
     (case reply of
        NoReply e \<Rightarrow> Inl (HttpError e)
      | Reply st body permit \<Rightarrow>
          if st = 409 then Inl (DuplicatePermit intent_id chain_id)
          else if st = 403 then Inl (SolverBanned solver)
          else if st = 404 then Inl (IntentNotFound intent_id)
          else if st < 200 \<or> 300 \<le> st then Inl (SpinnerError body)
          else (case permit of None \<Rightarrow> Inl (HttpError ''decode'') | Some p \<Rightarrow> Inr p))"

section \<open>The signature\<close>

definition be_bytes :: "nat \<Rightarrow> nat \<Rightarrow> bytes" where
  "be_bytes n x = map (\<lambda>i. of_nat (x div 256 ^ i)) (rev [0..<n])"

definition ascii_bytes :: "string \<Rightarrow> bytes" where
  "ascii_bytes s = map (\<lambda>c. of_nat (of_char c)) s"

definition permit_message :: "crypto \<Rightarrow> fill_permit \<Rightarrow> bytes option" where
  "permit_message y p =
     Option.bind (cy_hex_decode y (trim_start_str ''0x'' (fp_intent_id p))) (\<lambda>idb.
     Option.bind (cy_parse_u256 y (fp_amount_wei p)) (\<lambda>amt.
     Some (idb @ be_bytes 8 (unat (fp_chain_id p)) @ be_bytes 32 amt
           @ be_bytes 8 (unat (fp_deadline p)) @ be_bytes 8 (unat (fp_nonce p)))))"

definition personal_hash :: "crypto \<Rightarrow> bytes \<Rightarrow> bytes" where
  "personal_hash y m =
     cy_keccak y ([0x19] @ ascii_bytes ''Ethereum Signed Message:'' @ [10] @ ascii_bytes ''32'' @ cy_keccak y m)"

definition verify_permit_signature :: "crypto \<Rightarrow> fill_permit \<Rightarrow> evm_addr \<Rightarrow> bool" where
  "verify_permit_signature y p expected =
     (case permit_message y p of None \<Rightarrow> False | Some m \<Rightarrow>
      case cy_hex_decode y (trim_start_str ''0x'' (fp_signature p)) of None \<Rightarrow> False | Some sig \<Rightarrow>
      length sig = 65 \<and> cy_recover y sig (personal_hash y m) = Some expected)"

section \<open>The guard\<close>

definition permit_key :: "fill_permit \<Rightarrow> string \<times> int" where
  "permit_key p = (fp_intent_id p, sint (fp_chain_id p))"

definition recorded :: "string \<times> int \<Rightarrow> auth_guard \<Rightarrow> bool" where
  "recorded k g \<longleftrightarrow> t_get up_key k (ag_used g) \<noteq> None"

text \<open>\<open>db\<close> is the error of the database statement, if it fails: a failing count reads as zero, a failing
  insertion is the caller's error.\<close>

definition is_used :: "string option \<Rightarrow> string \<Rightarrow> u64 \<Rightarrow> auth_guard \<Rightarrow> bool" where
  "is_used db intent_id chain_id g \<longleftrightarrow> db = None \<and> recorded (intent_id, sint chain_id) g"

definition validate :: "crypto \<Rightarrow> string option \<Rightarrow> u64 \<Rightarrow> fill_permit \<Rightarrow> auth_guard \<Rightarrow> registry_error + unit" where
  "validate y db now p g =
     (if fp_deadline p < now then Inl PermitExpired
      else if \<not> verify_permit_signature y p (ag_signer g) then Inl InvalidSignature
      else if is_used db (fp_intent_id p) (fp_chain_id p) g then Inl PermitAlreadyUsed
      else Inr ())"

definition consume ::
    "string option \<Rightarrow> int \<Rightarrow> fill_permit \<Rightarrow> string option \<Rightarrow> auth_guard \<Rightarrow> (registry_error + unit) \<times> auth_guard" where
  "consume db now p tx g =
     (case db of
        Some e \<Rightarrow> (Inl (RegistrySqlite e), g)
      | None \<Rightarrow> (Inr (), g\<lparr>ag_used := t_insert_or_ignore up_key
          \<lparr>up_key = permit_key p, up_used_at = now, up_tx_hash = tx\<rparr> (ag_used g)\<rparr>))"

text \<open>The two calls a fill makes on the guard, in any order and any number: nothing in the crate ties
  the one to the other.\<close>

datatype guard_op =
    Validate "string option" u64 fill_permit
  | Consume "string option" int fill_permit "string option"

fun guard_call :: "crypto \<Rightarrow> guard_op \<Rightarrow> auth_guard \<Rightarrow> (registry_error + unit) \<times> auth_guard" where
  "guard_call y (Validate db now p) g = (validate y db now p g, g)"
| "guard_call y (Consume db now p tx) g = consume db now p tx g"

fun key_written :: "guard_op \<Rightarrow> (string \<times> int) option" where
  "key_written (Consume None now p tx) = Some (permit_key p)"
| "key_written c = None"

definition guard_run :: "crypto \<Rightarrow> guard_op list \<Rightarrow> auth_guard \<Rightarrow> auth_guard" where
  "guard_run y cs g = fold (\<lambda>c g. snd (guard_call y c g)) cs g"

section \<open>A log of uses\<close>

text \<open>Calls on a store of used keys: a call writes at most one key, and nothing takes a key away.\<close>

locale use_log =
  fixes used :: "'k \<Rightarrow> 's \<Rightarrow> bool"
    and call :: "'c \<Rightarrow> 's \<Rightarrow> 's"
    and writes :: "'c \<Rightarrow> 'k option"
  assumes call_used: "used k (call c s) \<longleftrightarrow> writes c = Some k \<or> used k s"
begin

lemma run_used: "used k (fold call cs s) \<longleftrightarrow> (\<exists>c \<in> set cs. writes c = Some k) \<or> used k s"
  by (induction cs arbitrary: s) (auto simp: call_used)

end

lemma recorded_consume:
  "recorded k (snd (consume db now p tx g)) \<longleftrightarrow> (db = None \<and> k = permit_key p) \<or> recorded k g"
  by (auto simp: recorded_def consume_def t_insert_or_ignore_def t_get_snoc split: option.split)

interpretation uses: use_log recorded "\<lambda>c g. snd (guard_call y c g)" key_written for y
proof unfold_locales
  fix k c g
  show "recorded k (snd (guard_call y c g)) \<longleftrightarrow> key_written c = Some k \<or> recorded k g"
  proof (cases c)
    case (Consume db now p tx)
    then show ?thesis by (cases db) (auto simp: recorded_consume)
  qed simp
qed

lemma signer_run: "ag_signer (guard_run y cs g) = ag_signer g"
proof -
  have "ag_signer (snd (guard_call y c g)) = ag_signer g" for c g
    by (cases c) (simp_all add: consume_def split: option.split)
  then show ?thesis by (induction cs arbitrary: g) (simp_all add: guard_run_def)
qed

lemma key_writtenE:
  assumes "key_written c = Some k"
  obtains t q tx where "c = Consume None t q tx" "permit_key q = k"
  using assms by (cases c rule: key_written.cases) auto

section \<open>Properties\<close>

text \<open>C16. When a permit validates.  After any sequence of validations and consumptions, a permit whose
  database read is answered validates exactly when it is unexpired, the Spinner's key signed it, its
  intent text and chain were not recorded as used at the start, and no consumption of a permit with
  the same intent text and chain was written in between.  So nothing validates after its consumption
  is written, and any number of validations before it pass.\<close>

theorem permit_validates_until_consumed:
  "validate y None now p (guard_run y cs g) = Inr () \<longleftrightarrow>
     now \<le> fp_deadline p \<and> verify_permit_signature y p (ag_signer g) \<and> \<not> recorded (permit_key p) g
     \<and> (\<forall>t q tx. Consume None t q tx \<in> set cs \<longrightarrow> permit_key q \<noteq> permit_key p)"
proof -
  have "recorded (permit_key p) (guard_run y cs g)
      \<longleftrightarrow> (\<exists>t q tx. Consume None t q tx \<in> set cs \<and> permit_key q = permit_key p) \<or> recorded (permit_key p) g"
    unfolding guard_run_def uses.run_used by (metis key_writtenE key_written.simps(1))
  then show ?thesis
    by (auto simp: validate_def is_used_def signer_run not_less permit_key_def)
qed

definition toy_crypto :: crypto where
  "toy_crypto = \<lparr>cy_keccak = (\<lambda>_. []), cy_hex_decode = (\<lambda>s. Some (replicate 65 0)), cy_parse_u256 = (\<lambda>_. Some 0),
     cy_recover = (\<lambda>_ _. Some 7)\<rparr>"

definition sample_permit :: fill_permit where
  "sample_permit = \<lparr>fp_intent_id = ''0xab'', fp_solver = ''0x1'', fp_chain_id = 8453, fp_amount_wei = ''5'',
     fp_deadline = 100, fp_nonce = 1, fp_signature = ''0x''\<rparr>"

lemma sample_permit_signed: "verify_permit_signature toy_crypto sample_permit 7"
  by (simp add: verify_permit_signature_def permit_message_def toy_crypto_def)

definition sample_guard :: auth_guard where
  "sample_guard = \<lparr>ag_signer = 7, ag_used = []\<rparr>"

theorem permit_validates_until_consumed_witness:
  "validate toy_crypto None 50 sample_permit (guard_run toy_crypto [Validate None 50 sample_permit] sample_guard) = Inr ()
   \<and> validate toy_crypto None 50 sample_permit
       (guard_run toy_crypto [Validate None 50 sample_permit, Consume None 51 sample_permit None] sample_guard) \<noteq> Inr ()"
  unfolding permit_validates_until_consumed
  using sample_permit_signed by (auto simp: sample_guard_def recorded_def sample_permit_def)

text \<open>When the read of the used permits fails, a permit whose consumption is on record validates.\<close>

theorem failed_read_validates_used:
  assumes "validate y None now p g = Inr ()"
  shows "recorded (permit_key p) (snd (consume None t p tx g))
    \<and> validate y (Some e) now p (snd (consume None t p tx g)) = Inr ()"
proof -
  have "ag_signer (snd (consume None t p tx g)) = ag_signer g" by (simp add: consume_def)
  then show ?thesis using assms by (auto simp: recorded_consume validate_def is_used_def split: if_splits)
qed

theorem failed_read_validates_used_witness:
  "validate toy_crypto (Some ''locked'') 50 sample_permit (snd (consume None 50 sample_permit None sample_guard)) = Inr ()"
proof -
  have "validate toy_crypto None 50 sample_permit sample_guard = Inr ()"
    using sample_permit_signed by (simp add: validate_def is_used_def recorded_def sample_guard_def sample_permit_def)
  from failed_read_validates_used [OF this] show ?thesis by blast
qed

lemma trim_again: "trim_start_str ''0x'' (''0x'' @ s) = trim_start_str ''0x'' s"
  by (subst trim_start_str.simps) (simp add: starts_with_def)

text \<open>A used permit validates again under another spelling of its intent: the signature is over the decoded
  bytes, from which any number of leading \<open>0x\<close> is stripped, while the record of used permits is by
  the text, so putting \<open>0x\<close> in front makes it a fresh permit with a valid signature.  Nor does the
  signature cover the solver: the permit is as good in another solver's name.\<close>

theorem used_permit_validates_respelled:
  assumes "validate y None now p g = Inr ()" "\<not> recorded (''0x'' @ fp_intent_id p, sint (fp_chain_id p)) g"
  shows "validate y None now (p\<lparr>fp_intent_id := ''0x'' @ fp_intent_id p, fp_solver := other\<rparr>) (snd (consume None t p tx g)) = Inr ()"
proof -
  let ?p = "p\<lparr>fp_intent_id := ''0x'' @ fp_intent_id p, fp_solver := other\<rparr>"
  have "permit_message y ?p = permit_message y p"
    using trim_again [of "fp_intent_id p"] by (simp add: permit_message_def)
  then have "verify_permit_signature y ?p = verify_permit_signature y p"
    by (cases "permit_message y p") (simp_all add: verify_permit_signature_def fun_eq_iff)
  moreover have "\<not> recorded (permit_key ?p) (snd (consume None t p tx g))"
    using assms(2) by (simp add: recorded_consume permit_key_def)
  moreover have "ag_signer (snd (consume None t p tx g)) = ag_signer g" by (simp add: consume_def)
  ultimately show ?thesis using assms(1) by (auto simp: validate_def is_used_def permit_key_def split: if_splits)
qed

theorem used_permit_validates_respelled_witness:
  "validate toy_crypto None 50 (sample_permit\<lparr>fp_intent_id := ''0x0xab'', fp_solver := ''0x2''\<rparr>)
     (snd (consume None 50 sample_permit None sample_guard)) = Inr ()"
proof -
  have "validate toy_crypto None 50 sample_permit sample_guard = Inr ()"
    using sample_permit_signed by (simp add: validate_def is_used_def recorded_def sample_guard_def sample_permit_def)
  from used_permit_validates_respelled [OF this, of "''0x2''" 50 None] show ?thesis
    by (simp add: recorded_def sample_guard_def sample_permit_def)
qed

end
