(* ===== verification/Intake.thy ===== *)
theory Intake
  imports Guards
begin

text \<open>
  Intake of intents: the deduplicating consumer of the genome stream
  (\<open>crates/genome-client/src/hardened_consumer.rs\<close>) and the skip rules the analyzer publishes
  (\<open>crates/executor/src/skip_rules.rs\<close>).
\<close>

section \<open>The dedup window\<close>

record dedup =
  dd_seen :: "string set"
  dd_order :: "string list"
  dd_cap :: nat

definition dedup_new :: "nat \<Rightarrow> dedup" where
  "dedup_new cap = \<lparr>dd_seen = {}, dd_order = [], dd_cap = cap\<rparr>"

definition check_and_insert :: "string \<Rightarrow> dedup \<Rightarrow> bool \<times> dedup" where
  "check_and_insert i d =
     (if i \<in> dd_seen d then (True, d)
      else let d1 = (if dd_cap d \<le> length (dd_order d)
                     then (case dd_order d of
                             [] \<Rightarrow> d
                           | old # rest \<Rightarrow> d\<lparr>dd_seen := dd_seen d - {old}, dd_order := rest\<rparr>)
                     else d)
           in (False, d1\<lparr>dd_seen := insert i (dd_seen d1), dd_order := dd_order d1 @ [i]\<rparr>))"

definition dedup_inv :: "dedup \<Rightarrow> bool" where
  "dedup_inv d \<longleftrightarrow> dd_seen d = set (dd_order d) \<and> distinct (dd_order d) \<and> length (dd_order d) \<le> max 1 (dd_cap d)"

section \<open>The consumer\<close>

record consumer_metrics =
  cm_received :: u64
  cm_deduped :: u64
  cm_dropped :: u64
  cm_quoted :: u64

text \<open>A bounded channel: what is queued, its capacity, and whether the receiver is gone.\<close>

record channel =
  ch_queue :: "intent list"
  ch_cap :: nat
  ch_closed :: bool

datatype send_result = Sent | Full | Closed

definition try_send :: "intent \<Rightarrow> channel \<Rightarrow> send_result \<times> channel" where
  "try_send i c =
     (if ch_closed c then (Closed, c)
      else if ch_cap c \<le> length (ch_queue c) then (Full, c)
      else (Sent, c\<lparr>ch_queue := ch_queue c @ [i]\<rparr>))"

text \<open>A running consumer: \<open>cs_in\<close> is the inner channel between the stream reader and the loop, made with
  \<open>buffer_cap\<close>; \<open>cs_out\<close> is the caller's channel, with the capacity the caller gave it.\<close>

record consumer =
  cs_dedup :: dedup
  cs_metrics :: consumer_metrics
  cs_in :: channel
  cs_out :: channel
  cs_stopped :: bool

text \<open>The start of \<open>run\<close>; a channel of capacity zero is a panic.\<close>

definition consumer_start :: "nat \<Rightarrow> nat \<Rightarrow> channel \<Rightarrow> (msg, consumer) res" where
  "consumer_start buffer_cap window out =
     (if buffer_cap = 0 then Panic
      else Ok \<lparr>cs_dedup = dedup_new window,
              cs_metrics = \<lparr>cm_received = 0, cm_deduped = 0, cm_dropped = 0, cm_quoted = 0\<rparr>,
              cs_in = \<lparr>ch_queue = [], ch_cap = buffer_cap, ch_closed = False\<rparr>, cs_out = out, cs_stopped = False\<rparr>)"

definition on_intent :: "intent \<Rightarrow> consumer \<Rightarrow> consumer" where
  "on_intent i c =
     (let m = (cs_metrics c)\<lparr>cm_received := cm_received (cs_metrics c) + 1\<rparr>;
          (dup, d) = check_and_insert (i_id i) (cs_dedup c);
          c1 = c\<lparr>cs_dedup := d, cs_metrics := m\<rparr>
      in if dup then c1\<lparr>cs_metrics := m\<lparr>cm_deduped := cm_deduped m + 1\<rparr>\<rparr>
         else (case try_send i (cs_out c) of
                 (Sent, out) \<Rightarrow> c1\<lparr>cs_metrics := m\<lparr>cm_quoted := cm_quoted m + 1\<rparr>, cs_out := out\<rparr>
               | (Full, out) \<Rightarrow> c1\<lparr>cs_metrics := m\<lparr>cm_dropped := cm_dropped m + 1\<rparr>\<rparr>
               | (Closed, out) \<Rightarrow> c1\<lparr>cs_stopped := True\<rparr>))"

text \<open>What happens to a running consumer: the stream reader puts an intent in the inner channel (it waits
  while that is full), the loop takes the next one, another sender of the outbound channel puts one in,
  its receiver takes one, or the receiver goes away.\<close>

datatype intake_event = Read intent | Loop | Other intent | Take | Hangup

fun intake_step :: "intake_event \<Rightarrow> consumer \<Rightarrow> consumer" where
  "intake_step (Read i) c = (if cs_stopped c then c else c\<lparr>cs_in := snd (try_send i (cs_in c))\<rparr>)"
| "intake_step Loop c =
     (if cs_stopped c then c
      else case ch_queue (cs_in c) of [] \<Rightarrow> c
           | i # q \<Rightarrow> on_intent i (c\<lparr>cs_in := (cs_in c)\<lparr>ch_queue := q\<rparr>\<rparr>))"
| "intake_step (Other i) c = c\<lparr>cs_out := snd (try_send i (cs_out c))\<rparr>"
| "intake_step Take c = c\<lparr>cs_out := (cs_out c)\<lparr>ch_queue := drop 1 (ch_queue (cs_out c))\<rparr>\<rparr>"
| "intake_step Hangup c = c\<lparr>cs_out := (cs_out c)\<lparr>ch_closed := True\<rparr>\<rparr>"

section \<open>The dedup window, proved\<close>

lemma dedup_inv_new: "dedup_inv (dedup_new n)"
  by (simp add: dedup_inv_def dedup_new_def)

text \<open>The window as its abstract content: the most recent accepted ids, oldest first.\<close>

lemma check_and_insert_abs:
  assumes "dedup_inv d"
  shows "check_and_insert i d =
    (if i \<in> set (dd_order d) then (True, d)
     else let w = (if dd_cap d \<le> length (dd_order d) then tl (dd_order d) else dd_order d) @ [i]
          in (False, d\<lparr>dd_seen := set w, dd_order := w\<rparr>))"
  using assms by (cases "dd_order d") (auto simp: check_and_insert_def dedup_inv_def Let_def)

lemma dedup_inv_step: "dedup_inv d \<Longrightarrow> dedup_inv (snd (check_and_insert i d)) \<and> dd_cap (snd (check_and_insert i d)) = dd_cap d"
  by (cases "dd_order d")
    (auto simp: check_and_insert_abs Let_def dedup_inv_def distinct_tl dest: list.set_sel(2))

definition dedup_all :: "string list \<Rightarrow> dedup \<Rightarrow> dedup" where
  "dedup_all is d = fold (\<lambda>i d. snd (check_and_insert i d)) is d"

fun accepted :: "string list \<Rightarrow> dedup \<Rightarrow> nat" where
  "accepted [] d = 0"
| "accepted (i # is) d = (if fst (check_and_insert i d) then 0 else 1) + accepted is (snd (check_and_insert i d))"

lemma kept_in_window:
  "dedup_inv d \<Longrightarrow> dd_order d = old @ [x] @ new \<Longrightarrow> length new + accepted is d < max 1 (dd_cap d) \<Longrightarrow>
   \<exists>old' new'. dd_order (dedup_all is d) = old' @ [x] @ new' \<and> dedup_inv (dedup_all is d)"
proof (induction "is" arbitrary: d old new)
  case (Cons i js)
  let ?d = "snd (check_and_insert i d)"
  have inv: "dedup_inv ?d" "dd_cap ?d = dd_cap d" using dedup_inv_step [OF Cons.prems(1)] by auto
  show ?case
  proof (cases "i \<in> set (dd_order d)")
    case True
    then have "?d = d" "fst (check_and_insert i d)" by (simp_all add: check_and_insert_abs [OF Cons.prems(1)])
    with Cons show ?thesis by (simp add: dedup_all_def)
  next
    case False
    then have fresh: "\<not> fst (check_and_insert i d)" and
      order: "dd_order ?d = (if dd_cap d \<le> length (dd_order d) then tl (dd_order d) else dd_order d) @ [i]"
      by (simp_all add: check_and_insert_abs [OF Cons.prems(1)] Let_def)
    have short: "length new + 1 < max 1 (dd_cap d)" using Cons.prems(3) fresh by simp
    have "\<exists>old2. dd_order ?d = old2 @ [x] @ (new @ [i])"
    proof (cases "dd_cap d \<le> length (dd_order d)")
      case full: True
      with short Cons.prems(2) have "old \<noteq> []" by auto
      then show ?thesis using full Cons.prems(2) order by (cases old) auto
    qed (use Cons.prems(2) order in auto)
    then obtain old2 where "dd_order ?d = old2 @ [x] @ (new @ [i])" by blast
    from Cons.IH [OF inv(1) this] Cons.prems(3) fresh inv(2) show ?thesis by (simp add: dedup_all_def)
  qed
qed (auto simp: dedup_all_def)

section \<open>Skip rules\<close>

record rule_predicate =
  rp_min_amount_usd :: "f64 option"
  rp_max_gas_gwei :: "f64 option"
  rp_dst_chain :: "u64 option"
  rp_src_chain :: "u64 option"
  rp_max_fill_deadline_secs :: "u64 option"

definition is_useful :: "rule_predicate \<Rightarrow> bool" where
  "is_useful p \<longleftrightarrow> rp_min_amount_usd p \<noteq> None \<or> rp_max_gas_gwei p \<noteq> None \<or> rp_dst_chain p \<noteq> None
     \<or> rp_src_chain p \<noteq> None \<or> rp_max_fill_deadline_secs p \<noteq> None"

record wire_rule =
  wr_rule_json :: string
  wr_description :: "string option"
  wr_confidence :: f64
  wr_protocol :: string

record skip_rule =
  sr_protocol :: string
  sr_predicate :: rule_predicate
  sr_description :: "string option"
  sr_confidence :: f64

text \<open>\<open>from_json\<close> is the JSON reading of a predicate; unreadable and empty rules are dropped.\<close>

fun from_wire :: "(string \<Rightarrow> rule_predicate option) \<Rightarrow> wire_rule list \<Rightarrow> skip_rule list" where
  "from_wire from_json [] = []"
| "from_wire from_json (w # ws) =
     (case from_json (wr_rule_json w) of
        None \<Rightarrow> from_wire from_json ws
      | Some p \<Rightarrow>
          if \<not> is_useful p then from_wire from_json ws
          else \<lparr>sr_protocol = wr_protocol w, sr_predicate = p, sr_description = wr_description w,
                sr_confidence = wr_confidence w\<rparr> # from_wire from_json ws)"

record skip_query =
  sq_protocol :: string
  sq_src :: u64
  sq_dst :: u64
  sq_amount :: "f64 option"
  sq_gas :: "f64 option"
  sq_deadline :: "u64 option"

definition rule_reason :: "skip_rule \<Rightarrow> msg" where
  "rule_reason r =
     (case sr_description r of
        Some d \<Rightarrow> lit d
      | None \<Rightarrow>
          let p = sr_predicate r; show_word = (\<lambda>x. case x of None \<Rightarrow> AStr ''None'' | Some c \<Rightarrow> AInt (uint (c :: u64)));
              show_f = (\<lambda>x. case x of None \<Rightarrow> AStr ''None'' | Some f \<Rightarrow> AF64 f)
          in Msg ''skip_rule:src={:?},dst={:?},min_amount_usd={:?},max_gas_gwei={:?},max_fill_deadline_secs={:?}''
               [show_word (rp_src_chain p), show_word (rp_dst_chain p), show_f (rp_min_amount_usd p),
                show_f (rp_max_gas_gwei p), show_word (rp_max_fill_deadline_secs p)])"

fun evaluate :: "u64 \<Rightarrow> skip_query \<Rightarrow> skip_rule list \<Rightarrow> msg option" where
  "evaluate now q [] = None"
| "evaluate now q (r # rs) =
     (let p = sr_predicate r; go_on = evaluate now q rs
      in if sr_protocol r \<noteq> [] \<and> to_lowercase (sr_protocol r) \<noteq> to_lowercase (sq_protocol q) then go_on
         else if (case rp_dst_chain p of None \<Rightarrow> False | Some c \<Rightarrow> c \<noteq> sq_dst q) then go_on
         else if (case rp_src_chain p of None \<Rightarrow> False | Some c \<Rightarrow> c \<noteq> sq_src q) then go_on
         else if (case rp_min_amount_usd p of None \<Rightarrow> False | Some mn \<Rightarrow>
                    (case sq_amount q of None \<Rightarrow> True | Some amt \<Rightarrow> f_le mn amt)) then go_on
         else if (case rp_max_gas_gwei p of None \<Rightarrow> False | Some mx \<Rightarrow>
                    (case sq_gas q of None \<Rightarrow> True | Some g \<Rightarrow> f_le g mx)) then go_on
         else if (case rp_max_fill_deadline_secs p of None \<Rightarrow> False | Some mx \<Rightarrow>
                    (case sq_deadline q of None \<Rightarrow> True | Some dl \<Rightarrow> dl \<le> now + mx)) then go_on
         else Some (rule_reason r))"

text \<open>The documented meaning of a rule: every predicate that is present matches.\<close>

definition present :: "'a option \<Rightarrow> ('a \<Rightarrow> bool) \<Rightarrow> bool" where
  "present x P = (case x of None \<Rightarrow> True | Some a \<Rightarrow> P a)"

definition known :: "'a option \<Rightarrow> ('a \<Rightarrow> bool) \<Rightarrow> bool" where
  "known x P = (case x of None \<Rightarrow> False | Some a \<Rightarrow> P a)"

definition rule_matches :: "u64 \<Rightarrow> skip_query \<Rightarrow> skip_rule \<Rightarrow> bool" where
  "rule_matches now q r \<longleftrightarrow>
     (sr_protocol r = [] \<or> to_lowercase (sr_protocol r) = to_lowercase (sq_protocol q))
     \<and> present (rp_dst_chain (sr_predicate r)) (\<lambda>c. c = sq_dst q)
     \<and> present (rp_src_chain (sr_predicate r)) (\<lambda>c. c = sq_src q)
     \<and> present (rp_min_amount_usd (sr_predicate r)) (\<lambda>mn. known (sq_amount q) (\<lambda>a. \<not> f_le mn a))
     \<and> present (rp_max_gas_gwei (sr_predicate r)) (\<lambda>mx. known (sq_gas q) (\<lambda>g. \<not> f_le g mx))
     \<and> present (rp_max_fill_deadline_secs (sr_predicate r)) (\<lambda>mx. known (sq_deadline q) (\<lambda>dl. now + mx < dl))"

lemma evaluate_head:
  "evaluate now q (r # rs) = (if rule_matches now q r then Some (rule_reason r) else evaluate now q rs)"
  unfolding rule_matches_def present_def known_def evaluate.simps Let_def
  by (simp split: option.split) (auto simp: not_le not_less)

section \<open>Properties\<close>

text \<open>The dedup window remembers: an id it accepts is reported as a duplicate until as many other ids
  as the window holds have been accepted after it, and the window never holds more than its
  capacity (one, when the capacity is zero), each id once.\<close>

theorem dedup_window:
  assumes "dedup_inv d" "\<not> fst (check_and_insert i d)"
    and "accepted js (snd (check_and_insert i d)) < max 1 (dd_cap d)"
  shows "fst (check_and_insert i (dedup_all js (snd (check_and_insert i d))))
    \<and> dedup_inv (dedup_all js (snd (check_and_insert i d)))"
proof -
  have inv: "dedup_inv (snd (check_and_insert i d))" "dd_cap (snd (check_and_insert i d)) = dd_cap d"
    using dedup_inv_step [OF assms(1)] by auto
  have "\<exists>old. dd_order (snd (check_and_insert i d)) = old @ [i] @ []"
    using assms(2) by (auto simp: check_and_insert_abs [OF assms(1)] Let_def split: if_splits)
  then obtain old where "dd_order (snd (check_and_insert i d)) = old @ [i] @ []" by blast
  from kept_in_window [OF inv(1) this, of js] assms(3) inv(2) show ?thesis
    by (auto simp: check_and_insert_abs)
qed

theorem dedup_window_witness:
  "fst (check_and_insert ''a'' (dedup_all [''b'', ''c''] (snd (check_and_insert ''a'' (dedup_new 3)))))"
  by (rule conjunct1 [OF dedup_window [OF dedup_inv_new]]) (simp_all add: check_and_insert_def dedup_new_def)

text \<open>The books of a consumer with inner capacity \<open>n\<close>, dedup window \<open>w\<close> and outbound capacity \<open>k\<close>.\<close>

definition books :: "nat \<Rightarrow> nat \<Rightarrow> nat \<Rightarrow> consumer \<Rightarrow> bool" where
  "books n w k c \<longleftrightarrow>
     cm_received (cs_metrics c) = cm_deduped (cs_metrics c) + cm_dropped (cs_metrics c) + cm_quoted (cs_metrics c)
       + (if cs_stopped c then 1 else 0)
     \<and> length (ch_queue (cs_in c)) \<le> n \<and> ch_cap (cs_in c) = n
     \<and> length (ch_queue (cs_out c)) \<le> k \<and> ch_cap (cs_out c) = k
     \<and> dedup_inv (cs_dedup c) \<and> dd_cap (cs_dedup c) = w"

lemma try_send_bound:
  "ch_cap (snd (try_send i c)) = ch_cap c
   \<and> (length (ch_queue c) \<le> ch_cap c \<longrightarrow> length (ch_queue (snd (try_send i c))) \<le> ch_cap c)"
  by (simp add: try_send_def)

lemma books_on_intent:
  assumes "books n w k c" "\<not> cs_stopped c"
  shows "books n w k (on_intent i c)"
proof -
  have "dedup_inv (cs_dedup c)" using assms(1) by (simp add: books_def)
  from dedup_inv_step [OF this, of "i_id i"] assms show ?thesis
    by (cases "check_and_insert (i_id i) (cs_dedup c)") (auto simp: books_def on_intent_def try_send_def Let_def)
qed

lemma books_step:
  assumes "books n w k c"
  shows "books n w k (intake_step e c)"
proof (cases e)
  case Loop
  show ?thesis
  proof (cases "cs_stopped c \<or> ch_queue (cs_in c) = []")
    case False
    then obtain i q where q: "ch_queue (cs_in c) = i # q" by (cases "ch_queue (cs_in c)") auto
    then have "books n w k (c\<lparr>cs_in := (cs_in c)\<lparr>ch_queue := q\<rparr>\<rparr>)" using assms by (auto simp: books_def)
    from books_on_intent [OF this] False q show ?thesis by (simp add: Loop)
  qed (use assms in \<open>auto simp: Loop\<close>)
qed (use assms try_send_bound in \<open>auto simp: books_def\<close>)

lemma books_run: "books n w k c \<Longrightarrow> books n w k (fold intake_step es c)"
  by (induction es arbitrary: c) (auto intro: books_step)

text \<open>C17. Every intent the loop takes off the inner channel is accounted for: in any history of a consumer
  started with a dedup window and a caller's outbound channel within its capacity, the received are
  the duplicates, the dropped and the forwarded together, and one more when the consumer has stopped:
  the intent it held when it found the receiver gone.  The inner channel stays within \<open>buffer_cap\<close>, the
  outbound one within the capacity its owner gave it, and the dedup window within its own (one, when
  it is zero).  The counters wrap, and the equation holds of the wrapped counters.\<close>

theorem consumer_accounts:
  assumes "consumer_start buffer_cap window out = Ok c0" "length (ch_queue out) \<le> ch_cap out"
    and "c = fold intake_step es c0"
  shows "cm_received (cs_metrics c) = cm_deduped (cs_metrics c) + cm_dropped (cs_metrics c) + cm_quoted (cs_metrics c)
      + (if cs_stopped c then 1 else 0)
    \<and> length (ch_queue (cs_in c)) \<le> buffer_cap \<and> length (ch_queue (cs_out c)) \<le> ch_cap out
    \<and> length (dd_order (cs_dedup c)) \<le> max 1 window"
proof -
  have "books buffer_cap window (ch_cap out) c0"
    using assms(1,2) dedup_inv_new by (auto simp: consumer_start_def books_def dedup_new_def split: if_splits)
  from books_run [OF this, of es] show ?thesis
    by (auto simp: assms(3) books_def dedup_inv_def)
qed

text \<open>A small intent for the witnesses.\<close>

definition stream_intent :: "string \<Rightarrow> intent" where
  "stream_intent i = \<lparr>i_id = i, i_protocol = ''across'', i_src_chain = 1, i_dst_chain = 10,
     i_src_token = [], i_dst_token = [], i_amount = ''1'', i_depositor = [], i_recipient = [], i_tx_hash = [],
     i_detected_at = 0, i_output_amount = None, i_deposit_id = None, i_give_amount = None, i_take_amount = None,
     i_order_id = None, i_dln_allowed_taker_dst = None, i_dln_external_call = None, i_mayan_order_id = None,
     i_deadline = None, i_is_solana_source = None, i_fill_deadline = None, i_exclusivity_deadline = None,
     i_exclusive_relayer = None, i_message = None, i_batch_id = None, i_mayan_auction_mode = None,
     i_is_solana_destination = None\<rparr>"

lemma stream_intent_id [simp]: "i_id (stream_intent i) = i"
  by (simp add: stream_intent_def)

definition sample_consumer :: "nat \<Rightarrow> consumer" where
  "sample_consumer k =
     \<lparr>cs_dedup = dedup_new 8, cs_metrics = \<lparr>cm_received = 0, cm_deduped = 0, cm_dropped = 0, cm_quoted = 0\<rparr>,
      cs_in = \<lparr>ch_queue = [], ch_cap = 4, ch_closed = False\<rparr>,
      cs_out = \<lparr>ch_queue = [], ch_cap = k, ch_closed = False\<rparr>, cs_stopped = False\<rparr>"

theorem consumer_accounts_witness:
  "length (ch_queue (cs_out (fold intake_step
     [Read (stream_intent ''a''), Read (stream_intent ''b''), Loop, Loop] (sample_consumer 1)))) \<le> 1"
proof -
  let ?out = "\<lparr>ch_queue = [], ch_cap = 1, ch_closed = False\<rparr>"
  have "consumer_start 4 8 ?out = Ok (sample_consumer 1)" "length (ch_queue ?out) \<le> ch_cap ?out"
    by (simp_all add: consumer_start_def sample_consumer_def)
  from consumer_accounts [OF this refl] show ?thesis by (simp only: channel.simps)
qed

text \<open>When the buffer is full the newest intent is the one that is lost, not the oldest as announced,
  and it is lost for good: the queue keeps what it held, the id is remembered as seen, and a replay of
  the same intent after the queue has room is filtered as a duplicate.\<close>

theorem overflow_loses_newest:
  assumes "\<not> ch_closed (cs_out c)" "ch_cap (cs_out c) \<le> length (ch_queue (cs_out c))"
    and "dedup_inv (cs_dedup c)" "i_id i \<notin> set (dd_order (cs_dedup c))"
  shows "ch_queue (cs_out (on_intent i c)) = ch_queue (cs_out c)
    \<and> cm_dropped (cs_metrics (on_intent i c)) = cm_dropped (cs_metrics c) + 1
    \<and> ch_queue (cs_out (on_intent i (intake_step Take (on_intent i c)))) = drop 1 (ch_queue (cs_out c))
    \<and> cm_deduped (cs_metrics (on_intent i (intake_step Take (on_intent i c)))) = cm_deduped (cs_metrics c) + 1"
proof -
  obtain d where d: "check_and_insert (i_id i) (cs_dedup c) = (False, d)" and seen: "i_id i \<in> dd_seen d"
    using assms(4) by (auto simp: check_and_insert_abs [OF assms(3)] Let_def)
  then have again: "check_and_insert (i_id i) d = (True, d)" by (simp add: check_and_insert_def)
  from assms(1,2) d again show ?thesis by (simp add: on_intent_def try_send_def Let_def)
qed

theorem overflow_loses_newest_witness:
  "ch_queue (cs_out (on_intent (stream_intent ''b'') (intake_step Take (on_intent (stream_intent ''b'')
     (on_intent (stream_intent ''a'') (sample_consumer 1)))))) = []"
proof -
  let ?c = "on_intent (stream_intent ''a'') (sample_consumer 1)"
  have c: "cs_dedup ?c = \<lparr>dd_seen = {''a''}, dd_order = [''a''], dd_cap = 8\<rparr>" "\<not> ch_closed (cs_out ?c)"
    "ch_queue (cs_out ?c) = [stream_intent ''a'']" "ch_cap (cs_out ?c) = 1"
    by (simp_all add: on_intent_def sample_consumer_def dedup_new_def check_and_insert_def try_send_def Let_def)
  have "dedup_inv (cs_dedup ?c)" "i_id (stream_intent ''b'') \<notin> set (dd_order (cs_dedup ?c))"
    unfolding dedup_inv_def c by simp_all
  moreover have "ch_cap (cs_out ?c) \<le> length (ch_queue (cs_out ?c))" unfolding c by simp
  ultimately have "ch_queue (cs_out (on_intent (stream_intent ''b'') (intake_step Take (on_intent (stream_intent ''b'') ?c))))
      = drop 1 (ch_queue (cs_out ?c))"
    using overflow_loses_newest [OF c(2)] by blast
  then show ?thesis unfolding c by simp
qed

text \<open>Skip rules mean what they say: the first published rule all of whose present predicates match
  decides, with its own reason, and no rule without a predicate is ever loaded.  A rule that needs an
  amount, a gas price or a deadline the caller does not supply does not fire.\<close>

theorem skip_rules_decide:
  "evaluate now q rules = map_option rule_reason (List.find (rule_matches now q) rules)
   \<and> list_all (is_useful \<circ> sr_predicate) (from_wire from_json wire)"
proof
  show "evaluate now q rules = map_option rule_reason (List.find (rule_matches now q) rules)"
    by (induction rules) (simp_all only: evaluate_head evaluate.simps(1) List.find.simps option.map if_splits split: if_splits, simp_all)
  show "list_all (is_useful \<circ> sr_predicate) (from_wire from_json wire)"
    by (induction wire) (auto split: option.split)
qed

end
