(* ===== verification/Calendar.thy ===== *)
theory Calendar
  imports Json
begin

text \<open>
  Time texts of the bridge APIs: \<open>chrono_unix_from_iso\<close> (\<open>crates/genome-client/src/lib.rs\<close>) against
  the Gregorian calendar, defined here by counting days one at a time.
\<close>

section \<open>Reading a time\<close>

text \<open>A byte slice of a text: \<open>None\<close> when a bound is past the end or inside a multi-byte character,
  which panics.\<close>

definition char_boundary :: "nat \<Rightarrow> string \<Rightarrow> bool" where
  "char_boundary n s \<longleftrightarrow> n = 0 \<or> n = length s \<or> n < length s \<and> (let b = of_char (s ! n) :: nat in b < 128 \<or> 192 \<le> b)"

definition str_slice :: "nat \<Rightarrow> nat \<Rightarrow> string \<Rightarrow> string option" where
  "str_slice a b s = (if a \<le> b \<and> char_boundary a s \<and> char_boundary b s then Some (take (b - a) (drop a s)) else None)"

definition parse_u32 :: "string \<Rightarrow> nat option" where
  "parse_u32 s = parse_unsigned (2 ^ 32 - 1) s"

definition replace_z :: "string \<Rightarrow> string" where
  "replace_z s = concat (map (\<lambda>c. if c = CHR ''Z'' then ''+00:00'' else [c]) s)"

definition fields :: "char \<Rightarrow> string \<Rightarrow> nat list" where
  "fields sep s = List.map_filter parse_u32 (split_on (\<lambda>c. c = sep) s)"

definition unix_days :: "int \<Rightarrow> int \<Rightarrow> int \<Rightarrow> int" where
  "unix_days year month day =
     (let y = (if month \<le> 2 then year - 1 else year);
          m = (if month \<le> 2 then month + 9 else month - 3)
      in 365 * y + y sdiv 4 - y sdiv 100 + y sdiv 400 + (153 * m + 2) sdiv 5 + day - 719469)"

definition chrono_unix_from_iso :: "string \<Rightarrow> (unit, int option) res" where
  "chrono_unix_from_iso s =
     (case parse_i64 s of
        Some n \<Rightarrow> Ok (Some n)
      | None \<Rightarrow>
          let clean = replace_z s
          in if length clean < 19 then Ok None
             else (case (str_slice 0 10 clean, str_slice 11 19 clean) of
                     (Some date, Some time) \<Rightarrow>
                       (case (fields (CHR ''-'') date, fields (CHR '':'') time) of
                          ([y, mo, d], [h, mi, sec]) \<Rightarrow>
                            Ok (Some (unix_days (int y) (int mo) (int d) * 86400 + int h * 3600 + int mi * 60 + int sec))
                        | _ \<Rightarrow> Ok None)
                   | _ \<Rightarrow> Panic))"

section \<open>The calendar\<close>

type_synonym date = "nat \<times> nat \<times> nat"

definition leap :: "nat \<Rightarrow> bool" where
  "leap y \<longleftrightarrow> 4 dvd y \<and> (\<not> 100 dvd y \<or> 400 dvd y)"

definition month_length :: "nat \<Rightarrow> nat \<Rightarrow> nat" where
  "month_length y m = (if m = 2 then (if leap y then 29 else 28) else if m \<in> {4, 6, 9, 11} then 30 else 31)"

fun next_day :: "date \<Rightarrow> date" where
  "next_day (y, m, d) =
     (if d < month_length y m then (y, m, d + 1)
      else if m < 12 then (y, m + 1, 1) else (y + 1, 1, 1))"

definition date_of :: "nat \<Rightarrow> date" where
  "date_of n = (next_day ^^ n) (1970, 1, 1)"

fun valid_date :: "date \<Rightarrow> bool" where
  "valid_date (y, m, d) \<longleftrightarrow> 1970 \<le> y \<and> 1 \<le> m \<and> m \<le> 12 \<and> 1 \<le> d \<and> d \<le> month_length y m"

lemma next_day_valid: "valid_date x \<Longrightarrow> valid_date (next_day x)"
  by (cases x) (auto simp: month_length_def)

lemma date_of_valid: "valid_date (date_of n)"
  by (induction n) (simp_all add: date_of_def month_length_def next_day_valid del: next_day.simps)

lemma leap_iff: "leap y \<longleftrightarrow> y mod 4 = 0 \<and> (y mod 100 \<noteq> 0 \<or> y mod 400 = 0)"
  by (simp add: leap_def dvd_eq_mod_eq_0)

text \<open>The leap days up to a year.\<close>

definition leaps :: "nat \<Rightarrow> int" where
  "leaps y = int (y div 4) - int (y div 100) + int (y div 400)"

lemma div_Suc_int: "0 < k \<Longrightarrow> int (Suc y div k) = int (y div k) + (if Suc y mod k = 0 then 1 else 0)"
  by (simp add: div_Suc)

lemma leaps_Suc: "leaps (Suc y) = leaps y + (if leap (Suc y) then 1 else 0)"
proof -
  have "Suc y mod 100 = 0 \<Longrightarrow> Suc y mod 4 = 0" "Suc y mod 400 = 0 \<Longrightarrow> Suc y mod 100 = 0" by presburger+
  then show ?thesis by (auto simp: leaps_def div_Suc_int leap_iff)
qed

definition day_number :: "nat \<Rightarrow> nat \<Rightarrow> nat \<Rightarrow> int" where
  "day_number y m d =
    (if m \<le> 2 then 365 * (int y - 1) + leaps (y - 1) + int ((153 * (m + 9) + 2) div 5)
     else 365 * int y + leaps y + int ((153 * (m - 3) + 2) div 5)) + int d - 719469"

lemma unix_days_nat:
  assumes "1 \<le> y" "1 \<le> m"
  shows "unix_days (int y) (int m) (int d) = day_number y m d"
proof -
  have s: "int a sdiv int b = int (a div b)" if "0 < b" for a b
    using that by (simp add: sdiv_nonneg zdiv_int)
  show ?thesis
    using assms s [of 4 "y - 1"] s [of 100 "y - 1"] s [of 400 "y - 1"] s [of 4 y] s [of 100 y] s [of 400 y]
      s [of 5 "153 * (m + 9) + 2"] s [of 5 "153 * (m - 3) + 2"]
    by (auto simp: unix_days_def day_number_def Let_def leaps_def of_nat_diff)
qed

lemma month_cases: "(1::nat) \<le> m \<Longrightarrow> m < 12 \<Longrightarrow> m = 1 \<or> m = 2 \<or> m = 3 \<or> m = 4 \<or> m = 5 \<or> m = 6 \<or> m = 7 \<or> m = 8
    \<or> m = 9 \<or> m = 10 \<or> m = 11"
  by arith

lemma day_number_next:
  assumes "valid_date (y, m, d)" "next_day (y, m, d) = (y', m', d')"
  shows "day_number y' m' d' = day_number y m d + 1"
proof -
  have y: "1 \<le> y" "1 \<le> m" "m \<le> 12" and d: "d \<le> month_length y m" using assms(1) by auto
  obtain z where z: "y = Suc z" using y(1) by (cases y) auto
  consider (day) "d < month_length y m" | (month) "d = month_length y m" "m < 12" | (year) "d = month_length y m" "m = 12"
    using d y(3) by linarith
  then show ?thesis
  proof cases
    case day
    then show ?thesis using assms(2) by (auto simp: day_number_def)
  next
    case month
    then have "(y', m', d') = (y, m + 1, 1)" using assms(2) by simp
    from month_cases [OF y(2) month(2)] this show ?thesis
      using month(1) leaps_Suc [of z] by (elim disjE) (auto simp: day_number_def month_length_def z)
  next
    case year
    then have "(y', m', d') = (y + 1, 1, 1)" using assms(2) by simp
    then show ?thesis using year by (simp add: day_number_def month_length_def)
  qed
qed

lemma day_number_date_of: "date_of n = (y, m, d) \<Longrightarrow> day_number y m d = int n"
proof (induction n arbitrary: y m d)
  case 0
  then show ?case by (auto simp: date_of_def day_number_def leaps_def)
next
  case (Suc n)
  obtain y0 m0 d0 where p: "date_of n = (y0, m0, d0)" by (cases "date_of n")
  then have "next_day (y0, m0, d0) = (y, m, d)" using Suc.prems by (simp add: date_of_def)
  then show ?case using day_number_next Suc.IH [OF p] date_of_valid [of n] p by (metis of_nat_Suc add.commute)
qed

lemma unix_days_date_of:
  assumes "date_of n = (y, m, d)"
  shows "unix_days (int y) (int m) (int d) = int n"
proof -
  have "1 \<le> y" "1 \<le> m" using date_of_valid [of n] assms by auto
  then show ?thesis using unix_days_nat day_number_date_of [OF assms] by metis
qed

section \<open>Written times\<close>

fun pad :: "nat \<Rightarrow> nat \<Rightarrow> string" where
  "pad 0 n = []"
| "pad (Suc k) n = pad k (n div 10) @ [char_of (48 + n mod 10)]"

definition iso_text :: "date \<Rightarrow> nat \<Rightarrow> nat \<Rightarrow> nat \<Rightarrow> string \<Rightarrow> string" where
  "iso_text day h mi sec zone =
     (case day of (y, m, d) \<Rightarrow>
        pad 4 y @ ''-'' @ pad 2 m @ ''-'' @ pad 2 d @ ''T'' @ pad 2 h @ '':'' @ pad 2 mi @ '':'' @ pad 2 sec @ zone)"

lemma length_pad [simp]: "length (pad k n) = k"
  by (induction k arbitrary: n) auto

lemma pad_digits: "list_all is_digit (pad k n)"
  using digit_char by (induction k arbitrary: n) auto

lemma digits_val_pad: "n < 10 ^ k \<Longrightarrow> digits_val (pad k n) = n"
proof (induction k arbitrary: n)
  case (Suc k)
  then have "digits_val (pad k (n div 10)) = n div 10" by (simp add: less_mult_imp_div_less mult.commute)
  then show ?case using digit_char [of "n mod 10"] by (simp add: digits_val_snoc)
qed (simp add: digits_val_def)

lemma not_digit: "\<not> is_digit (CHR ''-'')" "\<not> is_digit (CHR ''+'')" "\<not> is_digit (CHR '':'')" "\<not> is_digit (CHR ''Z'')"
  "\<not> is_digit (CHR ''T'')"
  by (simp_all add: is_digit_def)

lemma digits_no_sign:
  assumes "list_all is_digit s"
  shows "starts_with (s @ t) [c] \<longleftrightarrow> (if s = [] then starts_with t [c] else is_digit c \<and> hd s = c)"
  using assms by (cases s) (auto simp: starts_with_def)

lemma parse_pad:
  assumes "n < 10 ^ k" "0 < k" "k \<le> 9"
  shows "parse_u32 (pad k n) = Some n"
proof -
  have "(10::nat) ^ k \<le> 10 ^ 9" using assms(3) by (rule power_increasing) simp
  then have "n \<le> 2 ^ 32 - 1" using assms(1) by simp
  moreover have "pad k n \<noteq> []" using assms(2) by (metis length_pad less_numeral_extra(3) list.size(3))
  ultimately show ?thesis
    using pad_digits [of k n] digits_no_sign [OF pad_digits [of k n], of "[]"] digits_val_pad [OF assms(1)] not_digit(2)
    by (simp add: parse_u32_def parse_unsigned_def Let_def)
qed

lemma split_on_last: "list_all (\<lambda>c. \<not> p c) w \<Longrightarrow> split_on p w = [w]"
  by (induction w) auto

lemma split_on_cons: "list_all (\<lambda>c. \<not> p c) w \<Longrightarrow> p c \<Longrightarrow> split_on p (w @ c # s) = w # split_on p s"
  by (induction w) auto

lemma digits_avoid: "list_all is_digit s \<Longrightarrow> \<not> is_digit c \<Longrightarrow> list_all (\<lambda>d. d \<noteq> c) s"
  by (auto simp: list_all_iff)

lemma fields_pad:
  assumes "a < 10 ^ i" "b < 10 ^ j" "c < 10 ^ k" "0 < i" "i \<le> 9" "0 < j" "j \<le> 9" "0 < k" "k \<le> 9" "\<not> is_digit sep"
  shows "fields sep (pad i a @ sep # pad j b @ sep # pad k c) = [a, b, c]"
proof -
  note av = digits_avoid [OF pad_digits assms(10)]
  show ?thesis
    using parse_pad assms split_on_cons [OF av, of sep] split_on_last [OF av]
    by (simp add: fields_def List.map_filter_def)
qed

lemma replace_z_append: "replace_z (s @ t) = replace_z s @ replace_z t"
  by (simp add: replace_z_def)

lemma replace_z_digits: "list_all is_digit s \<Longrightarrow> replace_z s = s"
  using not_digit(4) by (induction s) (auto simp: replace_z_def)

lemma digit_boundary: "is_digit c \<Longrightarrow> (of_char c :: nat) < 128"
  by (simp add: is_digit_def Let_def)
lemma iso_read:
  assumes "y < 10000" "m < 100" "d < 100" "h < 100" "mi < 100" "sec < 100"
    and "zone \<noteq> []" "(of_char (hd (replace_z zone)) :: nat) < 128" "replace_z zone \<noteq> []"
  shows "chrono_unix_from_iso (iso_text (y, m, d) h mi sec zone) =
    Ok (Some (unix_days (int y) (int m) (int d) * 86400 + int h * 3600 + int mi * 60 + int sec))"
proof -
  let ?d = "pad 4 y @ CHR ''-'' # pad 2 m @ CHR ''-'' # pad 2 d" and ?t = "pad 2 h @ CHR '':'' # pad 2 mi @ CHR '':'' # pad 2 sec"
  let ?clean = "?d @ CHR ''T'' # ?t @ replace_z zone"
  have "c \<noteq> CHR ''Z'' \<Longrightarrow> replace_z (c # s) = c # replace_z s" for c s by (simp add: replace_z_def)
  then have clean: "replace_z (iso_text (y, m, d) h mi sec zone) = ?clean"
    by (simp add: iso_text_def replace_z_append replace_z_digits [OF pad_digits])
  have len: "length ?d = 10" "length ?t = 8" by simp_all
  obtain c cs where p4: "pad 4 y = c # cs" using length_pad [of 4 y] by (cases "pad 4 y") auto
  obtain e es where p2: "pad 2 h = e # es" using length_pad [of 2 h] by (cases "pad 2 h") auto
  have dig: "is_digit c" "is_digit e" using pad_digits [of 4 y] pad_digits [of 2 h] by (simp_all add: p4 p2)
  have b: "char_boundary 0 ?clean" "char_boundary 10 ?clean" "char_boundary 11 ?clean" "char_boundary 19 ?clean"
    using digit_boundary [OF dig(1)] digit_boundary [OF dig(2)] assms(8,9) len
    by (simp_all add: char_boundary_def Let_def nth_append p4 p2 hd_conv_nth)
  then have sl: "str_slice 0 10 ?clean = Some ?d" "str_slice 11 19 ?clean = Some ?t"
    by (simp_all add: str_slice_def)
  have ne: "\<not> list_all is_digit (iso_text (y, m, d) h mi sec zone)"
    using not_digit(1) by (simp add: iso_text_def)
  have "parse_i64 (iso_text (y, m, d) h mi sec zone) = None"
    using ne dig not_digit by (auto simp: parse_i64_def parse_unsigned_def starts_with_def iso_text_def p4)
  moreover have "fields (CHR ''-'') ?d = [y, m, d]"
    using fields_pad [of y 4 m 2 d 2 "CHR ''-''"] assms not_digit by simp
  moreover have "fields (CHR '':'') ?t = [h, mi, sec]"
    using fields_pad [of h 2 mi 2 sec 2 "CHR '':''"] assms not_digit by simp
  ultimately show ?thesis
    by (simp add: chrono_unix_from_iso_def clean sl [unfolded append_assoc append_Cons] Let_def)
qed

section \<open>Properties\<close>

text \<open>C1. Times are read as written: for every day from 1970 to 9999 of the Gregorian calendar, counted day by
  day, and every time of the day, the text \<open>YYYY-MM-DDThh:mm:ssZ\<close> reads as the seconds since the epoch.
  An offset in place of the \<open>Z\<close> is not looked at: the text then reads as if it were in UTC.\<close>

theorem iso_roundtrip:
  assumes "fst (date_of n) < 10000" "h < 24" "mi < 60" "sec < 60"
  shows "chrono_unix_from_iso (iso_text (date_of n) h mi sec ''Z'')
      = Ok (Some (int n * 86400 + int h * 3600 + int mi * 60 + int sec))
    \<and> chrono_unix_from_iso (iso_text (date_of n) h mi sec (''+'' @ pad 2 zh @ '':'' @ pad 2 zm))
      = Ok (Some (int n * 86400 + int h * 3600 + int mi * 60 + int sec))"
proof -
  obtain y m d where date: "date_of n = (y, m, d)" by (cases "date_of n")
  have "m < 100" "d < 100" using date_of_valid [of n] by (auto simp: date month_length_def split: if_splits)
  then show ?thesis
    using iso_read [of y m d h mi sec] assms
    by (simp add: date unix_days_date_of [OF date] replace_z_def)
qed

theorem iso_roundtrip_witness:
  "chrono_unix_from_iso (iso_text (date_of 0) 12 30 0 ''Z'') = Ok (Some 45000)
   \<and> chrono_unix_from_iso (iso_text (date_of 0) 12 30 0 (''+'' @ pad 2 5 @ '':'' @ pad 2 0)) = Ok (Some 45000)"
  using iso_roundtrip [of 0 12 30 0 5 0] by (simp add: date_of_def del: pad.simps)

end
