(* ===== verification/TxGuard.thy ===== *)
theory TxGuard
  imports Guards
begin

text \<open>
  The pre-flight transaction guard of the rebalancer (\<open>crates/portfolio-sidecar/src/tx_guard.rs\<close>).
  The source compares the lower-case rendering of \<open>to\<close> with literal strings; an address and its
  rendering determine each other, so the lists are addresses here.
\<close>

section \<open>Known contracts\<close>

definition across_spoke_pools :: "evm_addr list" where
  "across_spoke_pools =
     [0x5c7bcd6e7de5423a257d81b442095a1a6ced35c5, 0x6f26bf09b1c792e3228e5467807a900a503c0281,
      0x9295ee1d8c5b022be115a2ad3c30c72e34e7f096, 0x09aea4b2242abc8bb4bb78d537a67a245a7bec64,
      0xe35e9842fceaca96570b734083f4a58e8f7c5f2a, 0x7e63a5f1a8f0b4d0934b2f2327daed3f6bb2ee75]"

definition debridge_dln_contracts :: "evm_addr list" where
  "debridge_dln_contracts = [0xef4fb24ad0916217251f553c0596f8edc630eb66]"

definition mayan_contracts :: "evm_addr list" where
  "mayan_contracts = [0x337685fdab40d39bd02028545a4ffa7d287cc3e2, 0x40ffe85a28dc9993541449464d7529a922142960]"

definition uniswap_routers :: "evm_addr list" where
  "uniswap_routers =
     [0x2626664c2603336e57b271c5c0b26f421741e481, 0x68b3465833fb72a70ecdf485e0e4c7bd8665fc45,
      0xe592427a0aece92de3edee1f18e0157c05861564]"

definition weth_contracts :: "evm_addr list" where
  "weth_contracts =
     [0x4200000000000000000000000000000000000006, 0x82af49447d8a07e3bd95bd0d56f35241523fbab1,
      0xc02aaa39b223fe8d0a0e5c4f27ead9083c756cc2, 0x0d500b1d8e8ef31e21c99d1db9a6444d3adf1270,
      0xe5d7c2a44ffddf6b295a15c148167daaaf5cf34f]"

definition approve_selector :: bytes where
  "approve_selector = [0x09, 0x5e, 0xa7, 0xb3]"

definition is_approve_calldata :: "bytes \<Rightarrow> bool" where
  "is_approve_calldata data \<longleftrightarrow> 4 \<le> length data \<and> take 4 data = approve_selector"

text \<open>The selector shown in the error: empty when the calldata is shorter than one.\<close>

definition shown_selector :: "bytes \<Rightarrow> bytes" where
  "shown_selector data = (if 4 \<le> length data then take 4 data else [])"

section \<open>The guard\<close>

record tx_guard =
  tg_solver :: evm_addr
  tg_wells :: "evm_addr list"
  tg_tokens :: "evm_addr list"

definition tx_guard_new :: "evm_addr \<Rightarrow> evm_addr list \<Rightarrow> evm_addr list \<Rightarrow> tx_guard" where
  "tx_guard_new solver wells tokens = \<lparr>tg_solver = solver, tg_wells = wells, tg_tokens = tokens\<rparr>"

definition with_default_tokens :: "evm_addr \<Rightarrow> evm_addr list \<Rightarrow> tx_guard" where
  "with_default_tokens solver wells = tx_guard_new solver wells
     ([0xfde4c96c8593536e31f229ea8f37b2ada2699bb2, 0xa0b86991c6218b36c1d19d4a2e9eb0ce3606eb48,
       0xaf88d065e77c8cc2239327c5edb3a432268e5831, 0x0b2c639c533813f4aa9d7837caf62653d097ff85,
       0x833589fcd6edb6e08f4c7c32d4f71b54bda02913, 0x2791bca1f2de4661ed88a30c99a7a9449aa84174,
       0x176211869ca2b568f2a7d4ee941e073a821ee1ff, 0x078d782b760474a361dda7ff6e249887ddf39eb0,
       0x8ac76a51cc950d9822d68b83fe1ad97b32cd580d] @ weth_contracts)"

datatype guard_error =
    EmbeddedRecipient evm_addr evm_addr
  | NonApproveCall evm_addr bytes
  | UnknownTarget evm_addr

definition check :: "tx_guard \<Rightarrow> evm_addr \<Rightarrow> bytes \<Rightarrow> evm_addr list \<Rightarrow> guard_error + unit" where
  "check g to data recipients =
     (case List.find (\<lambda>a. a \<noteq> tg_solver g \<and> a \<noteq> 0) recipients of
        Some a \<Rightarrow> Inl (EmbeddedRecipient a (tg_solver g))
      | None \<Rightarrow>
          if to = tg_solver g then Inr ()
          else if to \<in> set (tg_wells g) then Inr ()
          else if to \<in> set across_spoke_pools then Inr ()
          else if to \<in> set debridge_dln_contracts then Inr ()
          else if to \<in> set mayan_contracts then Inr ()
          else if to \<in> set uniswap_routers then Inr ()
          else if to \<in> set weth_contracts then Inr ()
          else if to \<in> set (tg_tokens g)
          then if is_approve_calldata data then Inr () else Inl (NonApproveCall to (shown_selector data))
          else Inl (UnknownTarget to))"

text \<open>The targets that pass whatever the call is.\<close>

definition open_targets :: "tx_guard \<Rightarrow> evm_addr set" where
  "open_targets g = {tg_solver g} \<union> set (tg_wells g) \<union> set across_spoke_pools \<union> set debridge_dln_contracts
     \<union> set mayan_contracts \<union> set uniswap_routers \<union> set weth_contracts"

section \<open>Properties\<close>

text \<open>What the transaction guard lets through, exactly: every recipient found in the calldata is the
  solver or the zero address, and the target is the solver, a well or one of the known contracts, or a
  listed token called with \<open>approve\<close>.  Everything else is blocked, with the reason that applies first.\<close>

theorem tx_guard_exact:
  "(check g to data rs = Inr () \<longleftrightarrow>
      set rs \<subseteq> {tg_solver g, 0} \<and> (to \<in> open_targets g \<or> to \<in> set (tg_tokens g) \<and> is_approve_calldata data))
   \<and> (check g to data rs = Inl (UnknownTarget to) \<longleftrightarrow>
        set rs \<subseteq> {tg_solver g, 0} \<and> to \<notin> open_targets g \<union> set (tg_tokens g))
   \<and> (check g to data rs = Inl (NonApproveCall to (shown_selector data)) \<longleftrightarrow>
        set rs \<subseteq> {tg_solver g, 0} \<and> to \<in> set (tg_tokens g) - open_targets g \<and> \<not> is_approve_calldata data)"
proof (cases "List.find (\<lambda>a. a \<noteq> tg_solver g \<and> a \<noteq> 0) rs")
  case None
  then have "set rs \<subseteq> {tg_solver g, 0}" by (auto simp: find_None_iff)
  with None show ?thesis by (auto simp: check_def open_targets_def)
next
  case (Some a)
  then have "\<not> set rs \<subseteq> {tg_solver g, 0}" by (auto simp: find_Some_iff) (metis nth_mem subsetD insertE singletonD)
  with Some show ?thesis by (auto simp: check_def)
qed

text \<open>A transfer out of a wrapped-ether contract passes the guard.  The wrapped-ether contracts are
  listed for wrapping and unwrapping and are also approvable tokens whose \<open>transfer\<close> is to be blocked,
  but their address is accepted before the token rule, with any calldata; the same call on any other
  default token is blocked.\<close>

theorem weth_transfer_passes:
  assumes "weth \<in> set weth_contracts" "token \<in> set (tg_tokens (with_default_tokens solver []))"
    and "token \<notin> open_targets (with_default_tokens solver [])" "\<not> is_approve_calldata data"
  shows "check (with_default_tokens solver []) weth data [] = Inr ()
    \<and> weth \<in> set (tg_tokens (with_default_tokens solver []))
    \<and> check (with_default_tokens solver []) token data [] = Inl (NonApproveCall token (shown_selector data))"
  using assms by (auto simp: check_def open_targets_def with_default_tokens_def tx_guard_new_def)

theorem weth_transfer_passes_witness:
  "check (with_default_tokens 5 []) 0x4200000000000000000000000000000000000006 [0xa9, 0x05, 0x9c, 0xbb] [] = Inr ()"
  by (rule conjunct1 [OF weth_transfer_passes [where token = "0x833589fcd6edb6e08f4c7c32d4f71b54bda02913"]])
    (simp_all add: weth_contracts_def with_default_tokens_def tx_guard_new_def open_targets_def across_spoke_pools_def
      debridge_dln_contracts_def mayan_contracts_def uniswap_routers_def is_approve_calldata_def approve_selector_def)

end
