(* ===== verification/Inventory.thy ===== *)
theory Inventory
  imports TxGuard
begin

text \<open>
  The portfolio side car's view of the chains: funding targets and their classification
  (\<open>crates/portfolio-sidecar/src/inventory.rs\<close>) and the balance scan
  (\<open>crates/portfolio-sidecar/src/scanner.rs\<close>).  What a node answers to a balance query is a
  parameter (\<open>None\<close>: it cannot be reached or does not answer as expected), environment variables
  are a function from their names.
\<close>

type_synonym u128 = "128 word"

definition f_of_u128 :: "u128 \<Rightarrow> f64" where
  "f_of_u128 w = f_of_nat (unat w)"

text \<open>\<open>as u128\<close>: truncation towards zero, saturating, NaN to zero.\<close>

fun f_to_u128 :: "f64 \<Rightarrow> u128" where
  "f_to_u128 NaN = 0"
| "f_to_u128 NInf = 0"
| "f_to_u128 PInf = - 1"
| "f_to_u128 (Fin q) = (if q \<le> 0 then 0 else word_of_int (min (2 ^ 128 - 1) \<lfloor>q\<rfloor>))"

text \<open>\<open>10f64.powi\<close> of a token's decimals; the powers of ten up to the twenty-second are doubles.\<close>

definition pow10 :: "nat \<Rightarrow> f64" where
  "pow10 d = fround (10 ^ d)"

section \<open>Targets\<close>

datatype inventory_status = Healthy | LowGas | LowFunds | Critical | Surplus | SrcOnly

record inventory_target =
  it_chain :: u64
  it_name :: string
  it_min :: f64
  it_target :: f64
  it_high :: f64
  it_gas :: f64
  it_fill :: bool

definition classify :: "inventory_target \<Rightarrow> f64 \<Rightarrow> f64 \<Rightarrow> inventory_status" where
  "classify t bal gas =
     (if \<not> it_fill t then SrcOnly
      else let gas_ok = f_ge gas (it_gas t); stable_ok = f_ge bal (it_min t); surplus = f_ge bal (it_high t)
           in if surplus \<and> gas_ok then Surplus
              else if gas_ok \<and> stable_ok then Healthy
              else if gas_ok \<and> \<not> stable_ok then LowFunds
              else if \<not> gas_ok \<and> stable_ok then LowGas
              else Critical)"

definition stable_shortfall :: "inventory_target \<Rightarrow> f64 \<Rightarrow> f64" where
  "stable_shortfall t current = f_max (f_sub (it_target t) current) (Fin 0)"

definition min_solana_sol :: f64 where "min_solana_sol = fround (5 / 1000)"
definition warn_solana_sol :: f64 where "warn_solana_sol = fround (1 / 100)"

datatype solana_gas_status = SolHealthy | SolWarn | SolLowGas | SolUnknown

definition classify_solana_gas :: "f64 option \<Rightarrow> solana_gas_status" where
  "classify_solana_gas sol =
     (case sol of
        None \<Rightarrow> SolUnknown
      | Some s \<Rightarrow> if f_lt s min_solana_sol then SolLowGas else if f_lt s warn_solana_sol then SolWarn else SolHealthy)"

definition fill_target :: "u64 \<Rightarrow> string \<Rightarrow> nat \<Rightarrow> nat \<Rightarrow> nat \<Rightarrow> inventory_target" where
  "fill_target c name mn tgt high =
     \<lparr>it_chain = c, it_name = name, it_min = f_of_nat mn, it_target = f_of_nat tgt, it_high = f_of_nat high,
      it_gas = fround (2 / 1000), it_fill = True\<rparr>"

definition src_target :: "u64 \<Rightarrow> string \<Rightarrow> inventory_target" where
  "src_target c name =
     \<lparr>it_chain = c, it_name = name, it_min = Fin 0, it_target = Fin 0, it_high = Fin 1, it_gas = Fin 0, it_fill = False\<rparr>"

definition built_in_targets :: "inventory_target list" where
  "built_in_targets =
     [fill_target 8453 ''Base'' 50 150 400, fill_target 42161 ''Arbitrum'' 30 100 300,
      fill_target 10 ''Optimism'' 20 80 200, src_target 1 ''Ethereum'', src_target 137 ''Polygon'',
      src_target 324 ''zkSync'', src_target 59144 ''Linea'', src_target 534352 ''Scroll'']"

definition env_f64 :: "(string \<Rightarrow> string option) \<Rightarrow> string \<Rightarrow> f64 \<Rightarrow> f64" where
  "env_f64 env key d = (case Option.bind (env key) parse_f64 of None \<Rightarrow> d | Some f \<Rightarrow> f)"

definition default_targets :: "(string \<Rightarrow> string option) \<Rightarrow> inventory_target list" where
  "default_targets env =
     map (\<lambda>t. let i = show_nat (unat (it_chain t))
              in t\<lparr>it_min := env_f64 env (''SIDECAR_MIN_STABLE_'' @ i) (it_min t),
                    it_target := env_f64 env (''SIDECAR_TARGET_STABLE_'' @ i) (it_target t),
                    it_high := env_f64 env (''SIDECAR_HIGH_WATER_'' @ i) (it_high t),
                    it_gas := env_f64 env (''SIDECAR_MIN_GAS_'' @ i) (it_gas t)\<rparr>) built_in_targets"

section \<open>The scan\<close>

record chain_tokens =
  ct_chain :: u64
  ct_rpc :: string
  ct_primary :: "(string \<times> nat) option"
  ct_secondary :: "(string \<times> nat) option"
  ct_weth :: "string option"

definition chain_token_map :: "chain_tokens list" where
  "chain_token_map =
     [\<lparr>ct_chain = 8453, ct_rpc = ''https://mainnet.base.org'',
       ct_primary = Some (''0x833589fCD6eDb6E08f4c7C32D4f71b54bdA02913'', 6),
       ct_secondary = Some (''0xfde4C96c8593536E31F229EA8f37b2ADa2699bb2'', 6),
       ct_weth = Some ''0x4200000000000000000000000000000000000006''\<rparr>,
      \<lparr>ct_chain = 42161, ct_rpc = ''https://arb1.arbitrum.io/rpc'',
       ct_primary = Some (''0xaf88d065e77c8cC2239327C5EDb3A432268e5831'', 6),
       ct_secondary = Some (''0xFd086bC7CD5C481DCC9C85ebE478A1C0b69FCbb9'', 6),
       ct_weth = Some ''0x82aF49447D8a07e3bd95BD0d56f35241523fBab1''\<rparr>,
      \<lparr>ct_chain = 10, ct_rpc = ''https://mainnet.optimism.io'',
       ct_primary = Some (''0x0b2C639c533813f4Aa9D7837CAf62653d097Ff85'', 6),
       ct_secondary = Some (''0x94b008aA00579c1307B0EF2c499aD98a8ce58e58'', 6),
       ct_weth = Some ''0x4200000000000000000000000000000000000006''\<rparr>,
      \<lparr>ct_chain = 1, ct_rpc = ''https://eth.llamarpc.com'',
       ct_primary = Some (''0xA0b86991c6218b36c1d19D4a2e9Eb0cE3606eB48'', 6),
       ct_secondary = Some (''0xdAC17F958D2ee523a2206206994597C13D831ec7'', 6),
       ct_weth = Some ''0xC02aaA39b223FE8D0A0e5C4F27eAD9083C756Cc2''\<rparr>,
      \<lparr>ct_chain = 137, ct_rpc = ''https://polygon-bor-rpc.publicnode.com'',
       ct_primary = Some (''0x2791Bca1f2de4661ED88A30C99A7a9449Aa84174'', 6),
       ct_secondary = Some (''0xc2132D05D31c914a87C6611C10748AEb04B58e8F'', 6), ct_weth = None\<rparr>,
      \<lparr>ct_chain = 324, ct_rpc = ''https://mainnet.era.zksync.io'',
       ct_primary = Some (''0x1d17CBcF0D6D143135aE902365D2E5e2A16538D4'', 6),
       ct_secondary = Some (''0x493257fD37EDB34451f62EDf8D2a0C418852bA4C'', 6), ct_weth = None\<rparr>,
      \<lparr>ct_chain = 59144, ct_rpc = ''https://rpc.linea.build'',
       ct_primary = Some (''0x176211869cA2b568f2A7D4EE941E073a821EE1ff'', 6), ct_secondary = None, ct_weth = None\<rparr>,
      \<lparr>ct_chain = 534352, ct_rpc = ''https://rpc.scroll.io'',
       ct_primary = Some (''0x06eFdBFf2a14a7c8E15944D1F4A48F9F95F663A4'', 6), ct_secondary = None, ct_weth = None\<rparr>]"

record chain_snapshot =
  sn_chain :: u64
  sn_stable_usd :: f64
  sn_primary_raw :: u128
  sn_primary_addr :: string
  sn_primary_decimals :: nat
  sn_primary_usd :: f64
  sn_secondary_usd :: f64
  sn_secondary_raw :: u128
  sn_secondary_addr :: string
  sn_secondary_decimals :: nat
  sn_gas_eth :: f64
  sn_weth_usd :: f64
  sn_weth_raw :: u128
  sn_bridge_addr :: string
  sn_bridge_decimals :: nat
  sn_bridge_raw :: u128
  sn_bridge_usd :: f64

text \<open>A node: the answer to \<open>eth_getBalance\<close> in wei, and the bytes an \<open>eth_call\<close> of \<open>balanceOf\<close>
  returns for a token.\<close>

record node =
  nd_wei :: "string \<Rightarrow> u128 option"
  nd_balance_of :: "string \<Rightarrow> string \<Rightarrow> bytes option"

definition eth_balance :: "node \<Rightarrow> string \<Rightarrow> f64 option" where
  "eth_balance n rpc = map_option (\<lambda>w. f_div (f_of_u128 w) (pow10 18)) (nd_wei n rpc)"

definition be_val :: "bytes \<Rightarrow> nat" where
  "be_val bs = foldl (\<lambda>n b. 256 * n + unat b) 0 bs"

definition erc20_balance_raw :: "node \<Rightarrow> string \<Rightarrow> string \<Rightarrow> u128 option" where
  "erc20_balance_raw n rpc token =
     (case nd_balance_of n rpc token of
        None \<Rightarrow> None
      | Some bs \<Rightarrow> if 16 < length bs then Some (of_nat (be_val (drop (length bs - 16) bs))) else Some (of_nat (be_val bs)))"

definition scan_stable :: "node \<Rightarrow> string \<Rightarrow> (string \<times> nat) option \<Rightarrow> u128 \<times> f64 \<times> string \<times> nat" where
  "scan_stable n rpc tok =
     (case tok of
        None \<Rightarrow> (0, Fin 0, '''', 6)
      | Some (addr, dec) \<Rightarrow>
          let raw = (case erc20_balance_raw n rpc addr of None \<Rightarrow> 0 | Some r \<Rightarrow> r)
          in (raw, f_div (f_of_u128 raw) (pow10 dec), addr, dec))"

definition scan_chain :: "node \<Rightarrow> f64 \<Rightarrow> chain_tokens \<Rightarrow> chain_snapshot" where
  "scan_chain n weth_price ct =
     (let gas = (case eth_balance n (ct_rpc ct) of None \<Rightarrow> Fin 0 | Some g \<Rightarrow> g);
          (praw, pusd, paddr, pdec) = scan_stable n (ct_rpc ct) (ct_primary ct);
          (sraw, susd, saddr, sdec) = scan_stable n (ct_rpc ct) (ct_secondary ct);
          (wusd, wraw) = (case ct_weth ct of
              None \<Rightarrow> (Fin 0, 0)
            | Some a \<Rightarrow> let raw = (case erc20_balance_raw n (ct_rpc ct) a of None \<Rightarrow> 0 | Some r \<Rightarrow> r)
                        in (f_mul (f_div (f_of_u128 raw) (pow10 18)) weth_price, raw));
          (baddr, bdec, braw, busd) =
            (if f_ge pusd susd \<and> 0 < praw then (paddr, pdec, praw, pusd)
             else if 0 < sraw then (saddr, sdec, sraw, susd)
             else (paddr, pdec, 0, Fin 0))
      in \<lparr>sn_chain = ct_chain ct, sn_stable_usd = f_add pusd susd, sn_primary_raw = praw, sn_primary_addr = paddr,
          sn_primary_decimals = pdec, sn_primary_usd = pusd, sn_secondary_usd = susd, sn_secondary_raw = sraw,
          sn_secondary_addr = saddr, sn_secondary_decimals = sdec, sn_gas_eth = gas, sn_weth_usd = wusd,
          sn_weth_raw = wraw, sn_bridge_addr = baddr, sn_bridge_decimals = bdec, sn_bridge_raw = braw,
          sn_bridge_usd = busd\<rparr>)"

definition scan_all :: "node \<Rightarrow> f64 \<Rightarrow> chain_snapshot list" where
  "scan_all n weth_price = map (scan_chain n weth_price) chain_token_map"

end
