(* ===== verification/Across.thy ===== *)
theory Across
  imports Calendar Inventory
begin

text \<open>
  The feed of Across deposits (\<open>AcrossPoller\<close> and \<open>across_deposit_to_intent\<close> of
  \<open>crates/genome-client/src/lib.rs\<close>), with the access to JSON values and the intent record all feeds
  share.  What the API answers, the clock and the receiver of the channel are inputs of the steps.
\<close>

section \<open>JSON values\<close>

text \<open>Numbers are as the JSON library holds them: an integer is within \<open>i64\<close> or \<open>u64\<close>.\<close>

fun jget :: "string \<Rightarrow> json \<Rightarrow> json option" where
  "jget k (JObj kvs) = map_of kvs k"
| "jget k _ = None"

fun json_str :: "json \<Rightarrow> string option" where
  "json_str (JStr s) = Some s"
| "json_str _ = None"

fun as_i64 :: "json \<Rightarrow> int option" where
  "as_i64 (JInt n) = (if in_i64 n then Some n else None)"
| "as_i64 _ = None"

fun as_u64 :: "json \<Rightarrow> u64 option" where
  "as_u64 (JInt n) = (if 0 \<le> n \<and> n < 2 ^ 64 then Some (word_of_int n) else None)"
| "as_u64 _ = None"

fun as_f64 :: "json \<Rightarrow> f64 option" where
  "as_f64 (JInt n) = Some (fround (of_int n))"
| "as_f64 (JFloat f) = Some f"
| "as_f64 _ = None"

definition jstr :: "string \<Rightarrow> json \<Rightarrow> string option" where
  "jstr k v = Option.bind (jget k v) json_str"

definition or_str :: "string option \<Rightarrow> string \<Rightarrow> string" where
  "or_str x d = (case x of None \<Rightarrow> d | Some s \<Rightarrow> s)"

definition or_int :: "int option \<Rightarrow> int \<Rightarrow> int" where
  "or_int x d = (case x of None \<Rightarrow> d | Some n \<Rightarrow> n)"

section \<open>Intents of the feeds\<close>

text \<open>The fields of \<open>Intent\<close> beyond those the controller reads.\<close>

record feed_intent = intent +
  fi_maker_order_nonce :: "u64 option"
  fi_give_patch_authority :: "string option"
  fi_order_authority_dst :: "string option"
  fi_cancel_beneficiary :: "string option"
  fi_trader :: "string option"
  fi_lifi_quote_id :: "string option"
  fi_lifi_transaction_id :: "string option"
  fi_bridge :: "string option"
  fi_tool :: "string option"
  fi_wormhole_id :: "16 word option"
  fi_swift_program_id :: "string option"
  fi_state_account :: "string option"
  fi_vault_account :: "string option"
  fi_compute_units :: "u64 option"
  fi_mayan_random :: "string option"
  fi_mayan_cancel_fee :: "u64 option"
  fi_mayan_refund_fee :: "u64 option"
  fi_mayan_referrer_addr :: "string option"
  fi_mayan_referrer_bps :: "u8 option"
  fi_mayan_gas_drop :: "u64 option"
  fi_mayan_min_amount_out :: "u64 option"
  fi_is_dln_source_solana :: "bool option"

definition default_intent :: feed_intent where
  "default_intent =
     \<lparr>i_id = [], i_protocol = [], i_src_chain = 0, i_dst_chain = 0, i_src_token = [], i_dst_token = [], i_amount = [],
      i_depositor = [], i_recipient = [], i_tx_hash = [], i_detected_at = 0, i_output_amount = None,
      i_deposit_id = None, i_give_amount = None, i_take_amount = None, i_order_id = None,
      i_dln_allowed_taker_dst = None, i_dln_external_call = None, i_mayan_order_id = None, i_deadline = None,
      i_is_solana_source = None, i_fill_deadline = None, i_exclusivity_deadline = None, i_exclusive_relayer = None,
      i_message = None, i_batch_id = None, i_mayan_auction_mode = None, i_is_solana_destination = None,
      fi_maker_order_nonce = None, fi_give_patch_authority = None, fi_order_authority_dst = None,
      fi_cancel_beneficiary = None, fi_trader = None, fi_lifi_quote_id = None, fi_lifi_transaction_id = None,
      fi_bridge = None, fi_tool = None, fi_wormhole_id = None, fi_swift_program_id = None, fi_state_account = None,
      fi_vault_account = None, fi_compute_units = None, fi_mayan_random = None, fi_mayan_cancel_fee = None,
      fi_mayan_refund_fee = None, fi_mayan_referrer_addr = None, fi_mayan_referrer_bps = None,
      fi_mayan_gas_drop = None, fi_mayan_min_amount_out = None, fi_is_dln_source_solana = None\<rparr>"

section \<open>One deposit\<close>

text \<open>A time given as a number or as a text.\<close>

definition opt_time :: "string \<Rightarrow> json \<Rightarrow> (unit, int option) res" where
  "opt_time k dep =
     (case jget k dep of
        None \<Rightarrow> Ok None
      | Some v \<Rightarrow>
          (case as_i64 v of
             Some n \<Rightarrow> Ok (Some n)
           | None \<Rightarrow> (case json_str v of None \<Rightarrow> Ok None | Some s \<Rightarrow> chrono_unix_from_iso s)))"

definition deposit_amount :: "string \<Rightarrow> json \<Rightarrow> string" where
  "deposit_amount k dep =
     or_str (Option.bind (jget k dep) (\<lambda>v. case json_str v of
         Some s \<Rightarrow> Some s
       | None \<Rightarrow> map_option (\<lambda>f. show_nat (unat (f_to_u128 f))) (as_f64 v))) ''0''"

definition across_deposit_to_intent :: "u64 \<Rightarrow> json \<Rightarrow> u64 \<Rightarrow> int \<Rightarrow> int \<Rightarrow> (unit, feed_intent) res" where
  "across_deposit_to_intent now dep dst dep_id fill_deadline =
     res_bind (opt_time ''exclusivityDeadline'' dep) (\<lambda>excl.
       let depositor = or_str (jstr ''depositor'' dep) ''0x0'';
           tx = (case jstr ''depositTxHash'' dep of Some s \<Rightarrow> s | None \<Rightarrow> or_str (jstr ''txHash'' dep) ''0x'')
       in Ok (default_intent\<lparr>
            i_id := ''across_v3:dep:'' @ show_int dep_id,
            i_protocol := ''across_v3'',
            i_src_chain := (case Option.bind (jget ''originChainId'' dep) as_u64 of None \<Rightarrow> 1 | Some c \<Rightarrow> c),
            i_dst_chain := dst,
            i_src_token := or_str (jstr ''inputToken'' dep) ''0x0'',
            i_dst_token := or_str (jstr ''outputToken'' dep) ''0x0'',
            i_amount := deposit_amount ''inputAmount'' dep,
            i_depositor := depositor,
            i_recipient := or_str (jstr ''recipient'' dep) depositor,
            i_tx_hash := tx,
            i_output_amount := Some (deposit_amount ''outputAmount'' dep),
            i_deposit_id := Some dep_id,
            i_fill_deadline := (if 0 < fill_deadline then Some (word_of_int fill_deadline) else None),
            i_exclusivity_deadline := map_option word_of_int excl,
            i_exclusive_relayer := jstr ''exclusiveRelayer'' dep,
            i_message := jstr ''message'' dep,
            i_detected_at := now\<rparr>))"

definition deposit_number :: "json \<Rightarrow> int option" where
  "deposit_number dep =
     Option.bind (jget ''depositId'' dep) (\<lambda>v. case as_i64 v of
         Some n \<Rightarrow> Some n
       | None \<Rightarrow> Option.bind (json_str v) parse_i64)"

text \<open>Whether the deposit is still exclusive to somebody else.\<close>

definition held_by_other :: "string option \<Rightarrow> int \<Rightarrow> json \<Rightarrow> (unit, bool) res" where
  "held_by_other solver now dep =
     (let excl = or_str (jstr ''exclusiveRelayer'' dep) zero_address_text
      in if excl = [] \<or> excl = zero_address_text then Ok False
         else res_bind (opt_time ''exclusivityDeadline'' dep) (\<lambda>t.
           let ours = (case solver of None \<Rightarrow> False | Some a \<Rightarrow> to_lowercase a = to_lowercase excl)
           in Ok (now < or_int t 0 \<and> \<not> ours)))"

section \<open>The poller\<close>

record across =
  ap_seen :: "int list"
  ap_limited :: u32
  ap_out :: "feed_intent list"
  ap_open :: bool
  ap_live :: bool

definition across_new :: across where
  "across_new = \<lparr>ap_seen = [], ap_limited = 0, ap_out = [], ap_open = True, ap_live = True\<rparr>"

definition seen_cap :: nat where "seen_cap = 10000"
definition seen_evict :: nat where "seen_evict = 1000"

definition evict_smallest :: "int list \<Rightarrow> int list" where
  "evict_smallest seen =
     (if seen_cap \<le> length seen
      then let gone = take seen_evict (sort seen) in filter (\<lambda>n. n \<notin> set gone) seen
      else seen)"

definition across_deposit :: "string option \<Rightarrow> u64 \<Rightarrow> u64 \<Rightarrow> json \<Rightarrow> across \<Rightarrow> across" where
  "across_deposit solver dst now dep p =
     (if \<not> ap_live p then p
      else case deposit_number dep of
        None \<Rightarrow> p
      | Some n \<Rightarrow>
          (case held_by_other solver (sint now) dep of
             Ok True \<Rightarrow> p
           | Ok False \<Rightarrow>
               (case opt_time ''fillDeadline'' dep of
                  Ok t \<Rightarrow>
                    let deadline = or_int t 0
                    in if 0 < deadline \<and> deadline \<le> sint now + 60 then p
                       else let seen = evict_smallest (ap_seen p)
                            in if n \<in> set seen then p\<lparr>ap_seen := seen\<rparr>
                               else let q = p\<lparr>ap_seen := n # seen\<rparr>
                                    in (case across_deposit_to_intent now dep dst n deadline of
                                          Ok it \<Rightarrow> if ap_open q then q\<lparr>ap_out := ap_out q @ [it]\<rparr> else q\<lparr>ap_live := False\<rparr>
                                        | _ \<Rightarrow> q\<lparr>ap_live := False\<rparr>)
                | _ \<Rightarrow> p\<lparr>ap_live := False\<rparr>)
           | _ \<Rightarrow> p\<lparr>ap_live := False\<rparr>))"

datatype reply = ReqFailed | RateLimited | HttpFailed | BadBody | Deposits "json list"

definition across_poll :: "string option \<Rightarrow> u64 \<times> u64 \<times> reply \<Rightarrow> across \<Rightarrow> across" where
  "across_poll solver poll p =
     (let (dst, now, r) = poll
      in if \<not> ap_live p then p
         else case r of
           ReqFailed \<Rightarrow> p
         | RateLimited \<Rightarrow> p\<lparr>ap_limited := ap_limited p + 1\<rparr>
         | HttpFailed \<Rightarrow> p
         | BadBody \<Rightarrow> p\<lparr>ap_limited := 0\<rparr>
         | Deposits ds \<Rightarrow> fold (across_deposit solver dst now) ds (p\<lparr>ap_limited := 0\<rparr>))"

text \<open>The pause after a rate limit, in seconds.\<close>

definition across_backoff :: "u32 \<Rightarrow> u32" where
  "across_backoff limited = min (30 * limited) 300"

definition across_run :: "string option \<Rightarrow> (u64 \<times> u64 \<times> reply) list \<Rightarrow> across" where
  "across_run solver polls = fold (across_poll solver) polls across_new"

section \<open>At most one intent per deposit number\<close>

definition poll_numbers :: "(u64 \<times> u64 \<times> reply) list \<Rightarrow> int list" where
  "poll_numbers polls =
     concat (map (\<lambda>(_, _, r). case r of Deposits ds \<Rightarrow> List.map_filter deposit_number ds | _ \<Rightarrow> []) polls)"

definition names_deposit :: "int \<Rightarrow> feed_intent \<Rightarrow> bool" where
  "names_deposit n it \<longleftrightarrow> i_deposit_id it = Some n \<and> i_protocol it = ''across_v3'' \<and> i_id it = ''across_v3:dep:'' @ show_int n"

definition once :: "int set \<Rightarrow> across \<Rightarrow> bool" where
  "once N p \<longleftrightarrow> distinct (ap_seen p) \<and> set (ap_seen p) \<subseteq> N \<and> distinct (map i_deposit_id (ap_out p))
     \<and> list_all (\<lambda>it. list_ex (\<lambda>n. names_deposit n it) (ap_seen p)) (ap_out p)"

lemma deposit_intent_names: "across_deposit_to_intent now dep dst n dl = Ok it \<Longrightarrow> names_deposit n it"
  by (cases "opt_time ''exclusivityDeadline'' dep") (auto simp: across_deposit_to_intent_def names_deposit_def Let_def)

lemma evict_below: "length seen < seen_cap \<Longrightarrow> evict_smallest seen = seen"
  by (simp add: evict_smallest_def)

lemma once_emit:
  assumes "once N p" "n \<in> N" "n \<notin> set (ap_seen p)" "names_deposit n it"
  shows "once N (p\<lparr>ap_seen := n # ap_seen p, ap_out := ap_out p @ [it]\<rparr>)"
proof -
  have "i_deposit_id it \<noteq> i_deposit_id x" if "x \<in> set (ap_out p)" for x
    using assms that by (auto simp: once_def list_all_iff list_ex_iff names_deposit_def)
  then show ?thesis using assms by (auto simp: once_def list_all_iff)
qed

lemma once_see: "once N p \<Longrightarrow> n \<in> N \<Longrightarrow> n \<notin> set (ap_seen p) \<Longrightarrow> once N (p\<lparr>ap_seen := n # ap_seen p, ap_live := b\<rparr>)"
  by (auto simp: once_def list_all_iff)

lemma once_frame [simp]: "once N (p\<lparr>ap_live := b\<rparr>) = once N p" "once N (p\<lparr>ap_limited := l\<rparr>) = once N p"
  by (simp_all add: once_def)

lemma once_deposit:
  assumes "once N p" "finite N" "card N < seen_cap" "\<And>n. deposit_number dep = Some n \<Longrightarrow> n \<in> N"
  shows "once N (across_deposit solver dst now dep p)"
proof (cases "deposit_number dep")
  case (Some n)
  have "length (ap_seen p) = card (set (ap_seen p))" using assms(1) by (simp add: once_def distinct_card)
  also have "\<dots> \<le> card N" using assms(1,2) by (intro card_mono) (auto simp: once_def)
  finally have ev: "evict_smallest (ap_seen p) = ap_seen p" using assms(3) by (simp add: evict_below)
  have n: "n \<in> N" using assms(4) Some by simp
  show ?thesis
  proof (cases "n \<in> set (ap_seen p)")
    case True
    then show ?thesis using assms(1)
      by (auto simp: across_deposit_def Some Let_def ev split: res.split bool.split)
  next
    case False
    note emit = once_emit [OF assms(1) n False] and see = once_see [OF assms(1) n False]
    show ?thesis
      using assms(1) False emit deposit_intent_names see
      by (auto simp: across_deposit_def Some Let_def ev split: res.split bool.split)
  qed
qed (simp add: across_deposit_def assms(1))

lemma once_deposits:
  assumes "finite N" "card N < seen_cap"
  shows "once N p \<Longrightarrow> set (List.map_filter deposit_number ds) \<subseteq> N \<Longrightarrow> once N (fold (across_deposit solver dst now) ds p)"
proof (induction ds arbitrary: p)
  case (Cons d ds)
  have "once N (across_deposit solver dst now d p)"
    using Cons.prems by (intro once_deposit [OF _ assms]) (auto simp: map_filter_simps)
  then show ?case using Cons by (auto simp: map_filter_simps split: option.splits)
qed simp

lemma once_polls:
  assumes "finite N" "card N < seen_cap"
  shows "once N p \<Longrightarrow> set (poll_numbers polls) \<subseteq> N \<Longrightarrow> once N (fold (across_poll solver) polls p)"
proof (induction polls arbitrary: p)
  case (Cons q qs)
  obtain dst now r where q: "q = (dst, now, r)" by (cases q)
  have "once N (across_poll solver q p)"
    using Cons.prems once_deposits [OF assms, of "p\<lparr>ap_limited := 0\<rparr>"]
    by (auto simp: q across_poll_def poll_numbers_def Let_def split: reply.split)
  then show ?case using Cons by (simp add: poll_numbers_def)
qed simp

text \<open>As long as fewer than ten thousand deposit numbers have appeared, the poller emits at most one
  intent per number, each named after it.  The number alone identifies a deposit: of two
  deposits with the same number on different origin chains at most one is ever emitted.\<close>

theorem across_once_per_number:
  assumes "card (set (poll_numbers polls)) < 10000"
  shows "distinct (map i_deposit_id (ap_out (across_run solver polls)))
    \<and> list_all (\<lambda>it. list_ex (\<lambda>n. names_deposit n it) (poll_numbers polls)) (ap_out (across_run solver polls))"
proof -
  have "once (set (poll_numbers polls)) (across_run solver polls)"
    unfolding across_run_def
    by (rule once_polls) (use assms in \<open>simp_all add: seen_cap_def once_def across_new_def\<close>)
  then show ?thesis unfolding once_def list_all_iff list_ex_iff by blast
qed

text \<open>Two deposits numbered 5, of chains 1 and 137, in the same answer.\<close>

definition two_deposits :: "(u64 \<times> u64 \<times> reply) list" where
  "two_deposits = [(8453, 1000, Deposits
     [JObj [(''depositId'', JInt 5), (''originChainId'', JInt 1), (''fillDeadline'', JInt 9000)],
      JObj [(''depositId'', JStr ''5''), (''originChainId'', JInt 137), (''fillDeadline'', JInt 9000)]])]"

lemma five: "deposit_number (JObj ((''depositId'', JInt 5) # kvs)) = Some 5" "deposit_number (JObj ((''depositId'', JStr ''5'') # kvs)) = Some 5"
  by (simp_all add: deposit_number_def in_i64_def parse_i64_def starts_with_def parse_unsigned_def is_digit_def
      digits_val_def digit_val_def)

lemma two_numbers: "poll_numbers two_deposits = [5, 5]"
  by (simp add: poll_numbers_def two_deposits_def map_filter_simps five)

theorem across_once_per_number_witness:
  "distinct (map i_deposit_id (ap_out (across_run None two_deposits)))
   \<and> list_all (\<lambda>it. list_ex (\<lambda>n. names_deposit n it) [5, 5]) (ap_out (across_run None two_deposits))
   \<and> map i_src_chain (ap_out (across_run None two_deposits)) = [1]"
proof -
  have "map i_src_chain (ap_out (across_run None two_deposits)) = [1]"
    by (simp add: across_run_def two_deposits_def across_poll_def across_deposit_def five held_by_other_def opt_time_def
        jstr_def or_str_def or_int_def in_i64_def across_new_def evict_smallest_def seen_cap_def
        across_deposit_to_intent_def default_intent_def zero_address_text_def Let_def)
  then show ?thesis using across_once_per_number [of two_deposits None] by (simp add: two_numbers)
qed

end
