(* ===== verification/Dln.thy ===== *)
theory Dln
  imports Across
begin

text \<open>
  The deBridge feeds of \<open>crates/genome-client/src/lib.rs\<close>: the decoder of \<open>OrderCreated\<close> logs, the
  poller that scans the source contract for them (\<open>DeBridgePoller\<close>) and the order messages of the
  web socket (\<open>parse_debridge_ws_message\<close>).  Hex decoding and the base58 encoding are
  parameters, as are the answers of the nodes.
\<close>

section \<open>Tables\<close>

definition dln_non_evm_chain_name :: "u64 \<Rightarrow> string option" where
  "dln_non_evm_chain_name c =
     (if c = 100000001 then Some ''Solana''
      else if c = 100000002 then Some ''NEAR''
      else if c = 100000003 then Some ''Tron''
      else if c = 100000004 then Some ''Ton''
      else if c = 100000005 then Some ''Aptos''
      else if c = 100000006 then Some ''Sui''
      else if c = 100000007 then Some ''Eclipse (Solana SVM)''
      else if c = 100000022 then Some ''Neon EVM on Solana''
      else if c = 100000023 then Some ''Sonic (Solana SVM)''
      else if c = 100000027 then Some ''Solana (alt chain ID)''
      else if c = 100000030 then Some ''Grass (Solana SVM)''
      else if c = 100000031 then Some ''Svm-Unknown-31''
      else None)"

definition is_solana_address :: "string \<Rightarrow> bool" where
  "is_solana_address a \<longleftrightarrow> \<not> starts_with a ''0x'' \<and> \<not> starts_with a ''0X'' \<and> 32 \<le> length a \<and> length a \<le> 44"

definition solana_mints :: "string list" where
  "solana_mints =
     [''EPjFWdd5AufqSSqeM2qN1xzybapC8G4wEGGkZwyTDt1v'',
      ''Es9vMFrzaCERmJfrF4H2FYD4KCoNkY11McCe8BenwNYB'',
      ''So11111111111111111111111111111111111111112'',
      ''7vfCXTUXx5WJV5JADk17DUJ4ksgau7utNKj4b963voxs'']"

definition supported_tokens :: "string list" where
  "supported_tokens =
     [''0xa0b86991c6218b36c1d19d4a2e9eb0ce3606eb48'',
      ''0xaf88d065e77c8cc2239327c5edb3a432268e5831'',
      ''0xff970a61a04b1ca14834a43f5de4533ebddb5cc8'',
      ''0x833589fcd6edb6e08f4c7c32d4f71b54bda02913'',
      ''0x0b2c639c533813f4aa9d7837caf62653d097ff85'',
      ''0x7f5c764cbc14f9669b88837ca1490cca17c31607'',
      ''0x3c499c542cef5e3811e1192ce70d8cc03d5c3359'',
      ''0x2791bca1f2de4661ed88a30c99a7a9449aa84174'',
      ''0x176211869ca2b568f2a7d4ee941e073a821ee1ff'',
      ''0x8ac76a51cc950d9822d68b83fe1ad97b32cd580d'',
      ''0xdac17f958d2ee523a2206206994597c13d831ec7'',
      ''0xfd086bc7cd5c481dcc9c85ebe478a1c0b69fcbb9'',
      ''0x94b008aa00579c1307b0ef2c499ad98a8ce58e58'',
      ''0xc2132d05d31c914a87c6611c10748aeb04b58e8f'',
      ''0xc02aaa39b223fe8d0a0e5c4f27ead9083c756cc2'',
      ''0x82af49447d8a07e3bd95bd0d56f35241523fbab1'',
      ''0x4200000000000000000000000000000000000006'',
      ''0xe5d7c2a44ffddf6b295a15c148167daaaf5cf34f'',
      ''0x2170ed0880ac9a755fd29b2688956bd959f933f8'',
      ''0x5300000000000000000000000000000000000004'',
      ''0x7ceb23fd6bc0add59e62ac25578270cff1b9f619'',
      ''0xbb4cdb9cbd36b01bd1cbaebf2de08d9173bc095c'',
      ''0x49d5c2bdffac6ce2bfdb6640f4f80f226bc10bab'',
      ''0x078d782b760474a361dda7ff6e249887ddf39eb0'',
      ''0x06efdbff2a14a7c8e15944d1f4a48f9f95f663a4'',
      ''0x2d270e6886d130d724215a266106e6832161eaed'',
      ''0xd988097fb8612cc24eec14542bc03424c656005f'',
      ''0x9c3c9283d3e44854697cd22d3faa240cfb032889'',
      ''0xe0b7927c4af23765cb51314a0e0521a9645f0e2a'',
      ''0xb97ef9ef8734c71904d8002f8b6bc66dd9c48a6e'',
      ''0x8ac76a51cc950d9822d68b83fe1ad97b32cd580d'',
      ''0x1d17cbcf0d6d143135ae902365d2e5e2a16538d4'',
      ''0x5aea5775959fbc2557cc8789bc1bf90a239d9a91'',
      ''0xfde4c96c8593536e31f229ea8f37b2ada2699bb2'',
      ''0xf55bec9cafdbe8730f096aa55dad6d22d44099df'',
      ''0x0200c29006150606b650577bbe7b6248f58470c1'',
      ''0xf0f161fda2712db8b566946122a5af183995e2ed'',
      ''0x9702230a8ea53601f5cd2dc00fdbc13d4df4a8c7'',
      ''0xc7198437980c041c805a1edcba50c1ce5db95118'']"

definition is_supported_fill_token :: "string \<Rightarrow> bool" where
  "is_supported_fill_token a =
     (if is_solana_address a then a \<in> set solana_mints
      else let lower = to_lowercase a
           in lower = zero_address_text \<or> lower = ''native'' \<or> lower \<in> set supported_tokens)"


section \<open>Slots\<close>

record codec =
  cx_decode :: "string \<Rightarrow> bytes option"
  cx_encode :: "bytes \<Rightarrow> string"
  cx_base58 :: "bytes \<Rightarrow> string"

function chunks :: "nat \<Rightarrow> 'a list \<Rightarrow> 'a list list" where
  "chunks n xs = (if n = 0 \<or> xs = [] then [] else take n xs # chunks n (drop n xs))"
  by pat_completeness auto
termination by (relation "measure (\<lambda>(n, xs). length xs)") auto

declare chunks.simps [simp del]

definition nth_opt :: "'a list \<Rightarrow> nat \<Rightarrow> 'a option" where
  "nth_opt xs i = (if i < length xs then Some (xs ! i) else None)"

definition slots_of :: "codec \<Rightarrow> string \<Rightarrow> bytes list" where
  "slots_of C data =
     List.map_filter (\<lambda>c. case cx_decode C c of None \<Rightarrow> None | Some b \<Rightarrow> if length b = 32 then Some b else None)
       (chunks 64 data)"

definition u64_at :: "bytes \<Rightarrow> u64" where
  "u64_at s = of_nat (be_val (drop 24 s))"

definition u128_str :: "bytes \<Rightarrow> string" where
  "u128_str s = show_nat (be_val (drop 16 s))"

function read_slots :: "bytes list \<Rightarrow> nat \<Rightarrow> nat \<Rightarrow> bytes option" where
  "read_slots slots k n =
     (if n = 0 then Some []
      else case nth_opt slots k of
             None \<Rightarrow> None
           | Some s \<Rightarrow> map_option (\<lambda>r. take (min 32 n) s @ r) (read_slots slots (k + 1) (n - 32)))"
  by pat_completeness auto
termination by (relation "measure (\<lambda>(slots, k, n). n)") auto

declare read_slots.simps [simp del]

text \<open>A field of type \<open>bytes\<close>: an offset from the start of the order, there a length and the data.  The buffer
  is allocated for the stated length before anything is read: a length of \<open>2 ^ 63\<close> or more panics.\<close>

definition read_bytes_relative :: "bytes list \<Rightarrow> nat \<Rightarrow> bytes \<Rightarrow> (unit, bytes option) res" where
  "read_bytes_relative slots os offset =
     (let pos = os + unat (u64_at offset) div 32
      in case nth_opt slots pos of
           None \<Rightarrow> Ok None
         | Some s \<Rightarrow>
             let len = unat (u64_at s)
             in if len = 0 then Ok (Some [])
                else if 2 ^ 63 \<le> len then Panic
                else Ok (read_slots slots (pos + 1) len))"

section \<open>The log decoder\<close>

definition hex0x :: "codec \<Rightarrow> bytes \<Rightarrow> string" where
  "hex0x C b = ''0x'' @ cx_encode C b"

definition bytes_to_addr :: "codec \<Rightarrow> bool \<Rightarrow> bytes \<Rightarrow> string" where
  "bytes_to_addr C solana b = (if solana \<and> length b = 32 then cx_base58 C b else hex0x C b)"

definition bytes_to_hex :: "codec \<Rightarrow> bytes \<Rightarrow> string option" where
  "bytes_to_hex C b = (if b = [] then None else Some (hex0x C b))"

definition bytes_to_dst_field :: "codec \<Rightarrow> bool \<Rightarrow> bytes \<Rightarrow> string option" where
  "bytes_to_dst_field C solana b = (if b = [] then None else Some (bytes_to_addr C solana b))"

definition solana_dst :: "u64 \<Rightarrow> bool" where
  "solana_dst c = (case dln_non_evm_chain_name c of None \<Rightarrow> False | Some n \<Rightarrow> contains n ''Solana'' \<or> contains n ''SVM'')"

definition decode_dln_order_created_log :: "codec \<Rightarrow> u64 \<Rightarrow> json \<Rightarrow> u64 \<Rightarrow> (unit, feed_intent option) res" where
  "decode_dln_order_created_log C now lg src_chain =
     (case jstr ''data'' lg of
        None \<Rightarrow> Ok None
      | Some raw \<Rightarrow>
          let data = trim_start_str ''0x'' raw; slots = slots_of C data
          in if length data < 128 then Ok None
             else if length slots < 22 then Ok None
             else let os = unat (u64_at (slots ! 0)) div 32
                  in if length slots \<le> os + 13 then Ok None
                     else let order_id = hex0x C (slots ! 1);
                              field = (\<lambda>i. read_bytes_relative slots os (slots ! (os + i)));
                              give_chain = u64_at (slots ! (os + 2));
                              give_amount = u128_str (slots ! (os + 4));
                              take_chain = u64_at (slots ! (os + 5));
                              take_amount = u128_str (slots ! (os + 7));
                              solana = solana_dst take_chain
                          in res_bind (field 1) (\<lambda>maker.
                             res_bind (field 3) (\<lambda>give_token.
                             res_bind (field 6) (\<lambda>take_token.
                             res_bind (field 8) (\<lambda>receiver.
                             res_bind (field 9) (\<lambda>give_patch.
                             res_bind (field 10) (\<lambda>authority.
                             res_bind (field 11) (\<lambda>taker.
                             res_bind (field 12) (\<lambda>beneficiary.
                             res_bind (field 13) (\<lambda>call.
                             Ok (Some (default_intent\<lparr>
                               i_id := ''debridge_dln:'' @ order_id,
                               i_protocol := ''debridge_dln'',
                               i_src_chain := (if 0 < give_chain then give_chain else src_chain),
                               i_dst_chain := take_chain,
                               i_src_token := or_str (map_option (hex0x C) give_token) zero_address_text,
                               i_dst_token := or_str (map_option (bytes_to_addr C solana) take_token) zero_address_text,
                               i_amount := give_amount,
                               i_depositor := or_str (map_option (hex0x C) maker) zero_address_text,
                               i_recipient := or_str (map_option (bytes_to_addr C solana) receiver) zero_address_text,
                               i_tx_hash := or_str (jstr ''transactionHash'' lg) ''0x'',
                               i_give_amount := Some give_amount,
                               i_take_amount := Some take_amount,
                               i_output_amount := Some take_amount,
                               i_order_id := Some order_id,
                               fi_maker_order_nonce := Some (u64_at (slots ! os)),
                               fi_give_patch_authority := Option.bind give_patch (bytes_to_hex C),
                               fi_order_authority_dst := Option.bind authority (bytes_to_dst_field C solana),
                               i_dln_allowed_taker_dst := Option.bind taker (bytes_to_dst_field C solana),
                               fi_cancel_beneficiary := Option.bind beneficiary (bytes_to_hex C),
                               i_dln_external_call := Option.bind call (bytes_to_hex C),
                               i_is_solana_destination := (if solana then Some True else None),
                               i_detected_at := now\<rparr>))))))))))))"

section \<open>Encoded orders\<close>

text \<open>The layout the contract emits: a head of seven slots, the order with its fourteen head slots and nine
  fields of type \<open>bytes\<close>, and whatever else the event carries.\<close>

fun be_enc :: "nat \<Rightarrow> nat \<Rightarrow> bytes" where
  "be_enc 0 n = []"
| "be_enc (Suc k) n = be_enc k (n div 256) @ [of_nat n]"

abbreviation be32 :: "nat \<Rightarrow> bytes" where "be32 n \<equiv> be_enc 32 n"

definition pad32 :: "bytes \<Rightarrow> bytes" where
  "pad32 b = b @ replicate (32 - length b) 0"

definition enc_bytes :: "bytes \<Rightarrow> bytes list" where
  "enc_bytes b = be32 (length b) # map pad32 (chunks 32 b)"

record dln_order =
  do_nonce :: u64
  do_give_chain :: u64
  do_give_amount :: nat
  do_take_chain :: u64
  do_take_amount :: nat
  do_maker :: bytes
  do_give_token :: bytes
  do_take_token :: bytes
  do_receiver :: bytes
  do_give_patch :: bytes
  do_authority :: bytes
  do_taker :: bytes
  do_beneficiary :: bytes
  do_call :: bytes

definition byte_fields :: "dln_order \<Rightarrow> bytes list" where
  "byte_fields d = [do_maker d, do_give_token d, do_take_token d, do_receiver d, do_give_patch d, do_authority d,
     do_taker d, do_beneficiary d, do_call d]"

definition offset :: "bytes list \<Rightarrow> nat \<Rightarrow> bytes" where
  "offset fs j = be32 (32 * (14 + length (concat (map enc_bytes (take j fs)))))"

definition order_slots :: "dln_order \<Rightarrow> bytes list" where
  "order_slots d =
     (let fs = byte_fields d
      in [be32 (unat (do_nonce d)), offset fs 0, be32 (unat (do_give_chain d)), offset fs 1, be32 (do_give_amount d),
          be32 (unat (do_take_chain d)), offset fs 2, be32 (do_take_amount d), offset fs 3, offset fs 4, offset fs 5,
          offset fs 6, offset fs 7, offset fs 8] @ concat (map enc_bytes fs))"

definition log_slots :: "bytes \<Rightarrow> bytes list \<Rightarrow> dln_order \<Rightarrow> bytes list \<Rightarrow> bytes list" where
  "log_slots order_id filler d rest = [be32 224, order_id] @ filler @ order_slots d @ rest"

definition intent_of_order :: "codec \<Rightarrow> u64 \<Rightarrow> string \<Rightarrow> bytes \<Rightarrow> u64 \<Rightarrow> dln_order \<Rightarrow> feed_intent" where
  "intent_of_order C now tx order_id src d =
     (let solana = solana_dst (do_take_chain d)
      in default_intent\<lparr>
           i_id := ''debridge_dln:'' @ hex0x C order_id, i_protocol := ''debridge_dln'',
           i_src_chain := (if do_give_chain d = 0 then src else do_give_chain d), i_dst_chain := do_take_chain d,
           i_src_token := hex0x C (do_give_token d), i_dst_token := bytes_to_addr C solana (do_take_token d),
           i_amount := show_nat (do_give_amount d), i_depositor := hex0x C (do_maker d),
           i_recipient := bytes_to_addr C solana (do_receiver d), i_tx_hash := tx,
           i_give_amount := Some (show_nat (do_give_amount d)), i_take_amount := Some (show_nat (do_take_amount d)),
           i_output_amount := Some (show_nat (do_take_amount d)), i_order_id := Some (hex0x C order_id),
           fi_maker_order_nonce := Some (do_nonce d),
           fi_give_patch_authority := bytes_to_hex C (do_give_patch d),
           fi_order_authority_dst := bytes_to_dst_field C solana (do_authority d),
           i_dln_allowed_taker_dst := bytes_to_dst_field C solana (do_taker d),
           fi_cancel_beneficiary := bytes_to_hex C (do_beneficiary d),
           i_dln_external_call := bytes_to_hex C (do_call d),
           i_is_solana_destination := (if solana then Some True else None),
           i_detected_at := now\<rparr>)"

text \<open>What hex coding promises.\<close>

definition codec_ok :: "codec \<Rightarrow> bool" where
  "codec_ok C \<longleftrightarrow> (\<forall>b. cx_decode C (cx_encode C b) = Some b \<and> length (cx_encode C b) = 2 * length b
     \<and> CHR ''x'' \<notin> set (cx_encode C b))"

subsection \<open>Reading what was written\<close>

lemma length_be_enc [simp]: "length (be_enc k n) = k"
  by (induction k arbitrary: n) auto

lemma be_val_snoc: "be_val (s @ [b]) = 256 * be_val s + unat b"
  by (simp add: be_val_def)

lemma be_val_be_enc: "be_val (be_enc k n) = n mod 256 ^ k"
proof (induction k arbitrary: n)
  case (Suc k)
  have "unat (of_nat n :: u8) = n mod 256" by (simp add: unsigned_of_nat take_bit_eq_mod)
  then show ?case using Suc by (simp add: be_val_snoc mod_mult2_eq)
qed (simp add: be_val_def)

lemma drop_be_enc: "drop j (be_enc (j + k) n) = be_enc k n"
  by (induction k arbitrary: n) auto

lemma u64_at_be32: "n < 2 ^ 64 \<Longrightarrow> u64_at (be32 n) = of_nat n"
  using drop_be_enc [of 24 8 n] be_val_be_enc [of 8 n] by (simp add: u64_at_def del: be_enc.simps)

lemma unat_u64_at_be32: "n < 2 ^ 64 \<Longrightarrow> unat (u64_at (be32 n)) = n"
  by (simp add: u64_at_be32 unsigned_of_nat take_bit_nat_eq_self del: be_enc.simps)

lemma u128_str_be32: "n < 2 ^ 128 \<Longrightarrow> u128_str (be32 n) = show_nat n"
  using drop_be_enc [of 16 16 n] be_val_be_enc [of 16 n] by (simp add: u128_str_def del: be_enc.simps)

lemma chunks_concat: "list_all (\<lambda>x. length x = n) xs \<Longrightarrow> 0 < n \<Longrightarrow> chunks n (concat xs) = xs"
proof (induction xs)
  case (Cons x xs)
  then have "x \<noteq> []" by auto
  with Cons show ?case by (subst chunks.simps) auto
qed (simp add: chunks.simps)

lemma slots_of_concat:
  assumes "codec_ok C" "list_all (\<lambda>s. length s = 32) slots"
  shows "slots_of C (concat (map (cx_encode C) slots)) = slots"
proof -
  have "chunks 64 (concat (map (cx_encode C) slots)) = map (cx_encode C) slots"
    using assms by (intro chunks_concat) (auto simp: list_all_iff codec_ok_def)
  moreover have "List.map_filter (\<lambda>c. case cx_decode C c of None \<Rightarrow> None | Some b \<Rightarrow> if length b = 32 then Some b else None)
      (map (cx_encode C) slots) = slots"
    using assms by (induction slots) (simp_all add: codec_ok_def map_filter_simps)
  ultimately show ?thesis by (simp add: slots_of_def)
qed

lemma read_slots_written:
  "slots = pre @ map pad32 (chunks 32 b) @ post \<Longrightarrow> read_slots slots (length pre) (length b) = Some b"
proof (induction "length b" arbitrary: pre b rule: less_induct)
  case less
  show ?case
  proof (cases "b = []")
    case True
    then show ?thesis by (simp add: read_slots.simps)
  next
    case False
    then have c: "chunks 32 b = take 32 b # chunks 32 (drop 32 b)" by (subst chunks.simps) simp
    then have "slots = (pre @ [pad32 (take 32 b)]) @ map pad32 (chunks 32 (drop 32 b)) @ post" using less.prems by simp
    then have "read_slots slots (length pre + 1) (length b - 32) = Some (drop 32 b)"
      using less.hyps [of "drop 32 b" "pre @ [pad32 (take 32 b)]"] False by simp
    moreover have "nth_opt slots (length pre) = Some (pad32 (take 32 b))"
      using less.prems c by (simp add: nth_opt_def nth_append)
    ultimately show ?thesis
      using False by (subst read_slots.simps) (simp add: pad32_def min_def)
  qed
qed

lemma read_bytes_written:
  assumes "slots = pre @ enc_bytes b @ post" "length b < 2 ^ 63" "unat (u64_at s) div 32 + os = length pre"
  shows "read_bytes_relative slots os s = Ok (Some b)"
proof -
  have "nth_opt slots (length pre) = Some (be32 (length b))"
    using assms(1) by (simp add: nth_opt_def nth_append enc_bytes_def del: be_enc.simps)
  moreover have "unat (u64_at (be32 (length b))) = length b" using assms(2) by (simp add: unat_u64_at_be32 del: be_enc.simps)
  moreover have "read_slots slots (length (pre @ [be32 (length b)])) (length b) = Some b"
    using assms(1) by (intro read_slots_written) (simp add: enc_bytes_def del: be_enc.simps)
  ultimately show ?thesis
    using assms(2,3) by (auto simp: read_bytes_relative_def Let_def add.commute simp del: be_enc.simps)
qed

lemma length_order_head: "length (order_slots d) = 14 + length (concat (map enc_bytes (byte_fields d)))"
  by (simp add: order_slots_def Let_def byte_fields_def)

lemma order_field:
  assumes "slots = log_slots order_id filler d rest" "length filler = 5" "length slots < 2 ^ 58"
    and "j < 9"
  shows "read_bytes_relative slots 7 (offset (byte_fields d) j) = Ok (Some (byte_fields d ! j))"
proof -
  let ?fs = "byte_fields d" and ?h = "take 14 (order_slots d)"
  let ?pre = "[be32 224, order_id] @ filler @ ?h @ concat (map enc_bytes (take j ?fs))"
  have nine: "length ?fs = 9" by (simp add: byte_fields_def)
  have os: "order_slots d = ?h @ concat (map enc_bytes ?fs)" by (simp add: order_slots_def Let_def)
  have fs: "?fs = take j ?fs @ ?fs ! j # drop (Suc j) ?fs" using assms(4) nine by (simp add: id_take_nth_drop)
  have "order_slots d = ?h @ concat (map enc_bytes (take j ?fs @ ?fs ! j # drop (Suc j) ?fs))"
    using os fs by simp
  then have split: "slots = ?pre @ enc_bytes (?fs ! j) @ (concat (map enc_bytes (drop (Suc j) ?fs)) @ rest)"
    unfolding assms(1) log_slots_def by simp
  have h: "length ?h = 14" using length_order_head [of d] by simp
  have sum: "length slots = length ?pre + length (enc_bytes (?fs ! j)) + length (concat (map enc_bytes (drop (Suc j) ?fs)) @ rest)"
    using arg_cong [OF split, of length] by (simp only: length_append add.assoc)
  have chunk: "length b \<le> 32 * length (chunks 32 b)" for b :: bytes
  proof (induction "length b" arbitrary: b rule: less_induct)
    case less
    show ?case
    proof (cases "b = []")
      case False
      then have "length (drop 32 b) \<le> 32 * length (chunks 32 (drop 32 b))" by (intro less.hyps) simp
      then show ?thesis using False by (subst chunks.simps) simp
    qed simp
  qed
  have "length (?fs ! j) \<le> 32 * length (enc_bytes (?fs ! j))" using chunk [of "?fs ! j"] by (simp add: enc_bytes_def)
  then have "length (?fs ! j) < 2 ^ 63" using sum assms(3) by simp
  moreover have "14 + length (concat (map enc_bytes (take j ?fs))) < 2 ^ 58" using sum assms(3) h by simp
  then have "unat (u64_at (offset ?fs j)) div 32 + 7 = length ?pre"
    unfolding offset_def using assms(2) h by (subst unat_u64_at_be32) simp_all
  ultimately show ?thesis using split by (intro read_bytes_written)
qed

lemma trim_start_no_prefix: "CHR ''x'' \<notin> set s \<Longrightarrow> trim_start_str ''0x'' s = s"
proof -
  assume "CHR ''x'' \<notin> set s"
  then have "\<not> starts_with s ''0x''" by (auto simp: starts_with_def) (metis in_set_takeD list.set_intros(1,2))
  then show ?thesis by (simp add: trim_start_str.simps [of "''0x''" s])
qed

lemma trim_hex_prefix: "CHR ''x'' \<notin> set s \<Longrightarrow> trim_start_str ''0x'' (''0x'' @ s) = s"
  using trim_start_no_prefix [of s] by (subst trim_start_str.simps) (simp add: starts_with_def)

abbreviation slots32 :: "bytes list \<Rightarrow> bool" where "slots32 \<equiv> list_all (\<lambda>s. length s = 32)"

lemma slots32_enc: "slots32 (enc_bytes b)"
proof -
  have "slots32 (map pad32 (chunks 32 b))"
  proof (induction "length b" arbitrary: b rule: less_induct)
    case less
    then show ?case
      by (cases "b = []") (simp_all add: chunks.simps [of 32 b] chunks.simps [of 32 "[]"] pad32_def)
  qed
  then show ?thesis by (simp add: enc_bytes_def del: be_enc.simps)
qed

lemma slots32_log:
  "length order_id = 32 \<Longrightarrow> slots32 (filler @ rest) \<Longrightarrow> slots32 (log_slots order_id filler d rest)"
  using slots32_enc
  by (simp add: log_slots_def order_slots_def offset_def byte_fields_def Let_def del: be_enc.simps)

lemma hex_slots_length: "codec_ok C \<Longrightarrow> slots32 xs \<Longrightarrow> length (concat (map (cx_encode C) xs)) = 64 * length xs"
  by (induction xs) (simp_all add: codec_ok_def)

lemma log_slots_nth:
  assumes "slots = log_slots order_id filler d rest" "length filler = 5"
  shows "slots ! 0 = be32 224" "slots ! 1 = order_id" "slots ! 7 = be32 (unat (do_nonce d))"
    "slots ! 8 = offset (byte_fields d) 0" "slots ! 9 = be32 (unat (do_give_chain d))"
    "slots ! 10 = offset (byte_fields d) 1" "slots ! 11 = be32 (do_give_amount d)"
    "slots ! 12 = be32 (unat (do_take_chain d))" "slots ! 13 = offset (byte_fields d) 2"
    "slots ! 14 = be32 (do_take_amount d)" "slots ! 15 = offset (byte_fields d) 3"
    "slots ! 16 = offset (byte_fields d) 4" "slots ! 17 = offset (byte_fields d) 5"
    "slots ! 18 = offset (byte_fields d) 6" "slots ! 19 = offset (byte_fields d) 7"
    "slots ! 20 = offset (byte_fields d) 8"
  using assms(2) by (simp_all add: assms(1) log_slots_def order_slots_def Let_def nth_append del: be_enc.simps)

lemma u64_at_word: "u64_at (be32 (unat (w :: u64))) = w"
proof -
  have "unat w < 2 ^ 64" using unsigned_less [of w] by simp
  then show ?thesis by (simp add: u64_at_be32 del: be_enc.simps)
qed

lemma byte_fields_nth:
  "byte_fields d ! 0 = do_maker d" "byte_fields d ! 1 = do_give_token d" "byte_fields d ! 2 = do_take_token d"
  "byte_fields d ! 3 = do_receiver d" "byte_fields d ! 4 = do_give_patch d" "byte_fields d ! 5 = do_authority d"
  "byte_fields d ! 6 = do_taker d" "byte_fields d ! 7 = do_beneficiary d" "byte_fields d ! 8 = do_call d"
  by (simp_all add: byte_fields_def)

lemma dln_log_read:
  assumes "codec_ok C" "length order_id = 32" "length filler = 5" "list_all (\<lambda>s. length s = 32) (filler @ rest)"
    and "do_give_amount d < 2 ^ 128" "do_take_amount d < 2 ^ 128"
    and "length (log_slots order_id filler d rest) < 2 ^ 58"
  shows "decode_dln_order_created_log C now
      (JObj [(''data'', JStr (''0x'' @ concat (map (cx_encode C) (log_slots order_id filler d rest)))),
             (''transactionHash'', JStr tx)]) src
    = Ok (Some (intent_of_order C now tx order_id src d))"
proof -
  define slots where "slots = log_slots order_id filler d rest"
  let ?data = "concat (map (cx_encode C) slots)"
  have s32: "slots32 slots" using slots32_log assms(2,4) by (simp add: slots_def)
  then have so: "slots_of C ?data = slots" by (rule slots_of_concat [OF assms(1)])
  have len: "22 \<le> length slots"
    using length_order_head [of d] assms(3) by (simp add: slots_def log_slots_def byte_fields_def enc_bytes_def)
  have tr: "trim_start_str ''0x'' (''0x'' @ ?data) = ?data"
    using assms(1) by (intro trim_hex_prefix) (auto simp: codec_ok_def)
  note nth = log_slots_nth [OF slots_def assms(3)]
  have field: "read_bytes_relative slots 7 (offset (byte_fields d) j) = Ok (Some (byte_fields d ! j))" if "j < 9" for j
    using order_field [OF slots_def assms(3) _ that] assms(7) by (simp add: slots_def)
  note fields = field [of 0] field [of 1] field [of 2] field [of 3] field [of 4] field [of 5] field [of 6] field [of 7]
    field [of 8]
  have data: "jstr ''data'' (JObj [(''data'', JStr (''0x'' @ ?data)), (''transactionHash'', JStr tx)]) = Some (''0x'' @ ?data)"
    "jstr ''transactionHash'' (JObj [(''data'', JStr (''0x'' @ ?data)), (''transactionHash'', JStr tx)]) = Some tx"
    by (simp_all add: jstr_def)
  have start: "unat (u64_at (be32 224)) = 224" by (rule unat_u64_at_be32) simp
  show ?thesis
    unfolding decode_dln_order_created_log_def slots_def [symmetric] data option.case Let_def tr so
    using len hex_slots_length [OF assms(1) s32] fields
    by (simp add: nth nth(2) [unfolded One_nat_def] start u64_at_word u128_str_be32 [OF assms(5)] u128_str_be32 [OF assms(6)]
        byte_fields_nth byte_fields_nth(2) [unfolded One_nat_def] or_str_def intent_of_order_def Let_def
        word_neq_0_conv del: be_enc.simps)
qed

section \<open>Properties\<close>

text \<open>The log decoder reads back what the contract emits: whatever the order, its nine byte fields of any
  length, and the rest of the event, the decoded intent carries exactly the order's numbers, addresses and
  optional fields, named after its identifier.\<close>

theorem dln_log_roundtrip:
  assumes "codec_ok C" "length order_id = 32" "length filler = 5" "list_all (\<lambda>s. length s = 32) (filler @ rest)"
    and "do_give_amount d < 2 ^ 128" "do_take_amount d < 2 ^ 128"
    and "length (log_slots order_id filler d rest) < 2 ^ 58"
  shows "decode_dln_order_created_log C now
      (JObj [(''data'', JStr (''0x'' @ concat (map (cx_encode C) (log_slots order_id filler d rest)))),
             (''transactionHash'', JStr tx)]) src
    = Ok (Some (intent_of_order C now tx order_id src d))"
  by (rule dln_log_read [OF assms])

section \<open>Untrusted logs\<close>

text \<open>The length a field states, 0 when its offset points past the event.\<close>

definition stated_length :: "bytes list \<Rightarrow> nat \<Rightarrow> nat \<Rightarrow> nat" where
  "stated_length slots os i =
     (case nth_opt slots (os + unat (u64_at (slots ! (os + i))) div 32) of None \<Rightarrow> 0 | Some s \<Rightarrow> unat (u64_at s))"

definition order_view :: "codec \<Rightarrow> json \<Rightarrow> (bytes list \<times> nat) option" where
  "order_view C lg =
     (case jstr ''data'' lg of
        None \<Rightarrow> None
      | Some raw \<Rightarrow>
          let data = trim_start_str ''0x'' raw; slots = slots_of C data; os = unat (u64_at (slots ! 0)) div 32
          in if length data < 128 \<or> length slots < 22 \<or> length slots \<le> os + 13 then None else Some (slots, os))"

lemma read_bytes_cases:
  "read_bytes_relative slots os (slots ! (os + i)) = Panic \<longleftrightarrow> 2 ^ 63 \<le> stated_length slots os i"
  "read_bytes_relative slots os (slots ! (os + i)) \<noteq> Err e"
  by (auto simp: read_bytes_relative_def stated_length_def Let_def split: option.split)

lemma res_bind_Panic:
  "(\<And>e. r \<noteq> Err e) \<Longrightarrow> res_bind r f = Panic \<longleftrightarrow> r = Panic \<or> (\<exists>a. r = Ok a \<and> f a = Panic)"
  by (cases r) auto

lemma ok_or_panic: "(\<And>e. r \<noteq> Err e) \<Longrightarrow> (\<exists>a. r = Ok a) \<longleftrightarrow> r \<noteq> Panic"
  by (cases r) auto

text \<open>The decoder panics on a log exactly when one of the nine byte fields states a length of \<open>2 ^ 63\<close> or
  more: the buffer is allocated for the stated length before the event is looked at.  Nothing else in an event makes it fail.\<close>

theorem dln_log_panics:
  "decode_dln_order_created_log C now lg src = Panic \<longleftrightarrow>
     (case order_view C lg of
        None \<Rightarrow> False
      | Some (slots, os) \<Rightarrow> list_ex (\<lambda>i. 2 ^ 63 \<le> stated_length slots os i) [1, 3, 6, 8, 9, 10, 11, 12, 13])"
proof (cases "jstr ''data'' lg")
  case (Some raw)
  let ?data = "trim_start_str ''0x'' raw"
  let ?slots = "slots_of C ?data"
  let ?os = "unat (u64_at (?slots ! 0)) div 32"
  show ?thesis
  proof (cases "length ?data < 128 \<or> length ?slots < 22 \<or> length ?slots \<le> ?os + 13")
    case True
    then show ?thesis by (auto simp: decode_dln_order_created_log_def order_view_def Some Let_def)
  next
    case False
    then show ?thesis
      unfolding decode_dln_order_created_log_def order_view_def Some option.case Let_def
      by (simp add: res_bind_Panic read_bytes_cases ok_or_panic del: One_nat_def) blast
  qed
qed (simp add: decode_dln_order_created_log_def order_view_def)

section \<open>A concrete codec\<close>

definition hex_char :: "nat \<Rightarrow> char" where
  "hex_char n = char_of (if n < 10 then 48 + n else 87 + n)"

definition hex_digit :: "char \<Rightarrow> nat option" where
  "hex_digit c =
     (let n = of_char c :: nat
      in if 48 \<le> n \<and> n \<le> 57 then Some (n - 48) else if 97 \<le> n \<and> n \<le> 102 then Some (n - 87)
         else if 65 \<le> n \<and> n \<le> 70 then Some (n - 55) else None)"

definition hex_encode :: "bytes \<Rightarrow> string" where
  "hex_encode b = concat (map (\<lambda>w. [hex_char (unat w div 16), hex_char (unat w mod 16)]) b)"

fun hex_decode :: "string \<Rightarrow> bytes option" where
  "hex_decode [] = Some []"
| "hex_decode [c] = None"
| "hex_decode (a # b # s) =
     (case (hex_digit a, hex_digit b) of
        (Some x, Some y) \<Rightarrow> map_option ((#) (of_nat (16 * x + y))) (hex_decode s)
      | _ \<Rightarrow> None)"

definition hex_codec :: codec where
  "hex_codec = \<lparr>cx_decode = hex_decode, cx_encode = hex_encode, cx_base58 = hex_encode\<rparr>"

lemma hex_digit_char: "n < 16 \<Longrightarrow> hex_digit (hex_char n) = Some n"
  by (auto simp: hex_digit_def hex_char_def Let_def)

lemma hex_char_not_x: "n < 16 \<Longrightarrow> hex_char n \<noteq> CHR ''x''"
  using hex_digit_char [of n] by (auto simp: hex_digit_def)

lemma hex_codec_ok: "codec_ok hex_codec"
proof -
  have "hex_decode (hex_encode b) = Some b \<and> length (hex_encode b) = 2 * length b \<and> CHR ''x'' \<notin> set (hex_encode b)" for b
  proof (induction b)
    case (Cons w b)
    have "unat w < 256" using unsigned_less [of w] by simp
    then have d: "unat w div 16 < 16" by simp
    with Cons show ?case using hex_digit_char [OF d] hex_digit_char [of "unat w mod 16"] hex_char_not_x [OF d]
        hex_char_not_x [of "unat w mod 16"]
      by (auto simp: hex_encode_def)
  qed (simp add: hex_encode_def)
  then show ?thesis by (simp add: codec_ok_def hex_codec_def)
qed

definition sample_order :: dln_order where
  "sample_order =
     \<lparr>do_nonce = 7, do_give_chain = 42161, do_give_amount = 1000000, do_take_chain = 8453, do_take_amount = 999000,
      do_maker = [1, 2, 3], do_give_token = replicate 20 4, do_take_token = replicate 20 5, do_receiver = replicate 40 6,
      do_give_patch = [], do_authority = [], do_taker = [], do_beneficiary = [], do_call = [9]\<rparr>"

theorem dln_log_roundtrip_witness:
  "decode_dln_order_created_log hex_codec 5
      (JObj [(''data'', JStr (''0x'' @ concat (map (cx_encode hex_codec) (log_slots (replicate 32 1) (replicate 5 (be32 0)) sample_order [])))),
             (''transactionHash'', JStr ''0xab'')]) 42161
    = Ok (Some (intent_of_order hex_codec 5 ''0xab'' (replicate 32 1) 42161 sample_order))"
proof (rule dln_log_roundtrip [OF hex_codec_ok])
  show "length (log_slots (replicate 32 1) (replicate 5 (be32 0)) sample_order []) < 2 ^ 58"
    by (simp add: log_slots_def order_slots_def byte_fields_def sample_order_def enc_bytes_def chunks.simps Let_def
        del: be_enc.simps)
qed (simp_all add: sample_order_def list_all_iff del: be_enc.simps)

end
