(* ===== verification/DlnFeed.thy ===== *)
theory DlnFeed
  imports Dln LambdaProps
begin

text \<open>
  The two feeds of deBridge orders (\<open>crates/genome-client/src/lib.rs\<close>): the scan of logs by block
  windows (\<open>DeBridgePoller::run\<close>) and the messages of the web socket (\<open>parse_debridge_ws_message\<close>),
  and how the orders they report compare.  The answers of the nodes and the parsed JSON text of a
  message are inputs.
\<close>

section \<open>Numbers in hexadecimal\<close>

definition hex_fold :: "nat list \<Rightarrow> nat" where
  "hex_fold ds = foldl (\<lambda>n d. 16 * n + d) 0 ds"

text \<open>\<open>from_str_radix\<close> with radix 16 for an unsigned type of the given width.\<close>

definition hex_number :: "nat \<Rightarrow> string \<Rightarrow> nat option" where
  "hex_number bits s =
     (let ds = (if starts_with s ''+'' then drop 1 s else s)
      in if ds = [] then None
         else case those (map hex_digit ds) of
                None \<Rightarrow> None
              | Some xs \<Rightarrow> if hex_fold xs < 2 ^ bits then Some (hex_fold xs) else None)"

definition ws_number :: "nat \<Rightarrow> string \<Rightarrow> nat" where
  "ws_number k s =
     (let clean = trim_start_str ''0x'' s; t = trim_start_char (CHR ''0'') clean
      in case hex_number (4 * k) (case str_slice 0 k t of None \<Rightarrow> clean | Some x \<Rightarrow> x) of None \<Rightarrow> 0 | Some n \<Rightarrow> n)"

definition hex_to_u64 :: "string \<Rightarrow> u64" where
  "hex_to_u64 s = of_nat (ws_number 16 s)"

definition hex_to_u128 :: "string \<Rightarrow> nat" where
  "hex_to_u128 s = ws_number 32 s"

text \<open>The last forty characters; the slice panics inside a multi-byte character.\<close>

definition addr_tail :: "string \<Rightarrow> (unit, string) res" where
  "addr_tail clean =
     (if 40 \<le> length clean
      then (case str_slice (length clean - 40) (length clean) clean of None \<Rightarrow> Panic | Some x \<Rightarrow> Ok (''0x'' @ x))
      else Ok (''0x'' @ clean))"

definition hex_to_addr :: "string \<Rightarrow> (unit, string) res" where
  "hex_to_addr s = addr_tail (trim_start_str ''0x'' s)"

section \<open>Order messages\<close>

definition with_0x :: "string \<Rightarrow> string" where
  "with_0x s = ''0x'' @ trim_start_str ''0x'' s"

definition keep :: "('a \<Rightarrow> bool) \<Rightarrow> 'a option \<Rightarrow> 'a option" where
  "keep p x = (case x of None \<Rightarrow> None | Some a \<Rightarrow> if p a then Some a else None)"

definition ws_tx_hash :: "json \<Rightarrow> string \<Rightarrow> string" where
  "ws_tx_hash st order_id =
     or_str (Option.bind (Option.bind (jget ''Created'' st) (jget ''finalization_info'')) (\<lambda>fi.
       Option.bind (case jget ''Finalized'' fi of Some f \<Rightarrow> Some f | None \<Rightarrow> jget ''Confirmed'' fi) (jstr ''transaction_hash'')))
     order_id"

definition ws_order :: "u64 \<Rightarrow> json \<Rightarrow> json \<Rightarrow> string \<Rightarrow> (unit, feed_intent option) res" where
  "ws_order now order st order_id =
     (case (jget ''give'' order, jget ''take'' order) of
        (Some give, Some tk) \<Rightarrow>
          (case (jstr ''chain_id'' give, jstr ''chain_id'' tk, jstr ''amount'' give, jstr ''amount'' tk, jstr ''token_address'' give) of
             (Some gc, Some tc, Some ga, Some ta, Some gt) \<Rightarrow>
               res_bind (hex_to_addr gt) (\<lambda>src_token.
                 case jstr ''token_address'' tk of
                   None \<Rightarrow> Ok None
                 | Some raw \<Rightarrow>
                     let dst = hex_to_u64 tc; solana = dln_non_evm_chain_name dst \<noteq> None
                     in if solana \<and> dst \<noteq> 100000001 then Ok None
                        else res_bind (if solana then Ok raw else hex_to_addr raw) (\<lambda>dst_token.
                          if \<not> solana \<and> \<not> is_supported_fill_token dst_token then Ok None
                          else case (jstr ''maker_src'' order, jstr ''receiver_dst'' order) of
                            (Some mk, Some rc) \<Rightarrow>
                              res_bind (addr_tail (to_lowercase (trim_start_str ''0x'' mk))) (\<lambda>maker.
                              res_bind (if solana then Ok rc else addr_tail (to_lowercase (trim_start_str ''0x'' rc))) (\<lambda>receiver.
                              Ok (Some (default_intent\<lparr>
                                i_id := ''debridge_dln:'' @ order_id,
                                i_protocol := ''debridge_dln'',
                                i_src_chain := hex_to_u64 gc,
                                i_dst_chain := dst,
                                i_src_token := src_token,
                                i_dst_token := dst_token,
                                i_amount := show_nat (hex_to_u128 ga),
                                i_depositor := maker,
                                i_recipient := receiver,
                                i_tx_hash := ws_tx_hash st order_id,
                                i_give_amount := Some (show_nat (hex_to_u128 ga)),
                                i_take_amount := Some (show_nat (hex_to_u128 ta)),
                                i_order_id := Some order_id,
                                fi_maker_order_nonce := Some (case Option.bind (jstr ''maker_order_nonce'' order)
                                  (parse_unsigned (2 ^ 64 - 1)) of None \<Rightarrow> 0 | Some n \<Rightarrow> of_nat n),
                                fi_give_patch_authority := map_option with_0x
                                  (keep (\<lambda>s. s \<noteq> []) (jstr ''give_patch_authority_src'' order)),
                                fi_order_authority_dst := (if solana then None else map_option with_0x
                                  (keep (\<lambda>s. s \<noteq> []) (jstr ''order_authority_address_dst'' order))),
                                i_dln_allowed_taker_dst := (if solana then None
                                  else map_option (\<lambda>s. if starts_with s ''0x'' then s else ''0x'' @ s)
                                    (keep (\<lambda>s. s \<noteq> [] \<and> s \<noteq> ''0x'') (jstr ''allowed_taker_dst'' order))),
                                fi_cancel_beneficiary := map_option with_0x
                                  (keep (\<lambda>s. s \<noteq> [] \<and> s \<noteq> ''null'') (jstr ''allowed_cancel_beneficiary_src'' order)),
                                i_dln_external_call := map_option with_0x
                                  (keep (\<lambda>s. list_ex (\<lambda>c. c \<noteq> CHR ''0'') (trim_start_str ''0x'' s)) (jstr ''external_call'' order)),
                                i_is_solana_destination := (if solana then Some True else None),
                                i_detected_at := now\<rparr>))))
                          | _ \<Rightarrow> Ok None))
           | _ \<Rightarrow> Ok None)
      | _ \<Rightarrow> Ok None)"

definition ws_seen_cap :: nat where "ws_seen_cap = 50000"

definition parse_debridge_ws_message ::
    "u64 \<Rightarrow> json option \<Rightarrow> string list \<Rightarrow> (unit, feed_intent option) res \<times> string list" where
  "parse_debridge_ws_message now msg seen =
     (case Option.bind (Option.bind msg (jget ''Order'')) (jget ''order_info'') of
        None \<Rightarrow> (Ok None, seen)
      | Some info \<Rightarrow>
          (case jget ''order_info_status'' info of
             None \<Rightarrow> (Ok None, seen)
           | Some st \<Rightarrow>
               if jget ''Created'' st = None \<and> jget ''ArchivalCreated'' st = None then (Ok None, seen)
               else case jstr ''order_id'' info of
                      None \<Rightarrow> (Ok None, seen)
                    | Some h \<Rightarrow>
                        let order_id = (if starts_with h ''0x'' then h else ''0x'' @ h);
                            seen1 = (if ws_seen_cap \<le> length seen then [] else seen)
                        in if order_id \<in> set seen1 then (Ok None, seen1)
                           else (case jget ''order'' info of
                                   None \<Rightarrow> (Ok None, order_id # seen1)
                                 | Some order \<Rightarrow> (ws_order now order st order_id, order_id # seen1))))"

section \<open>The scan of logs\<close>

record dln_poller =
  dp_last :: "u64 \<Rightarrow> u64 option"
  dp_seen :: "string list"
  dp_out :: "feed_intent list"
  dp_scanned :: "(u64 \<times> u64 \<times> u64) list"
  dp_open :: bool
  dp_live :: bool

text \<open>The last three fields are the ranges that were answered, whether the receiver exists, and whether the task
  still runs.  A poll of a chain: the current block and the answer to a range, as the node gives them.\<close>

definition dln_new :: dln_poller where
  "dln_new = \<lparr>dp_last = (\<lambda>_. None), dp_seen = [], dp_out = [], dp_scanned = [], dp_open = True, dp_live = True\<rparr>"

definition sat_sub :: "u64 \<Rightarrow> u64 \<Rightarrow> u64" where
  "sat_sub a b = (if a \<le> b then 0 else a - b)"

definition window_start :: "u64 \<Rightarrow> u64 option \<Rightarrow> u64 \<Rightarrow> u64" where
  "window_start batch prev cur =
     max (case prev of None \<Rightarrow> sat_sub cur batch | Some l \<Rightarrow> l) (sat_sub cur (batch * 5))"

definition dln_log :: "codec \<Rightarrow> u64 \<Rightarrow> u64 \<Rightarrow> json \<Rightarrow> dln_poller \<Rightarrow> dln_poller" where
  "dln_log C now chain lg p =
     (if \<not> dp_live p then p
      else case decode_dln_order_created_log C now lg chain of
        Ok None \<Rightarrow> p
      | Ok (Some it) \<Rightarrow>
          if i_id it \<in> set (dp_seen p) then p
          else let q = p\<lparr>dp_seen := i_id it # dp_seen p\<rparr>;
                   non_evm = dln_non_evm_chain_name (i_dst_chain it) \<noteq> None;
                   it1 = (if non_evm then it\<lparr>i_is_solana_destination := Some True\<rparr> else it)
               in if non_evm \<and> i_dst_chain it \<noteq> 100000001 then q
                  else if i_dst_chain it \<noteq> 100000001 \<and> \<not> is_supported_fill_token (i_dst_token it) then q
                  else if dp_open q then q\<lparr>dp_out := dp_out q @ [it1]\<rparr> else q\<lparr>dp_live := False\<rparr>
      | _ \<Rightarrow> p\<lparr>dp_live := False\<rparr>)"

definition dln_poll ::
    "codec \<Rightarrow> u64 \<Rightarrow> u64 \<times> u64 \<times> u64 option \<times> (u64 \<Rightarrow> u64 \<Rightarrow> json list option) \<Rightarrow> dln_poller \<Rightarrow> dln_poller" where
  "dln_poll C batch poll p =
     (let (chain, now, block, logs) = poll
      in if \<not> dp_live p then p
         else case block of
           None \<Rightarrow> p
         | Some cur \<Rightarrow>
             let start = window_start batch (dp_last p chain) cur
             in if cur \<le> start then p\<lparr>dp_last := (dp_last p)(chain \<mapsto> cur)\<rparr>
                else (case logs start cur of
                        None \<Rightarrow> p
                      | Some ls \<Rightarrow>
                          fold (dln_log C now chain) ls
                            (p\<lparr>dp_last := (dp_last p)(chain \<mapsto> cur + 1), dp_scanned := dp_scanned p @ [(chain, start, cur)]\<rparr>)))"

section \<open>Numbers read back\<close>

lemma hex_fold_append: "hex_fold (xs @ ys) = hex_fold xs * 16 ^ length ys + hex_fold ys"
proof (induction ys rule: rev_induct)
  case (snoc y ys)
  have "hex_fold (zs @ [d]) = 16 * hex_fold zs + d" for zs d by (simp add: hex_fold_def)
  from this [of "xs @ ys" y] this [of ys y] snoc show ?case by (simp add: algebra_simps)
qed (simp add: hex_fold_def)

lemma hex_fold_less: "list_all (\<lambda>d. d < 16) ds \<Longrightarrow> hex_fold ds < 16 ^ length ds"
proof (induction ds rule: rev_induct)
  case (snoc d ds)
  then have "hex_fold ds + 1 \<le> 16 ^ length ds" "d < 16" by simp_all
  then have "hex_fold ds * 16 + 16 \<le> 16 ^ length ds * 16" by (metis add_mult_distrib mult_1 mult_le_mono1)
  with \<open>d < 16\<close> show ?case by (simp add: hex_fold_append [of ds "[d]"]) (simp add: hex_fold_def)
qed (simp add: hex_fold_def)

lemma hex_fold_Cons: "hex_fold (d # ds) = d * 16 ^ length ds + hex_fold ds"
  using hex_fold_append [of "[d]" ds] by (simp add: hex_fold_def)

lemma hex_fold_zeros: "hex_fold (dropWhile (\<lambda>d. d = 0) ds) = hex_fold ds"
  by (induction ds) (simp_all add: hex_fold_Cons)

text \<open>The leading hex digits of a number: the number itself when it has no more than \<open>k\<close>.\<close>

definition lead :: "nat \<Rightarrow> nat list \<Rightarrow> nat" where
  "lead k ds = hex_fold (take k (dropWhile (\<lambda>d. d = 0) ds))"

lemma lead_div:
  assumes "list_all (\<lambda>d. d < 16) ds"
  shows "lead k ds = hex_fold ds div 16 ^ (length (dropWhile (\<lambda>d. d = 0) ds) - k)"
proof -
  let ?t = "dropWhile (\<lambda>d. d = 0) ds"
  have "list_all (\<lambda>d. d < 16) (drop k ?t)"
    using assms by (auto simp: list_all_iff dest!: in_set_dropD set_dropWhileD)
  then have "hex_fold (drop k ?t) < 16 ^ (length ?t - k)" using hex_fold_less by fastforce
  moreover have "hex_fold ?t = hex_fold (take k ?t) * 16 ^ (length ?t - k) + hex_fold (drop k ?t)"
    using hex_fold_append [of "take k ?t" "drop k ?t"] by simp
  ultimately show ?thesis by (simp add: lead_def hex_fold_zeros [of ds, symmetric])
qed

lemma digits_bound:
  assumes "hex_fold ds < 16 ^ k" "list_all (\<lambda>d. d < 16) ds"
  shows "length (dropWhile (\<lambda>d. d = 0) ds) \<le> k"
proof (rule ccontr)
  let ?t = "dropWhile (\<lambda>d. d = 0) ds"
  assume "\<not> length ?t \<le> k"
  then obtain d t where t: "?t = d # t" "k \<le> length t" by (cases ?t) auto
  then have "d \<noteq> 0" using hd_dropWhile [of "\<lambda>d. d = 0" ds] by simp
  then have "16 ^ length t \<le> hex_fold ?t" by (simp add: t(1) hex_fold_Cons trans_le_add1)
  moreover have "(16::nat) ^ k \<le> 16 ^ length t" using t(2) by (intro power_increasing) simp_all
  ultimately show False using assms(1) by (simp add: hex_fold_zeros)
qed

lemma lead_exact: "hex_fold ds < 16 ^ k \<Longrightarrow> list_all (\<lambda>d. d < 16) ds \<Longrightarrow> lead k ds = hex_fold ds"
  using digits_bound lead_div by fastforce

definition nibbles :: "bytes \<Rightarrow> nat list" where
  "nibbles b = concat (map (\<lambda>w. [unat w div 16, unat w mod 16]) b)"

lemma nibbles_less: "list_all (\<lambda>d. d < 16) (nibbles b)"
proof -
  have "unat (w :: u8) div 16 < 16" for w
  proof -
    have "unat w < 256" using unsigned_less [of w] by simp
    then show ?thesis by simp
  qed
  then show ?thesis by (auto simp: nibbles_def list_all_iff)
qed

lemma hex_fold_nibbles: "hex_fold (nibbles b) = be_val b"
proof (induction b rule: rev_induct)
  case (snoc w b)
  have "hex_fold (nibbles (b @ [w])) = hex_fold (nibbles b) * 256 + hex_fold (nibbles [w])"
    by (simp add: nibbles_def hex_fold_append)
  moreover have "hex_fold (nibbles [w]) = unat w" by (simp add: nibbles_def hex_fold_def)
  ultimately show ?case using snoc by (simp add: be_val_snoc)
qed (simp add: nibbles_def hex_fold_def be_val_def)

lemma hex_encode_map: "hex_encode b = map hex_char (nibbles b)"
  by (induction b) (simp_all add: hex_encode_def nibbles_def)

lemma those_hex: "list_all (\<lambda>d. d < 16) ds \<Longrightarrow> those (map hex_digit (map hex_char ds)) = Some ds"
  by (induction ds) (simp_all add: hex_digit_char)

lemma hex_char_code: "d < 16 \<Longrightarrow> (of_char (hex_char d) :: nat) = (if d < 10 then 48 + d else 87 + d)"
  by (simp add: hex_char_def)

lemma hex_char_eq: "d < 16 \<Longrightarrow> hex_char d = c \<longleftrightarrow> of_char c = (if d < 10 then 48 + d else 87 + d :: nat)"
  using hex_char_code [of d] of_char_eq_iff [of "hex_char d" c] by (metis of_char_eq_iff)

lemma hex_char_zero: "d < 16 \<Longrightarrow> hex_char d = CHR ''0'' \<longleftrightarrow> d = 0"
  by (auto simp: hex_char_eq)

lemma trim_zeros: "list_all (\<lambda>d. d < 16) ds \<Longrightarrow>
    trim_start_char (CHR ''0'') (map hex_char ds) = map hex_char (dropWhile (\<lambda>d. d = 0) ds)"
  by (induction ds) (simp_all add: trim_start_char_def hex_char_zero)

lemma hex_char_ascii: "d < 16 \<Longrightarrow> (of_char (hex_char d) :: nat) < 128 \<and> hex_char d \<noteq> CHR ''+''"
  by (simp add: hex_char_code hex_char_eq)

lemma be_val_be32: "n < 2 ^ 256 \<Longrightarrow> be_val (be32 n) = n"
  using be_val_be_enc [of 32 n] by (simp del: be_enc.simps)

lemma hex_text_no_x: "CHR ''x'' \<notin> set (hex_encode b)"
  using hex_codec_ok by (simp add: codec_ok_def hex_codec_def)

lemma trim_hex_text: "trim_start_str ''0x'' (hex_encode b) = hex_encode b"
  using trim_start_no_prefix hex_text_no_x by blast

lemma hex_number_text:
  assumes "list_all (\<lambda>d. d < 16) ds" "ds \<noteq> []" "hex_fold ds < 2 ^ bits"
  shows "hex_number bits (map hex_char ds) = Some (hex_fold ds)"
proof -
  have "\<not> starts_with (map hex_char ds) ''+''"
    using assms(1,2) hex_char_ascii by (cases ds) (auto simp: starts_with_def)
  then show ?thesis using assms those_hex [OF assms(1)] by (simp add: hex_number_def Let_def)
qed

lemma slice_prefix:
  assumes "\<forall>c \<in> set s. (of_char c :: nat) < 128"
  shows "str_slice a b s = (if a \<le> b \<and> b \<le> length s then Some (take (b - a) (drop a s)) else None)"
  using assms by (auto simp: str_slice_def char_boundary_def Let_def)

lemma ws_number_text:
  assumes "b \<noteq> []" "0 < k"
  shows "ws_number k (hex_encode b) = lead k (nibbles b)"
proof -
  let ?t = "dropWhile (\<lambda>d. d = 0) (nibbles b)"
  note nib = nibbles_less [of b]
  have t: "list_all (\<lambda>d. d < 16) ?t" using nib by (auto simp: list_all_iff dest!: set_dropWhileD)
  have ascii: "\<forall>c \<in> set (map hex_char ?t). (of_char c :: nat) < 128"
    using t hex_char_ascii by (auto simp: list_all_iff)
  have pow: "(2::nat) ^ (4 * k) = 16 ^ k" by (simp add: power_mult)
  have tz: "trim_start_char (CHR ''0'') (hex_encode b) = map hex_char ?t" using nib by (simp add: hex_encode_map trim_zeros)
  have sl: "str_slice 0 k (map hex_char ?t) = (if k \<le> length ?t then Some (map hex_char (take k ?t)) else None)"
    using slice_prefix [OF ascii] by (simp add: take_map)
  show ?thesis
  proof (cases "k \<le> length ?t")
    case True
    then have len: "length (take k ?t) = k" by (simp only: length_take min_absorb2)
    then have "take k ?t \<noteq> []" using assms(2) by (metis list.size(3) less_numeral_extra(3))
    moreover have "list_all (\<lambda>d. d < 16) (take k ?t)" using t by (auto simp: list_all_iff dest!: in_set_takeD)
    ultimately have tk: "list_all (\<lambda>d. d < 16) (take k ?t)" "take k ?t \<noteq> []" "length (take k ?t) = k" using len by blast+
    then have "hex_number (4 * k) (map hex_char (take k ?t)) = Some (hex_fold (take k ?t))"
      using hex_fold_less [OF tk(1)] by (intro hex_number_text) (simp_all add: pow)
    then show ?thesis
      using True sl by (simp add: ws_number_def trim_hex_text tz Let_def lead_def)
  next
    case False
    have "hex_fold (nibbles b) < 16 ^ length ?t" using hex_fold_less [OF t] by (simp add: hex_fold_zeros)
    also have "(16::nat) ^ length ?t \<le> 16 ^ k" using False by (intro power_increasing) simp_all
    finally have less: "hex_fold (nibbles b) < 16 ^ k" .
    have "nibbles b \<noteq> []" using assms(1) by (simp add: nibbles_def)
    then have "hex_number (4 * k) (hex_encode b) = Some (hex_fold (nibbles b))"
      unfolding hex_encode_map using less nib by (intro hex_number_text) (simp_all add: pow)
    then show ?thesis
      using False sl lead_exact [OF less nib] by (simp add: ws_number_def trim_hex_text tz Let_def)
  qed
qed

lemma ws_number_be32:
  assumes "n < 2 ^ 256" "0 < k"
  shows "ws_number k (hex_encode (be32 n)) = lead k (nibbles (be32 n))" "hex_fold (nibbles (be32 n)) = n"
    "list_all (\<lambda>d. d < 16) (nibbles (be32 n))"
proof -
  have "be32 n \<noteq> []" using length_be_enc [of 32 n] by (metis list.size(3) zero_neq_numeral)
  then show "ws_number k (hex_encode (be32 n)) = lead k (nibbles (be32 n))" using assms(2) by (rule ws_number_text)
qed (simp_all only: hex_fold_nibbles be_val_be32 [OF assms(1)] nibbles_less)

text \<open>Amounts of up to 128 bits are read exactly from a web socket message.  A larger amount is not
  rejected: it reads as its leading thirty-two hex digits, while the log of the same order reads as its low 128 bits.\<close>

theorem ws_amount_read:
  assumes "n < 2 ^ 256"
  shows "(n < 2 ^ 128 \<longrightarrow> hex_to_u128 (hex_encode (be32 n)) = n)
    \<and> (2 ^ 128 \<le> n \<longrightarrow> (\<exists>j. hex_to_u128 (hex_encode (be32 n)) = n div 16 ^ Suc j \<and> 0 < n div 16 ^ Suc j))
    \<and> u128_str (be32 n) = show_nat (n mod 2 ^ 128)"
proof (intro conjI impI)
  let ?ds = "nibbles (be32 n)"
  let ?t = "dropWhile (\<lambda>d. d = 0) ?ds"
  note r = ws_number_be32 [OF assms, of 32]
  have p: "(16::nat) ^ 32 = 2 ^ 128" by simp
  { assume "n < 2 ^ 128"
    then show "hex_to_u128 (hex_encode (be32 n)) = n"
      using lead_exact [of ?ds 32] r by (simp only: hex_to_u128_def p) }
  { assume big: "2 ^ 128 \<le> n"
    have len: "32 < length ?t"
    proof (rule ccontr)
      assume "\<not> 32 < length ?t"
      then have "(16::nat) ^ length ?t \<le> 16 ^ 32" by (intro power_increasing) simp_all
      moreover have "list_all (\<lambda>d. d < 16) ?t" using r(3) by (auto simp: list_all_iff dest!: set_dropWhileD)
      from hex_fold_less [OF this] have "n < 16 ^ length ?t" using r(2) by (simp add: hex_fold_zeros)
      ultimately show False using big unfolding p by (meson leD less_le_trans)
    qed
    then obtain j where j: "length ?t - 32 = Suc j" by (metis Suc_diff_Suc)
    have val: "hex_to_u128 (hex_encode (be32 n)) = n div 16 ^ Suc j"
      using lead_div [OF r(3), of 32] r by (simp only: hex_to_u128_def j) 
    have "lead 32 ?ds \<noteq> 0"
    proof
      assume z: "lead 32 ?ds = 0"
      obtain d t where t: "?t = d # t" using len by (cases ?t) auto
      then have "d \<noteq> 0" using hd_dropWhile [of "\<lambda>d. d = 0" ?ds] by simp
      then show False using z by (simp add: lead_def t hex_fold_Cons)
    qed
    then have "0 < n div 16 ^ Suc j" using lead_div [OF r(3), of 32] r(2) by (simp only: j)
    with val show "\<exists>j. hex_to_u128 (hex_encode (be32 n)) = n div 16 ^ Suc j \<and> 0 < n div 16 ^ Suc j" by blast }
  show "u128_str (be32 n) = show_nat (n mod 2 ^ 128)"
    using drop_be_enc [of 16 16 n] be_val_be_enc [of 16 n] by (simp add: u128_str_def del: be_enc.simps)
qed

theorem ws_amount_read_witness:
  "hex_to_u128 (hex_encode (be32 1000)) = 1000 \<and> u128_str (be32 1000) = show_nat 1000"
  using ws_amount_read [of 1000] by (simp_all del: be_enc.simps)

section \<open>Two feeds, one order\<close>

text \<open>The message the service sends for a new order of EVM chains.  Numbers are 32-byte hex.  An address field is
  the hex of its bytes behind \<open>z\<close> zero bytes: none, or twelve where the service pads it to 32 bytes.  The finality
  of the source transaction, with its hash, may be there or not.\<close>

definition ws_field :: "nat \<Rightarrow> bytes \<Rightarrow> json" where
  "ws_field z b = JStr (hex_encode (replicate z 0 @ b))"

definition ws_json :: "nat \<Rightarrow> dln_order \<Rightarrow> json" where
  "ws_json z d = JObj
     [(''give'', JObj [(''chain_id'', JStr (hex_encode (be32 (unat (do_give_chain d))))),
        (''amount'', JStr (hex_encode (be32 (do_give_amount d)))), (''token_address'', ws_field z (do_give_token d))]),
      (''take'', JObj [(''chain_id'', JStr (hex_encode (be32 (unat (do_take_chain d))))),
        (''amount'', JStr (hex_encode (be32 (do_take_amount d)))), (''token_address'', ws_field z (do_take_token d))]),
      (''maker_src'', ws_field z (do_maker d)), (''receiver_dst'', ws_field z (do_receiver d)),
      (''maker_order_nonce'', JStr (show_nat (unat (do_nonce d)))),
      (''give_patch_authority_src'', ws_field z (do_give_patch d)),
      (''order_authority_address_dst'', ws_field z (do_authority d)),
      (''allowed_taker_dst'', ws_field z (do_taker d)),
      (''allowed_cancel_beneficiary_src'', ws_field z (do_beneficiary d)),
      (''external_call'', ws_field 0 (do_call d))]"

datatype finality = NoFinality | AtConfirmed string | AtFinalized string

fun ws_status :: "finality \<Rightarrow> json" where
  "ws_status NoFinality = JObj [(''Created'', JObj [])]"
| "ws_status (AtConfirmed tx) = JObj [(''Created'', JObj [(''finalization_info'', JObj
     [(''Confirmed'', JObj [(''transaction_hash'', JStr tx)])])])]"
| "ws_status (AtFinalized tx) = JObj [(''Created'', JObj [(''finalization_info'', JObj
     [(''Finalized'', JObj [(''transaction_hash'', JStr tx)])])])]"

fun known_tx :: "finality \<Rightarrow> string option" where
  "known_tx NoFinality = None"
| "known_tx (AtConfirmed tx) = Some tx"
| "known_tx (AtFinalized tx) = Some tx"

definition ws_message :: "nat \<Rightarrow> finality \<Rightarrow> bytes \<Rightarrow> dln_order \<Rightarrow> json" where
  "ws_message z fin order_id d = JObj [(''Order'', JObj [(''order_info'', JObj
     [(''order_info_status'', ws_status fin), (''order_id'', JStr (hex_encode order_id)),
      (''order'', ws_json z d)])])]"

definition evm_order :: "dln_order \<Rightarrow> bool" where
  "evm_order d \<longleftrightarrow> length (do_maker d) = 20 \<and> length (do_give_token d) = 20 \<and> length (do_take_token d) = 20
     \<and> length (do_receiver d) = 20 \<and> do_give_chain d \<noteq> 0 \<and> dln_non_evm_chain_name (do_take_chain d) = None
     \<and> is_supported_fill_token (''0x'' @ hex_encode (do_take_token d))
     \<and> do_give_amount d < 2 ^ 128 \<and> do_take_amount d < 2 ^ 128"

text \<open>What the two feeds have to agree on, whatever the padding; and what they agree on only without padding: the optional
  addresses, which the message hands on as it spells them.\<close>

definition order_facts :: "feed_intent \<Rightarrow> string \<times> string \<times> u64 \<times> u64 \<times> string \<times> string \<times> string \<times> string \<times> string
    \<times> string option \<times> string option \<times> string option \<times> u64 option \<times> bool option" where
  "order_facts i = (i_id i, i_protocol i, i_src_chain i, i_dst_chain i, i_src_token i, i_dst_token i, i_amount i,
     i_depositor i, i_recipient i, i_give_amount i, i_take_amount i, i_order_id i, fi_maker_order_nonce i,
     i_is_solana_destination i)"

definition order_options :: "feed_intent \<Rightarrow> string option \<times> string option \<times> string option \<times> string option" where
  "order_options i = (fi_give_patch_authority i, fi_order_authority_dst i, fi_cancel_beneficiary i, i_dln_allowed_taker_dst i)"

definition spelled :: "nat \<Rightarrow> bytes \<Rightarrow> string option" where
  "spelled z b = (if replicate z 0 @ b = [] then None else Some (''0x'' @ hex_encode (replicate z 0 @ b)))"

definition ws_options :: "nat \<Rightarrow> dln_order \<Rightarrow> string option \<times> string option \<times> string option \<times> string option" where
  "ws_options z d = (spelled z (do_give_patch d), spelled z (do_authority d), spelled z (do_beneficiary d), spelled z (do_taker d))"

definition ws_call :: "dln_order \<Rightarrow> string option" where
  "ws_call d = (if \<exists>c \<in> set (hex_encode (do_call d)). c \<noteq> CHR ''0'' then Some (''0x'' @ hex_encode (do_call d)) else None)"

lemma hex_text_ascii: "\<forall>c \<in> set (hex_encode b). (of_char c :: nat) < 128"
  using nibbles_less [of b] hex_char_ascii by (auto simp: hex_encode_map list_all_iff)

lemma length_hex_encode [simp]: "length (hex_encode b) = 2 * length b"
  by (induction b) (simp_all add: hex_encode_def)

lemma hex_encode_Nil [simp]: "hex_encode b = [] \<longleftrightarrow> b = []"
  using length_hex_encode [of b] by (metis length_0_conv mult_is_0 zero_neq_numeral)

lemma hex_encode_empty [simp]: "hex_encode [] = []"
  by (simp add: hex_encode_def)

lemma hex_encode_padded: "hex_encode (replicate z 0 @ b) = replicate (2 * z) (CHR ''0'') @ hex_encode b"
proof (induction z)
  case (Suc z)
  have "hex_char 0 = CHR ''0''" by code_simp
  then have "hex_encode (0 # xs) = CHR ''0'' # CHR ''0'' # hex_encode xs" for xs by (simp add: hex_encode_def)
  with Suc show ?case by simp
qed (simp add: hex_encode_def)

lemma addr_tail_text: "length b = 20 \<Longrightarrow> addr_tail (hex_encode (replicate z 0 @ b)) = Ok (''0x'' @ hex_encode b)"
  using slice_prefix [OF hex_text_ascii [of "replicate z 0 @ b"]]
  by (simp add: addr_tail_def) (simp add: hex_encode_padded)

lemma hex_to_addr_text: "length b = 20 \<Longrightarrow> hex_to_addr (hex_encode (replicate z 0 @ b)) = Ok (''0x'' @ hex_encode b)"
  by (simp only: hex_to_addr_def trim_hex_text addr_tail_text)

lemma lower_hex: "to_lowercase (hex_encode b) = hex_encode b"
proof -
  have "lower_char (hex_char n) = hex_char n" if "n < 16" for n
    using that hex_char_code [OF that] by (simp add: lower_char_def)
  then show ?thesis using nibbles_less [of b] by (simp add: to_lowercase_def hex_encode_map list_all_iff)
qed

lemma lower_addr_text: "length b = 20 \<Longrightarrow>
    addr_tail (to_lowercase (trim_start_str ''0x'' (hex_encode (replicate z 0 @ b)))) = Ok (''0x'' @ hex_encode b)"
  by (simp only: trim_hex_text lower_hex addr_tail_text)

lemma ws_u64: "hex_to_u64 (hex_encode (be32 (unat w))) = w"
proof -
  have w: "unat w < 16 ^ 16" using unsigned_less [of w] by simp
  then have "unat w < 2 ^ 256" by (rule less_le_trans) simp
  from ws_number_be32 [OF this, of 16] lead_exact [of "nibbles (be32 (unat w))" 16] w
  show ?thesis by (simp add: hex_to_u64_def del: be_enc.simps)
qed

lemma ws_u128: "n < 2 ^ 128 \<Longrightarrow> hex_to_u128 (hex_encode (be32 n)) = n"
proof -
  assume n: "n < 2 ^ 128"
  then have "n < 2 ^ 256" by (rule less_le_trans) simp
  from ws_number_be32 [OF this, of 32] lead_exact [of "nibbles (be32 n)" 32] n
  show ?thesis by (simp add: hex_to_u128_def del: be_enc.simps)
qed

lemma no_0x: "\<not> starts_with (hex_encode b) ''0x''"
  using trim_hex_text [of b] trim_start_str.simps [of "''0x''" "hex_encode b"]
  by (metis hex_text_no_x in_set_takeD list.set_intros(1,2) starts_with_def)

lemma parse_show_u64: "parse_unsigned (2 ^ 64 - 1) (show_nat (unat (w :: u64))) = Some (unat w)"
proof -
  have "unat w < 2 ^ 64" using unsigned_less [of w] by simp
  moreover have "\<not> starts_with (show_nat (unat w)) ''+''"
    using show_nat_digits [of "unat w"] not_digit(2) by (cases "show_nat (unat w)") (auto simp: starts_with_def)
  ultimately show ?thesis using show_nat_digits [of "unat w"] by (simp add: parse_unsigned_def Let_def)
qed

lemma spelled_fields:
  "map_option with_0x (keep (\<lambda>s. s \<noteq> []) (Some (hex_encode (replicate z 0 @ b)))) = spelled z b"
  "map_option with_0x (keep (\<lambda>s. s \<noteq> [] \<and> s \<noteq> ''null'') (Some (hex_encode (replicate z 0 @ b)))) = spelled z b"
  "map_option (\<lambda>s. if starts_with s ''0x'' then s else ''0x'' @ s)
     (keep (\<lambda>s. s \<noteq> [] \<and> s \<noteq> ''0x'') (Some (hex_encode (replicate z 0 @ b)))) = spelled z b"
proof -
  let ?b = "replicate z 0 @ b"
  have "hex_encode ?b \<noteq> ''0x''" using no_0x [of ?b] by (auto simp: starts_with_def)
  moreover have "CHR ''n'' \<notin> set (hex_encode ?b)"
  proof -
    have "hex_char n \<noteq> CHR ''n''" if "n < 16" for n :: nat
      using hex_char_code [OF that] that by (auto split: if_splits)
    then show ?thesis using nibbles_less [of ?b] by (force simp: hex_encode_map list_all_iff)
  qed
  then have "hex_encode ?b \<noteq> ''null''" by (metis list.set_intros(1))
  moreover have "hex_encode ?b = [] \<longleftrightarrow> ?b = []" by (rule hex_encode_Nil)
  ultimately show
    "map_option with_0x (keep (\<lambda>s. s \<noteq> []) (Some (hex_encode ?b))) = spelled z b"
    "map_option with_0x (keep (\<lambda>s. s \<noteq> [] \<and> s \<noteq> ''null'') (Some (hex_encode ?b))) = spelled z b"
    "map_option (\<lambda>s. if starts_with s ''0x'' then s else ''0x'' @ s)
      (keep (\<lambda>s. s \<noteq> [] \<and> s \<noteq> ''0x'') (Some (hex_encode ?b))) = spelled z b"
    using no_0x [of ?b] by (simp_all add: keep_def spelled_def with_0x_def trim_hex_text del: hex_encode_Nil)
qed

lemma ws_call_field:
  "map_option with_0x (keep (\<lambda>s. list_ex (\<lambda>c. c \<noteq> CHR ''0'') (trim_start_str ''0x'' s)) (Some (hex_encode (do_call d)))) = ws_call d"
  by (simp add: keep_def ws_call_def with_0x_def trim_hex_text list_ex_iff)

lemma ws_tx_hash_status: "ws_tx_hash (ws_status fin) i = (case known_tx fin of None \<Rightarrow> i | Some tx \<Rightarrow> tx)"
  by (cases fin) (simp_all add: ws_tx_hash_def or_str_def jstr_def)

lemma ws_status_created: "jget ''Created'' (ws_status fin) \<noteq> None"
  by (cases fin) simp_all

definition ws_reads :: "nat \<Rightarrow> finality \<Rightarrow> bytes \<Rightarrow> dln_order \<Rightarrow> feed_intent \<Rightarrow> bool" where
  "ws_reads z fin oid d it \<longleftrightarrow>
     (\<forall>C now tx src. cx_encode C = hex_encode \<longrightarrow> order_facts it = order_facts (intent_of_order C now tx oid src d))
     \<and> order_options it = ws_options z d \<and> i_dln_external_call it = ws_call d
     \<and> i_tx_hash it = (case known_tx fin of None \<Rightarrow> ''0x'' @ hex_encode oid | Some tx \<Rightarrow> tx) \<and> i_output_amount it = None"

lemma ws_order_read:
  assumes "evm_order d"
  shows "\<exists>it. ws_order now (ws_json z d) (ws_status fin) (''0x'' @ hex_encode oid) = Ok (Some it) \<and> ws_reads z fin oid d it"
proof -
  let ?t = "\<lambda>b. hex_encode (replicate z 0 @ b)"
  from assms have d: "dln_non_evm_chain_name (do_take_chain d) = None" "do_give_chain d \<noteq> 0"
    "is_supported_fill_token (''0x'' @ hex_encode (do_take_token d))"
    and addr: "hex_to_addr (?t (do_give_token d)) = Ok (''0x'' @ hex_encode (do_give_token d))"
      "hex_to_addr (?t (do_take_token d)) = Ok (''0x'' @ hex_encode (do_take_token d))"
      "addr_tail (to_lowercase (trim_start_str ''0x'' (?t (do_maker d)))) = Ok (''0x'' @ hex_encode (do_maker d))"
      "addr_tail (to_lowercase (trim_start_str ''0x'' (?t (do_receiver d)))) = Ok (''0x'' @ hex_encode (do_receiver d))"
    and num: "hex_to_u128 (hex_encode (be32 (do_give_amount d))) = do_give_amount d"
      "hex_to_u128 (hex_encode (be32 (do_take_amount d))) = do_take_amount d"
    by (simp_all only: evm_order_def hex_to_addr_text lower_addr_text ws_u128 simp_thms not_False_eq_True)
  have get: "jget ''give'' (ws_json z d) = Some (JObj [(''chain_id'', JStr (hex_encode (be32 (unat (do_give_chain d))))),
        (''amount'', JStr (hex_encode (be32 (do_give_amount d)))), (''token_address'', JStr (?t (do_give_token d)))])"
    "jget ''take'' (ws_json z d) = Some (JObj [(''chain_id'', JStr (hex_encode (be32 (unat (do_take_chain d))))),
        (''amount'', JStr (hex_encode (be32 (do_take_amount d)))), (''token_address'', JStr (?t (do_take_token d)))])"
    "jstr ''maker_src'' (ws_json z d) = Some (?t (do_maker d))"
    "jstr ''receiver_dst'' (ws_json z d) = Some (?t (do_receiver d))"
    "jstr ''maker_order_nonce'' (ws_json z d) = Some (show_nat (unat (do_nonce d)))"
    "jstr ''give_patch_authority_src'' (ws_json z d) = Some (?t (do_give_patch d))"
    "jstr ''order_authority_address_dst'' (ws_json z d) = Some (?t (do_authority d))"
    "jstr ''allowed_taker_dst'' (ws_json z d) = Some (?t (do_taker d))"
    "jstr ''allowed_cancel_beneficiary_src'' (ws_json z d) = Some (?t (do_beneficiary d))"
    "jstr ''external_call'' (ws_json z d) = Some (hex_encode (do_call d))"
    by (simp_all add: ws_json_def ws_field_def jstr_def del: be_enc.simps)
  have str: "jstr ''chain_id'' (JObj [(''chain_id'', JStr a), (''amount'', JStr b), (''token_address'', JStr c)]) = Some a"
    "jstr ''amount'' (JObj [(''chain_id'', JStr a), (''amount'', JStr b), (''token_address'', JStr c)]) = Some b"
    "jstr ''token_address'' (JObj [(''chain_id'', JStr a), (''amount'', JStr b), (''token_address'', JStr c)]) = Some c" for a b c
    by (simp_all add: jstr_def)
  show ?thesis
    unfolding ws_order_def get prod.case option.case str ws_u64 num addr res_bind.simps Let_def
      spelled_fields ws_call_field ws_tx_hash_status ws_reads_def
    using d
    by (simp add: addr order_facts_def order_options_def ws_options_def intent_of_order_def default_intent_def Let_def
        solana_dst_def hex0x_def bytes_to_addr_def parse_show_u64 [simplified] del: be_enc.simps)
qed

lemma ws_message_read:
  assumes "evm_order d"
  shows "\<exists>it. fst (parse_debridge_ws_message now (Some (ws_message z fin oid d)) []) = Ok (Some it) \<and> ws_reads z fin oid d it"
proof -
  obtain it where "ws_order now (ws_json z d) (ws_status fin) (''0x'' @ hex_encode oid) = Ok (Some it)" "ws_reads z fin oid d it"
    using ws_order_read [OF assms] by blast
  then show ?thesis
    using ws_status_created [of fin]
    by (simp add: parse_debridge_ws_message_def ws_message_def jstr_def no_0x ws_seen_cap_def Let_def)
qed

text \<open>The guards of the controller on the taker and the external call see through the spelling.\<close>

definition goes_on :: "'a step \<Rightarrow> bool" where
  "goes_on m \<longleftrightarrow> (case m of Go a s \<Rightarrow> True | Stop r s \<Rightarrow> False)"

lemma taker_spelling:
  assumes "spelled 0 b = i_dln_allowed_taker_dst x" "spelled z b = i_dln_allowed_taker_dst y" "i_protocol x = i_protocol y"
    and "length (v_addr_hex v (v_signer v)) = 40" "length b \<in> {0, 20}"
  shows "goes_on (stage_taker v x s) = goes_on (stage_taker v y s)"
proof -
  let ?h = "hex_encode b" and ?our = "to_lowercase (v_addr_hex v (v_signer v))"
  let ?clean = "\<lambda>t. trim_start_char CHR ''0'' (trim_start_str ''0x'' t)"
  have trim: "trim_start_str ''0x'' (''0x'' @ hex_encode c) = hex_encode c" for c
    using hex_text_no_x by (intro trim_hex_prefix) auto
  have zeros: "trim_start_char (CHR ''0'') (replicate n (CHR ''0'') @ u) = trim_start_char (CHR ''0'') u" for n u
    by (induction n) (simp_all add: trim_start_char_def)
  have clean: "?clean (''0x'' @ hex_encode (replicate z 0 @ b)) = ?clean (''0x'' @ ?h)"
    by (simp only: trim) (simp only: hex_encode_padded zeros)
  have len: "length ?our = 40" using assms(4) by (simp add: to_lowercase_def)
  have low: "to_lowercase (u @ w) = to_lowercase u @ to_lowercase w" for u w by (simp add: to_lowercase_def)
  have ends: "ends_with (u @ w) ?our = (w = ?our)" if "length w = 40" for u w
    using that len by (auto simp: ends_with_def)
  have both: "ends_with (to_lowercase (''0x'' @ hex_encode (replicate z 0 @ b))) ?our
      = ends_with (to_lowercase (''0x'' @ ?h)) ?our" if "length b = 20"
  proof -
    have "length (to_lowercase ?h) = 40" using that by (simp add: to_lowercase_def)
    from ends [OF this] show ?thesis by (simp only: hex_encode_padded low append_assoc [symmetric])
  qed
  have deb: "is_debridge x = is_debridge y" using assms(3) by (simp add: is_debridge_def)
  show ?thesis
  proof (cases "length b = 20")
    case True
    then have "b \<noteq> []" by auto
    with assms(1,2) have "i_dln_allowed_taker_dst x = Some (''0x'' @ ?h)"
      "i_dln_allowed_taker_dst y = Some (''0x'' @ hex_encode (replicate z 0 @ b))"
      by (simp_all add: spelled_def)
    then show ?thesis
      using both [OF True] clean deb by (simp add: stage_taker_def goes_on_def Let_def skip_def)
  next
    case False
    with assms(5) have b: "b = []" by simp
    with assms(1,2) have "i_dln_allowed_taker_dst x = None"
      "i_dln_allowed_taker_dst y = None \<or> i_dln_allowed_taker_dst y = Some (''0x'' @ hex_encode (replicate z 0))"
      by (auto simp: spelled_def split: if_splits)
    moreover have "?clean (''0x'' @ hex_encode (replicate z 0)) = []"
      using clean trim [of "[]"] by (simp add: b trim_start_char_def)
    ultimately show ?thesis by (auto simp: stage_taker_def goes_on_def Let_def)
  qed
qed

lemma digits_no_0x: "\<not> starts_with (show_nat n) [c, CHR ''x'']" "\<not> starts_with (show_nat n) [c, CHR ''X'']"
proof -
  have "list_all is_digit (take 2 (show_nat n))"
    using show_nat_digits [of n] by (auto simp: list_all_iff dest!: in_set_takeD)
  then show "\<not> starts_with (show_nat n) [c, CHR ''x'']" "\<not> starts_with (show_nat n) [c, CHR ''X'']"
    by (auto simp: starts_with_def is_digit_def numeral_2_eq_2)
qed

lemma zero_token: "''0x'' @ hex_encode (replicate 20 0) = zero_address_text"
  by code_simp

lemma zero_lower: "to_lowercase zero_address_text = zero_address_text"
  by code_simp

section \<open>Properties\<close>

abbreviation order_log :: "bytes \<Rightarrow> bytes list \<Rightarrow> dln_order \<Rightarrow> bytes list \<Rightarrow> string \<Rightarrow> json" where
  "order_log oid filler d rest tx \<equiv> JObj [(''data'', JStr (''0x'' @ concat (map hex_encode (log_slots oid filler d rest)))),
     (''transactionHash'', JStr tx)]"

text \<open>C22. How the two deBridge feeds report one order.  For an order between EVM chains of a supported token, whether
  the service spells addresses in 20 or in zero-padded 32 bytes and whatever it says of the finality, the log and
  the web socket message decode to intents with the same identifier, protocol, chains, tokens, amounts,
  parties, order id and nonce, so the second is a duplicate downstream.  The transaction hash is the one the message
  gives, or the order id when it gives none.  The optional addresses (authorities, beneficiary, reserved taker)
  have the same text when the message does not pad them; padded or not, the controller's guards on the
  reserved taker and on the external call decide alike.  The output amount is in the log's intent only.\<close>

theorem dln_feeds_agree:
  assumes "codec_ok C" "cx_encode C = hex_encode" "evm_order d" "length (do_taker d) \<in> {0, 20}"
    and "length oid = 32" "length filler = 5" "slots32 (filler @ rest)" "length (log_slots oid filler d rest) < 2 ^ 58"
  shows "\<exists>a b. decode_dln_order_created_log C now (order_log oid filler d rest tx) src = Ok (Some a)
    \<and> fst (parse_debridge_ws_message now' (Some (ws_message z fin oid d)) []) = Ok (Some b)
    \<and> order_facts a = order_facts b
    \<and> i_tx_hash a = tx \<and> i_tx_hash b = (case known_tx fin of None \<Rightarrow> ''0x'' @ hex_encode oid | Some h \<Rightarrow> h)
    \<and> (z = 0 \<longrightarrow> order_options a = order_options b)
    \<and> (length (v_addr_hex v (v_signer v)) = 40 \<longrightarrow>
         goes_on (stage_taker v (intent.truncate a) s) = goes_on (stage_taker v (intent.truncate b) s))
    \<and> goes_on (stage_external_call v (intent.truncate a) s) = goes_on (stage_external_call v (intent.truncate b) s)
    \<and> i_output_amount a = Some (show_nat (do_take_amount d)) \<and> i_output_amount b = None"
proof -
  let ?a = "intent_of_order C now tx oid src d"
  have a: "decode_dln_order_created_log C now (order_log oid filler d rest tx) src = Ok (Some ?a)"
    using dln_log_read [OF assms(1,5,6,7) _ _ assms(8), of now tx src] assms(2,3) by (simp add: evm_order_def)
  obtain b where b: "fst (parse_debridge_ws_message now' (Some (ws_message z fin oid d)) []) = Ok (Some b)"
    and r: "ws_reads z fin oid d b" using ws_message_read [OF assms(3)] by blast
  have facts: "order_facts ?a = order_facts b" using r assms(2) by (simp add: ws_reads_def)
  have "\<not> solana_dst (do_take_chain d)" using assms(3) by (simp add: evm_order_def solana_dst_def)
  then have opts: "order_options ?a = ws_options 0 d" and call: "i_dln_external_call ?a = spelled 0 (do_call d)"
    using assms(2)
    by (simp_all add: intent_of_order_def Let_def order_options_def ws_options_def spelled_def bytes_to_hex_def
        bytes_to_dst_field_def bytes_to_addr_def hex0x_def)
  have proto: "i_protocol ?a = i_protocol b" using facts by (simp add: order_facts_def)
  have taker: "goes_on (stage_taker v (intent.truncate ?a) s) = goes_on (stage_taker v (intent.truncate b) s)"
    if "length (v_addr_hex v (v_signer v)) = 40"
    by (rule taker_spelling [OF _ _ _ that assms(4)])
      (use opts r proto in \<open>simp_all add: ws_reads_def order_options_def ws_options_def intent.truncate_def\<close>)
  have trim: "trim_start_str ''0x'' (''0x'' @ hex_encode c) = hex_encode c" for c
    using hex_text_no_x by (intro trim_hex_prefix) auto
  have "i_dln_external_call (intent.truncate ?a) = spelled 0 (do_call d)" "i_dln_external_call (intent.truncate b) = ws_call d"
    "is_debridge (intent.truncate ?a) = is_debridge (intent.truncate b)"
    using call r proto by (simp_all add: ws_reads_def intent.truncate_def is_debridge_def)
  then have ext: "goes_on (stage_external_call v (intent.truncate ?a) s) = goes_on (stage_external_call v (intent.truncate b) s)"
    using trim [of "do_call d"]
    by (auto simp: stage_external_call_def goes_on_def spelled_def ws_call_def skip_def)
  have more: "i_tx_hash ?a = tx" "i_output_amount ?a = Some (show_nat (do_take_amount d))"
    by (simp_all add: intent_of_order_def Let_def)
  show ?thesis
    using a b facts more taker ext opts r unfolding ws_reads_def by (intro exI [of _ ?a] exI [of _ b]) simp
qed

text \<open>They do not agree on the value to attach.  A fill whose token is native ether needs the taken
  amount as its value, which the controller takes from the output amount: the log sets it, the web
  socket message does not, so the same order is filled with value or without, depending on the feed it came by.\<close>

theorem native_value_depends_on_feed:
  assumes "codec_ok C" "cx_encode C = hex_encode" "evm_order d"
    and "length oid = 32" "length filler = 5" "slots32 (filler @ rest)" "length (log_slots oid filler d rest) < 2 ^ 58"
    and "do_take_token d = replicate 20 0" "v_u256 v 10 (show_nat (do_take_amount d)) = Some (do_take_amount d)"
  shows "\<exists>a b. decode_dln_order_created_log C now (order_log oid filler d rest tx) src = Ok (Some a)
    \<and> fst (parse_debridge_ws_message now' (Some (ws_message z fin oid d)) []) = Ok (Some b)
    \<and> eth_fill_value v w (intent.truncate a) = Some (do_take_amount d) \<and> eth_fill_value v w (intent.truncate b) = None"
proof -
  let ?a = "intent_of_order C now tx oid src d"
  have a: "decode_dln_order_created_log C now (order_log oid filler d rest tx) src = Ok (Some ?a)"
    using dln_log_read [OF assms(1,4,5,6) _ _ assms(7), of now tx src] assms(2,3) by (simp add: evm_order_def)
  obtain b where b: "fst (parse_debridge_ws_message now' (Some (ws_message z fin oid d)) []) = Ok (Some b)" "i_output_amount b = None"
    using ws_message_read [OF assms(3), of now' z fin oid] by (auto simp: ws_reads_def)
  have dst: "i_dst_token (intent.truncate ?a) = zero_address_text" "i_output_amount (intent.truncate ?a) = Some (show_nat (do_take_amount d))"
    using assms(2,3,8) zero_token
    by (simp_all add: intent.truncate_def intent_of_order_def Let_def evm_order_def solana_dst_def bytes_to_addr_def hex0x_def)
  have "eth_fill_value v w (intent.truncate ?a) = Some (do_take_amount d)"
    unfolding eth_fill_value_def dst zero_lower Let_def using assms(9) by (simp add: digits_no_0x)
  moreover have "eth_fill_value v w (intent.truncate b) = None"
    using b(2) by (simp add: eth_fill_value_def intent.truncate_def Let_def)
  ultimately show ?thesis using a b by blast
qed

definition native_order :: dln_order where
  "native_order = sample_order\<lparr>do_take_token := replicate 20 0, do_maker := replicate 20 1, do_receiver := replicate 20 6\<rparr>"

lemma native_order_evm: "evm_order native_order"
proof -
  have "is_supported_fill_token zero_address_text" by code_simp
  then show ?thesis using zero_token
    by (simp add: evm_order_def native_order_def sample_order_def dln_non_evm_chain_name_def)
qed

lemma native_layout:
  "length (replicate 32 1 :: bytes) = 32" "length (replicate 5 (be32 0)) = 5" "slots32 (replicate 5 (be32 0) @ [])"
  "length (log_slots (replicate 32 1) (replicate 5 (be32 0)) native_order []) < 2 ^ 58"
  by (simp_all add: log_slots_def order_slots_def byte_fields_def native_order_def sample_order_def enc_bytes_def
      chunks.simps Let_def list_all_iff del: be_enc.simps)

theorem dln_feeds_agree_witness:
  "\<exists>a b. decode_dln_order_created_log hex_codec 5 (order_log (replicate 32 1) (replicate 5 (be32 0)) native_order [] ''0xab'') 42161 = Ok (Some a)
    \<and> fst (parse_debridge_ws_message 4 (Some (ws_message 12 (AtFinalized ''0xab'') (replicate 32 1) native_order)) []) = Ok (Some b)
    \<and> order_facts a = order_facts b \<and> i_tx_hash b = ''0xab''"
proof -
  have "length (do_taker native_order) \<in> {0, 20}" by (simp add: native_order_def sample_order_def)
  moreover have "cx_encode hex_codec = hex_encode" by (simp add: hex_codec_def)
  ultimately obtain a b where
    "decode_dln_order_created_log hex_codec 5 (order_log (replicate 32 1) (replicate 5 (be32 0)) native_order [] ''0xab'') 42161 = Ok (Some a)"
    "fst (parse_debridge_ws_message 4 (Some (ws_message 12 (AtFinalized ''0xab'') (replicate 32 1) native_order)) []) = Ok (Some b)"
    "order_facts a = order_facts b" "i_tx_hash b = (case known_tx (AtFinalized ''0xab'') of None \<Rightarrow> ''0x'' @ hex_encode (replicate 32 1) | Some h \<Rightarrow> h)"
    using dln_feeds_agree [OF hex_codec_ok _ native_order_evm _ native_layout,
        of 5 "''0xab''" 42161 4 12 "AtFinalized ''0xab''" sample_env sample_state] by metis
  then show ?thesis by auto
qed

theorem native_value_depends_on_feed_witness:
  "\<exists>a b. decode_dln_order_created_log hex_codec 5 (order_log (replicate 32 1) (replicate 5 (be32 0)) native_order [] ''0xab'') 42161 = Ok (Some a)
    \<and> fst (parse_debridge_ws_message 4 (Some (ws_message 12 NoFinality (replicate 32 1) native_order)) []) = Ok (Some b)
    \<and> eth_fill_value (sample_env\<lparr>v_u256 := (\<lambda>_ _. Some 999000)\<rparr>) sample_wiring (intent.truncate a) = Some 999000
    \<and> eth_fill_value (sample_env\<lparr>v_u256 := (\<lambda>_ _. Some 999000)\<rparr>) sample_wiring (intent.truncate b) = None"
proof -
  have n: "do_take_amount native_order = 999000" "do_take_token native_order = replicate 20 0"
    by (simp_all add: native_order_def sample_order_def)
  show ?thesis
    using native_value_depends_on_feed [OF hex_codec_ok _ native_order_evm native_layout n(2),
        of "sample_env\<lparr>v_u256 := (\<lambda>_ _. Some 999000)\<rparr>" 5 "''0xab''" 42161 4 12 NoFinality sample_wiring] n(1)
    by (simp add: hex_codec_def)
qed

section \<open>Which blocks are scanned\<close>

definition ranges :: "u64 \<Rightarrow> dln_poller \<Rightarrow> (u64 \<times> u64) list" where
  "ranges c p = map snd (filter (\<lambda>r. fst r = c) (dp_scanned p))"

lemma dln_log_frame [simp]:
  "dp_last (dln_log C now chain lg p) = dp_last p" "dp_scanned (dln_log C now chain lg p) = dp_scanned p"
  by (auto simp: dln_log_def Let_def split: res.split option.split)

lemma dln_logs_frame [simp]:
  "dp_last (fold (dln_log C now chain) ls p) = dp_last p" "dp_scanned (fold (dln_log C now chain) ls p) = dp_scanned p"
  by (induction ls arbitrary: p) simp_all

lemma window_start_unat:
  assumes "5 * unat batch < 2 ^ 64"
  shows "unat (window_start batch (Some l) cur) = max (unat l) (unat cur - 5 * unat batch)"
proof -
  have "unat (batch * 5) = 5 * unat batch"
    using assms by (simp add: unat_word_ariths unat_of_nat mult.commute)
  then have "unat (sat_sub cur (batch * 5)) = unat cur - 5 * unat batch"
    by (auto simp: sat_sub_def word_le_nat_alt unat_sub)
  then show ?thesis by (simp add: window_start_def max_def word_le_nat_alt)
qed

text \<open>What one poll does to the scan of a chain.\<close>

lemma dln_poll_other:
  "fst poll \<noteq> c \<Longrightarrow> dp_last (dln_poll C batch poll p) c = dp_last p c \<and> ranges c (dln_poll C batch poll p) = ranges c p"
  by (cases poll) (auto simp: dln_poll_def Let_def ranges_def split: option.split)

lemma dln_poll_cases:
  assumes "poll = (c, now, block, logs)"
  obtains (same) "dp_last (dln_poll C batch poll p) c = dp_last p c" "ranges c (dln_poll C batch poll p) = ranges c p"
  | (behind) cur where "block = Some cur" "cur \<le> window_start batch (dp_last p c) cur"
      "dp_last (dln_poll C batch poll p) c = Some cur" "ranges c (dln_poll C batch poll p) = ranges c p"
  | (scan) cur where "block = Some cur" "window_start batch (dp_last p c) cur < cur"
      "logs (window_start batch (dp_last p c) cur) cur \<noteq> None"
      "dp_last (dln_poll C batch poll p) c = Some (cur + 1)"
      "ranges c (dln_poll C batch poll p) = ranges c p @ [(window_start batch (dp_last p c) cur, cur)]"
proof (cases "dp_live p")
  case False
  then show ?thesis by (intro same) (simp_all add: ranges_def dln_poll_def assms)
next
  case live: True
  show ?thesis
  proof (cases block)
    case None
    then show ?thesis using live by (intro same) (simp_all add: ranges_def dln_poll_def assms)
  next
    case (Some cur)
    let ?s = "window_start batch (dp_last p c) cur"
    show ?thesis
    proof (cases "cur \<le> ?s")
      case True
      then show ?thesis using live by (intro behind [OF Some True]) (simp_all add: ranges_def dln_poll_def assms Some)
    next
      case False
      show ?thesis
      proof (cases "logs ?s cur")
        case None
        with False live show ?thesis by (intro same) (simp_all add: ranges_def dln_poll_def assms Some Let_def)
      next
        case (Some ls)
        with False live show ?thesis
          by (intro scan [OF \<open>block = Some cur\<close>]) (simp_all add: dln_poll_def assms \<open>block = Some cur\<close> Let_def ranges_def)
      qed
    qed
  qed
qed

text \<open>Within five batches of the node at every poll, and block numbers far from the end of the type.\<close>

fun keeps_up :: "codec \<Rightarrow> u64 \<Rightarrow> u64 \<Rightarrow> (u64 \<times> u64 \<times> u64 option \<times> (u64 \<Rightarrow> u64 \<Rightarrow> json list option)) list \<Rightarrow> dln_poller \<Rightarrow> bool" where
  "keeps_up C batch c [] p = True"
| "keeps_up C batch c (poll # polls) p =
     ((case poll of (ch, _, Some cur, _) \<Rightarrow>
         ch = c \<longrightarrow> unat cur < 2 ^ 63 \<and> (case dp_last p c of None \<Rightarrow> True | Some l \<Rightarrow> unat cur \<le> unat l + 5 * unat batch)
       | _ \<Rightarrow> True)
      \<and> keeps_up C batch c polls (dln_poll C batch poll p))"

definition gap_ok :: "(u64 \<times> u64) list \<Rightarrow> u64 option \<Rightarrow> bool" where
  "gap_ok rs prev \<longleftrightarrow> (case rs of [] \<Rightarrow> True | (f0, _) # _ \<Rightarrow>
     (case prev of None \<Rightarrow> False | Some l \<Rightarrow>
        \<forall>b. unat f0 \<le> b \<and> b < unat l \<longrightarrow> list_ex (\<lambda>(f, t). unat f \<le> b \<and> b \<le> unat t) rs))"

definition gap_free :: "u64 \<Rightarrow> dln_poller \<Rightarrow> bool" where
  "gap_free c p \<longleftrightarrow> gap_ok (ranges c p) (dp_last p c)"

lemma gap_ok_back: "gap_ok rs prev \<Longrightarrow> (\<And>l. prev = Some l \<Longrightarrow> unat cur \<le> unat l) \<Longrightarrow> gap_ok rs (Some cur)"
  by (cases rs; cases prev) (auto simp: gap_ok_def)

lemma gap_ok_scan:
  assumes "gap_ok rs prev" "\<And>l. prev = Some l \<Longrightarrow> unat s = unat l" "unat n = unat cur + 1"
  shows "gap_ok (rs @ [(s, cur)]) (Some n)"
proof (cases rs)
  case Nil
  then show ?thesis using assms(3) by (auto simp: gap_ok_def)
next
  case (Cons r rest)
  obtain f0 t0 where r: "r = (f0, t0)" by (cases r)
  obtain l where l: "prev = Some l" using assms(1) by (cases prev) (auto simp: gap_ok_def Cons r)
  have old: "list_ex (\<lambda>(f, t). unat f \<le> b \<and> b \<le> unat t) rs" if "unat f0 \<le> b" "b < unat l" for b
    using assms(1) that by (simp add: gap_ok_def Cons r l)
  have "list_ex (\<lambda>(f, t). unat f \<le> b \<and> b \<le> unat t) (rs @ [(s, cur)])" if "unat f0 \<le> b" "b < unat n" for b
    using old [OF that(1)] that(2) assms(2) [OF l] assms(3) by (cases "b < unat l") simp_all
  then show ?thesis by (simp add: gap_ok_def Cons r)
qed

lemma wide_window: "l + limit < x \<Longrightarrow> limit < B \<Longrightarrow> limit < x - max l (x - B)" for l limit x B :: nat
  by (simp add: max_def) linarith

lemma head_below: "x \<le> max l (x - B) \<Longrightarrow> x \<le> l + B \<Longrightarrow> x \<le> l" for l x B :: nat
  by (auto simp: max_def split: if_splits)

lemma gap_free_step:
  assumes "gap_free c p" "poll = (c, now, block, logs)" "5 * unat batch < 2 ^ 64"
    and "\<And>cur. block = Some cur \<Longrightarrow> unat cur < 2 ^ 63 \<and> (case dp_last p c of None \<Rightarrow> True | Some l \<Rightarrow> unat cur \<le> unat l + 5 * unat batch)"
  shows "gap_free c (dln_poll C batch poll p)"
  using assms(2)
proof (cases rule: dln_poll_cases [of poll c now block logs C batch p, consumes 1])
  case same
  then show ?thesis using assms(1) by (simp add: gap_free_def)
next
  case (behind cur)
  have "unat cur \<le> unat l" if "dp_last p c = Some l" for l
  proof (rule head_below)
    show "unat cur \<le> max (unat l) (unat cur - 5 * unat batch)" "unat cur \<le> unat l + 5 * unat batch"
      using behind(1,2) assms(4) that by (simp_all add: word_le_nat_alt window_start_unat [OF assms(3)])
  qed
  then show ?thesis using assms(1) behind(3,4) gap_ok_back by (simp add: gap_free_def)
next
  case (scan cur)
  let ?s = "window_start batch (dp_last p c) cur"
  have "unat cur < 2 ^ 63" using assms(4) scan(1) by blast
  then have "unat (cur + 1) = unat cur + 1" by (simp add: unat_word_ariths)
  moreover have "unat ?s = unat l" if "dp_last p c = Some l" for l
  proof -
    have "unat cur - 5 * unat batch \<le> unat l" using assms(4) [OF scan(1)] that by (simp add: le_diff_conv)
    then show ?thesis by (simp only: that window_start_unat [OF assms(3)] max_absorb1)
  qed
  ultimately show ?thesis using assms(1) scan(4,5) gap_ok_scan [of "ranges c p" "dp_last p c" ?s] by (simp add: gap_free_def)
qed

text \<open>C23. No block is skipped: as long as a chain is polled within five batches of its head, the answered
  ranges of the chain cover every block from the start of the first of them up to where the next begins,
  whatever requests fail in between and even when the head goes back.\<close>

theorem dln_scan_gap_free:
  assumes "keeps_up C batch c polls dln_new" "5 * unat batch < 2 ^ 64"
  shows "gap_free c (fold (dln_poll C batch) polls dln_new)"
proof -
  have "gap_free c (fold (dln_poll C batch) polls p)" if "gap_free c p" "keeps_up C batch c polls p" for p
    using that
  proof (induction polls arbitrary: p)
    case (Cons poll polls)
    obtain ch now block logs where poll: "poll = (ch, now, block, logs)" by (cases poll)
    have "gap_free c (dln_poll C batch poll p)"
    proof (cases "ch = c")
      case True
      then show ?thesis using Cons.prems gap_free_step [OF Cons.prems(1) _ assms(2), of poll now block logs C] poll by (cases block) auto
    next
      case False
      then show ?thesis using Cons.prems(1) dln_poll_other [of poll c] by (simp add: poll gap_free_def)
    qed
    then show ?case using Cons.IH Cons.prems(2) by simp
  qed simp
  moreover have "gap_free c dln_new" by (simp add: gap_free_def gap_ok_def ranges_def dln_new_def)
  ultimately show ?thesis using assms(1) by blast
qed

text \<open>Polls of a chain whose node refuses ranges of more than \<open>limit\<close> blocks, once the head is past it.\<close>

definition refused :: "nat \<Rightarrow> u64 \<Rightarrow> u64 \<Rightarrow> u64 \<times> u64 \<times> u64 option \<times> (u64 \<Rightarrow> u64 \<Rightarrow> json list option) \<Rightarrow> bool" where
  "refused limit c l poll = (case poll of (ch, _, block, logs) \<Rightarrow> ch = c \<longrightarrow>
     (case block of None \<Rightarrow> True | Some cur \<Rightarrow> unat l + limit < unat cur
        \<and> (\<forall>f. limit < unat cur - unat f \<longrightarrow> logs f cur = None)))"

text \<open>The window never shrinks: a range is asked for in one request, so once a chain has fallen behind by
  more than its node answers (but less than five batches would ask), every later request is refused as
  well and the chain is not scanned again.\<close>

theorem dln_window_stuck:
  assumes "dp_last p c = Some l" "limit < 5 * unat batch" "5 * unat batch < 2 ^ 64" "list_all (refused limit c l) polls"
  shows "dp_last (fold (dln_poll C batch) polls p) c = Some l \<and> ranges c (fold (dln_poll C batch) polls p) = ranges c p"
  using assms(1,4)
proof (induction polls arbitrary: p)
  case (Cons poll polls)
  obtain ch now block logs where poll: "poll = (ch, now, block, logs)" by (cases poll)
  have "dp_last (dln_poll C batch poll p) c = Some l \<and> ranges c (dln_poll C batch poll p) = ranges c p"
  proof (cases "ch = c")
    case True
    have r: "unat l + limit < unat cur" "limit < unat cur - unat f \<Longrightarrow> logs f cur = None" if "block = Some cur" for cur f
      using Cons.prems(2) that by (auto simp: refused_def poll True)
    have wide: "limit < unat cur - unat (window_start batch (Some l) cur)" if "block = Some cur" for cur
      using wide_window [OF r(1) [OF that] assms(2)] by (simp add: window_start_unat [OF assms(3)])
    show ?thesis
      using poll [unfolded True]
    proof (cases rule: dln_poll_cases [of poll c now block logs C batch p, consumes 1])
      case same
      then show ?thesis using Cons.prems(1) by simp
    next
      case (behind cur)
      then show ?thesis using wide [OF behind(1)] by (simp add: Cons.prems(1) word_le_nat_alt)
    next
      case (scan cur)
      then show ?thesis using wide [OF scan(1)] r(2) [OF scan(1)] by (simp add: Cons.prems(1))
    qed
  next
    case False
    then show ?thesis using dln_poll_other [of poll c] Cons.prems(1) by (simp add: poll)
  qed
  then show ?case using Cons by auto
qed simp

text \<open>A chain polled at block 100 and then at 120; and one at block 3100 with a node that answers at most 2000 blocks.\<close>

definition steady_polls :: "(u64 \<times> u64 \<times> u64 option \<times> (u64 \<Rightarrow> u64 \<Rightarrow> json list option)) list" where
  "steady_polls = [(10, 1, Some 100, (\<lambda>_ _. Some [])), (10, 2, None, (\<lambda>_ _. None)), (10, 3, Some 120, (\<lambda>_ _. Some []))]"

theorem dln_scan_gap_free_witness:
  "gap_free 10 (fold (dln_poll hex_codec 50) steady_polls dln_new)
   \<and> ranges 10 (fold (dln_poll hex_codec 50) steady_polls dln_new) = [(50, 100), (101, 120)]"
proof -
  have "keeps_up hex_codec 50 10 steady_polls dln_new"
    by (simp add: steady_polls_def dln_poll_def dln_new_def window_start_def sat_sub_def Let_def)
  from dln_scan_gap_free [OF this] show ?thesis
    by (simp add: steady_polls_def dln_poll_def dln_new_def window_start_def sat_sub_def Let_def ranges_def)
qed

theorem dln_window_stuck_witness:
  "dp_last (fold (dln_poll hex_codec 2000) [(10, 1, Some 3100, (\<lambda>f t. if 2000 < unat t - unat f then None else Some []))]
     (dln_new\<lparr>dp_last := [10 \<mapsto> 101]\<rparr>)) 10 = Some 101"
  using dln_window_stuck [of "dln_new\<lparr>dp_last := [10 \<mapsto> 101]\<rparr>" 10 101 2000 2000
      "[(10, 1, Some 3100, (\<lambda>f t. if 2000 < unat t - unat f then None else Some []))]" hex_codec]
  by (simp add: refused_def)

end
