(* ===== verification/MayanFeed.thy ===== *)
theory MayanFeed
  imports DlnFeed
begin

text \<open>
  The Mayan feed of \<open>crates/genome-client/src/lib.rs\<close>: the decoder of the parameters of an order from the
  calldata of its source transaction (\<open>fetch_mayan_order_params\<close>) and the poller of the explorer API
  (\<open>MayanPoller\<close>).  The transaction a node returns and the answers of the API are inputs.
\<close>

section \<open>Order parameters from calldata\<close>

record mayan_params =
  mp_random :: "string option"
  mp_cancel_fee :: "nat option"
  mp_refund_fee :: "nat option"
  mp_gas_drop :: "nat option"
  mp_deadline :: "nat option"
  mp_referrer_addr :: "string option"
  mp_referrer_bps :: "nat option"
  mp_auction_mode :: "nat option"
  mp_min_amount_out :: "nat option"

definition no_params :: mayan_params where
  "no_params = \<lparr>mp_random = None, mp_cancel_fee = None, mp_refund_fee = None, mp_gas_drop = None, mp_deadline = None,
     mp_referrer_addr = None, mp_referrer_bps = None, mp_auction_mode = None, mp_min_amount_out = None\<rparr>"

fun find_str :: "string \<Rightarrow> string \<Rightarrow> nat option" where
  "find_str p [] = (if p = [] then Some 0 else None)"
| "find_str p (c # s) = (if starts_with (c # s) p then Some 0 else map_option Suc (find_str p s))"

definition create_order_sel :: string where "create_order_sel = ''e4269fc4''"

definition text_slots :: "string \<Rightarrow> string list option" where
  "text_slots data = those (map (\<lambda>i. str_slice (i * 64) ((i + 1) * 64) data) [0..<length data div 64])"

definition zeros64 :: string where "zeros64 = replicate 64 (CHR ''0'')"

definition slot_number :: "nat \<Rightarrow> string \<Rightarrow> nat option" where
  "slot_number bits s = hex_number bits (trim_start_char (CHR ''0'') s)"

definition slot_word :: "string \<Rightarrow> string option" where
  "slot_word s = (if length s = 64 \<and> s \<noteq> zeros64 then Some s else None)"

definition mayan_fields :: "string list \<Rightarrow> mayan_params" where
  "mayan_fields slots =
     (let shift = (case slots of [] \<Rightarrow> 0 | s # _ \<Rightarrow>
            (case hex_number 64 s of None \<Rightarrow> 0 | Some n \<Rightarrow> if n < 4096 then 1 else 0));
          slot = (\<lambda>i. or_str (nth_opt slots (i + shift)) []);
          u64 = (\<lambda>i. keep (\<lambda>n. 0 < n) (slot_number 64 (slot i)))
      in \<lparr>mp_random = slot_word (slot 15), mp_cancel_fee = u64 10, mp_refund_fee = u64 11, mp_gas_drop = u64 9,
          mp_deadline = u64 12, mp_referrer_addr = map_option (\<lambda>s. ''0x'' @ s) (slot_word (slot 6)),
          mp_referrer_bps = slot_number 8 (slot 13), mp_auction_mode = slot_number 8 (slot 14),
          mp_min_amount_out = u64 8\<rparr>)"

text \<open>The parameters from the \<open>input\<close> of a transaction; the slices panic inside a multi-byte character.\<close>

definition mayan_input :: "string \<Rightarrow> (unit, mayan_params) res" where
  "mayan_input raw =
     (if length raw \<le> 10 then Ok no_params
      else let input = trim_start_str ''0x'' raw
           in case find_str create_order_sel input of
                None \<Rightarrow> Ok no_params
              | Some pos \<Rightarrow>
                  if pos mod 2 \<noteq> 0 then Ok no_params
                  else (case text_slots (drop (pos + 8) input) of None \<Rightarrow> Panic | Some slots \<Rightarrow> Ok (mayan_fields slots)))"

definition fetch_mayan_order_params ::
    "(u64 \<Rightarrow> string \<Rightarrow> json option) \<Rightarrow> u64 \<Rightarrow> string \<Rightarrow> (unit, mayan_params) res" where
  "fetch_mayan_order_params tx_by_hash src tx_hash =
     (if tx_hash = [] \<or> tx_hash = ''0x'' then Ok no_params
      else if src \<notin> set [1, 10, 56, 137, 8453, 42161, 43114] then Ok no_params
      else case tx_by_hash src tx_hash of
             None \<Rightarrow> Ok no_params
           | Some v \<Rightarrow>
               (case Option.bind (jget ''result'' v) (jstr ''input'') of
                  None \<Rightarrow> Ok no_params
                | Some s \<Rightarrow> mayan_input s))"

section \<open>The poller\<close>

definition mayan_chain_to_evm :: "string \<Rightarrow> u64 option" where
  "mayan_chain_to_evm c = map_of
     [(''2'', 1), (''4'', 56), (''5'', 137), (''6'', 43114), (''23'', 42161), (''24'', 10), (''30'', 8453)] c"

record mayan_poller =
  my_seen :: "string list"
  my_out :: "feed_intent list"
  my_open :: bool
  my_live :: bool

definition mayan_cap :: nat where "mayan_cap = 20000"

definition evict_half :: "string list \<Rightarrow> string list" where
  "evict_half seen =
     (if mayan_cap \<le> length seen
      then let gone = take 10000 (sort seen) in filter (\<lambda>h. h \<notin> set gone) seen
      else seen)"

definition is_0x :: "string \<Rightarrow> bool" where
  "is_0x s \<longleftrightarrow> starts_with s ''0x'' \<or> starts_with s ''0X''"

definition solana_sentinel :: u64 where "solana_sentinel = 1399811149"

text \<open>Where an order goes and comes from, and whether its addresses can be filled; \<open>None\<close>: it is skipped.\<close>

definition mayan_route :: "json \<Rightarrow> (bool \<times> u64 \<times> u64) option" where
  "mayan_route order =
     (let dst = or_str (jstr ''destChain'' order) ''0''; solana = (dst = ''1'')
      in case (if solana then Some solana_sentinel else mayan_chain_to_evm dst) of
           None \<Rightarrow> None
         | Some dst_chain \<Rightarrow>
             (case mayan_chain_to_evm (or_str (jstr ''sourceChain'' order) ''0'') of
                None \<Rightarrow> None
              | Some src_chain \<Rightarrow>
                  if \<not> solana \<and> \<not> (is_0x (or_str (jstr ''fromTokenAddress'' order) ''0x0'')
                       \<and> is_0x (or_str (jstr ''toTokenAddress'' order) ''0x0'') \<and> is_0x (or_str (jstr ''destAddress'' order) []))
                  then None else Some (solana, src_chain, dst_chain)))"

definition mayan_mode :: "json \<Rightarrow> mayan_params \<Rightarrow> u8" where
  "mayan_mode order ps =
     (case mp_auction_mode ps of
        Some m \<Rightarrow> of_nat m
      | None \<Rightarrow> (case Option.bind (jget ''auctionMode'' order) as_u64 of None \<Rightarrow> 2 | Some m \<Rightarrow> ucast m))"

definition mayan_intent :: "u64 \<Rightarrow> json \<Rightarrow> string \<Rightarrow> bool \<times> u64 \<times> u64 \<Rightarrow> mayan_params \<Rightarrow> feed_intent" where
  "mayan_intent now order hash route ps =
     (let (solana, src, dst) = route;
          program = or_str (jstr ''swiftProgram'' order) [];
          protocol = (if contains (to_lowercase program) ''flash'' then ''mayan_flash'' else ''mayan_swift'');
          trader = or_str (jstr ''trader'' order) ''0x0'';
          u64 = map_option of_nat
      in default_intent\<lparr>
           i_id := protocol @ '':'' @ hash, i_protocol := protocol, i_src_chain := src, i_dst_chain := dst,
           i_src_token := or_str (jstr ''fromTokenAddress'' order) ''0x0'',
           i_dst_token := or_str (jstr ''toTokenAddress'' order) ''0x0'',
           i_amount := or_str (jstr ''fromAmount'' order) ''0'', i_depositor := trader,
           i_recipient := or_str (jstr ''destAddress'' order) [],
           i_tx_hash := or_str (jstr ''sourceTxHash'' order) ''0x'',
           i_output_amount := jstr ''toAmount'' order, i_mayan_order_id := Some hash, fi_trader := Some trader,
           i_is_solana_source := Some solana, fi_state_account := jstr ''stateAddr'' order,
           fi_swift_program_id := (if program = [] then None else Some program), i_detected_at := now,
           fi_mayan_random := mp_random ps, i_mayan_auction_mode := Some (mayan_mode order ps),
           fi_mayan_cancel_fee := u64 (mp_cancel_fee ps), fi_mayan_refund_fee := u64 (mp_refund_fee ps),
           fi_mayan_referrer_addr := mp_referrer_addr ps, fi_mayan_referrer_bps := map_option of_nat (mp_referrer_bps ps),
           fi_mayan_gas_drop := u64 (mp_gas_drop ps), fi_mayan_min_amount_out := u64 (mp_min_amount_out ps),
           i_deadline := u64 (mp_deadline ps)\<rparr>)"

definition mayan_order ::
    "(u64 \<Rightarrow> string \<Rightarrow> json option) \<Rightarrow> u64 \<Rightarrow> json \<Rightarrow> mayan_poller \<Rightarrow> mayan_poller" where
  "mayan_order tx_by_hash now order p =
     (if \<not> my_live p then p
      else if or_str (jstr ''status'' order) [] \<noteq> ''ORDER_CREATED'' then p
      else case keep (\<lambda>h. h \<noteq> []) (jstr ''orderHash'' order) of
        None \<Rightarrow> p
      | Some hash \<Rightarrow>
          let seen = evict_half (my_seen p)
          in if hash \<in> set seen then p\<lparr>my_seen := seen\<rparr>
             else let q = p\<lparr>my_seen := hash # seen\<rparr>
                  in (case mayan_route order of
                        None \<Rightarrow> q
                      | Some (solana, src, dst) \<Rightarrow>
                          let tx = or_str (jstr ''sourceTxHash'' order) ''0x''
                          in (case (if \<not> solana \<and> src \<noteq> 0 \<and> tx \<noteq> [] \<and> tx \<noteq> ''0x''
                                    then fetch_mayan_order_params tx_by_hash src tx else Ok no_params) of
                                Ok ps \<Rightarrow>
                                  if my_open q then q\<lparr>my_out := my_out q @ [mayan_intent now order hash (solana, src, dst) ps]\<rparr>
                                  else q\<lparr>my_live := False\<rparr>
                              | _ \<Rightarrow> q\<lparr>my_live := False\<rparr>)))"

text \<open>One request: \<open>None\<close> when it failed or its answer has no list of orders.\<close>

definition mayan_poll ::
    "(u64 \<Rightarrow> string \<Rightarrow> json option) \<Rightarrow> u64 \<times> json list option \<Rightarrow> mayan_poller \<Rightarrow> mayan_poller" where
  "mayan_poll tx_by_hash poll p =
     (case poll of (now, None) \<Rightarrow> p | (now, Some orders) \<Rightarrow> fold (mayan_order tx_by_hash now) orders p)"

section \<open>What the decoder gives back\<close>

lemma hex_number_digits:
  assumes "list_all (\<lambda>d. d < 16) ds" "ds \<noteq> []"
  shows "hex_number bits (map hex_char ds) = (if hex_fold ds < 2 ^ bits then Some (hex_fold ds) else None)"
proof -
  have "\<not> starts_with (map hex_char ds) ''+''"
    using assms hex_char_ascii by (cases ds) (auto simp: starts_with_def)
  then show ?thesis using assms(2) those_hex [OF assms(1)] by (simp add: hex_number_def Let_def)
qed

lemma hex_fold_trimmed: "dropWhile (\<lambda>d. d = 0) ds = [] \<longleftrightarrow> hex_fold ds = 0"
proof (cases "dropWhile (\<lambda>d. d = 0) ds")
  case Nil
  have "hex_fold [] = 0" by (simp add: hex_fold_def)
  then show ?thesis using hex_fold_zeros [of ds] Nil by simp
next
  case (Cons d t)
  then have "d \<noteq> 0" using hd_dropWhile [of "\<lambda>d. d = 0" ds] by simp
  then have "0 < hex_fold (d # t)" by (simp add: hex_fold_Cons)
  then show ?thesis using hex_fold_zeros [of ds] Cons by simp
qed

definition word_text :: "nat \<Rightarrow> string" where "word_text n = hex_encode (be32 n)"

definition nonzero :: "nat \<Rightarrow> nat \<Rightarrow> nat option" where
  "nonzero bits n = (if 0 < n \<and> n < 2 ^ bits then Some n else None)"

lemma word_nibbles:
  assumes "n < 2 ^ 256"
  shows "word_text n = map hex_char (nibbles (be32 n))" "hex_fold (nibbles (be32 n)) = n"
  using assms by (simp_all add: word_text_def hex_encode_map hex_fold_nibbles be_val_be32 del: be_enc.simps)

lemma word_trimmed: "n < 2 ^ 256 \<Longrightarrow>
    trim_start_char (CHR ''0'') (word_text n) = map hex_char (dropWhile (\<lambda>d. d = 0) (nibbles (be32 n)))"
  by (simp add: word_nibbles(1) trim_zeros [OF nibbles_less])

lemma word_trimmed_Nil: "n < 2 ^ 256 \<Longrightarrow> trim_start_char (CHR ''0'') (word_text n) = [] \<longleftrightarrow> n = 0"
  using hex_fold_trimmed [of "nibbles (be32 n)"] word_nibbles(2) [of n] word_trimmed [of n] by simp

lemma word_slot_number:
  assumes n: "n < 2 ^ 256"
  shows "slot_number bits (word_text n) = nonzero bits n"
proof (cases "n = 0")
  case True
  then have "trim_start_char (CHR ''0'') (word_text n) = []" using word_trimmed_Nil [OF n] by blast
  then show ?thesis using True by (simp add: slot_number_def nonzero_def hex_number_def starts_with_def)
next
  case False
  then have "dropWhile (\<lambda>d. d = 0) (nibbles (be32 n)) \<noteq> []"
    using hex_fold_trimmed [of "nibbles (be32 n)"] word_nibbles(2) [OF n] by metis
  moreover have "list_all (\<lambda>d. d < 16) (dropWhile (\<lambda>d. d = 0) (nibbles (be32 n)))"
    using nibbles_less [of "be32 n"] by (auto simp: list_all_iff dest!: set_dropWhileD)
  ultimately show ?thesis
    using False
    by (simp add: slot_number_def word_trimmed [OF n] hex_number_digits hex_fold_zeros word_nibbles(2) [OF n] nonzero_def)
qed

lemma word_text_length [simp]: "length (word_text n) = 64"
  by (simp add: word_text_def length_be_enc del: be_enc.simps)

lemma word_slot_word:
  assumes n: "n < 2 ^ 256"
  shows "slot_word (word_text n) = (if n = 0 then None else Some (word_text n))"
proof -
  have "word_text n = zeros64 \<longleftrightarrow> n = 0"
  proof
    assume "word_text n = zeros64"
    then have "trim_start_char (CHR ''0'') (word_text n) = []" by (simp add: zeros64_def trim_start_char_def)
    then show "n = 0" using word_trimmed_Nil [OF n] by blast
  next
    assume "n = 0"
    then have "trim_start_char (CHR ''0'') (word_text n) = []" using word_trimmed_Nil [OF n] by blast
    then have "\<forall>c \<in> set (word_text n). c = CHR ''0''" by (simp add: trim_start_char_def dropWhile_eq_Nil_conv)
    then show "word_text n = zeros64" using replicate_length_same [of "word_text n" "CHR ''0''"]
      by (simp add: zeros64_def)
  qed
  then show ?thesis by (simp add: slot_word_def)
qed

lemma word_shift:
  assumes n: "n < 2 ^ 256"
  shows "hex_number 64 (word_text n) = (if n < 2 ^ 64 then Some n else None)"
proof -
  have "nibbles (be32 n) \<noteq> []" using word_text_length [of n] by (auto simp: word_nibbles(1) [OF n])
  then show ?thesis
    using word_nibbles [OF n] hex_number_digits [OF nibbles_less, of "be32 n" 64] by simp
qed

lemma those_Some: "those (map (\<lambda>i. Some (f i)) xs) = Some (map f xs)"
  by (induction xs) simp_all

lemma concat_slot:
  "\<forall>x \<in> set xs. length x = k \<Longrightarrow> i < length xs \<Longrightarrow> take k (drop (i * k) (concat xs)) = xs ! i"
proof (induction xs arbitrary: i)
  case (Cons x xs)
  then show ?case by (cases i) simp_all
qed simp

lemma concat_length: "\<forall>x \<in> set xs. length x = k \<Longrightarrow> length (concat xs) = length xs * k"
  by (induction xs) simp_all

lemma text_slots_words:
  assumes "\<forall>n \<in> set ws. n < 2 ^ 256"
  shows "text_slots (concat (map word_text ws)) = Some (map word_text ws)"
proof -
  let ?xs = "map word_text ws"
  have len: "\<forall>x \<in> set ?xs. length x = 64" using assms by simp
  have ascii: "\<forall>c \<in> set (concat ?xs). (of_char c :: nat) < 128"
    using hex_text_ascii by (auto simp: word_text_def simp del: be_enc.simps)
  have "(\<lambda>i. str_slice (i * 64) ((i + 1) * 64) (concat ?xs)) i = Some (?xs ! i)" if "i < length ws" for i
    using that concat_slot [OF len, of i] by (simp add: slice_prefix [OF ascii] concat_length [OF len] del: nth_map)
  then have "text_slots (concat ?xs) = those (map (\<lambda>i. Some (?xs ! i)) [0..<length ws])"
    unfolding text_slots_def concat_length [OF len] by (intro arg_cong [of _ _ those] map_cong) simp_all
  then show ?thesis using map_nth [of ?xs] by (simp only: those_Some length_map)
qed

text \<open>The calldata of a forwarder that wraps a call of \<open>createOrderWithToken\<close> with the given words.\<close>

definition mayan_calldata :: "bytes \<Rightarrow> nat list \<Rightarrow> string" where
  "mayan_calldata pre ws = ''0x'' @ hex_encode pre @ create_order_sel @ concat (map word_text ws)"

lemma mayan_fields_words:
  assumes "length ws = 16" "\<forall>n \<in> set ws. n < 2 ^ 256" "4096 \<le> ws ! 0"
  shows "mayan_fields (map word_text ws)
     = \<lparr>mp_random = (if ws ! 15 = 0 then None else Some (word_text (ws ! 15))),
        mp_cancel_fee = nonzero 64 (ws ! 10), mp_refund_fee = nonzero 64 (ws ! 11), mp_gas_drop = nonzero 64 (ws ! 9),
        mp_deadline = nonzero 64 (ws ! 12),
        mp_referrer_addr = (if ws ! 6 = 0 then None else Some (''0x'' @ word_text (ws ! 6))),
        mp_referrer_bps = nonzero 8 (ws ! 13), mp_auction_mode = nonzero 8 (ws ! 14),
        mp_min_amount_out = nonzero 64 (ws ! 8)\<rparr>"
proof -
  obtain w ws' where ws: "ws = w # ws'" using assms(1) by (cases ws) auto
  have "w < 2 ^ 256" "4096 \<le> w" using assms(2,3) ws by auto
  then have shift: "(case hex_number 64 (word_text w) of None \<Rightarrow> 0 | Some n \<Rightarrow> if n < 4096 then 1 else 0) = (0::nat)"
    by (simp add: word_shift)
  have slot: "or_str (nth_opt (map word_text ws) i) [] = word_text (ws ! i)" if "i < 16" for i
    using that assms(1) by (simp add: nth_opt_def or_str_def)
  have bound: "ws ! i < 2 ^ 256" if "i < 16" for i using that assms(1,2) by simp
  have num: "slot_number b (word_text (ws ! i)) = nonzero b (ws ! i)" if "i < 16" for b i
    using word_slot_number [OF bound] that by blast
  have word: "slot_word (word_text (ws ! i)) = (if ws ! i = 0 then None else Some (word_text (ws ! i)))" if "i < 16" for i
    using word_slot_word [OF bound] that by blast
  have pos: "keep (\<lambda>n. 0 < n) (nonzero b n) = nonzero b n" for b n by (simp add: keep_def nonzero_def)
  have "mayan_fields (map word_text ws) =
      (let slot = (\<lambda>i. or_str (nth_opt (map word_text ws) i) []); u64 = (\<lambda>i. keep (\<lambda>n. 0 < n) (slot_number 64 (slot i)))
       in \<lparr>mp_random = slot_word (slot 15), mp_cancel_fee = u64 10, mp_refund_fee = u64 11, mp_gas_drop = u64 9,
          mp_deadline = u64 12, mp_referrer_addr = map_option (\<lambda>s. ''0x'' @ s) (slot_word (slot 6)),
          mp_referrer_bps = slot_number 8 (slot 13), mp_auction_mode = slot_number 8 (slot 14),
          mp_min_amount_out = u64 8\<rparr>)"
    using shift by (simp add: mayan_fields_def ws)
  then show ?thesis by (simp add: Let_def slot num word pos)
qed

lemma mayan_calldata_read:
  assumes "find_str create_order_sel (hex_encode pre @ create_order_sel @ concat (map word_text ws)) = Some (2 * length pre)"
    and "length ws = 16" "\<forall>n \<in> set ws. n < 2 ^ 256" "4096 \<le> ws ! 0"
  shows "mayan_input (mayan_calldata pre ws)
     = Ok \<lparr>mp_random = (if ws ! 15 = 0 then None else Some (word_text (ws ! 15))),
        mp_cancel_fee = nonzero 64 (ws ! 10), mp_refund_fee = nonzero 64 (ws ! 11), mp_gas_drop = nonzero 64 (ws ! 9),
        mp_deadline = nonzero 64 (ws ! 12),
        mp_referrer_addr = (if ws ! 6 = 0 then None else Some (''0x'' @ word_text (ws ! 6))),
        mp_referrer_bps = nonzero 8 (ws ! 13), mp_auction_mode = nonzero 8 (ws ! 14),
        mp_min_amount_out = nonzero 64 (ws ! 8)\<rparr>"
proof -
  let ?t = "hex_encode pre @ create_order_sel @ concat (map word_text ws)"
  have "CHR ''x'' \<notin> set ?t"
    using hex_text_no_x by (auto simp: create_order_sel_def word_text_def simp del: be_enc.simps)
  then have clean: "trim_start_str ''0x'' (''0x'' @ ?t) = ?t" by (rule trim_hex_prefix)
  have rest: "drop (2 * length pre + 8) ?t = concat (map word_text ws)" by (simp add: create_order_sel_def)
  have long: "\<not> length (''0x'' @ ?t) \<le> 10"
    using concat_length [of "map word_text ws" 64] assms(2) by simp
  have "mayan_input (mayan_calldata pre ws) = Ok (mayan_fields (map word_text ws))"
    unfolding mayan_input_def mayan_calldata_def
    by (simp only: if_not_P [OF long] clean Let_def assms(1) option.case rest text_slots_words [OF assms(3)]) simp
  then show ?thesis using mayan_fields_words [OF assms(2-4)] by simp
qed

text \<open>Reading the calldata of a forwarded order gives back every field of the order, apart from the fields
  that are zero and the numbers that do not fit their width: those come back as absent.\<close>

theorem mayan_calldata_roundtrip:
  assumes "find_str create_order_sel (hex_encode pre @ create_order_sel @ concat (map word_text ws)) = Some (2 * length pre)"
    and "length ws = 16" "\<forall>n \<in> set ws. n < 2 ^ 256" "4096 \<le> ws ! 0"
  shows "mayan_input (mayan_calldata pre ws)
     = Ok \<lparr>mp_random = (if ws ! 15 = 0 then None else Some (word_text (ws ! 15))),
        mp_cancel_fee = nonzero 64 (ws ! 10), mp_refund_fee = nonzero 64 (ws ! 11), mp_gas_drop = nonzero 64 (ws ! 9),
        mp_deadline = nonzero 64 (ws ! 12),
        mp_referrer_addr = (if ws ! 6 = 0 then None else Some (''0x'' @ word_text (ws ! 6))),
        mp_referrer_bps = nonzero 8 (ws ! 13), mp_auction_mode = nonzero 8 (ws ! 14),
        mp_min_amount_out = nonzero 64 (ws ! 8)\<rparr>"
  by (rule mayan_calldata_read [OF assms])

theorem mayan_calldata_roundtrip_witness:
  "mayan_input (mayan_calldata [18, 52] [2 ^ 160 - 1, 1000, 1, 2, 3, 2, 0, 4, 990, 0, 5, 6, 1700000000, 256, 2, 7])
     = Ok \<lparr>mp_random = Some (word_text 7), mp_cancel_fee = Some 5, mp_refund_fee = Some 6, mp_gas_drop = None,
        mp_deadline = Some 1700000000, mp_referrer_addr = None, mp_referrer_bps = None, mp_auction_mode = Some 2,
        mp_min_amount_out = Some 990\<rparr>"
proof -
  have "find_str create_order_sel (hex_encode [18, 52] @ create_order_sel @ s) = Some (2 * length [18, 52 :: u8])" for s
    by (simp add: hex_encode_def hex_char_def create_order_sel_def starts_with_def)
  from mayan_calldata_roundtrip [OF this, of "[2 ^ 160 - 1, 1000, 1, 2, 3, 2, 0, 4, 990, 0, 5, 6, 1700000000, 256, 2, 7]"]
  show ?thesis by (simp add: nonzero_def)
qed

section \<open>Orders seen again\<close>

lemma smallest_evicted:
  fixes x :: string
  assumes "x \<in> set xs" "\<forall>y \<in> set xs. x \<le> y" "0 < n"
  shows "x \<in> set (take n (sort xs))"
proof (cases "sort xs")
  case Nil
  then show ?thesis using assms(1) set_sort [of "\<lambda>x. x" xs] by simp
next
  case (Cons z zs)
  have "sorted (z # zs)" using sorted_sort_key [of "\<lambda>x. x" xs] Cons by simp
  moreover have "set (z # zs) = set xs" using set_sort [of "\<lambda>x. x" xs] Cons by simp
  ultimately have "z \<le> x" "x \<le> z" using assms(1,2) by auto
  then have "z = x" by simp
  then show ?thesis using Cons assms(3) by (cases n) simp_all
qed

text \<open>The cache of seen orders evicts the smallest hashes and not the oldest: when it is full, an order just
  reported whose hash is among the smaller half is reported a second time when the next answer repeats it.\<close>

theorem mayan_eviction_repeats:
  assumes "my_live p" "my_open p" "mayan_cap \<le> length (my_seen p)" "distinct (my_seen p)"
    and "hash \<in> set (take 10000 (sort (my_seen p)))"
    and "jstr ''status'' order = Some ''ORDER_CREATED''" "jstr ''orderHash'' order = Some hash" "hash \<noteq> []"
    and "mayan_route order = Some (True, src, dst)"
  shows "hash \<in> set (my_seen p)
     \<and> my_out (mayan_poll tx_by_hash (now, Some [order]) p)
       = my_out p @ [mayan_intent now order hash (True, src, dst) no_params]"
proof -
  have "hash \<in> set (my_seen p)" using in_set_takeD [OF assms(5)] by simp
  moreover have "hash \<notin> set (evict_half (my_seen p))" using assms(3,5) by (simp add: evict_half_def Let_def)
  ultimately show ?thesis
    using assms by (simp add: mayan_poll_def mayan_order_def or_str_def keep_def Let_def)
qed

definition old_hashes :: "string list" where
  "old_hashes = map (\<lambda>i. replicate (Suc i) (CHR ''5'')) [0..<20000]"

definition late_order :: json where
  "late_order = JObj [(''status'', JStr ''ORDER_CREATED''), (''orderHash'', JStr ''0a''), (''destChain'', JStr ''1''),
     (''sourceChain'', JStr ''30'')]"

theorem mayan_eviction_repeats_witness:
  "\<exists>p. hd (my_seen p) = ''0a'' \<and> length (my_seen p) = 20001
     \<and> my_out (mayan_poll (\<lambda>_ _. None) (7, Some [late_order]) p)
       = my_out p @ [mayan_intent 7 late_order ''0a'' (True, 8453, solana_sentinel) no_params]"
proof -
  let ?seen = "''0a'' # old_hashes"
  define p where "p = \<lparr>my_seen = ?seen, my_out = [], my_open = True, my_live = True\<rparr>"
  have len: "length old_hashes = 20000" by (simp add: old_hashes_def)
  have "distinct old_hashes" by (simp add: old_hashes_def distinct_map inj_on_def)
  moreover have "''0a'' \<notin> set old_hashes" "\<forall>y \<in> set old_hashes. ''0a'' \<le> y"
    by (auto simp: old_hashes_def)
  moreover have "''0a'' \<in> set (take 10000 (sort ?seen))"
    by (rule smallest_evicted) (use calculation in auto)
  moreover have "mayan_route late_order = Some (True, 8453, solana_sentinel)"
    by (simp add: late_order_def mayan_route_def or_str_def jstr_def mayan_chain_to_evm_def Let_def)
  ultimately have "''0a'' \<in> set (my_seen p) \<and> my_out (mayan_poll (\<lambda>_ _. None) (7, Some [late_order]) p)
       = my_out p @ [mayan_intent 7 late_order ''0a'' (True, 8453, solana_sentinel) no_params]"
    by (intro mayan_eviction_repeats)
      (simp_all add: p_def len mayan_cap_def late_order_def jstr_def)
  then show ?thesis using len by (intro exI [of _ p]) (simp add: p_def)
qed

end
