(* ===== verification/SolanaWire.thy ===== *)
theory SolanaWire
  imports MayanFeed
begin

unbundle bit_operations_syntax

text \<open>
  The wire format of Solana transactions as \<open>crates/protocol-adapters-solana/src\<close> writes it by hand:
  compact lengths, the ordered account list, the message of several instructions and the transaction around
  it (\<open>send.rs\<close> for broadcasts, \<open>mayan_solana.rs\<close> for simulations).  The specification is a reader of
  the documented legacy layout: what the validator makes of the bytes.
\<close>

type_synonym u16 = "16 word"
type_synonym pubkey = bytes

section \<open>Compact lengths\<close>

function write_compact_u16 :: "bytes \<Rightarrow> u16 \<Rightarrow> bytes" where
  "write_compact_u16 buf n =
     (let byte = ucast (n AND 0x7f) :: u8; rest = drop_bit 7 n
      in if rest = 0 then buf @ [byte] else write_compact_u16 (buf @ [byte OR 0x80]) rest)"
  by pat_completeness auto

lemma unat_drop_bit_7: "unat (drop_bit 7 n) = unat n div 128" for n :: u16
  by (simp add: drop_bit_eq_div unat_div)

lemma drop_bit_7_less: "drop_bit 7 n \<noteq> 0 \<Longrightarrow> unat (drop_bit 7 n) < unat n" for n :: u16
proof -
  assume "drop_bit 7 n \<noteq> 0"
  then have "unat n div 128 \<noteq> 0" using unat_drop_bit_7 [of n] unat_eq_0 by metis
  then have "0 < unat n" by (auto intro: gr0I)
  then show ?thesis by (simp add: unat_drop_bit_7)
qed

termination write_compact_u16
  by (relation "measure (\<lambda>(buf, n). unat n)") (auto simp: drop_bit_7_less)

declare write_compact_u16.simps [simp del]

text \<open>The reader of a compact length.\<close>

fun read_compact :: "bytes \<Rightarrow> (nat \<times> bytes) option" where
  "read_compact [] = None"
| "read_compact (b # bs) =
     (if unat b < 128 then Some (unat b, bs)
      else map_option (\<lambda>(n, r). (unat b - 128 + 128 * n, r)) (read_compact bs))"

lemma low_byte: "unat (ucast (n AND 0x7f) :: u8) = unat n mod 128" for n :: u16
proof -
  have "n AND 0x7f = take_bit 7 n" by (simp add: take_bit_eq_mask mask_eq_exp_minus_1)
  moreover have "unat (ucast (take_bit 7 n) :: u8) = unat n mod 128"
    by (simp add: unsigned_ucast_eq unsigned_take_bit_eq take_bit_eq_mod unat_mod mod_less)
  ultimately show ?thesis by simp
qed

lemma flagged_byte: "unat (b OR 0x80) = unat b + 128" if "unat b < 128" for b :: u8
proof -
  have "take_bit 7 b = b"
    using that by (intro word_unat_eq_iff [THEN iffD2]) (simp add: unsigned_take_bit_eq take_bit_nat_eq_self)
  then have "bit b n \<Longrightarrow> n < 7" for n by (metis bit_take_bit_iff)
  moreover have "bit (0x80 :: u8) n \<Longrightarrow> n = 7" for n
    using bit_exp_iff [of 7 n, where 'a = "8 word"] by simp
  ultimately have "b + 0x80 = b OR 0x80" by (intro disjunctive_add) blast
  then have "b OR 0x80 = b + 0x80" by simp
  then show ?thesis using that by (simp add: unat_word_ariths)
qed

lemma u16_bound: "unat n < 65536" for n :: u16
  by (rule order_less_le_trans [OF unsigned_less]) simp

lemma write_compact_rounds:
  assumes "unat n < 128 ^ Suc k"
  shows "\<exists>bs. write_compact_u16 buf n = buf @ bs \<and> 1 \<le> length bs \<and> length bs \<le> Suc k
    \<and> (\<forall>rest. read_compact (bs @ rest) = Some (unat n, rest))"
  using assms
proof (induction k arbitrary: buf n)
  case 0
  then have "drop_bit 7 n = 0" using unat_drop_bit_7 [of n] unat_eq_0 by (metis One_nat_def div_less power_one_right)
  with 0 show ?case
    by (intro exI [of _ "[ucast (n AND 0x7f)]"]) (simp add: write_compact_u16.simps [of buf n] low_byte)
next
  case (Suc k)
  let ?b = "ucast (n AND 0x7f) :: u8"
  show ?case
  proof (cases "drop_bit 7 n = 0")
    case True
    then have "unat n div 128 = 0" using unat_drop_bit_7 [of n] by simp
    with True show ?thesis
      by (intro exI [of _ "[?b]"]) (simp add: write_compact_u16.simps [of buf n] low_byte div_eq_0_iff)
  next
    case False
    have "unat (drop_bit 7 n) < 128 ^ Suc k" using Suc.prems by (simp add: unat_drop_bit_7 less_mult_imp_div_less mult.commute)
    from Suc.IH [OF this] obtain bs where bs:
      "write_compact_u16 (buf @ [?b OR 0x80]) (drop_bit 7 n) = (buf @ [?b OR 0x80]) @ bs" "1 \<le> length bs" "length bs \<le> Suc k"
      "\<And>rest. read_compact (bs @ rest) = Some (unat n div 128, rest)"
      using unat_drop_bit_7 [of n] by metis
    have flag: "unat (?b OR 0x80) = unat n mod 128 + 128" by (subst flagged_byte) (simp_all add: low_byte)
    show ?thesis
      by (intro exI [of _ "(?b OR 0x80) # bs"])
         (use bs False flag in \<open>simp add: write_compact_u16.simps [of buf n] Let_def\<close>)
  qed
qed

text \<open>C27. The loop that writes a length runs at most three times, one byte each, appends to what is there, and a reader
  gets back the length and whatever follows.\<close>

theorem compact_u16_terminates:
  "\<exists>bs. write_compact_u16 buf n = buf @ bs \<and> 1 \<le> length bs \<and> length bs \<le> 3
     \<and> (\<forall>rest. read_compact (bs @ rest) = Some (unat n, rest))"
proof -
  have "unat n < 128 ^ Suc 2" using u16_bound [of n] by simp
  from write_compact_rounds [OF this] show ?thesis by simp
qed

definition compact_len :: "u16 \<Rightarrow> bytes" where
  "compact_len n = write_compact_u16 [] n"

lemma write_compact_append: "write_compact_u16 buf n = buf @ compact_len n"
proof (induction "unat n" arbitrary: buf n rule: less_induct)
  case less
  show ?case
  proof (cases "drop_bit 7 n = 0")
    case True
    then show ?thesis unfolding compact_len_def [of n] by (simp add: write_compact_u16.simps [of _ n] Let_def)
  next
    case False
    have "write_compact_u16 b (drop_bit 7 n) = b @ compact_len (drop_bit 7 n)" for b
      using less drop_bit_7_less [OF False] by blast
    with False show ?thesis
      unfolding compact_len_def [of n] by (simp add: write_compact_u16.simps [of _ n] Let_def)
  qed
qed

lemma read_compact_len [simp]: "read_compact (compact_len n @ rest) = Some (unat n, rest)"
  and length_compact_len: "1 \<le> length (compact_len n)"
proof -
  have "unat n < 128 ^ Suc 2" using u16_bound [of n] by simp
  from write_compact_rounds [OF this, of "[]"] show "read_compact (compact_len n @ rest) = Some (unat n, rest)" "1 \<le> length (compact_len n)"
    by (auto simp: compact_len_def)
qed
section \<open>Messages\<close>

record account_meta =
  am_pubkey :: pubkey
  am_signer :: bool
  am_writable :: bool

type_synonym instruction = "pubkey \<times> account_meta list \<times> bytes"
type_synonym caps = "pubkey \<Rightarrow> (bool \<times> bool) option"

text \<open>What a key may do in the message: the union over all its mentions; \<open>caps.get(..).unwrap_or((false, false))\<close>.\<close>

definition cap_of :: "caps \<Rightarrow> pubkey \<Rightarrow> bool \<times> bool" where
  "cap_of C k = (case C k of None \<Rightarrow> (False, False) | Some c \<Rightarrow> c)"

definition cap_meta :: "account_meta \<Rightarrow> caps \<Rightarrow> caps" where
  "cap_meta a C = (let (s, w) = cap_of C (am_pubkey a) in C(am_pubkey a \<mapsto> (s \<or> am_signer a, w \<or> am_writable a)))"

definition cap_ix :: "instruction \<Rightarrow> caps \<Rightarrow> caps" where
  "cap_ix ix C =
     (let (prog, metas, _) = ix; C1 = fold cap_meta metas C in if C1 prog = None then C1(prog \<mapsto> (False, False)) else C1)"

definition caps_of :: "pubkey \<Rightarrow> instruction list \<Rightarrow> caps" where
  "caps_of payer ixs = fold cap_ix ixs (Map.empty(payer \<mapsto> (True, True)))"

record buckets =
  bk_sw :: "pubkey list"
  bk_sr :: "pubkey list"
  bk_nw :: "pubkey list"
  bk_nr :: "pubkey list"

definition push_unique :: "pubkey \<Rightarrow> pubkey list \<Rightarrow> pubkey list" where
  "push_unique k dst = (if k \<in> set dst then dst else dst @ [k])"

definition bucket_meta :: "pubkey \<Rightarrow> caps \<Rightarrow> account_meta \<Rightarrow> buckets \<Rightarrow> buckets" where
  "bucket_meta payer C a b =
     (let k = am_pubkey a
      in if k = payer then b
         else case cap_of C k of
                (True, True) \<Rightarrow> b\<lparr>bk_sw := push_unique k (bk_sw b)\<rparr>
              | (True, False) \<Rightarrow> b\<lparr>bk_sr := push_unique k (bk_sr b)\<rparr>
              | (False, True) \<Rightarrow> b\<lparr>bk_nw := push_unique k (bk_nw b)\<rparr>
              | (False, False) \<Rightarrow> b\<lparr>bk_nr := push_unique k (bk_nr b)\<rparr>)"

definition bucket_prog :: "pubkey \<Rightarrow> buckets \<Rightarrow> buckets" where
  "bucket_prog prog b = b\<lparr>bk_nr := push_unique prog (bk_nr b)\<rparr>"

definition first_buckets :: "pubkey \<Rightarrow> buckets" where
  "first_buckets payer = \<lparr>bk_sw = [payer], bk_sr = [], bk_nw = [], bk_nr = []\<rparr>"

text \<open>Broadcasts push the program of an instruction after its accounts, simulations all programs at the end.\<close>

definition sort_accounts :: "pubkey \<Rightarrow> instruction list \<Rightarrow> buckets" where
  "sort_accounts payer ixs =
     (let C = caps_of payer ixs
      in fold (\<lambda>(prog, metas, _) b. bucket_prog prog (fold (bucket_meta payer C) metas b)) ixs (first_buckets payer))"

definition sort_accounts_sim :: "pubkey \<Rightarrow> instruction list \<Rightarrow> buckets" where
  "sort_accounts_sim payer ixs =
     (let C = caps_of payer ixs
      in fold (\<lambda>(prog, _, _). bucket_prog prog) ixs
           (fold (\<lambda>(_, metas, _). fold (bucket_meta payer C) metas) ixs (first_buckets payer)))"

definition account_keys :: "buckets \<Rightarrow> pubkey list" where
  "account_keys b = bk_sw b @ bk_sr b @ bk_nw b @ bk_nr b"

fun position :: "'a list \<Rightarrow> 'a \<Rightarrow> nat option" where
  "position [] k = None"
| "position (x # xs) k = (if x = k then Some 0 else map_option Suc (position xs k))"

definition key_index :: "pubkey list \<Rightarrow> pubkey \<Rightarrow> (string, u8) res" where
  "key_index ks k = (case position ks k of None \<Rightarrow> Err ''internal: pubkey not in deduped key list'' | Some i \<Rightarrow> Ok (of_nat i))"

fun key_indices :: "pubkey list \<Rightarrow> account_meta list \<Rightarrow> (string, bytes) res" where
  "key_indices ks [] = Ok []"
| "key_indices ks (a # ms) =
     res_bind (key_index ks (am_pubkey a)) (\<lambda>i. res_bind (key_indices ks ms) (\<lambda>idx. Ok (i # idx)))"

definition push_ix :: "pubkey list \<Rightarrow> instruction \<Rightarrow> bytes \<Rightarrow> (string, bytes) res" where
  "push_ix ks ix msg =
     (let (prog, metas, data) = ix
      in res_bind (key_index ks prog) (\<lambda>p.
         res_bind (key_indices ks metas) (\<lambda>idx.
         Ok (write_compact_u16 (write_compact_u16 (msg @ [p]) (of_nat (length idx)) @ idx) (of_nat (length data)) @ data))))"

fun push_ixs :: "pubkey list \<Rightarrow> instruction list \<Rightarrow> bytes \<Rightarrow> (string, bytes) res" where
  "push_ixs ks [] msg = Ok msg"
| "push_ixs ks (ix # ixs) msg = res_bind (push_ix ks ix msg) (push_ixs ks ixs)"

definition message_bytes :: "buckets \<Rightarrow> instruction list \<Rightarrow> bytes \<Rightarrow> (string, bytes) res" where
  "message_bytes b ixs blockhash =
     (let ks = account_keys b;
          header = [of_nat (length (bk_sw b) + length (bk_sr b)), of_nat (length (bk_sr b)), of_nat (length (bk_nr b))];
          msg = write_compact_u16 header (of_nat (length ks)) @ concat ks @ blockhash
      in push_ixs ks ixs (write_compact_u16 msg (of_nat (length ixs))))"

definition build_message_multi :: "pubkey \<Rightarrow> instruction list \<Rightarrow> bytes \<Rightarrow> (string, bytes) res" where
  "build_message_multi payer ixs blockhash = message_bytes (sort_accounts payer ixs) ixs blockhash"

definition tx_limit :: nat where "tx_limit = 1232"

definition serialize_legacy_transaction_multi :: "pubkey \<Rightarrow> instruction list \<Rightarrow> (string, bytes) res" where
  "serialize_legacy_transaction_multi payer ixs =
     (let b = sort_accounts_sim payer ixs; sigs = of_nat (length (bk_sw b) + length (bk_sr b)) :: u8
      in res_bind (message_bytes b ixs (replicate 32 0)) (\<lambda>message.
         let tx = write_compact_u16 [] (ucast sigs) @ replicate (unat sigs * 64) 0 @ message
         in if tx_limit < length tx then Err ''serialized tx exceeds the limit'' else Ok tx))"

text \<open>Signing a message and putting the signature in front.\<close>

definition with_signature :: "bytes \<Rightarrow> bytes \<Rightarrow> bytes" where
  "with_signature sig msg = write_compact_u16 [] 1 @ sig @ msg"

section \<open>The documented layout\<close>

record sol_message =
  sm_sigs :: nat
  sm_ro_signed :: nat
  sm_ro_unsigned :: nat
  sm_keys :: "pubkey list"
  sm_hash :: bytes
  sm_ixs :: "(nat \<times> nat list \<times> bytes) list"

fun take_exact :: "nat \<Rightarrow> bytes \<Rightarrow> (bytes \<times> bytes) option" where
  "take_exact n b = (if length b < n then None else Some (take n b, drop n b))"

fun read_many :: "nat \<Rightarrow> (bytes \<Rightarrow> ('a \<times> bytes) option) \<Rightarrow> bytes \<Rightarrow> ('a list \<times> bytes) option" where
  "read_many 0 f b = Some ([], b)"
| "read_many (Suc n) f b = Option.bind (f b) (\<lambda>(x, b1). map_option (\<lambda>(xs, b2). (x # xs, b2)) (read_many n f b1))"

definition read_ix :: "bytes \<Rightarrow> ((nat \<times> nat list \<times> bytes) \<times> bytes) option" where
  "read_ix b =
     (case b of [] \<Rightarrow> None
      | p # b1 \<Rightarrow>
          Option.bind (read_compact b1) (\<lambda>(n, b2).
          Option.bind (take_exact n b2) (\<lambda>(idx, b3).
          Option.bind (read_compact b3) (\<lambda>(m, b4).
          map_option (\<lambda>(data, b5). ((unat p, map unat idx, data), b5)) (take_exact m b4)))))"

definition read_message :: "bytes \<Rightarrow> sol_message option" where
  "read_message b =
     Option.bind (take_exact 3 b) (\<lambda>(h, b1).
     Option.bind (read_compact b1) (\<lambda>(n, b2).
     Option.bind (read_many n (take_exact 32) b2) (\<lambda>(ks, b3).
     Option.bind (take_exact 32 b3) (\<lambda>(hash, b4).
     Option.bind (read_compact b4) (\<lambda>(m, b5).
     Option.bind (read_many m read_ix b5) (\<lambda>(ixs, b6).
     if b6 = []
     then Some \<lparr>sm_sigs = unat (h ! 0), sm_ro_signed = unat (h ! 1), sm_ro_unsigned = unat (h ! 2),
                sm_keys = ks, sm_hash = hash, sm_ixs = ixs\<rparr>
     else None))))))"

text \<open>A transaction: the signatures, the message they sign and its content.\<close>

definition read_tx :: "bytes \<Rightarrow> (bytes list \<times> bytes \<times> sol_message) option" where
  "read_tx b =
     Option.bind (read_compact b) (\<lambda>(n, b1).
     Option.bind (read_many n (take_exact 64) b1) (\<lambda>(sigs, msg).
     map_option (\<lambda>m. (sigs, msg, m)) (read_message msg)))"

text \<open>The instructions with their indices replaced by keys and rights, as the position of a key gives them.\<close>

definition rights :: "sol_message \<Rightarrow> nat \<Rightarrow> (pubkey \<times> bool \<times> bool) option" where
  "rights m i =
     (if i < length (sm_keys m)
      then Some (sm_keys m ! i, i < sm_sigs m,
                 i < sm_sigs m - sm_ro_signed m \<or> sm_sigs m \<le> i \<and> i < length (sm_keys m) - sm_ro_unsigned m)
      else None)"

definition resolve :: "sol_message \<Rightarrow> ((pubkey \<times> bool \<times> bool) \<times> (pubkey \<times> bool \<times> bool) list \<times> bytes) list option" where
  "resolve m =
     those (map (\<lambda>(p, idx, data). Option.bind (rights m p) (\<lambda>prog.
       map_option (\<lambda>accs. (prog, accs, data)) (those (map (rights m) idx)))) (sm_ixs m))"

text \<open>What was meant: the rights of a key are those of all its mentions, the payer has both.\<close>

definition meant :: "pubkey \<Rightarrow> instruction list \<Rightarrow> pubkey \<Rightarrow> pubkey \<times> bool \<times> bool" where
  "meant payer ixs k =
     (let metas = concat (map (fst \<circ> snd) ixs)
      in (k, k = payer \<or> (\<exists>a \<in> set metas. am_pubkey a = k \<and> am_signer a),
             k = payer \<or> (\<exists>a \<in> set metas. am_pubkey a = k \<and> am_writable a)))"

definition meant_ixs :: "pubkey \<Rightarrow> instruction list \<Rightarrow> ((pubkey \<times> bool \<times> bool) \<times> (pubkey \<times> bool \<times> bool) list \<times> bytes) list" where
  "meant_ixs payer ixs = map (\<lambda>(p, metas, data). (meant payer ixs p, map (meant payer ixs \<circ> am_pubkey) metas, data)) ixs"

definition keys32 :: "pubkey \<Rightarrow> instruction list \<Rightarrow> bool" where
  "keys32 payer ixs \<longleftrightarrow> length payer = 32
     \<and> (\<forall>(p, metas, d) \<in> set ixs. length p = 32 \<and> (\<forall>a \<in> set metas. length (am_pubkey a) = 32))"
section \<open>Accounts\<close>

lemma cap_of_meta: "cap_of (cap_meta a C) k =
    (fst (cap_of C k) \<or> am_pubkey a = k \<and> am_signer a, snd (cap_of C k) \<or> am_pubkey a = k \<and> am_writable a)"
  by (cases "cap_of C (am_pubkey a)") (auto simp: cap_meta_def cap_of_def split: option.splits)

lemma cap_of_metas: "cap_of (fold cap_meta ms C) k =
    (fst (cap_of C k) \<or> (\<exists>a \<in> set ms. am_pubkey a = k \<and> am_signer a),
     snd (cap_of C k) \<or> (\<exists>a \<in> set ms. am_pubkey a = k \<and> am_writable a))"
  by (induction ms arbitrary: C) (auto simp: cap_of_meta)

lemma cap_of_ix: "cap_of (cap_ix (p, ms, d) C) k = cap_of (fold cap_meta ms C) k"
  by (simp add: cap_ix_def Let_def cap_of_def)

lemma cap_of_ixs: "cap_of (fold cap_ix ixs C) k =
    (fst (cap_of C k) \<or> (\<exists>a \<in> set (concat (map (fst \<circ> snd) ixs)). am_pubkey a = k \<and> am_signer a),
     snd (cap_of C k) \<or> (\<exists>a \<in> set (concat (map (fst \<circ> snd) ixs)). am_pubkey a = k \<and> am_writable a))"
proof (induction ixs arbitrary: C)
  case (Cons ix ixs)
  obtain p ms d where ix: "ix = (p, ms, d)" using prod_cases3 by blast
  show ?case by (simp add: ix Cons.IH cap_of_ix cap_of_metas bex_Un disj_assoc)
qed simp

lemma cap_of_caps: "cap_of (caps_of payer ixs) k = snd (meant payer ixs k)"
  by (simp add: caps_of_def cap_of_ixs meant_def Let_def) (simp add: cap_of_def)

text \<open>What the buckets hold after the accounts \<open>K\<close> and the programs \<open>P\<close>.\<close>

definition hold :: "pubkey \<Rightarrow> caps \<Rightarrow> pubkey set \<Rightarrow> pubkey set \<Rightarrow> buckets \<Rightarrow> bool" where
  "hold payer C K P b \<longleftrightarrow>
     (\<exists>r. bk_sw b = payer # r) \<and> set (bk_sw b) = insert payer {k \<in> K. cap_of C k = (True, True)}
     \<and> set (bk_sr b) = {k \<in> K. cap_of C k = (True, False)} \<and> set (bk_nw b) = {k \<in> K. cap_of C k = (False, True)}
     \<and> set (bk_nr b) = {k \<in> K. cap_of C k = (False, False)} \<union> P
     \<and> distinct (bk_sw b) \<and> distinct (bk_sr b) \<and> distinct (bk_nw b) \<and> distinct (bk_nr b)"

lemma push_unique_simps [simp]: "set (push_unique k xs) = insert k (set xs)" "distinct (push_unique k xs) = distinct xs"
  by (auto simp: push_unique_def)

lemma push_unique_Cons: "\<exists>r'. push_unique k (x # r) = x # r'"
  by (simp add: push_unique_def)

lemma hold_first: "hold payer C {} {} (first_buckets payer)"
  by (simp add: hold_def first_buckets_def)

lemma hold_meta:
  assumes "hold payer C K P b"
  shows "hold payer C (K \<union> ({am_pubkey a} - {payer})) P (bucket_meta payer C a b)"
proof (cases "am_pubkey a = payer")
  case True
  with assms show ?thesis by (simp add: bucket_meta_def)
next
  case False
  obtain s w where c: "cap_of C (am_pubkey a) = (s, w)" by fastforce
  show ?thesis
    using assms False push_unique_Cons [of "am_pubkey a" payer]
    by (cases s; cases w) (auto simp: bucket_meta_def hold_def c)
qed

lemma hold_metas:
  "hold payer C K P b \<Longrightarrow> hold payer C (K \<union> (am_pubkey ` set ms - {payer})) P (fold (bucket_meta payer C) ms b)"
proof (induction ms arbitrary: K b)
  case (Cons a ms)
  have "K \<union> ({am_pubkey a} - {payer}) \<union> (am_pubkey ` set ms - {payer}) = K \<union> (am_pubkey ` set (a # ms) - {payer})" by auto
  with Cons.IH [OF hold_meta [OF Cons.prems, of a]]
  have "hold payer C (K \<union> (am_pubkey ` set (a # ms) - {payer})) P (fold (bucket_meta payer C) ms (bucket_meta payer C a b))"
    by (simp only:)
  then show ?case by simp
qed simp

lemma hold_prog: "hold payer C K P b \<Longrightarrow> hold payer C K (insert p P) (bucket_prog p b)"
  by (auto simp: hold_def bucket_prog_def)

definition accounts :: "pubkey \<Rightarrow> instruction list \<Rightarrow> pubkey set" where
  "accounts payer ixs = am_pubkey ` set (concat (map (fst \<circ> snd) ixs)) - {payer}"

lemma accounts_Cons: "accounts payer ((p, ms, d) # ixs) = (am_pubkey ` set ms - {payer}) \<union> accounts payer ixs"
  by (auto simp: accounts_def)

lemma hold_ixs: "hold payer C K P b \<Longrightarrow>
    hold payer C (K \<union> accounts payer ixs) (P \<union> fst ` set ixs)
      (fold (\<lambda>(prog, metas, _) b. bucket_prog prog (fold (bucket_meta payer C) metas b)) ixs b)"
proof (induction ixs arbitrary: K P b)
  case (Cons ix ixs)
  obtain p ms d where ix: "ix = (p, ms, d)" using prod_cases3 by blast
  show ?case using Cons.IH [OF hold_prog [OF hold_metas [OF Cons.prems, of ms], of p]]
    by (simp add: ix accounts_Cons Un_assoc)
qed (simp add: accounts_def)

lemma hold_metas_sim: "hold payer C K P b \<Longrightarrow>
    hold payer C (K \<union> accounts payer ixs) P (fold (\<lambda>(_, metas, _). fold (bucket_meta payer C) metas) ixs b)"
proof (induction ixs arbitrary: K b)
  case (Cons ix ixs)
  obtain p ms d where ix: "ix = (p, ms, d)" using prod_cases3 by blast
  show ?case using Cons.IH [OF hold_metas [OF Cons.prems, of ms]] by (simp add: ix accounts_Cons Un_assoc)
qed (simp add: accounts_def)

lemma hold_progs_sim: "hold payer C K P b \<Longrightarrow>
    hold payer C K (P \<union> fst ` set ixs) (fold (\<lambda>(prog, _, _). bucket_prog prog) ixs b)"
proof (induction ixs arbitrary: P b)
  case (Cons ix ixs)
  obtain p ms d where ix: "ix = (p, ms, d)" using prod_cases3 by blast
  show ?case using Cons.IH [OF hold_prog [OF Cons.prems, of p]] by (simp add: ix)
qed simp

text \<open>Both orders of pushing fill the buckets alike.\<close>

lemma hold_sorted:
  "hold payer (caps_of payer ixs) (accounts payer ixs) (fst ` set ixs) (sort_accounts payer ixs)"
  "hold payer (caps_of payer ixs) (accounts payer ixs) (fst ` set ixs) (sort_accounts_sim payer ixs)"
  using hold_ixs [OF hold_first, of payer "caps_of payer ixs" ixs]
    hold_progs_sim [OF hold_metas_sim [OF hold_first], of payer "caps_of payer ixs" ixs ixs]
  by (simp_all add: sort_accounts_def sort_accounts_sim_def Let_def)
subsection \<open>Positions\<close>

lemma position_Some: "position xs k = Some i \<Longrightarrow> i < length xs \<and> xs ! i = k"
  by (induction xs arbitrary: i) (auto split: if_splits)

lemma position_None: "position xs k = None \<longleftrightarrow> k \<notin> set xs"
  by (induction xs) auto

lemma position_append: "position (xs @ ys) k =
    (case position xs k of Some i \<Rightarrow> Some i | None \<Rightarrow> map_option (\<lambda>i. length xs + i) (position ys k))"
proof (induction xs)
  case (Cons x xs)
  then show ?case by (cases "position xs k"; cases "position ys k") auto
qed (cases "position ys k"; simp)

lemma position_left: "k \<in> set xs \<Longrightarrow> \<exists>i < length xs. position (xs @ ys) k = Some i"
  using position_Some [of xs k] position_None [of xs k] by (cases "position xs k") (auto simp: position_append)

lemma position_right: "k \<notin> set xs \<Longrightarrow> k \<in> set ys \<Longrightarrow>
    \<exists>i. position (xs @ ys) k = Some i \<and> length xs \<le> i \<and> i < length xs + length ys"
  using position_Some [of ys k] position_None [of ys k] position_None [of xs k]
  by (cases "position ys k"; cases "position xs k") (auto simp: position_append)

text \<open>The rights of a key are its place among the buckets.\<close>

definition placed :: "buckets \<Rightarrow> nat \<Rightarrow> bool \<times> bool" where
  "placed b i =
     (i < length (bk_sw b) + length (bk_sr b),
      i < length (bk_sw b) \<or> length (bk_sw b) + length (bk_sr b) \<le> i \<and> i < length (account_keys b) - length (bk_nr b))"

lemma position_placed:
  assumes h: "hold payer C K P b" and payer: "cap_of C payer = (True, True)" and k: "k \<in> insert payer (K \<union> P)"
    and prog: "k \<notin> insert payer K \<Longrightarrow> cap_of C k = (False, False)"
  shows "\<exists>i. position (account_keys b) k = Some i \<and> placed b i = cap_of C k"
proof -
  obtain s w where c: "cap_of C k = (s, w)" by fastforce
  have keys: "account_keys b = bk_sw b @ (bk_sr b @ (bk_nw b @ bk_nr b))" by (simp add: account_keys_def)
  note h' = h [unfolded hold_def]
  have "k \<in> insert payer K \<or> \<not> s \<and> \<not> w" using prog c by auto
  then have mem: "k \<in> set (bk_sw b) \<longleftrightarrow> s \<and> w" "k \<in> set (bk_sr b) \<longleftrightarrow> s \<and> \<not> w" "k \<in> set (bk_nw b) \<longleftrightarrow> \<not> s \<and> w"
    using h' c payer by auto
  have nr: "\<not> s \<Longrightarrow> \<not> w \<Longrightarrow> k \<in> set (bk_nr b)" using h' c payer k by auto
  consider "s" "w" | "s" "\<not> w" | "\<not> s" "w" | "\<not> s" "\<not> w" by blast
  then show ?thesis
  proof cases
    case 1
    with mem position_left [of k "bk_sw b" "bk_sr b @ (bk_nw b @ bk_nr b)"] show ?thesis by (auto simp: keys placed_def c)
  next
    case 2
    with mem position_left [of k "bk_sr b" "bk_nw b @ bk_nr b"]
    obtain i where i: "position (bk_sr b @ (bk_nw b @ bk_nr b)) k = Some i" "i < length (bk_sr b)" by blast
    have "position (bk_sw b) k = None" using mem 2 by (simp add: position_None)
    with i 2 show ?thesis by (auto simp: keys placed_def c position_append [of "bk_sw b"])
  next
    case 3
    with mem position_left [of k "bk_nw b" "bk_nr b"]
    obtain i where i: "position (bk_nw b @ bk_nr b) k = Some i" "i < length (bk_nw b)" by blast
    have "position (bk_sw b) k = None" "position (bk_sr b) k = None" using mem 3 by (simp_all add: position_None)
    with i 3 show ?thesis by (auto simp: keys placed_def c position_append [of "bk_sw b"] position_append [of "bk_sr b"])
  next
    case 4
    with nr position_left [of k "bk_nr b" "[]"] obtain i where i: "position (bk_nr b) k = Some i" "i < length (bk_nr b)" by auto
    have "position (bk_sw b) k = None" "position (bk_sr b) k = None" "position (bk_nw b) k = None" using mem 4 by (simp_all add: position_None)
    with i 4 show ?thesis
      by (auto simp: keys placed_def c position_append [of "bk_sw b"] position_append [of "bk_sr b"] position_append [of "bk_nw b"])
  qed
qed

text \<open>Every key an instruction mentions has its place, with the rights that were meant.\<close>

definition mentions :: "instruction list \<Rightarrow> pubkey set" where
  "mentions ixs = fst ` set ixs \<union> am_pubkey ` set (concat (map (fst \<circ> snd) ixs))"

definition sorts :: "pubkey \<Rightarrow> instruction list \<Rightarrow> buckets \<Rightarrow> bool" where
  "sorts payer ixs b \<longleftrightarrow> hold payer (caps_of payer ixs) (accounts payer ixs) (fst ` set ixs) b"

lemma sorts_both: "sorts payer ixs (sort_accounts payer ixs)" "sorts payer ixs (sort_accounts_sim payer ixs)"
  by (simp_all add: sorts_def hold_sorted)

lemma sorts_placed:
  assumes "sorts payer ixs b" "k \<in> insert payer (mentions ixs)"
  shows "\<exists>i. position (account_keys b) k = Some i \<and> placed b i = snd (meant payer ixs k)"
proof -
  have "\<exists>i. position (account_keys b) k = Some i \<and> placed b i = cap_of (caps_of payer ixs) k"
  proof (rule position_placed [OF assms(1) [unfolded sorts_def]])
    show "cap_of (caps_of payer ixs) payer = (True, True)" by (simp add: cap_of_caps meant_def)
    show "k \<in> insert payer (accounts payer ixs \<union> fst ` set ixs)" using assms(2) by (auto simp: mentions_def accounts_def)
    show "cap_of (caps_of payer ixs) k = (False, False)" if "k \<notin> insert payer (accounts payer ixs)"
      using that by (auto simp: cap_of_caps meant_def accounts_def Let_def)
  qed
  then show ?thesis by (simp add: cap_of_caps)
qed

lemma sorts_payer: "sorts payer ixs b \<Longrightarrow> account_keys b \<noteq> [] \<and> account_keys b ! 0 = payer"
  by (auto simp: sorts_def hold_def account_keys_def)

lemma sorts_keys: "sorts payer ixs b \<Longrightarrow> set (account_keys b) = insert payer (mentions ixs)"
proof -
  assume b: "sorts payer ixs b"
  have "insert payer (mentions ixs) \<subseteq> set (account_keys b)"
    using sorts_placed [OF b] position_None [of "account_keys b"] by (metis option.distinct(1) subsetI)
  moreover have "set (account_keys b) \<subseteq> insert payer (mentions ixs)"
    using b by (auto simp: sorts_def hold_def account_keys_def mentions_def accounts_def)
  ultimately show ?thesis by blast
qed
section \<open>Reading a message back\<close>

definition idx_of :: "pubkey list \<Rightarrow> pubkey \<Rightarrow> nat" where
  "idx_of ks k = (case position ks k of None \<Rightarrow> 0 | Some i \<Rightarrow> i)"

definition enc_ix :: "pubkey list \<Rightarrow> instruction \<Rightarrow> bytes" where
  "enc_ix ks ix =
     (let (p, ms, d) = ix
      in of_nat (idx_of ks p) # compact_len (of_nat (length ms)) @ map (\<lambda>a. of_nat (idx_of ks (am_pubkey a))) ms
         @ compact_len (of_nat (length d)) @ d)"

lemma key_index_Ok: "k \<in> set ks \<Longrightarrow> key_index ks k = Ok (of_nat (idx_of ks k))"
  using position_None [of ks k] by (cases "position ks k") (auto simp: key_index_def idx_of_def)

lemma key_indices_Ok: "am_pubkey ` set ms \<subseteq> set ks \<Longrightarrow> key_indices ks ms = Ok (map (\<lambda>a. of_nat (idx_of ks (am_pubkey a))) ms)"
  by (induction ms) (auto simp: key_index_Ok)

lemma push_ix_Ok: "p \<in> set ks \<Longrightarrow> am_pubkey ` set ms \<subseteq> set ks \<Longrightarrow> push_ix ks (p, ms, d) msg = Ok (msg @ enc_ix ks (p, ms, d))"
  by (simp add: push_ix_def key_index_Ok key_indices_Ok enc_ix_def write_compact_append)

lemma mentions_Cons: "mentions ((p, ms, d) # ixs) = insert p (am_pubkey ` set ms \<union> mentions ixs)"
  by (auto simp: mentions_def)

lemma push_ixs_Ok: "mentions ixs \<subseteq> set ks \<Longrightarrow> push_ixs ks ixs msg = Ok (msg @ concat (map (enc_ix ks) ixs))"
proof (induction ixs arbitrary: msg)
  case (Cons ix ixs)
  obtain p ms d where ix: "ix = (p, ms, d)" using prod_cases3 by blast
  with Cons.prems have "p \<in> set ks" "am_pubkey ` set ms \<subseteq> set ks" "mentions ixs \<subseteq> set ks" by (auto simp: mentions_Cons)
  then show ?case by (simp add: ix push_ix_Ok Cons.IH)
qed simp

definition header_bytes :: "buckets \<Rightarrow> bytes" where
  "header_bytes b = [of_nat (length (bk_sw b) + length (bk_sr b)), of_nat (length (bk_sr b)), of_nat (length (bk_nr b))]"

definition enc_message :: "buckets \<Rightarrow> instruction list \<Rightarrow> bytes \<Rightarrow> bytes" where
  "enc_message b ixs hash =
     header_bytes b @ compact_len (of_nat (length (account_keys b))) @ concat (account_keys b) @ hash
     @ compact_len (of_nat (length ixs)) @ concat (map (enc_ix (account_keys b)) ixs)"

text \<open>The text for a missing key is never reached.\<close>

lemma message_bytes_Ok: "sorts payer ixs b \<Longrightarrow> message_bytes b ixs hash = Ok (enc_message b ixs hash)"
  using sorts_keys [of payer ixs b]
  by (simp add: message_bytes_def Let_def push_ixs_Ok write_compact_append enc_message_def header_bytes_def subset_insertI)

lemma take_exact_append: "length xs = n \<Longrightarrow> take_exact n (xs @ r) = Some (xs, r)"
  by simp

declare take_exact.simps [simp del]

lemma read_many_exact: "\<forall>x \<in> set xs. length x = n \<Longrightarrow> read_many (length xs) (take_exact n) (concat xs @ r) = Some (xs, r)"
  by (induction xs) (auto simp: take_exact_append)

lemma unat_of_nat_small: "n < 256 \<Longrightarrow> unat (of_nat n :: u8) = n" "n < 65536 \<Longrightarrow> unat (of_nat n :: u16) = n"
  by (simp_all add: unsigned_of_nat take_bit_nat_eq_self)

definition small_ix :: "instruction \<Rightarrow> bool" where
  "small_ix ix \<longleftrightarrow> length (fst (snd ix)) < 65536 \<and> length (snd (snd ix)) < 65536"

definition placed_ix :: "pubkey list \<Rightarrow> instruction \<Rightarrow> nat \<times> nat list \<times> bytes" where
  "placed_ix ks ix = (let (p, ms, d) = ix in (idx_of ks p, map (idx_of ks \<circ> am_pubkey) ms, d))"

lemma idx_of_less: "k \<in> set ks \<Longrightarrow> idx_of ks k < length ks"
  using position_Some [of ks k] position_None [of ks k] by (cases "position ks k") (auto simp: idx_of_def)

lemma read_ix_enc:
  assumes "length ks < 256" "p \<in> set ks" "am_pubkey ` set ms \<subseteq> set ks" "small_ix (p, ms, d)"
  shows "read_ix (enc_ix ks (p, ms, d) @ r) = Some (placed_ix ks (p, ms, d), r)"
proof -
  have u: "k \<in> set ks \<Longrightarrow> unat (of_nat (idx_of ks k) :: u8) = idx_of ks k" for k
    using idx_of_less [of k ks] assms(1) by (intro unat_of_nat_small) simp
  have "map (unat \<circ> (\<lambda>a. of_nat (idx_of ks (am_pubkey a)) :: u8)) ms = map (idx_of ks \<circ> am_pubkey) ms"
    using assms(3) u by auto
  then show ?thesis
    using assms(2,4) by (simp add: read_ix_def enc_ix_def placed_ix_def take_exact_append unat_of_nat_small small_ix_def u)
qed

lemma read_ixs_enc:
  assumes "length ks < 256" "mentions ixs \<subseteq> set ks" "\<forall>ix \<in> set ixs. small_ix ix"
  shows "read_many (length ixs) read_ix (concat (map (enc_ix ks) ixs) @ r) = Some (map (placed_ix ks) ixs, r)"
  using assms(2,3)
proof (induction ixs)
  case (Cons ix ixs)
  obtain p ms d where ix: "ix = (p, ms, d)" using prod_cases3 by blast
  from Cons.prems ix have "p \<in> set ks" "am_pubkey ` set ms \<subseteq> set ks" "mentions ixs \<subseteq> set ks" "small_ix (p, ms, d)"
    by (auto simp: mentions_Cons)
  with Cons show ?case by (simp add: ix read_ix_enc [OF assms(1)])
qed simp

definition message_of :: "buckets \<Rightarrow> instruction list \<Rightarrow> bytes \<Rightarrow> sol_message" where
  "message_of b ixs hash =
     \<lparr>sm_sigs = length (bk_sw b) + length (bk_sr b), sm_ro_signed = length (bk_sr b), sm_ro_unsigned = length (bk_nr b),
      sm_keys = account_keys b, sm_hash = hash, sm_ixs = map (placed_ix (account_keys b)) ixs\<rparr>"

lemma keys32_sorts: "keys32 payer ixs \<Longrightarrow> sorts payer ixs b \<Longrightarrow> \<forall>k \<in> set (account_keys b). length k = 32"
  unfolding sorts_keys by (fastforce simp: keys32_def mentions_def)

lemma read_message_enc:
  assumes s: "sorts payer ixs b" and k: "keys32 payer ixs" "length hash = 32"
    and small: "length (account_keys b) < 256" "length ixs < 65536" "\<forall>ix \<in> set ixs. small_ix ix"
  shows "read_message (enc_message b ixs hash) = Some (message_of b ixs hash)"
proof -
  have "mentions ixs \<subseteq> set (account_keys b)" using sorts_keys [OF s] by blast
  note ixs = read_ixs_enc [OF small(1) this small(3), of "[]", simplified]
  have len: "length (bk_sw b) + length (bk_sr b) < 256" "length (bk_sr b) < 256" "length (bk_nr b) < 256"
    using small(1) by (simp_all add: account_keys_def)
  have h: "take_exact 3 (header_bytes b @ r) = Some (header_bytes b, r)" for r
    by (rule take_exact_append) (simp add: header_bytes_def)
  have u: "unat (header_bytes b ! 0) = length (bk_sw b) + length (bk_sr b)" "unat (header_bytes b ! 1) = length (bk_sr b)"
    "unat (header_bytes b ! 2) = length (bk_nr b)"
    using len unat_of_nat_small(1) by (simp_all add: header_bytes_def del: of_nat_add)
  show ?thesis
    using small(1,2) by (simp add: read_message_def enc_message_def h read_many_exact [OF keys32_sorts [OF k(1) s]]
        take_exact_append k(2) unat_of_nat_small ixs message_of_def u u(2) [simplified])
qed

text \<open>Resolving what was read gives the instructions with the rights that were meant.\<close>

lemma rights_message_of:
  assumes "sorts payer ixs b" "k \<in> insert payer (mentions ixs)"
  shows "rights (message_of b ixs h) (idx_of (account_keys b) k) = Some (meant payer ixs k)"
proof -
  from sorts_placed [OF assms] obtain i where i: "position (account_keys b) k = Some i" "placed b i = snd (meant payer ixs k)" by blast
  have "fst (meant payer ixs k) = k" by (simp add: meant_def Let_def)
  with i position_Some [OF i(1)] show ?thesis
    by (cases "meant payer ixs k") (auto simp: rights_def message_of_def idx_of_def placed_def)
qed

lemma those_map_Some: "(\<And>x. x \<in> set xs \<Longrightarrow> f x = Some (g x)) \<Longrightarrow> those (map f xs) = Some (map g xs)"
  by (induction xs) auto

lemma resolve_message_of:
  assumes "sorts payer ixs b"
  shows "resolve (message_of b ixs h) = Some (meant_ixs payer ixs)"
proof -
  let ?m = "message_of b ixs h"
  have "Option.bind (rights ?m (idx_of (account_keys b) p)) (\<lambda>prog. map_option (\<lambda>accs. (prog, accs, d))
          (those (map (rights ?m) (map (idx_of (account_keys b) \<circ> am_pubkey) ms))))
      = Some (meant payer ixs p, map (meant payer ixs \<circ> am_pubkey) ms, d)" if "(p, ms, d) \<in> set ixs" for p ms d
  proof -
    have k: "p \<in> mentions ixs" "am_pubkey ` set ms \<subseteq> mentions ixs" using that by (force simp: mentions_def)+
    have "those (map (rights ?m \<circ> (idx_of (account_keys b) \<circ> am_pubkey)) ms) = Some (map (meant payer ixs \<circ> am_pubkey) ms)"
      using k(2) by (intro those_map_Some) (auto simp: rights_message_of [OF assms])
    then show ?thesis by (simp add: rights_message_of [OF assms] k(1))
  qed
  then have "those (map ((\<lambda>(p, idx, data). Option.bind (rights ?m p) (\<lambda>prog. map_option (\<lambda>accs. (prog, accs, data))
       (those (map (rights ?m) idx)))) \<circ> placed_ix (account_keys b)) ixs)
     = Some (map (\<lambda>(p, ms, d). (meant payer ixs p, map (meant payer ixs \<circ> am_pubkey) ms, d)) ixs)"
    by (intro those_map_Some) (auto simp: placed_ix_def)
  then show ?thesis by (simp add: resolve_def meant_ixs_def message_of_def)
qed
section \<open>Transactions within the limit\<close>

lemma enc_ix_length: "length ms + length d < length (enc_ix ks (p, ms, d))"
  by (simp add: enc_ix_def)

lemma concat_enc_length:
  "(\<Sum>ix \<leftarrow> ixs. Suc (length (fst (snd ix)) + length (snd (snd ix)))) \<le> length (concat (map (enc_ix ks) ixs))"
proof (induction ixs)
  case (Cons ix ixs)
  obtain p ms d where ix: "ix = (p, ms, d)" using prod_cases3 by blast
  show ?case using Cons enc_ix_length [of ms d ks p] by (simp add: ix)
qed simp

lemma member_sum_list: "ix \<in> set ixs \<Longrightarrow> f ix \<le> (\<Sum>x \<leftarrow> ixs. f x)" for f :: "_ \<Rightarrow> nat"
  by (induction ixs) auto

lemma length_concat_const: "\<forall>x \<in> set xs. length x = n \<Longrightarrow> length (concat xs) = length xs * n"
  by (induction xs) auto

text \<open>A message that fits has no length that a field could cut off.\<close>

lemma fits_small:
  assumes "sorts payer ixs b" "keys32 payer ixs" "length (enc_message b ixs hash) \<le> tx_limit"
  shows "length (account_keys b) < 256" "length ixs < 65536" "\<forall>ix \<in> set ixs. small_ix ix"
proof -
  let ?c = "concat (map (enc_ix (account_keys b)) ixs)"
  have len: "length (account_keys b) * 32 + length ?c \<le> 1232"
    using assms(3) length_concat_const [OF keys32_sorts [OF assms(2,1)]] by (simp add: enc_message_def tx_limit_def)
  then show "length (account_keys b) < 256" by simp
  have c: "(\<Sum>ix \<leftarrow> ixs. Suc (length (fst (snd ix)) + length (snd (snd ix)))) \<le> 1232"
    using len concat_enc_length [of ixs "account_keys b"] by linarith
  have "length ixs \<le> (\<Sum>ix \<leftarrow> ixs. Suc (length (fst (snd ix)) + length (snd (snd ix))))" by (induction ixs) auto
  with c show "length ixs < 65536" by simp
  show "\<forall>ix \<in> set ixs. small_ix ix"
  proof
    fix ix assume "ix \<in> set ixs"
    from member_sum_list [OF this, of "\<lambda>ix. Suc (length (fst (snd ix)) + length (snd (snd ix)))"] c
    show "small_ix ix" by (simp add: small_ix_def)
  qed
qed

lemma read_tx_enc:
  assumes "sorts payer ixs b" "keys32 payer ixs" "length hash = 32" "length (enc_message b ixs hash) \<le> tx_limit"
    "\<forall>g \<in> set sigs. length g = 64" "length sigs < 65536"
  shows "read_tx (compact_len (of_nat (length sigs)) @ concat sigs @ enc_message b ixs hash)
    = Some (sigs, enc_message b ixs hash, message_of b ixs hash)"
  using read_message_enc [OF assms(1-3) fits_small [OF assms(1,2,4)]]
  by (simp add: read_tx_def unat_of_nat_small(2) [OF assms(6)] read_many_exact [OF assms(5)])

lemma read_signed:
  assumes "sorts payer ixs b" "keys32 payer ixs" "length hash = 32" "length (enc_message b ixs hash) \<le> tx_limit" "length sig = 64"
  shows "read_tx (with_signature sig (enc_message b ixs hash)) = Some ([sig], enc_message b ixs hash, message_of b ixs hash)"
  using read_tx_enc [OF assms(1-4), of "[sig]"] assms(5) by (simp add: with_signature_def write_compact_append)

lemma sorts_payer_first: "sorts payer ixs b \<Longrightarrow> rights (message_of b ixs h) 0 = Some (payer, True, True)"
  using sorts_payer [of payer ixs b] by (auto simp: rights_def message_of_def sorts_def hold_def)

text \<open>When the account list repeats a key.\<close>

lemma sorts_distinct:
  assumes "sorts payer ixs b"
  shows "distinct (account_keys b) \<longleftrightarrow> (\<forall>p \<in> fst ` set ixs. snd (meant payer ixs p) = (False, False))"
proof -
  note h = assms [unfolded sorts_def hold_def]
  have payer: "snd (meant payer ixs payer) = (True, True)" by (simp add: meant_def)
  have notin: "payer \<notin> accounts payer ixs" by (simp add: accounts_def)
  have apart: "set (bk_sw b) \<inter> set (bk_sr b) = {}" "set (bk_sw b) \<inter> set (bk_nw b) = {}" "set (bk_sr b) \<inter> set (bk_nw b) = {}"
    using h notin by (simp_all add: disjoint_iff)
  have parts: "distinct (bk_sw b)" "distinct (bk_sr b)" "distinct (bk_nw b)" "distinct (bk_nr b)" using h by blast+
  have "distinct (account_keys b) \<longleftrightarrow> (set (bk_sw b) \<union> set (bk_sr b) \<union> set (bk_nw b)) \<inter> set (bk_nr b) = {}"
    unfolding account_keys_def distinct_append set_append using apart parts by blast
  also have "\<dots> \<longleftrightarrow> (\<forall>p \<in> fst ` set ixs. p \<notin> set (bk_sw b) \<union> set (bk_sr b) \<union> set (bk_nw b))"
    using h payer notin by (auto simp: cap_of_caps)
  also have "\<dots> \<longleftrightarrow> (\<forall>p \<in> fst ` set ixs. snd (meant payer ixs p) = (False, False))"
  proof (intro ball_cong refl)
    fix p assume "p \<in> fst ` set ixs"
    have "p \<in> accounts payer ixs \<or> p = payer" if "snd (meant payer ixs p) \<noteq> (False, False)"
      using that by (auto simp: meant_def accounts_def Let_def)
    then show "p \<notin> set (bk_sw b) \<union> set (bk_sr b) \<union> set (bk_nw b) \<longleftrightarrow> snd (meant payer ixs p) = (False, False)"
      using h payer by (cases "snd (meant payer ixs p)") (auto simp: cap_of_caps)
  qed
  finally show ?thesis .
qed

end
