(* ===== verification/Sse.thy ===== *)
theory Sse
  imports MayanFeed Hosting "HOL-Library.Monad_Syntax"
begin

text \<open>
  The event stream of \<open>crates/genome-client/src/lib.rs\<close>: cutting the bytes of the response into events
  (\<open>subscribe_internal\<close>), reading one event (\<open>parse_sse_event\<close>, \<open>GenomeEvent::from_json_value\<close>) and turning
  it into an intent (\<open>Intent::from_genome_event\<close>).  The JSON parser, the hasher of the standard library and the
  positional form of a struct are parameters.
\<close>

section \<open>Bytes to text\<close>

text \<open>\<open>from_utf8_lossy\<close>: the length of the next valid sequence, or of the next invalid part.\<close>

definition cont :: "nat \<Rightarrow> nat \<Rightarrow> nat list \<Rightarrow> nat \<Rightarrow> bool" where
  "cont lo hi bs i \<longleftrightarrow> i < length bs \<and> lo \<le> bs ! i \<and> bs ! i \<le> hi"

definition utf8_seq :: "nat list \<Rightarrow> bool \<times> nat" where
  "utf8_seq bs =
     (let b = bs ! 0; c = cont 128 191 bs
      in if b < 128 then (True, 1)
         else if 194 \<le> b \<and> b \<le> 223 then (if c 1 then (True, 2) else (False, 1))
         else if 224 \<le> b \<and> b \<le> 239
         then (if \<not> cont (if b = 224 then 160 else 128) (if b = 237 then 159 else 191) bs 1 then (False, 1)
               else if c 2 then (True, 3) else (False, 2))
         else if 240 \<le> b \<and> b \<le> 244
         then (if \<not> cont (if b = 240 then 144 else 128) (if b = 244 then 143 else 191) bs 1 then (False, 1)
               else if \<not> c 2 then (False, 2) else if c 3 then (True, 4) else (False, 3))
         else (False, 1))"

lemma utf8_seq_pos: "0 < snd (utf8_seq bs)"
  by (simp add: utf8_seq_def Let_def)

definition replacement :: "nat list" where "replacement = [239, 191, 189]"

function utf8_lossy :: "nat list \<Rightarrow> nat list" where
  "utf8_lossy bs =
     (if bs = [] then []
      else let (ok, n) = utf8_seq bs in (if ok then take n bs else replacement) @ utf8_lossy (drop n bs))"
  by pat_completeness auto
termination
proof (relation "measure length")
  fix bs :: "nat list" and x ok n
  assume "bs \<noteq> []" "x = utf8_seq bs" "(ok, n) = x"
  then have "0 < n" using utf8_seq_pos [of bs] by (metis snd_conv)
  then show "(drop n bs, bs) \<in> measure length" using \<open>bs \<noteq> []\<close> by simp
qed simp

declare utf8_lossy.simps [simp del]

definition text_of :: "bytes \<Rightarrow> string" where
  "text_of b = map char_of (utf8_lossy (map unat b))"

section \<open>Events out of a buffer\<close>

definition event_end :: string where "event_end = [CHR 0x0A, CHR 0x0A]"

text \<open>The inner loop: the complete events of a buffer and what remains.\<close>

function frames :: "string \<Rightarrow> string list \<times> string" where
  "frames buf =
     (case find_str event_end buf of
        None \<Rightarrow> ([], buf)
      | Some n \<Rightarrow> let (evs, rest) = frames (drop (n + 2) buf) in (take n buf # evs, rest))"
  by pat_completeness auto
termination
proof (relation "measure length")
  fix buf n
  assume "find_str event_end buf = Some n"
  then have "buf \<noteq> []" by (auto simp: event_end_def)
  then show "(drop (n + 2) buf, buf) \<in> measure length" by simp
qed simp

declare frames.simps [simp del]

section \<open>Events\<close>

record genome_event =
  ge_addr :: string
  ge_entity :: string
  ge_id :: "string option"
  ge_action :: string
  ge_chain_id :: "u64 option"
  ge_reference :: "string option"
  ge_src_chain :: "u64 option"
  ge_dst_chain :: "u64 option"
  ge_depositor :: "string option"
  ge_recipient :: "string option"
  ge_src_token :: "string option"
  ge_dst_token :: "string option"
  ge_input_amount :: "string option"
  ge_ts :: "u64 option"
  ge_batch_id :: "u64 option"
  ge_protocol :: "string option"
  ge_order_id :: "string option"
  ge_output_amount :: "string option"
  ge_deposit_id :: "int option"
  ge_maker_order_nonce :: "u64 option"
  ge_give_amount :: "string option"
  ge_take_amount :: "string option"
  ge_mayan_order_id :: "string option"
  ge_wormhole_id :: "16 word option"
  ge_trader :: "string option"
  ge_deadline :: "u64 option"
  ge_lifi_quote_id :: "string option"
  ge_lifi_transaction_id :: "string option"
  ge_bridge :: "string option"
  ge_tool :: "string option"
  ge_swift_program_id :: "string option"
  ge_state_account :: "string option"
  ge_vault_account :: "string option"
  ge_compute_units :: "u64 option"
  ge_is_solana_source :: "bool option"
  ge_fill_deadline :: "u32 option"
  ge_exclusivity_deadline :: "u32 option"
  ge_exclusive_relayer :: "string option"
  ge_message :: "string option"

text \<open>A field of the derived reader under its names: an error when two of them are present or the value has the
  wrong type; \<open>None\<close> when it is absent.\<close>

definition present :: "string list \<Rightarrow> (string \<times> json) list \<Rightarrow> json list" where
  "present ks kvs = List.map_filter (map_of kvs) ks"

definition plain_field :: "(json \<Rightarrow> 'a option) \<Rightarrow> string list \<Rightarrow> (string \<times> json) list \<Rightarrow> 'a option option" where
  "plain_field rd ks kvs =
     (case present ks kvs of [] \<Rightarrow> Some None | [v] \<Rightarrow> map_option Some (rd v) | _ \<Rightarrow> None)"

text \<open>A field of an option type, where \<open>null\<close> is \<open>None\<close>.\<close>

definition opt_field :: "(json \<Rightarrow> 'a option) \<Rightarrow> string list \<Rightarrow> (string \<times> json) list \<Rightarrow> 'a option option" where
  "opt_field rd ks kvs =
     (case present ks kvs of
        [] \<Rightarrow> Some None
      | [v] \<Rightarrow> (if v = JNull then Some None else map_option Some (rd v))
      | _ \<Rightarrow> None)"

fun json_word :: "json \<Rightarrow> 'w::len word option" where
  "json_word (JInt n) = (if 0 \<le> n \<and> n < 2 ^ LENGTH('w) then Some (word_of_int n) else None)"
| "json_word _ = None"

fun json_bool :: "json \<Rightarrow> bool option" where
  "json_bool (JBool b) = Some b"
| "json_bool _ = None"

definition read_event :: "(string \<times> json) list \<Rightarrow> genome_event option" where
  "read_event kvs =
     (let s = (\<lambda>k. opt_field json_str [k] kvs); u = (\<lambda>k. opt_field json_word [k] kvs)
      in do {
        addr \<leftarrow> plain_field json_str [''addr'', ''address''] kvs;
        entity \<leftarrow> plain_field json_str [''entity''] kvs;
        i \<leftarrow> s ''id'';
        action \<leftarrow> plain_field json_str [''action''] kvs;
        chain_id \<leftarrow> u ''chain_id'';
        reference \<leftarrow> opt_field json_str [''ref_hash'', ''ref''] kvs;
        src_chain \<leftarrow> u ''src_chain'';
        dst_chain \<leftarrow> u ''dst_chain'';
        depositor \<leftarrow> s ''depositor'';
        recipient \<leftarrow> s ''recipient'';
        src_token \<leftarrow> opt_field json_str [''src_token'', ''token''] kvs;
        dst_token \<leftarrow> s ''dst_token'';
        input_amount \<leftarrow> opt_field json_str [''input_amount'', ''amount''] kvs;
        ts \<leftarrow> opt_field json_word [''ts'', ''timestamp''] kvs;
        batch_id \<leftarrow> u ''batch_id'';
        protocol \<leftarrow> s ''protocol'';
        order_id \<leftarrow> s ''order_id'';
        output_amount \<leftarrow> opt_field json_str [''output_amount'', ''min_amount_out''] kvs;
        deposit_id \<leftarrow> opt_field as_i64 [''deposit_id''] kvs;
        nonce \<leftarrow> u ''maker_order_nonce'';
        give \<leftarrow> s ''give_amount'';
        tk \<leftarrow> s ''take_amount'';
        mayan \<leftarrow> s ''mayan_order_id'';
        wormhole \<leftarrow> opt_field json_word [''swift_dest_chain_wormhole_id''] kvs;
        trader \<leftarrow> s ''trader'';
        deadline \<leftarrow> u ''deadline'';
        quote \<leftarrow> s ''lifi_quote_id'';
        transaction \<leftarrow> s ''lifi_transaction_id'';
        bridge \<leftarrow> s ''bridge'';
        tool \<leftarrow> s ''tool'';
        program \<leftarrow> s ''swift_program_id'';
        state \<leftarrow> s ''state_account'';
        vault \<leftarrow> s ''vault_account'';
        units \<leftarrow> u ''compute_units_estimate'';
        solana \<leftarrow> opt_field json_bool [''is_solana_source''] kvs;
        fill_deadline \<leftarrow> opt_field json_word [''fill_deadline''] kvs;
        excl_deadline \<leftarrow> opt_field json_word [''exclusivity_deadline''] kvs;
        relayer \<leftarrow> s ''exclusive_relayer'';
        message \<leftarrow> s ''message'';
        (case (entity, action) of
           (Some en, Some ac) \<Rightarrow>
             Some \<lparr>ge_addr = or_str addr [], ge_entity = en, ge_id = i, ge_action = ac, ge_chain_id = chain_id,
               ge_reference = reference, ge_src_chain = src_chain, ge_dst_chain = dst_chain, ge_depositor = depositor,
               ge_recipient = recipient, ge_src_token = src_token, ge_dst_token = dst_token,
               ge_input_amount = input_amount, ge_ts = ts, ge_batch_id = batch_id, ge_protocol = protocol,
               ge_order_id = order_id, ge_output_amount = output_amount, ge_deposit_id = deposit_id,
               ge_maker_order_nonce = nonce, ge_give_amount = give, ge_take_amount = tk, ge_mayan_order_id = mayan,
               ge_wormhole_id = wormhole, ge_trader = trader, ge_deadline = deadline, ge_lifi_quote_id = quote,
               ge_lifi_transaction_id = transaction, ge_bridge = bridge, ge_tool = tool,
               ge_swift_program_id = program, ge_state_account = state, ge_vault_account = vault,
               ge_compute_units = units, ge_is_solana_source = solana, ge_fill_deadline = fill_deadline,
               ge_exclusivity_deadline = excl_deadline, ge_exclusive_relayer = relayer, ge_message = message\<rparr>
         | _ \<Rightarrow> None)
      })"

text \<open>The canonical name of a field and its older one; the older is dropped when both are present.\<close>

definition alias_pairs :: "(string \<times> string) list" where
  "alias_pairs = [(''src_token'', ''token''), (''input_amount'', ''amount''), (''ts'', ''timestamp''),
     (''ref_hash'', ''ref''), (''output_amount'', ''min_amount_out'')]"

definition strip_pair :: "string \<times> string \<Rightarrow> (string \<times> json) list \<Rightarrow> (string \<times> json) list" where
  "strip_pair p kvs =
     (if map_of kvs (fst p) \<noteq> None \<and> map_of kvs (snd p) \<noteq> None then filter (\<lambda>kv. fst kv \<noteq> snd p) kvs else kvs)"

definition strip_legacy :: "(string \<times> json) list \<Rightarrow> (string \<times> json) list" where
  "strip_legacy kvs = fold strip_pair alias_pairs kvs"

record sse_env =
  sx_parse :: "string \<Rightarrow> json option"
  sx_positional :: "json \<Rightarrow> genome_event option"
  sx_synthetic :: "genome_event \<Rightarrow> string"
  sx_now :: u64

definition from_json_value :: "sse_env \<Rightarrow> json \<Rightarrow> genome_event option" where
  "from_json_value x v = (case v of JObj kvs \<Rightarrow> read_event (strip_legacy kvs) | _ \<Rightarrow> sx_positional x v)"

definition from_json_str :: "sse_env \<Rightarrow> string \<Rightarrow> genome_event option" where
  "from_json_str x s = Option.bind (sx_parse x s) (from_json_value x)"

section \<open>From event to intent\<close>

definition is_hex_char :: "char \<Rightarrow> bool" where
  "is_hex_char c = (let n = of_char c :: nat in 48 \<le> n \<and> n \<le> 57 \<or> 65 \<le> n \<and> n \<le> 70 \<or> 97 \<le> n \<and> n \<le> 102)"

text \<open>The part of a text after the last copy of a pattern.\<close>

function after_last :: "string \<Rightarrow> string \<Rightarrow> string" where
  "after_last p s =
     (case find_str p s of None \<Rightarrow> s | Some n \<Rightarrow> if p = [] then s else after_last p (drop (n + length p) s))"
  by pat_completeness auto
termination
proof (relation "measure (\<lambda>(p, s). length s)")
  fix p s n
  assume "find_str p s = Some n" "p \<noteq> []"
  then have "s \<noteq> []" by auto
  then show "((p, drop (n + length p) s), p, s) \<in> measure (\<lambda>(p, s). length s)" using \<open>p \<noteq> []\<close> by simp
qed simp

declare after_last.simps [simp del]

definition addr_tx_hash :: "string \<Rightarrow> string option" where
  "addr_tx_hash a =
     (if contains a ''0x''
      then map_option (\<lambda>s. ''0x'' @ s) (keep (\<lambda>s. length s = 64 \<and> list_all is_hex_char s) (Some (after_last ''0x'' a)))
      else None)"

definition first_of :: "'a option \<Rightarrow> 'a option \<Rightarrow> 'a option" where
  "first_of x y = (case x of None \<Rightarrow> y | Some a \<Rightarrow> Some a)"

definition event_tx_hash :: "sse_env \<Rightarrow> genome_event \<Rightarrow> string" where
  "event_tx_hash x ev =
     or_str (first_of (ge_reference ev) (first_of (ge_order_id ev) (addr_tx_hash (ge_addr ev)))) (sx_synthetic x ev)"

text \<open>An amount that is no \<open>u128\<close> is an error whose text quotes its first forty bytes: the slice panics inside
  a multi-byte character.\<close>

definition event_amount :: "genome_event \<Rightarrow> (unit, string) res" where
  "event_amount ev =
     (case ge_input_amount ev of
        None \<Rightarrow> Err ()
      | Some a \<Rightarrow>
          if parse_u128 a \<noteq> None then Ok a
          else if str_slice 0 (min (length a) 40) a = None then Panic else Err ())"

definition opt_res :: "'a option \<Rightarrow> (unit, 'a) res" where
  "opt_res x = (case x of None \<Rightarrow> Err () | Some a \<Rightarrow> Ok a)"

definition from_genome_event :: "sse_env \<Rightarrow> genome_event \<Rightarrow> (unit, feed_intent) res" where
  "from_genome_event x ev =
     res_bind (opt_res (ge_src_chain ev)) (\<lambda>src.
     res_bind (opt_res (ge_dst_chain ev)) (\<lambda>dst.
     res_bind (event_amount ev) (\<lambda>amount.
     res_bind (opt_res (first_of (ge_depositor ev) (ge_trader ev))) (\<lambda>depositor.
     let tx = event_tx_hash x ev; src_token = or_str (ge_src_token ev) zero_address_text
     in res_bind (opt_res (first_of (ge_protocol ev) (ge_id ev))) (\<lambda>protocol.
        Ok (default_intent\<lparr>
          i_id := protocol @ '':'' @ tx, i_protocol := protocol, i_src_chain := src, i_dst_chain := dst,
          i_src_token := src_token, i_dst_token := or_str (ge_dst_token ev) src_token, i_amount := amount,
          i_depositor := depositor, i_recipient := or_str (ge_recipient ev) depositor, i_tx_hash := tx,
          i_detected_at := (case ge_ts ev of None \<Rightarrow> sx_now x | Some t \<Rightarrow> t), i_output_amount := ge_output_amount ev,
          i_deposit_id := ge_deposit_id ev, fi_maker_order_nonce := ge_maker_order_nonce ev,
          i_give_amount := ge_give_amount ev, i_take_amount := ge_take_amount ev, i_order_id := ge_order_id ev,
          i_mayan_order_id := ge_mayan_order_id ev, fi_wormhole_id := ge_wormhole_id ev, fi_trader := ge_trader ev,
          i_deadline := ge_deadline ev, fi_lifi_quote_id := ge_lifi_quote_id ev,
          fi_lifi_transaction_id := ge_lifi_transaction_id ev, fi_bridge := ge_bridge ev, fi_tool := ge_tool ev,
          fi_swift_program_id := ge_swift_program_id ev, fi_state_account := ge_state_account ev,
          fi_vault_account := ge_vault_account ev, fi_compute_units := ge_compute_units ev,
          i_is_solana_source := ge_is_solana_source ev, i_fill_deadline := ge_fill_deadline ev,
          i_exclusivity_deadline := ge_exclusivity_deadline ev, i_exclusive_relayer := ge_exclusive_relayer ev,
          i_message := ge_message ev, i_batch_id := ge_batch_id ev\<rparr>))))))"

section \<open>One event\<close>

definition event_kind :: "string list \<Rightarrow> string option" where
  "event_kind ls = fold (\<lambda>l k. case strip_prefix l ''event: '' of None \<Rightarrow> k | Some c \<Rightarrow> Some (trim c)) ls None"

definition data_parts :: "string list \<Rightarrow> string list" where
  "data_parts ls =
     List.map_filter (\<lambda>l. if strip_prefix l ''event: '' \<noteq> None then None else map_option trim (strip_prefix l ''data: '')) ls"

fun join_lines :: "string list \<Rightarrow> string" where
  "join_lines [] = []"
| "join_lines [s] = s"
| "join_lines (s # ss) = s @ CHR 0x0A # join_lines ss"

definition wanted_entity :: "genome_event \<Rightarrow> bool" where
  "wanted_entity ev \<longleftrightarrow> ge_entity ev \<in> set [''proto'', ''order'']"

definition wanted_action :: "genome_event \<Rightarrow> bool" where
  "wanted_action ev \<longleftrightarrow> ge_action ev \<in> set [''deposit'', ''placed'', ''executed'']"

definition polled_elsewhere :: "genome_event \<Rightarrow> bool" where
  "polled_elsewhere ev \<longleftrightarrow>
     (let hint = or_str (first_of (ge_protocol ev) (ge_id ev)) [] in contains hint ''mayan'' \<or> contains hint ''swift'')"

definition parse_sse_event :: "sse_env \<Rightarrow> string \<Rightarrow> (unit, feed_intent option) res" where
  "parse_sse_event x text =
     (let ls = lines text; kind = event_kind ls; parts = data_parts ls
      in if kind \<noteq> Some ''genome'' \<and> kind \<noteq> Some ''genome_entry'' then Ok None
         else if parts = [] then Ok None
         else case from_json_str x (join_lines parts) of
                None \<Rightarrow> Ok None
              | Some ev \<Rightarrow>
                  if \<not> wanted_entity ev then Ok None
                  else if \<not> wanted_action ev then Ok None
                  else if polled_elsewhere ev then Ok None
                  else (case from_genome_event x ev of Ok it \<Rightarrow> Ok (Some it) | Err _ \<Rightarrow> Ok None | Panic \<Rightarrow> Panic))"

section \<open>The stream\<close>

record sse =
  st_buffer :: string
  st_out :: "feed_intent list"
  st_open :: bool
  st_live :: bool

definition sse_new :: "bool \<Rightarrow> sse" where
  "sse_new receiver = \<lparr>st_buffer = [], st_out = [], st_open = receiver, st_live = True\<rparr>"

definition max_buffer_bytes :: nat where "max_buffer_bytes = 512 * 1024"

text \<open>One event: a panic ends the task, and so does a receiver that is gone.\<close>

definition sse_event :: "sse_env \<Rightarrow> string \<Rightarrow> sse \<Rightarrow> sse" where
  "sse_event x text s =
     (if \<not> st_live s then s
      else case parse_sse_event x text of
             Ok None \<Rightarrow> s
           | Ok (Some it) \<Rightarrow> (if st_open s then s\<lparr>st_out := st_out s @ [it]\<rparr> else s\<lparr>st_live := False\<rparr>)
           | _ \<Rightarrow> s\<lparr>st_live := False\<rparr>)"

definition sse_text :: "sse_env \<Rightarrow> string \<Rightarrow> sse \<Rightarrow> sse" where
  "sse_text x text s =
     (if \<not> st_live s then s
      else let buf = st_buffer s @ text
           in if max_buffer_bytes < length buf \<and> \<not> contains buf event_end then s\<lparr>st_buffer := []\<rparr>
              else let (evs, rest) = frames buf in fold (sse_event x) evs (s\<lparr>st_buffer := rest\<rparr>))"

definition sse_chunk :: "sse_env \<Rightarrow> bytes \<Rightarrow> sse \<Rightarrow> sse" where
  "sse_chunk x chunk s = sse_text x (text_of chunk) s"

definition subscribe_internal :: "sse_env \<Rightarrow> bytes list \<Rightarrow> bool \<Rightarrow> sse" where
  "subscribe_internal x cs receiver = fold (sse_chunk x) cs (sse_new receiver)"

text \<open>The pauses between connections, in seconds; the flag tells a clean close from an error.\<close>

fun subscribe_backoff :: "bool list \<Rightarrow> u64 \<Rightarrow> u64 list" where
  "subscribe_backoff [] b = []"
| "subscribe_backoff (clean # rs) b = (let c = (if clean then 2 else min (b * 2) 60) in c # subscribe_backoff rs c)"

section \<open>Cutting does not depend on the chunks\<close>

lemma starts_with_more: "length p \<le> length a \<Longrightarrow> starts_with (a @ b) p = starts_with a p"
  by (simp add: starts_with_def)

lemma starts_with_length: "starts_with s p \<Longrightarrow> length p \<le> length s"
  unfolding starts_with_def by (metis length_take min.cobounded1)

lemma find_str_bound: "find_str p s = Some n \<Longrightarrow> n + length p \<le> length s"
proof (induction s arbitrary: n)
  case (Cons c s)
  then show ?case using starts_with_length [of "c # s" p] by (auto split: if_splits)
qed (simp split: if_splits)

lemma find_str_append: "find_str p a = Some n \<Longrightarrow> find_str p (a @ b) = Some n"
proof (induction a arbitrary: n)
  case Nil
  then show ?case by (cases b) (auto simp: starts_with_def split: if_splits)
next
  case (Cons c a)
  then have "length p \<le> length (c # a)" using find_str_bound [of p "c # a" n] by simp
  then have "starts_with (c # a @ b) p = starts_with (c # a) p" using starts_with_more [of p "c # a" b] by simp
  then show ?case using Cons by (auto split: if_splits)
qed

lemma contains_find: "contains s p \<longleftrightarrow> find_str p s \<noteq> None"
  by (induction s) auto

lemma frames_append:
  "frames (a @ b) = (let (es, r) = frames a; (fs, t) = frames (r @ b) in (es @ fs, t))"
proof (induction a rule: frames.induct)
  case (1 a)
  show ?case
  proof (cases "find_str event_end a")
    case None
    then have "frames a = ([], a)" by (simp add: frames.simps [of a])
    then show ?thesis by (simp split: prod.split)
  next
    case (Some n)
    then have n: "n + 2 \<le> length a" using find_str_bound [OF Some] by (simp add: event_end_def)
    have "frames (a @ b) = (let (evs, rest) = frames (drop (n + 2) a @ b) in (take n a # evs, rest))"
      using n find_str_append [OF Some] by (subst frames.simps) simp
    moreover have "frames a = (let (evs, rest) = frames (drop (n + 2) a) in (take n a # evs, rest))"
      using Some by (subst frames.simps) simp
    ultimately show ?thesis using 1 [OF Some] by (simp add: Let_def split: prod.splits)
  qed
qed

lemma frames_parts:
  "fst (frames (a @ b)) = fst (frames a) @ fst (frames (snd (frames a) @ b))"
  "snd (frames (a @ b)) = snd (frames (snd (frames a) @ b))"
  by (simp_all add: frames_append [of a b] case_prod_beta Let_def)

lemma frames_rest: "find_str event_end (snd (frames a)) = None"
proof (induction a rule: frames.induct)
  case (1 a)
  show ?case
  proof (cases "find_str event_end a")
    case (Some n)
    then show ?thesis using 1 [OF Some] by (subst frames.simps) (simp add: case_prod_beta)
  qed (simp add: frames.simps [of a])
qed

lemma frames_none: "find_str event_end a = None \<Longrightarrow> frames a = ([], a)"
  by (simp add: frames.simps [of a])

lemma sse_event_buffer: "sse_event x e (s\<lparr>st_buffer := b\<rparr>) = (sse_event x e s)\<lparr>st_buffer := b\<rparr>"
  by (simp add: sse_event_def split: res.split option.split)

lemma sse_events_buffer: "fold (sse_event x) es (s\<lparr>st_buffer := b\<rparr>) = (fold (sse_event x) es s)\<lparr>st_buffer := b\<rparr>"
  by (induction es arbitrary: s) (simp_all add: sse_event_buffer)

lemma sse_events_dead: "\<not> st_live s \<Longrightarrow> fold (sse_event x) es s = s"
  by (induction es) (simp_all add: sse_event_def)

lemma sse_events_keep: "st_buffer (fold (sse_event x) es s) = st_buffer s"
  by (induction es arbitrary: s) (simp_all add: sse_event_def split: res.split option.split)

text \<open>The events of the whole text, one after the other.\<close>

definition sse_reference :: "sse_env \<Rightarrow> string \<Rightarrow> bool \<Rightarrow> sse" where
  "sse_reference x text receiver = fold (sse_event x) (fst (frames text)) (sse_new receiver)"

definition fits :: "bytes list \<Rightarrow> bool" where
  "fits cs \<longleftrightarrow> (\<forall>n \<le> length cs. length (snd (frames (concat (map text_of (take n cs))))) \<le> max_buffer_bytes)"

lemma fits_snoc:
  "fits (cs @ [c]) \<longleftrightarrow> fits cs \<and> length (snd (frames (concat (map text_of (cs @ [c]))))) \<le> max_buffer_bytes"
  by (auto simp: fits_def le_Suc_eq all_conj_distrib)

lemma sse_run:
  assumes "fits cs"
  shows "let s = subscribe_internal x cs receiver; t = concat (map text_of cs)
    in s\<lparr>st_buffer := []\<rparr> = sse_reference x t receiver \<and> (st_live s \<longrightarrow> st_buffer s = snd (frames t))"
  using assms
proof (induction cs rule: rev_induct)
  case Nil
  have "frames [] = ([], [])" by (rule frames_none) (simp add: event_end_def)
  then show ?case by (simp add: subscribe_internal_def sse_reference_def sse_new_def Let_def)
next
  case (snoc c cs)
  let ?s = "subscribe_internal x cs receiver" and ?t = "concat (map text_of cs)" and ?c = "text_of c"
  have "fits cs" using snoc.prems by (simp add: fits_snoc)
  with snoc.IH have s: "?s\<lparr>st_buffer := []\<rparr> = sse_reference x ?t receiver" "st_live ?s \<Longrightarrow> st_buffer ?s = snd (frames ?t)"
    by (simp_all add: Let_def)
  have step: "subscribe_internal x (cs @ [c]) receiver = sse_text x ?c ?s"
    by (simp add: subscribe_internal_def sse_chunk_def)
  have ref: "sse_reference x (?t @ ?c) receiver
      = fold (sse_event x) (fst (frames (snd (frames ?t) @ ?c))) (sse_reference x ?t receiver)"
    by (simp add: sse_reference_def frames_parts(1) [of ?t ?c])
  show ?case
  proof (cases "st_live ?s")
    case False
    have "st_live (?s\<lparr>st_buffer := []\<rparr>) = st_live ?s" by simp
    then have "\<not> st_live (sse_reference x ?t receiver)" using False s(1) by metis
    then show ?thesis using False s(1) by (simp add: step sse_text_def Let_def ref sse_events_dead)
  next
    case True
    let ?b = "snd (frames ?t) @ ?c"
    have buf: "st_buffer ?s = snd (frames ?t)" using s(2) True by blast
    have len: "length (snd (frames (?t @ ?c))) \<le> max_buffer_bytes"
      using snoc.prems by (simp add: fits_snoc)
    have rest: "snd (frames (?t @ ?c)) = snd (frames ?b)"
      by (rule frames_parts(2))
    have "\<not> (max_buffer_bytes < length ?b \<and> \<not> contains ?b event_end)"
    proof (cases "find_str event_end ?b")
      case None
      then show ?thesis using len rest frames_none [OF None] by simp
    qed (simp add: contains_find)
    then have "sse_text x ?c ?s = fold (sse_event x) (fst (frames ?b)) (?s\<lparr>st_buffer := snd (frames ?b)\<rparr>)"
      using True unfolding sse_text_def buf by (simp only: if_not_P Let_def case_prod_beta not_True_eq_False if_False)
    also have "\<dots> = (fold (sse_event x) (fst (frames ?b)) (?s\<lparr>st_buffer := []\<rparr>))\<lparr>st_buffer := snd (frames ?b)\<rparr>"
      by (simp add: sse_events_buffer)
    also have "\<dots> = (sse_reference x (?t @ ?c) receiver)\<lparr>st_buffer := snd (frames ?b)\<rparr>"
      by (simp only: s(1) ref)
    finally have "sse_text x ?c ?s = (sse_reference x (?t @ ?c) receiver)\<lparr>st_buffer := snd (frames ?b)\<rparr>" .
    moreover have "(sse_reference x u receiver)\<lparr>st_buffer := []\<rparr> = sse_reference x u receiver" for u
      using sse_events_keep [of x "fst (frames u)" "sse_new receiver"] by (simp add: sse_reference_def sse_new_def)
    ultimately show ?thesis by (simp add: step rest)
  qed
qed

definition ascii :: "bytes \<Rightarrow> bool" where "ascii b \<longleftrightarrow> list_all (\<lambda>w. w < 128) b"

definition plain :: "bytes \<Rightarrow> string" where "plain b = map (\<lambda>w. char_of (unat w)) b"

lemma lossy_ascii: "list_all (\<lambda>n. n < 128) bs \<Longrightarrow> utf8_lossy (bs @ rest) = bs @ utf8_lossy rest"
  by (induction bs) (simp_all add: utf8_lossy.simps [of "_ # _"] utf8_seq_def)

lemma lossy_Nil [simp]: "utf8_lossy [] = []"
  by (simp add: utf8_lossy.simps)

lemma unat_ascii: "ascii b \<Longrightarrow> list_all (\<lambda>n. n < 128) (map unat b)"
  by (simp add: ascii_def list_all_iff word_less_nat_alt)

lemma text_of_ascii: "ascii b \<Longrightarrow> text_of b = plain b"
  using lossy_ascii [OF unat_ascii, of b "[]"] by (simp add: text_of_def plain_def)

lemma plain_concat: "plain (concat bs) = concat (map plain bs)"
  by (induction bs) (simp_all add: plain_def)

text \<open>C24. However an ASCII stream is cut into chunks, the intents are those of the events of its whole text, in
  order, as long as no part of an event longer than the cap is waiting after a chunk.\<close>

theorem sse_chunks_irrelevant:
  assumes "list_all ascii cs" "fits cs"
  shows "st_out (subscribe_internal x cs receiver) = st_out (sse_reference x (plain (concat cs)) receiver)
     \<and> st_live (subscribe_internal x cs receiver) = st_live (sse_reference x (plain (concat cs)) receiver)"
proof -
  have t: "concat (map text_of cs) = plain (concat cs)"
    unfolding plain_concat using assms(1) text_of_ascii by (intro arg_cong [of _ _ concat] map_cong) (auto simp: list_all_iff)
  have "(subscribe_internal x cs receiver)\<lparr>st_buffer := []\<rparr> = sse_reference x (plain (concat cs)) receiver"
    using sse_run [OF assms(2), of x receiver] unfolding t Let_def by (rule conjunct1)
  then show ?thesis by (metis sse.select_convs(2,4) sse.surjective sse.update_convs(1))
qed

text \<open>A character of two bytes cut between two chunks is lost: each half becomes a replacement character.\<close>

theorem sse_split_character:
  assumes "ascii a" "ascii b"
  shows "text_of (a @ [195, 169] @ b) = plain (a @ [195, 169] @ b)
     \<and> text_of (a @ [195]) @ text_of ([169] @ b) = plain (a @ [239, 191, 189] @ [239, 191, 189] @ b)"
proof -
  have "utf8_lossy (195 # 169 # bs) = 195 # 169 # utf8_lossy bs" "utf8_lossy [195] = replacement"
    "utf8_lossy (169 # bs) = replacement @ utf8_lossy bs" for bs
    by (simp_all add: utf8_lossy.simps [of "_ # _"] utf8_seq_def cont_def)
  moreover have "utf8_lossy (map unat b) = map unat b" using lossy_ascii [OF unat_ascii [OF assms(2)], of "[]"] by simp
  ultimately show ?thesis
    by (simp add: text_of_def plain_def lossy_ascii [OF unat_ascii [OF assms(1)]] replacement_def)
qed

theorem sse_split_character_witness:
  "text_of ([99, 97, 102] @ [195]) @ text_of ([169] @ [33]) = plain ([99, 97, 102] @ [239, 191, 189] @ [239, 191, 189] @ [33])"
  using sse_split_character [of "[99, 97, 102]" "[33]"] by (simp add: ascii_def)

section \<open>What comes out of the stream\<close>

lemma opt_res_simps [simp]: "opt_res z \<noteq> Panic" "opt_res z = Ok v \<longleftrightarrow> z = Some v"
  by (simp_all add: opt_res_def split: option.split)

lemma res_bind_is_Panic: "res_bind r f = Panic \<longleftrightarrow> r = Panic \<or> (\<exists>a. r = Ok a \<and> f a = Panic)"
  by (cases r) auto

lemma from_genome_event_cases:
  assumes "from_genome_event x ev = Ok it"
  shows "parse_u128 (i_amount it) \<noteq> None"
    and "i_id it = i_protocol it @ '':'' @ i_tx_hash it"
    and "first_of (ge_protocol ev) (ge_id ev) = Some (i_protocol it)"
    and "ge_src_chain ev = Some (i_src_chain it)" and "ge_dst_chain ev = Some (i_dst_chain it)"
    and "i_src_token it = or_str (ge_src_token ev) zero_address_text"
proof -
  have a: "event_amount ev = Ok v \<Longrightarrow> parse_u128 v \<noteq> None" for v
    by (simp add: event_amount_def split: option.splits if_splits)
  show "parse_u128 (i_amount it) \<noteq> None"
    and "i_id it = i_protocol it @ '':'' @ i_tx_hash it"
    and "first_of (ge_protocol ev) (ge_id ev) = Some (i_protocol it)"
    and "ge_src_chain ev = Some (i_src_chain it)" and "ge_dst_chain ev = Some (i_dst_chain it)"
    and "i_src_token it = or_str (ge_src_token ev) zero_address_text"
    using assms by (auto simp: from_genome_event_def Let_def dest: a)
qed

lemma or_str_Some [simp]: "or_str (Some s) d = s"
  by (simp add: or_str_def)

text \<open>What an intent of the stream satisfies.\<close>

definition stream_intent :: "feed_intent \<Rightarrow> bool" where
  "stream_intent it \<longleftrightarrow> parse_u128 (i_amount it) \<noteq> None \<and> i_id it = i_protocol it @ '':'' @ i_tx_hash it
     \<and> \<not> contains (i_protocol it) ''mayan'' \<and> \<not> contains (i_protocol it) ''swift''"

lemma parse_sse_event_intent: "parse_sse_event x text = Ok (Some it) \<Longrightarrow> stream_intent it"
  using from_genome_event_cases [of x _ it]
  by (fastforce simp: parse_sse_event_def Let_def stream_intent_def polled_elsewhere_def
      split: if_splits option.splits res.splits)

lemma sse_event_intents: "list_all stream_intent (st_out s) \<Longrightarrow> list_all stream_intent (st_out (sse_event x e s))"
  using parse_sse_event_intent by (auto simp: sse_event_def split: res.split option.split)

lemma sse_text_intents:
  assumes "list_all stream_intent (st_out s)"
  shows "list_all stream_intent (st_out (sse_text x t s))"
proof -
  have "list_all stream_intent (st_out s) \<Longrightarrow> list_all stream_intent (st_out (fold (sse_event x) es s))" for es s
    by (induction es arbitrary: s) (simp_all add: sse_event_intents)
  then show ?thesis using assms by (simp add: sse_text_def Let_def case_prod_beta)
qed

text \<open>C25. Whatever bytes arrive, an intent of the stream has an amount that is a 128-bit number, is named by its
  protocol and transaction, and belongs to no protocol that the Mayan poller covers.\<close>

theorem stream_intents_sound:
  "list_all stream_intent (st_out (subscribe_internal x cs receiver))"
proof -
  have "list_all stream_intent (st_out s) \<Longrightarrow> list_all stream_intent (st_out (fold (sse_chunk x) cs s))" for s
    by (induction cs arbitrary: s) (simp_all add: sse_chunk_def sse_text_intents)
  then show ?thesis by (simp add: subscribe_internal_def sse_new_def)
qed

text \<open>Converting an event panics exactly when its amount is no 128-bit number and its fortieth byte is inside a
  multi-byte character.\<close>

theorem event_amount_panics:
  "from_genome_event x ev = Panic \<longleftrightarrow>
     ge_src_chain ev \<noteq> None \<and> ge_dst_chain ev \<noteq> None \<and>
     (\<exists>a. ge_input_amount ev = Some a \<and> parse_u128 a = None \<and> 40 < length a \<and> \<not> char_boundary 40 a)"
proof -
  have "str_slice 0 (min (length a) 40) a = None \<longleftrightarrow> 40 < length a \<and> \<not> char_boundary 40 a" for a
    by (cases "40 < length a") (simp_all add: str_slice_def char_boundary_def)
  then have "event_amount ev = Panic \<longleftrightarrow>
      (\<exists>a. ge_input_amount ev = Some a \<and> parse_u128 a = None \<and> 40 < length a \<and> \<not> char_boundary 40 a)"
    by (simp add: event_amount_def split: option.split)
  then show ?thesis by (auto simp: from_genome_event_def Let_def res_bind_is_Panic)
qed

section \<open>Older names of fields\<close>

lemma map_of_without: "map_of (filter (\<lambda>kv. P (fst kv)) kvs) k = (if P k then map_of kvs k else None)"
  by (induction kvs) auto

text \<open>What is dropped, in one step.\<close>

definition shadowed :: "(string \<times> json) list \<Rightarrow> string \<Rightarrow> bool" where
  "shadowed kvs k \<longleftrightarrow> (\<exists>p \<in> set alias_pairs. snd p = k \<and> map_of kvs (fst p) \<noteq> None)"

lemma strip_pair_filter:
  "strip_pair p kvs = filter (\<lambda>kv. \<not> (snd p = fst kv \<and> map_of kvs (fst p) \<noteq> None)) kvs"
proof (cases "map_of kvs (fst p) \<noteq> None \<and> map_of kvs (snd p) = None")
  case True
  then have "\<forall>kv \<in> set kvs. snd p \<noteq> fst kv" by (auto simp: map_of_eq_None_iff)
  then show ?thesis using True by (simp add: strip_pair_def filter_id_conv)
next
  case False
  then show ?thesis by (auto simp: strip_pair_def intro!: filter_cong)
qed

lemma strip_fold:
  assumes "\<forall>p \<in> set ps. fst p \<notin> snd ` set ps"
  shows "fold strip_pair ps kvs = filter (\<lambda>kv. \<not> (\<exists>p \<in> set ps. snd p = fst kv \<and> map_of kvs (fst p) \<noteq> None)) kvs"
  using assms
proof (induction ps arbitrary: kvs)
  case (Cons p ps)
  let ?P = "\<lambda>k. \<not> (snd p = k \<and> map_of kvs (fst p) \<noteq> None)"
  let ?k = "filter (\<lambda>kv. ?P (fst kv)) kvs"
  have "fst q \<noteq> snd p" if "q \<in> set ps" for q using Cons.prems that by (metis image_eqI list.set_intros)
  then have "map_of ?k (fst q) = map_of kvs (fst q)" if "q \<in> set ps" for q
    using that map_of_without [of ?P kvs "fst q"] by metis
  then have "fold strip_pair ps ?k = filter (\<lambda>kv. \<not> (\<exists>q \<in> set ps. snd q = fst kv \<and> map_of kvs (fst q) \<noteq> None)) ?k"
    using Cons by (simp cong: filter_cong)
  moreover have "strip_pair p kvs = ?k" by (rule strip_pair_filter)
  ultimately have "fold strip_pair (p # ps) kvs
      = filter (\<lambda>kv. \<not> (\<exists>q \<in> set ps. snd q = fst kv \<and> map_of kvs (fst q) \<noteq> None)) ?k" by simp
  then show ?case by (simp add: filter_filter)
qed simp

lemma strip_legacy_filter: "strip_legacy kvs = filter (\<lambda>kv. \<not> shadowed kvs (fst kv)) kvs"
  unfolding strip_legacy_def shadowed_def by (rule strip_fold) (auto simp: alias_pairs_def)

lemma legacy_not_canonical: "p \<in> set alias_pairs \<Longrightarrow> q \<in> set alias_pairs \<Longrightarrow> fst p \<noteq> snd q"
  by (auto simp: alias_pairs_def)

text \<open>Where the canonical name of a field is present, an event reads the same whether or not the older name is
  there as well, and whatever its value.\<close>

theorem legacy_name_ignored:
  assumes "(canon, legacy) \<in> set alias_pairs" "map_of kvs canon \<noteq> None"
  shows "from_json_value x (JObj (filter (\<lambda>kv. fst kv \<noteq> legacy) kvs)) = from_json_value x (JObj kvs)"
proof -
  let ?k = "filter (\<lambda>kv. fst kv \<noteq> legacy) kvs"
  have "map_of ?k (fst p) = map_of kvs (fst p)" if "p \<in> set alias_pairs" for p
    using legacy_not_canonical [OF that assms(1)] map_of_without [of "\<lambda>k. k \<noteq> legacy" kvs "fst p"] by simp
  then have "shadowed ?k = shadowed kvs" by (auto simp: shadowed_def fun_eq_iff)
  moreover have "shadowed kvs legacy" using assms by (force simp: shadowed_def)
  ultimately have "strip_legacy ?k = strip_legacy kvs"
    by (auto simp: strip_legacy_filter filter_filter intro!: filter_cong)
  then show ?thesis by (simp add: from_json_value_def)
qed

lemma both_present:
  "(case (a, b) of (Some u, Some v) \<Rightarrow> Some (f u v) | _ \<Rightarrow> None) = Some r \<longleftrightarrow> (\<exists>u v. a = Some u \<and> b = Some v \<and> f u v = r)"
  by (cases a; cases b) auto

lemma read_event_token: "read_event kvs = Some ev \<Longrightarrow>
    opt_field json_str [''src_token'', ''token''] kvs = Some (ge_src_token ev)"
  unfolding read_event_def Let_def bind_eq_Some_conv both_present by auto

text \<open>A canonical token that is \<open>null\<close> hides the older name, and the intent is read as one of native ether
  whatever token the older name states.\<close>

theorem null_token_reads_native:
  assumes "map_of kvs ''src_token'' = Some JNull" "from_json_value x (JObj kvs) = Some ev"
    and "from_genome_event x ev = Ok it"
  shows "i_src_token it = zero_address_text"
proof -
  have "map_of (strip_legacy kvs) k = (if shadowed kvs k then None else map_of kvs k)" for k
    using map_of_without [of "\<lambda>k. \<not> shadowed kvs k" kvs k] by (simp add: strip_legacy_filter)
  moreover have "shadowed kvs ''token''" "\<not> shadowed kvs ''src_token''"
    using assms(1) by (auto simp: shadowed_def alias_pairs_def)
  ultimately have "opt_field json_str [''src_token'', ''token''] (strip_legacy kvs) = Some None"
    using assms(1) by (simp add: opt_field_def present_def List.map_filter_simps)
  then have "ge_src_token ev = None" using assms(2) read_event_token [of "strip_legacy kvs" ev] by (simp add: from_json_value_def)
  then show ?thesis using from_genome_event_cases(6) [OF assms(3)] by (simp add: or_str_def)
qed


section \<open>A sample stream\<close>

definition sample_fields :: "(string \<times> json) list" where
  "sample_fields = [(''entity'', JStr ''proto''), (''action'', JStr ''deposit''), (''src_chain'', JInt 10), (''dst_chain'', JInt 8453),
     (''input_amount'', JStr ''5''), (''depositor'', JStr ''0xd''), (''protocol'', JStr ''across''), (''ref_hash'', JStr ''0xt''),
     (''src_token'', JNull), (''token'', JStr ''0xusdc'')]"

definition sample_sse :: sse_env where
  "sample_sse = \<lparr>sx_parse = (\<lambda>_. Some (JObj sample_fields)), sx_positional = (\<lambda>_. None), sx_synthetic = (\<lambda>_. []), sx_now = 7\<rparr>"

theorem legacy_name_ignored_witness:
  "from_json_value sample_sse (JObj [(''input_amount'', JStr ''5'')])
   = from_json_value sample_sse (JObj [(''amount'', JStr ''7''), (''input_amount'', JStr ''5'')])"
  using legacy_name_ignored [of "''input_amount''" "''amount''" "[(''amount'', JStr ''7''), (''input_amount'', JStr ''5'')]" sample_sse]
  by (simp add: alias_pairs_def)

lemma sample_event:
  "\<exists>ev it. from_json_value sample_sse (JObj sample_fields) = Some ev \<and> from_genome_event sample_sse ev = Ok it
     \<and> i_amount it = ''5'' \<and> wanted_entity ev \<and> wanted_action ev \<and> \<not> polled_elsewhere ev"
  by (simp add: from_json_value_def sample_fields_def strip_legacy_def alias_pairs_def strip_pair_def read_event_def
      plain_field_def opt_field_def present_def List.map_filter_simps from_genome_event_def opt_res_def event_amount_def
      parse_u128_def parse_unsigned_def is_digit_def digits_val_def digit_val_def  first_of_def
      wanted_entity_def wanted_action_def polled_elsewhere_def starts_with_def or_str_def Let_def)

theorem null_token_reads_native_witness:
  "map_of sample_fields ''token'' = Some (JStr ''0xusdc'')
   \<and> (\<exists>ev it. from_json_value sample_sse (JObj sample_fields) = Some ev \<and> from_genome_event sample_sse ev = Ok it
     \<and> i_src_token it = zero_address_text)"
proof -
  obtain ev it where "from_json_value sample_sse (JObj sample_fields) = Some ev" "from_genome_event sample_sse ev = Ok it"
    using sample_event by blast
  moreover have "map_of sample_fields ''src_token'' = Some JNull" by (simp add: sample_fields_def)
  moreover have "map_of sample_fields ''token'' = Some (JStr ''0xusdc'')" by (simp add: sample_fields_def)
  ultimately show ?thesis using null_token_reads_native [of sample_fields sample_sse ev it] by blast
qed


definition bytes_of :: "string \<Rightarrow> bytes" where "bytes_of s = map (\<lambda>c. of_nat (of_char c)) s"

lemma plain_bytes_of [simp]: "plain (bytes_of s) = s"
proof -
  have "unat (of_nat (of_char c) :: u8) = of_char c" for c :: char
    using nat_of_char_less_256 [of c] by (simp add: unat_of_nat)
  then show ?thesis by (simp add: plain_def bytes_of_def comp_def)
qed

lemma ascii_bytes_of: "\<forall>c \<in> set s. (of_char c :: nat) < 128 \<Longrightarrow> ascii (bytes_of s)"
proof -
  have "(of_nat (of_char c) :: u8) < 128" if "(of_char c :: nat) < 128" for c :: char
    using that by (simp add: word_less_nat_alt unat_of_nat)
  then show "\<forall>c \<in> set s. (of_char c :: nat) < 128 \<Longrightarrow> ascii (bytes_of s)"
    by (simp add: ascii_def bytes_of_def list_all_iff)
qed

lemma frames_length: "length (snd (frames a)) \<le> length a"
proof (induction a rule: frames.induct)
  case (1 a)
  show ?case
  proof (cases "find_str event_end a")
    case (Some n)
    then show ?thesis using 1 [OF Some] by (subst frames.simps) (simp add: case_prod_beta)
  qed (simp add: frames.simps [of a])
qed

lemma fits_short:
  assumes "length (concat (map text_of cs)) \<le> max_buffer_bytes"
  shows "fits cs"
  unfolding fits_def
proof (intro allI impI)
  fix n
  have "concat (map text_of cs) = concat (map text_of (take n cs)) @ concat (map text_of (drop n cs))"
    by (metis append_take_drop_id concat_append map_append)
  then show "length (snd (frames (concat (map text_of (take n cs))))) \<le> max_buffer_bytes"
    using assms frames_length [of "concat (map text_of (take n cs))"] by simp
qed

definition sample_chunks :: "bytes list" where
  "sample_chunks = [bytes_of ''event: geno'', bytes_of (''me'' @ [CHR 0x0A] @ ''data: {}'' @ [CHR 0x0A]), bytes_of [CHR 0x0A]]"

lemma sample_parsed:
  "\<exists>it. parse_sse_event sample_sse (''event: genome'' @ [CHR 0x0A] @ ''data: {}'') = Ok (Some it) \<and> i_amount it = ''5''"
proof -
  let ?t = "''event: genome'' @ [CHR 0x0A] @ ''data: {}''"
  obtain ev it where ev: "from_json_value sample_sse (JObj sample_fields) = Some ev" "from_genome_event sample_sse ev = Ok it"
    "i_amount it = ''5''" "wanted_entity ev" "wanted_action ev" "\<not> polled_elsewhere ev" using sample_event by blast
  have "lines ?t = [''event: genome'', ''data: {}'']" by (simp add: lines_def)
  moreover have "event_kind [''event: genome'', ''data: {}''] = Some ''genome''" "data_parts [''event: genome'', ''data: {}''] = [''{}'']"
    by (simp_all add: event_kind_def data_parts_def strip_prefix_def starts_with_def trim_def is_space_def List.map_filter_simps)
  moreover have "from_json_str sample_sse ''{}'' = Some ev" using ev(1) by (simp add: from_json_str_def) (simp add: sample_sse_def)
  ultimately have "parse_sse_event sample_sse ?t = Ok (Some it)"
    unfolding parse_sse_event_def Let_def using ev by simp
  then show ?thesis using ev(3) by blast
qed

theorem sse_chunks_irrelevant_witness:
  "\<exists>it. st_out (subscribe_internal sample_sse sample_chunks True) = [it] \<and> i_amount it = ''5''"
proof -
  have "list_all ascii sample_chunks"
    by (simp add: sample_chunks_def) (intro conjI ascii_bytes_of; simp)
  moreover have "fits sample_chunks"
    using \<open>list_all ascii sample_chunks\<close>
    by (intro fits_short) (simp add: sample_chunks_def text_of_ascii max_buffer_bytes_def)
  moreover have "plain (concat sample_chunks)
      = ''event: genome'' @ [CHR 0x0A] @ ''data: {}'' @ [CHR 0x0A, CHR 0x0A]"
    unfolding plain_concat by (simp add: sample_chunks_def)
  moreover obtain it where it: "parse_sse_event sample_sse (''event: genome'' @ [CHR 0x0A] @ ''data: {}'') = Ok (Some it)"
      "i_amount it = ''5''" using sample_parsed by blast
  moreover have "frames (''event: genome'' @ [CHR 0x0A] @ ''data: {}'' @ [CHR 0x0A, CHR 0x0A])
      = ([''event: genome'' @ [CHR 0x0A] @ ''data: {}''], [])"
    by (simp add: frames.simps event_end_def starts_with_def)
  then have "st_out (sse_reference sample_sse (''event: genome'' @ [CHR 0x0A] @ ''data: {}'' @ [CHR 0x0A, CHR 0x0A]) True) = [it]"
    using it(1) by (simp add: sse_reference_def sse_new_def sse_event_def)
  ultimately show ?thesis using sse_chunks_irrelevant [of sample_chunks sample_sse True] by simp
qed

end
