(* ===== verification/Rebalancer.thy ===== *)
theory Rebalancer
  imports Inventory
begin

text \<open>
  The bridge decision engine of the portfolio side car (\<open>crates/portfolio-sidecar/src/rebalancer.rs\<close>).
  A cycle reads the snapshots, keeps a working copy of the stable balances and goes through its phases in
  order.  What a transfer does on chain (allowances, calldata, broadcast, receipt) is the parameter
  \<open>re_send\<close>; every transfer that is attempted is recorded in \<open>rb_sent\<close>.
\<close>

section \<open>Constants and tables\<close>

definition spoke_pool :: "u64 \<Rightarrow> evm_addr option" where
  "spoke_pool c =
     (if c = 1 then Some 0x5c7bcd6e7de5423a257d81b442095a1a6ced35c5
      else if c = 10 then Some 0x6f26bf09b1c792e3228e5467807a900a503c0281
      else if c = 137 then Some 0x9295ee1d8c5b022be115a2ad3c30c72e34e7f096
      else if c = 8453 then Some 0x09aea4b2242abc8bb4bb78d537a67a245a7bec64
      else if c = 42161 then Some 0xe35e9842fceaca96570b734083f4a58e8f7c5f2a
      else if c = 59144 then Some 0x7e63a5f1a8f0b4d0934b2f2327daed3f6bb2ee75
      else None)"

definition rpc_for :: "u64 \<Rightarrow> string" where
  "rpc_for c =
     (if c = 1 then ''https://eth.llamarpc.com''
      else if c = 10 then ''https://mainnet.optimism.io''
      else if c = 137 then ''https://polygon.drpc.org''
      else if c = 8453 then ''https://mainnet.base.org''
      else if c = 42161 then ''https://arb1.arbitrum.io/rpc''
      else if c = 59144 then ''https://rpc.linea.build''
      else '''')"

definition gas_topup_usd :: f64 where "gas_topup_usd = Fin 4"
definition min_bridge_usd :: f64 where "min_bridge_usd = Fin 1"
definition usdc_base :: string where "usdc_base = ''0x833589fCD6eDb6E08f4c7C32D4f71b54bdA02913''"
definition weth_base :: string where "weth_base = ''0x4200000000000000000000000000000000000006''"
definition weth_arb :: string where "weth_arb = ''0x82aF49447D8a07e3bd95BD0d56f35241523fBab1''"
definition weth_opt :: string where "weth_opt = ''0x4200000000000000000000000000000000000006''"
definition swap_router_base :: string where "swap_router_base = ''0x2626664c2603336E57B271c5C0b26F421741e481''"
definition swap_router_l2 :: string where "swap_router_l2 = ''0x68b3465833fb72A70ecDF485E0e4C7bD8665Fc45''"
definition min_base_eth_for_ops :: f64 where "min_base_eth_for_ops = fround (8 / 10000)"
definition usdt_swap_amount_usd :: f64 where "usdt_swap_amount_usd = Fin 5"
definition solana_bridge_usd :: f64 where "solana_bridge_usd = Fin 5"
definition home_chain :: u64 where "home_chain = 8453"

definition weth_addr_for_chain :: "u64 \<Rightarrow> string option" where
  "weth_addr_for_chain c =
     (if c = 1 then Some ''0xC02aaA39b223FE8D0A0e5C4F27eAD9083C756Cc2''
      else if c = 10 then Some weth_opt
      else if c = 8453 then Some weth_base
      else if c = 42161 then Some weth_arb
      else if c = 59144 then Some ''0xe5D7C2a44FfDDf6b295A15c148167daaAf5Cf34f''
      else None)"

definition eth_price_usd :: "(string \<Rightarrow> string option) \<Rightarrow> f64" where
  "eth_price_usd env = env_f64 env ''ETH_PRICE_USD'' (Fin 3000)"

definition usd_to_raw :: "f64 \<Rightarrow> nat \<Rightarrow> u128" where
  "usd_to_raw usd dec =
     (if f_le usd (Fin 0) then 0
      else let raw = f_mul usd (pow10 dec)
           in if f_gt raw (Fin (2 ^ 128)) then 0 else f_to_u128 raw)"

definition debridge_supports :: "u64 \<Rightarrow> u64 \<Rightarrow> bool" where
  "debridge_supports src dst \<longleftrightarrow>
     (dst = 8453 \<and> (src = 42161 \<or> src = 10 \<or> src = 1 \<or> src = 137))
     \<or> (dst = 42161 \<and> (src = 8453 \<or> src = 10 \<or> src = 1 \<or> src = 137))
     \<or> (dst = 10 \<and> (src = 8453 \<or> src = 42161 \<or> src = 1 \<or> src = 137))"

definition debridge_dst_usdc :: "u64 \<Rightarrow> string option" where
  "debridge_dst_usdc c =
     (if c = 8453 then Some ''0x833589fcd6edb6e08f4c7c32d4f71b54bda02913''
      else if c = 42161 then Some ''0xaf88d065e77c8cc2239327c5edb3a432268e5831''
      else if c = 10 then Some ''0x0b2c639c533813f4aa9d7837caf62653d097ff85''
      else None)"

section \<open>State\<close>

datatype bridge_kind =
  GasTopup | StableFill | ClaimSweep | NativeSweep | MayanSolana | EthBootstrap | SolanaBootstrap

record bridge_action =
  ba_src :: u64
  ba_dst :: u64
  ba_token :: string
  ba_usd :: f64
  ba_kind :: bridge_kind
  ba_tx :: "string option"
  ba_status :: string

datatype transfer =
    Tx_Unwrap u64 string u128
  | Tx_Swap_Usdt u128
  | Tx_Gas_Topup u64 string u64 u128
  | Tx_Across u64 string u64 u128
  | Tx_Debridge u64 string u64 u128
  | Tx_Native_Sweep u64 u128 u64
  | Tx_Mayan_Token u64 u128 string string
  | Tx_Mayan_Eth u64 u128 string string string string

text \<open>The mode, the clock, the environment variables, the Solana balance probe, whether a text is an
  address, the output amount of an Across quote (\<open>None\<close>: the request failed, 0: not a number), and what
  a transfer results in (an error text or a transaction hash).\<close>

record rb_env =
  re_dry :: bool
  re_now :: u64
  re_env :: "string \<Rightarrow> string option"
  re_lamports :: "string \<Rightarrow> u64 option"
  re_addr_ok :: "string \<Rightarrow> bool"
  re_quote :: "u64 \<Rightarrow> string \<Rightarrow> u64 \<Rightarrow> u128 \<Rightarrow> nat option"
  re_send :: "transfer \<Rightarrow> string + string"

record rb =
  rb_working :: "u64 \<Rightarrow> f64 option"
  rb_actions :: "bridge_action list"
  rb_sent :: "transfer list"
  rb_last_mayan :: u64

definition working :: "u64 \<Rightarrow> rb \<Rightarrow> f64" where
  "working c r = (case rb_working r c of None \<Rightarrow> Fin 0 | Some f \<Rightarrow> f)"

definition spend :: "u64 \<Rightarrow> f64 \<Rightarrow> rb \<Rightarrow> rb" where
  "spend c x r = r\<lparr>rb_working := (rb_working r)(c \<mapsto> f_sub (working c r) x)\<rparr>"

definition credit :: "u64 \<Rightarrow> f64 \<Rightarrow> rb \<Rightarrow> rb" where
  "credit c x r = r\<lparr>rb_working := (rb_working r)(c \<mapsto> f_add (working c r) x)\<rparr>"

definition push :: "bridge_action \<Rightarrow> rb \<Rightarrow> rb" where
  "push a r = r\<lparr>rb_actions := rb_actions r @ [a]\<rparr>"

text \<open>\<open>max_by\<close> keeps the later of two elements unless the earlier is strictly greater.\<close>

definition max_by :: "('a \<Rightarrow> 'a \<Rightarrow> bool) \<Rightarrow> 'a list \<Rightarrow> 'a option" where
  "max_by gt xs = fold (\<lambda>y best. case best of None \<Rightarrow> Some y | Some x \<Rightarrow> if gt x y then Some x else Some y) xs None"

definition best_surplus_source :: "(u64 \<Rightarrow> f64) \<Rightarrow> inventory_target list \<Rightarrow> u64 \<Rightarrow> f64 \<Rightarrow> u64 option" where
  "best_surplus_source bal targets exclude needed =
     map_option fst (max_by (\<lambda>a b. f_gt (snd a) (snd b))
       (List.map_filter (\<lambda>t.
          if it_chain t = exclude then None
          else let reserve = (if it_fill t then it_min t else Fin 0);
                   spare = f_sub (f_sub (bal (it_chain t)) reserve) needed
               in if f_ge spare (Fin 0) then Some (it_chain t, spare) else None) targets))"

section \<open>Single actions\<close>

definition send :: "rb_env \<Rightarrow> transfer \<Rightarrow> rb \<Rightarrow> (string + string) \<times> rb" where
  "send E t r = (re_send E t, r\<lparr>rb_sent := rb_sent r @ [t]\<rparr>)"

definition attempt :: "rb_env \<Rightarrow> (rb \<Rightarrow> (string + string) \<times> rb) \<Rightarrow> bridge_action \<Rightarrow> rb \<Rightarrow> bridge_action \<times> rb" where
  "attempt E run a r =
     (if re_dry E then (a\<lparr>ba_status := ''dry_run''\<rparr>, r)
      else (case run r of
              (Inr h, r1) \<Rightarrow> (a\<lparr>ba_tx := Some h, ba_status := ''sent''\<rparr>, r1)
            | (Inl e, r1) \<Rightarrow> (a\<lparr>ba_status := ''error: '' @ e\<rparr>, r1)))"

definition planned :: "u64 \<Rightarrow> u64 \<Rightarrow> string \<Rightarrow> f64 \<Rightarrow> bridge_kind \<Rightarrow> bridge_action" where
  "planned src dst token usd kind =
     \<lparr>ba_src = src, ba_dst = dst, ba_token = token, ba_usd = usd, ba_kind = kind, ba_tx = None, ba_status = ''pending''\<rparr>"

definition fetch_across_quote :: "rb_env \<Rightarrow> chain_snapshot \<Rightarrow> u64 \<Rightarrow> u128 \<Rightarrow> bool" where
  "fetch_across_quote E src dst raw =
     (case re_quote E (sn_chain src) (sn_bridge_addr src) dst raw of
        None \<Rightarrow> False
      | Some out \<Rightarrow> if out = 0 then False else if spoke_pool (sn_chain src) = None then False else True)"

definition execute_debridge_stable_bridge ::
    "rb_env \<Rightarrow> chain_snapshot \<Rightarrow> u64 \<Rightarrow> u128 \<Rightarrow> rb \<Rightarrow> (string + string) \<times> rb" where
  "execute_debridge_stable_bridge E src dst raw r =
     (if \<not> re_addr_ok E (sn_bridge_addr src) then (Inl ''parse src token addr'', r)
      else if debridge_dst_usdc dst = None then (Inl ''deBridge: no destination USDC mapping'', r)
      else send E (Tx_Debridge (sn_chain src) (sn_bridge_addr src) dst raw) r)"

text \<open>The context of a failed fallback, with the arrow of its text in UTF-8.\<close>

definition debridge_fallback :: "u64 \<Rightarrow> u64 \<Rightarrow> string" where
  "debridge_fallback src dst =
     ''debridge fallback '' @ show_nat (unat src) @ [CHR 0x20, CHR 0xE2, CHR 0x86, CHR 0x92, CHR 0x20] @ show_nat (unat dst)"

definition execute_stable_bridge ::
    "rb_env \<Rightarrow> chain_snapshot \<Rightarrow> u64 \<Rightarrow> u128 \<Rightarrow> rb \<Rightarrow> (string + string) \<times> rb" where
  "execute_stable_bridge E src dst raw r =
     (if \<not> re_addr_ok E (sn_bridge_addr src) then (Inl ''parse src token addr'', r)
      else if fetch_across_quote E src dst raw
      then send E (Tx_Across (sn_chain src) (sn_bridge_addr src) dst raw) r
      else if debridge_supports (sn_chain src) dst
      then (case execute_debridge_stable_bridge E src dst raw r of
              (Inl _, r1) \<Rightarrow> (Inl (debridge_fallback (sn_chain src) dst), r1)
            | (Inr h, r1) \<Rightarrow> (Inr h, r1))
      else (Inl ''Across quote failed and deBridge fallback not supported on this path'', r))"

definition gas_topup :: "rb_env \<Rightarrow> chain_snapshot \<Rightarrow> inventory_target \<Rightarrow> u128 \<Rightarrow> f64 \<Rightarrow> rb \<Rightarrow> bridge_action \<times> rb" where
  "gas_topup E src t raw usd =
     attempt E (send E (Tx_Gas_Topup (sn_chain src) (sn_bridge_addr src) (it_chain t) raw))
       (planned (sn_chain src) (it_chain t) (sn_bridge_addr src) usd GasTopup)"

definition claim_sweep :: "rb_env \<Rightarrow> chain_snapshot \<Rightarrow> u64 \<Rightarrow> u128 \<Rightarrow> f64 \<Rightarrow> rb \<Rightarrow> bridge_action \<times> rb" where
  "claim_sweep E src dst raw usd =
     attempt E (execute_stable_bridge E src dst raw) (planned (sn_chain src) dst (sn_bridge_addr src) usd ClaimSweep)"

definition stable_fill :: "rb_env \<Rightarrow> chain_snapshot \<Rightarrow> inventory_target \<Rightarrow> u128 \<Rightarrow> f64 \<Rightarrow> rb \<Rightarrow> bridge_action \<times> rb" where
  "stable_fill E src t raw usd =
     attempt E (execute_stable_bridge E src (it_chain t) raw) (planned (sn_chain src) (it_chain t) ''USDC'' usd StableFill)"

definition eth_usd :: "rb_env \<Rightarrow> u128 \<Rightarrow> f64" where
  "eth_usd E wei = f_mul (f_div (f_of_u128 wei) (pow10 18)) (eth_price_usd (re_env E))"

definition unwrap_weth_on_chain :: "rb_env \<Rightarrow> u64 \<Rightarrow> string \<Rightarrow> u128 \<Rightarrow> rb \<Rightarrow> bridge_action \<times> rb" where
  "unwrap_weth_on_chain E c weth raw =
     attempt E (send E (Tx_Unwrap c weth raw)) (planned c c ''WETH'' (eth_usd E raw) EthBootstrap)"

definition usdt_to_eth_swap :: "rb_env \<Rightarrow> u128 \<Rightarrow> rb \<Rightarrow> bridge_action \<times> rb" where
  "usdt_to_eth_swap E raw =
     attempt E (send E (Tx_Swap_Usdt raw)) (planned 8453 8453 ''USDT'' (f_div (f_of_u128 raw) (pow10 6)) EthBootstrap)"

definition execute_mayan_on_chain ::
    "rb_env \<Rightarrow> u64 \<Rightarrow> u128 \<Rightarrow> string \<Rightarrow> string \<Rightarrow> rb \<Rightarrow> (string + string) \<times> rb" where
  "execute_mayan_on_chain E c raw sol token r =
     (if rpc_for c = [] then (Inl ''no RPC configured'', r) else send E (Tx_Mayan_Token c raw sol token) r)"

definition mayan_solana_bridge ::
    "rb_env \<Rightarrow> chain_snapshot \<Rightarrow> string \<Rightarrow> u128 \<Rightarrow> f64 \<Rightarrow> string \<Rightarrow> string \<Rightarrow> rb \<Rightarrow> bridge_action \<times> rb" where
  "mayan_solana_bridge E src sol raw usd token symbol =
     attempt E (execute_mayan_on_chain E home_chain raw sol token) (planned (sn_chain src) 0 symbol usd MayanSolana)"

definition mayan_solana_bridge_eth :: "rb_env \<Rightarrow> chain_snapshot \<Rightarrow> string \<Rightarrow> u128 \<Rightarrow> rb \<Rightarrow> bridge_action \<times> rb" where
  "mayan_solana_bridge_eth E src sol wei =
     attempt E (send E (Tx_Mayan_Eth home_chain wei sol usdc_base weth_base swap_router_base))
       (planned (sn_chain src) 0 ''ETH'' (eth_usd E wei) MayanSolana)"

definition mayan_solana_bridge_eth_from_chain :: "rb_env \<Rightarrow> string \<Rightarrow> u128 \<Rightarrow> u64 \<Rightarrow> rb \<Rightarrow> bridge_action \<times> rb" where
  "mayan_solana_bridge_eth_from_chain E sol wei c =
     attempt E (\<lambda>r.
         if c = 42161
         then send E (Tx_Mayan_Eth c wei sol ''0xaf88d065e77c8cc2239327c5edb3a432268e5831'' weth_arb swap_router_l2) r
         else if c = 10
         then send E (Tx_Mayan_Eth c wei sol ''0x0b2c639c533813f4Aa9D7837CAf62653d097Ff85'' weth_opt swap_router_l2) r
         else (Inl ''unsupported chain for ETH bootstrap'', r))
       (planned c 0 ''ETH'' (eth_usd E wei) MayanSolana)"

definition execute_native_sweep :: "rb_env \<Rightarrow> u64 \<Rightarrow> u128 \<Rightarrow> u64 \<Rightarrow> rb \<Rightarrow> (string + string) \<times> rb" where
  "execute_native_sweep E c wei dst r =
     (if rpc_for c = [] then (Inl ''no RPC for chain'', r) else send E (Tx_Native_Sweep c wei dst) r)"
section \<open>The phases\<close>

definition snap_of :: "chain_snapshot list \<Rightarrow> u64 \<Rightarrow> chain_snapshot option" where
  "snap_of snaps c = List.find (\<lambda>s. sn_chain s = c) snaps"

type_synonym classified = "(inventory_status \<times> inventory_target \<times> chain_snapshot) list"

definition classified :: "chain_snapshot list \<Rightarrow> inventory_target list \<Rightarrow> classified" where
  "classified snaps targets =
     List.map_filter (\<lambda>t. map_option (\<lambda>s. (classify t (sn_stable_usd s) (sn_gas_eth s), t, s))
       (snap_of snaps (it_chain t))) targets"

text \<open>Phase -1: gas for the home chain, from its own wrapped ether or secondary stable.\<close>

definition phase_base_eth :: "rb_env \<Rightarrow> chain_snapshot list \<Rightarrow> rb \<Rightarrow> rb" where
  "phase_base_eth E snaps r =
     (case snap_of snaps home_chain of
        None \<Rightarrow> r
      | Some base \<Rightarrow>
          if f_lt (sn_gas_eth base) min_base_eth_for_ops
          then if 0 < sn_weth_raw base
               then let (a, r1) = unwrap_weth_on_chain E home_chain weth_base (sn_weth_raw base) r in push a r1
               else if 0 < sn_secondary_raw base \<and> f_ge (sn_secondary_usd base) usdt_swap_amount_usd
               then let (a, r1) = usdt_to_eth_swap E (usd_to_raw usdt_swap_amount_usd (sn_secondary_decimals base)) r
                    in push a r1
               else r
          else r)"

text \<open>Phase -2: unwrap the largest wrapped-ether balance of another chain.\<close>

definition phase_weth :: "rb_env \<Rightarrow> chain_snapshot list \<Rightarrow> rb \<Rightarrow> rb" where
  "phase_weth E snaps r =
     (if list_ex (\<lambda>a. ba_kind a = EthBootstrap) (rb_actions r) then r
      else case max_by (\<lambda>a b. sn_weth_raw b < sn_weth_raw a)
                  (filter (\<lambda>s. sn_chain s \<noteq> home_chain \<and> 0 < sn_weth_raw s) snaps) of
             None \<Rightarrow> r
           | Some src \<Rightarrow>
               (case weth_addr_for_chain (sn_chain src) of
                  None \<Rightarrow> r
                | Some weth \<Rightarrow>
                    let (a, r1) = unwrap_weth_on_chain E (sn_chain src) weth (sn_weth_raw src) r in push a r1))"

text \<open>Phase 0: gas for a source-only chain with stranded stables.\<close>

definition src_min_gas_eth :: f64 where "src_min_gas_eth = fround (1 / 1000)"

definition gas_src :: "chain_snapshot list \<Rightarrow> inventory_target \<Rightarrow> rb \<Rightarrow> chain_snapshot option" where
  "gas_src snaps t r =
     max_by (\<lambda>a b. f_gt (sn_gas_eth a) (sn_gas_eth b))
       (filter (\<lambda>s. f_ge (working (sn_chain s) r) (Fin 1))
         (filter (\<lambda>s. sn_chain s \<noteq> it_chain t \<and> f_ge (sn_gas_eth s) (fround (1 / 100000))) snaps))"

definition src_gas_step ::
    "rb_env \<Rightarrow> chain_snapshot list \<Rightarrow> inventory_status \<times> inventory_target \<times> chain_snapshot \<Rightarrow> rb \<Rightarrow> rb" where
  "src_gas_step E snaps c r =
     (let (st, t, sn) = c
      in if st \<noteq> SrcOnly then r
         else if f_lt (sn_bridge_usd sn) min_bridge_usd then r
         else if f_ge (sn_gas_eth sn) src_min_gas_eth then r
         else case gas_src snaps t r of
                None \<Rightarrow> r
              | Some src \<Rightarrow>
                  let available = f_min (working (sn_chain src) r) (Fin 1);
                      raw = usd_to_raw available (sn_bridge_decimals src);
                      (a, r1) = gas_topup E src t raw available r
                  in push a (spend (sn_chain src) available r1))"

text \<open>Phase 1: gas for fill chains.\<close>

definition gas_step ::
    "rb_env \<Rightarrow> chain_snapshot list \<Rightarrow> inventory_target list \<Rightarrow>
     inventory_status \<times> inventory_target \<times> chain_snapshot \<Rightarrow> rb \<Rightarrow> rb" where
  "gas_step E snaps targets c r =
     (let (st, t, _) = c
      in if st \<noteq> LowGas \<and> st \<noteq> Critical then r
         else case best_surplus_source (\<lambda>c. working c r) targets (it_chain t) gas_topup_usd of
                None \<Rightarrow> r
              | Some src_chain \<Rightarrow>
                  (case snap_of snaps src_chain of
                     None \<Rightarrow> r
                   | Some src \<Rightarrow>
                       let raw = usd_to_raw gas_topup_usd (sn_bridge_decimals src);
                           (a, r1) = gas_topup E src t raw gas_topup_usd r
                       in push a (spend src_chain gas_topup_usd r1)))"

text \<open>Phase 2: stables for fill chains.\<close>

definition reserve_of :: "inventory_target list \<Rightarrow> u64 \<Rightarrow> f64" where
  "reserve_of targets c =
     (case List.find (\<lambda>t. it_chain t = c) targets of
        None \<Rightarrow> Fin 0 | Some t \<Rightarrow> if it_fill t then it_min t else Fin 0)"

definition fill_step ::
    "rb_env \<Rightarrow> chain_snapshot list \<Rightarrow> inventory_target list \<Rightarrow>
     inventory_status \<times> inventory_target \<times> chain_snapshot \<Rightarrow> rb \<Rightarrow> rb" where
  "fill_step E snaps targets c r =
     (let (st, t, sn) = c
      in if st \<noteq> LowFunds \<and> st \<noteq> Critical then r
         else let shortfall = stable_shortfall t (sn_stable_usd sn)
              in if f_lt shortfall min_bridge_usd then r
                 else case best_surplus_source (\<lambda>c. working c r) targets (it_chain t) min_bridge_usd of
                        None \<Rightarrow> r
                      | Some src_chain \<Rightarrow>
                          (case snap_of snaps src_chain of
                             None \<Rightarrow> r
                           | Some src \<Rightarrow>
                               let available = f_min (f_sub (working src_chain r) (reserve_of targets src_chain))
                                                     (sn_bridge_usd src);
                                   send_usd = f_max (f_min shortfall available) (Fin 0)
                               in if f_lt send_usd min_bridge_usd then r
                                  else let raw = usd_to_raw send_usd (sn_bridge_decimals src);
                                           (a, r1) = stable_fill E src t raw send_usd r
                                       in push a (spend src_chain send_usd r1)))"

text \<open>Phase 3a: surplus of fill chains to the home chain.\<close>

definition sweep_step ::
    "rb_env \<Rightarrow> inventory_status \<times> inventory_target \<times> chain_snapshot \<Rightarrow> rb \<Rightarrow> rb" where
  "sweep_step E c r =
     (let (st, t, sn) = c; c = it_chain t
      in if c = home_chain \<or> \<not> it_fill t \<or> st \<noteq> Surplus then r
         else if f_lt (working c r) (it_target t) then r
         else let usd = f_max (f_min (f_sub (working c r) (it_target t)) (sn_bridge_usd sn)) (Fin 0)
              in if f_lt usd min_bridge_usd then r
                 else let (a, r1) = claim_sweep E sn home_chain (usd_to_raw usd (sn_bridge_decimals sn)) usd r
                      in push a (credit home_chain usd (spend c usd r1)))"

definition any_critical :: "classified \<Rightarrow> bool" where
  "any_critical cs = list_ex (\<lambda>(st, t, _). it_fill t \<and> st = Critical) cs"

text \<open>Phase 3b: stables and native balance of source-only chains to the home chain.\<close>

definition recover_stable ::
    "rb_env \<Rightarrow> inventory_target \<Rightarrow> chain_snapshot \<Rightarrow> rb \<Rightarrow> rb" where
  "recover_stable E t sn r =
     (let c = it_chain t
      in if f_ge (working c r) (f_add (it_high t) min_bridge_usd) \<and> f_ge (sn_gas_eth sn) (fround (1 / 10000))
         then let usd = f_min (f_sub (working c r) (it_high t)) (sn_bridge_usd sn)
              in if f_ge usd min_bridge_usd
                 then let (a, r1) = claim_sweep E sn home_chain (usd_to_raw usd (sn_bridge_decimals sn)) usd r
                      in push a (credit home_chain usd (spend c usd r1))
                 else r
         else r)"

definition min_native_sweep :: f64 where "min_native_sweep = f_add (Fin (1 / 2)) (fround (3 / 10))"

definition recover_native :: "rb_env \<Rightarrow> inventory_target \<Rightarrow> chain_snapshot \<Rightarrow> rb \<Rightarrow> rb" where
  "recover_native E t sn r =
     (if f_ge (sn_gas_eth sn) min_native_sweep
      then let native = f_sub (sn_gas_eth sn) (fround (3 / 10));
               wei = f_to_u128 (f_mul native (pow10 18));
               price = (if it_chain t = 137 then env_f64 (re_env E) ''POL_PRICE_USD'' (fround (22 / 100))
                        else eth_price_usd (re_env E));
               usd = f_mul native price
           in if f_lt usd (Fin (1 / 2)) then r
              else let (a, r1) = attempt E (execute_native_sweep E (it_chain t) wei home_chain)
                         (planned (it_chain t) home_chain ''native'' usd NativeSweep) r
                   in push a r1
      else r)"

definition recover_step ::
    "rb_env \<Rightarrow> inventory_status \<times> inventory_target \<times> chain_snapshot \<Rightarrow> rb \<Rightarrow> rb" where
  "recover_step E c r =
     (let (_, t, sn) = c in if it_fill t then r else recover_native E t sn (recover_stable E t sn r))"
text \<open>Phase 4: Solana.  \<open>direct_bridge\<close> moves stranded stables of another chain, \<open>eth_bridge\<close> swaps ether.\<close>

definition to_list :: "'a option \<Rightarrow> 'a list" where
  "to_list x = (case x of None \<Rightarrow> [] | Some a \<Rightarrow> [a])"

definition direct_src :: "chain_snapshot list \<Rightarrow> chain_snapshot option" where
  "direct_src snaps =
     max_by (\<lambda>a b. f_gt (sn_bridge_usd a) (sn_bridge_usd b))
       (filter (\<lambda>s. f_ge (sn_bridge_usd s) (Fin 5) \<and> f_ge (sn_gas_eth s) (fround (3 / 100000)))
         (to_list (snap_of snaps 42161) @ to_list (snap_of snaps 10)))"

definition direct_bridge :: "rb_env \<Rightarrow> string \<Rightarrow> chain_snapshot \<Rightarrow> rb \<Rightarrow> rb" where
  "direct_bridge E sol src r =
     (let usdc = (if sn_chain src = 42161 then ''0xaf88d065e77c8cC2239327C5EDb3A432268e5831''
                  else if sn_chain src = 10 then ''0x0b2C639c533813f4Aa9D7837CAf62653d097Ff85'' else usdc_base);
          (res, r1) = execute_mayan_on_chain E (sn_chain src) (sn_bridge_raw src) sol usdc r;
          a = planned (sn_chain src) 0 ''USDC'' (sn_bridge_usd src) SolanaBootstrap;
          a1 = (case res of Inr h \<Rightarrow> a\<lparr>ba_tx := Some h, ba_status := ''sent''\<rparr>
                | Inl e \<Rightarrow> a\<lparr>ba_status := ''error: '' @ e\<rparr>)
      in push a1 (spend (sn_chain src) (sn_bridge_usd src) r1))"

definition eth_bootstrap_wei :: u128 where "eth_bootstrap_wei = 400000000000000"

definition eth_src :: "chain_snapshot list \<Rightarrow> chain_snapshot \<Rightarrow> u64 option" where
  "eth_src snaps base =
     (let threshold = f_add (fround (2 / 10000)) (f_div (f_of_u128 eth_bootstrap_wei) (pow10 18));
          eth_of = (\<lambda>c. case snap_of snaps c of None \<Rightarrow> Fin 0 | Some s \<Rightarrow> sn_gas_eth s)
      in if f_gt (eth_of 42161) threshold then Some 42161
         else if f_gt (eth_of 10) threshold then Some 10
         else if f_gt (sn_gas_eth base) threshold then Some home_chain else None)"

definition eth_bridge :: "rb_env \<Rightarrow> chain_snapshot list \<Rightarrow> chain_snapshot \<Rightarrow> string \<Rightarrow> rb \<Rightarrow> rb" where
  "eth_bridge E snaps base sol r =
     (case eth_src snaps base of
        None \<Rightarrow> r
      | Some c \<Rightarrow>
          let (a, r1) = (if c = home_chain then mayan_solana_bridge_eth E base sol eth_bootstrap_wei r
                         else mayan_solana_bridge_eth_from_chain E sol eth_bootstrap_wei c r)
          in push a r1)"

definition needs_bootstrap :: "rb_env \<Rightarrow> string \<Rightarrow> bool" where
  "needs_bootstrap E sol = (case re_lamports E sol of None \<Rightarrow> False | Some l \<Rightarrow> l < 5000000)"

definition phase_solana :: "rb_env \<Rightarrow> chain_snapshot list \<Rightarrow> inventory_target list \<Rightarrow> rb \<Rightarrow> rb" where
  "phase_solana E snaps targets r =
     (case re_env E ''SOLANA_ADDRESS'' of
        None \<Rightarrow> r
      | Some sol \<Rightarrow>
          if sol = [] then r
          else case snap_of snaps home_chain of
                 None \<Rightarrow> r
               | Some base \<Rightarrow>
                   let boot = needs_bootstrap E sol;
                       base_working = working home_chain r;
                       available = (if boot then base_working else f_sub base_working (reserve_of targets home_chain));
                       bridge_usd = sn_bridge_usd base;
                       symbol = (if to_lowercase (sn_bridge_addr base) = to_lowercase usdc_base then ''USDC'' else ''USDT'');
                       send_usd = f_max (f_min solana_bridge_usd (f_sub bridge_usd (fround (5 / 100)))) (Fin 0);
                       raw = usd_to_raw send_usd (sn_bridge_decimals base);
                       cooldown_ok = 600 \<le> (if rb_last_mayan r \<le> re_now E then re_now E - rb_last_mayan r else 0);
                       wallet_safe = f_gt bridge_usd (Fin 15);
                       can_bridge = wallet_safe \<and> cooldown_ok
                         \<and> (if boot then f_ge send_usd (Fin 5)
                            else f_ge available (f_add solana_bridge_usd min_bridge_usd) \<and> f_ge send_usd (Fin (1 / 2)))
                   in if can_bridge
                      then let (a, r1) = mayan_solana_bridge E base sol raw send_usd (sn_bridge_addr base) symbol
                                 (r\<lparr>rb_last_mayan := re_now E\<rparr>)
                           in push a (spend home_chain send_usd r1)
                      else if boot \<and> wallet_safe
                      then (case direct_src snaps of
                              Some src \<Rightarrow> direct_bridge E sol src r
                            | None \<Rightarrow> eth_bridge E snaps base sol r)
                      else r)"

section \<open>The cycle\<close>

definition rb_start :: "u64 \<Rightarrow> chain_snapshot list \<Rightarrow> rb" where
  "rb_start since snaps =
     \<lparr>rb_working = fold (\<lambda>s m. m(sn_chain s \<mapsto> sn_stable_usd s)) snaps (\<lambda>_. None), rb_actions = [], rb_sent = [],
      rb_last_mayan = since\<rparr>"

definition funding_phases :: "rb_env \<Rightarrow> chain_snapshot list \<Rightarrow> inventory_target list \<Rightarrow> rb \<Rightarrow> rb" where
  "funding_phases E snaps targets r =
     (let cs = classified snaps targets;
          r0 = fold (src_gas_step E snaps) cs r;
          r1 = fold (gas_step E snaps targets) cs r0;
          r2 = fold (fill_step E snaps targets) cs r1;
          r3 = (if \<not> any_critical cs then fold (sweep_step E) cs r2 else r2)
      in fold (recover_step E) cs r3)"

definition rebalance :: "rb_env \<Rightarrow> u64 \<Rightarrow> chain_snapshot list \<Rightarrow> inventory_target list \<Rightarrow> rb" where
  "rebalance E since snaps targets =
     phase_solana E snaps targets
       (funding_phases E snaps targets
         (phase_weth E snaps (phase_base_eth E snaps (rb_start since snaps))))"

section \<open>Steps\<close>

lemma max_by_in: "max_by gt xs = Some x \<Longrightarrow> x \<in> set xs"
proof -
  have "fold (\<lambda>y best. case best of None \<Rightarrow> Some y | Some x \<Rightarrow> if gt x y then Some x else Some y) xs b = Some x
      \<Longrightarrow> x \<in> set xs \<or> b = Some x" for b
  proof (induction xs arbitrary: b)
    case (Cons y ys)
    from Cons.IH [OF Cons.prems [unfolded fold_Cons o_apply]] show ?case by (cases b) (auto split: if_splits)
  qed simp
  then show "max_by gt xs = Some x \<Longrightarrow> x \<in> set xs" by (auto simp: max_by_def)
qed

lemma snap_of_in: "snap_of snaps c = Some s \<Longrightarrow> s \<in> set snaps \<and> sn_chain s = c"
  by (auto simp: snap_of_def find_Some_iff)

text \<open>How a step adds to a run: actions that satisfy a predicate, and transfers that satisfy another.\<close>

definition grows :: "(bridge_action \<Rightarrow> bool) \<Rightarrow> (transfer \<Rightarrow> bool) \<Rightarrow> rb \<Rightarrow> rb \<Rightarrow> bool" where
  "grows P Q r r' \<longleftrightarrow> (\<exists>as. rb_actions r' = rb_actions r @ as \<and> list_all P as)
     \<and> (\<exists>ts. rb_sent r' = rb_sent r @ ts \<and> list_all Q ts)"

definition adds :: "(bridge_action \<Rightarrow> bool) \<Rightarrow> (transfer \<Rightarrow> bool) \<Rightarrow> rb \<Rightarrow> rb \<Rightarrow> bool" where
  "adds P Q r r' \<longleftrightarrow> grows P Q r r' \<and> rb_last_mayan r' = rb_last_mayan r"

lemma grows_trans: "grows P Q r r1 \<Longrightarrow> grows P Q r1 r2 \<Longrightarrow> grows P Q r r2"
  unfolding grows_def by (metis append.assoc list_all_append)

lemma grows_refl [simp]: "grows P Q r r"
  by (simp add: grows_def)

lemma adds_refl [simp]: "adds P Q r r"
  by (simp add: adds_def grows_def)

lemma adds_trans: "adds P Q r r1 \<Longrightarrow> adds P Q r1 r2 \<Longrightarrow> adds P Q r r2"
  using grows_trans by (auto simp: adds_def)

lemma adds_fold: "(\<And>c r. c \<in> set cs \<Longrightarrow> adds P Q r (f c r)) \<Longrightarrow> adds P Q r (fold f cs r)"
proof (induction cs arbitrary: r)
  case (Cons c cs)
  have "adds P Q r (f c r)" "adds P Q (f c r) (fold f cs (f c r))" using Cons by simp_all
  then show ?case unfolding fold_Cons o_apply by (rule adds_trans)
qed simp

section \<open>What a cycle may plan\<close>

text \<open>The bounds of an action by kind: from where to where, and how much at most of what the snapshots hold.\<close>

definition holds_bridge :: "chain_snapshot list \<Rightarrow> u64 \<Rightarrow> f64 \<Rightarrow> bool" where
  "holds_bridge snaps c usd \<longleftrightarrow> list_ex (\<lambda>s. sn_chain s = c \<and> f_le usd (sn_bridge_usd s)) snaps"

definition home_safe :: "chain_snapshot list \<Rightarrow> bool" where
  "home_safe snaps \<longleftrightarrow> (case snap_of snaps home_chain of None \<Rightarrow> False | Some b \<Rightarrow> f_gt (sn_bridge_usd b) (Fin 15))"

definition plan_ok :: "chain_snapshot list \<Rightarrow> inventory_target list \<Rightarrow> u64 \<Rightarrow> u64 \<Rightarrow> f64 \<Rightarrow> bridge_kind \<Rightarrow> bool" where
  "plan_ok snaps targets src dst usd kind =
     (case kind of
        GasTopup \<Rightarrow> src \<noteq> dst \<and> f_le usd (Fin 4)
      | StableFill \<Rightarrow> src \<noteq> dst \<and> f_ge usd (Fin 1) \<and> holds_bridge snaps src usd
          \<and> list_ex (\<lambda>t. it_chain t = dst \<and> it_fill t
              \<and> list_ex (\<lambda>s. sn_chain s = dst \<and> f_le usd (stable_shortfall t (sn_stable_usd s))) snaps) targets
      | ClaimSweep \<Rightarrow> dst = home_chain \<and> f_ge usd (Fin 1) \<and> holds_bridge snaps src usd
      | NativeSweep \<Rightarrow> dst = home_chain \<and> \<not> f_lt usd (Fin (1 / 2))
      | MayanSolana \<Rightarrow> dst = 0 \<and> home_safe snaps
      | EthBootstrap \<Rightarrow> src = dst
      | SolanaBootstrap \<Rightarrow> dst = 0 \<and> (src = 42161 \<or> src = 10) \<and> f_ge usd (Fin 5) \<and> home_safe snaps)"

definition action_ok :: "chain_snapshot list \<Rightarrow> inventory_target list \<Rightarrow> bridge_action \<Rightarrow> bool" where
  "action_ok snaps targets a = plan_ok snaps targets (ba_src a) (ba_dst a) (ba_usd a) (ba_kind a)"

text \<open>In dry-run mode the only transfer the code still makes is the direct bridge of phase 4.\<close>

definition sent_ok :: "rb_env \<Rightarrow> transfer \<Rightarrow> bool" where
  "sent_ok E t \<longleftrightarrow> \<not> re_dry E \<or> (case t of Tx_Mayan_Token c _ _ _ \<Rightarrow> c = 42161 \<or> c = 10 | _ \<Rightarrow> False)"

definition plain_run :: "(rb \<Rightarrow> (string + string) \<times> rb) \<Rightarrow> bool" where
  "plain_run run \<longleftrightarrow> (\<forall>r. rb_actions (snd (run r)) = rb_actions r \<and> (\<exists>ts. rb_sent (snd (run r)) = rb_sent r @ ts)
     \<and> rb_last_mayan (snd (run r)) = rb_last_mayan r)"

lemma plain_send [simp]: "plain_run (send E t)"
  by (simp add: plain_run_def send_def)

lemma plain_stable_bridge [simp]: "plain_run (execute_stable_bridge E s d raw)"
  by (auto simp: plain_run_def execute_stable_bridge_def execute_debridge_stable_bridge_def send_def split: sum.splits prod.splits)

lemma plain_mayan [simp]: "plain_run (execute_mayan_on_chain E c raw sol tok)"
  by (simp add: plain_run_def execute_mayan_on_chain_def send_def)

lemma plain_native [simp]: "plain_run (execute_native_sweep E c wei d)"
  by (simp add: plain_run_def execute_native_sweep_def send_def)

lemma frame [simp]:
  "rb_actions (spend c x r) = rb_actions r" "rb_sent (spend c x r) = rb_sent r"
  "rb_actions (credit c x r) = rb_actions r" "rb_sent (credit c x r) = rb_sent r"
  "rb_actions (push a r) = rb_actions r @ [a]" "rb_sent (push a r) = rb_sent r"
  "rb_last_mayan (spend c x r) = rb_last_mayan r" "rb_last_mayan (credit c x r) = rb_last_mayan r"
  "rb_last_mayan (push a r) = rb_last_mayan r"
  by (simp_all add: spend_def credit_def push_def)

lemma sent_ok_live: "\<not> re_dry E \<Longrightarrow> list_all (sent_ok E) ts"
  by (simp add: list_all_iff sent_ok_def)

lemma attempt_adds:
  assumes "attempt E run (planned s d tok usd k) r = (a, r1)" "plain_run run" "plan_ok snaps targets s d usd k"
    and "rb_actions r2 = rb_actions r1" "rb_sent r2 = rb_sent r1" "rb_last_mayan r2 = rb_last_mayan r1"
  shows "adds (action_ok snaps targets) (sent_ok E) r (push a r2)"
proof -
  have "rb_actions (snd (run r)) = rb_actions r" "\<exists>ts. rb_sent (snd (run r)) = rb_sent r @ ts"
    "rb_last_mayan (snd (run r)) = rb_last_mayan r"
    using assms(2) by (auto simp: plain_run_def)
  with assms(1,3-6) show ?thesis
    by (auto simp: attempt_def adds_def grows_def action_ok_def planned_def sent_ok_live
        split: if_splits prod.splits sum.splits)
qed

section \<open>Every step stays within the bounds\<close>

lemma phase_base_eth_ok: "adds (action_ok snaps targets) (sent_ok E) r (phase_base_eth E snaps r)"
  by (auto simp: phase_base_eth_def Let_def unwrap_weth_on_chain_def usdt_to_eth_swap_def plan_ok_def
      split: option.split prod.split intro: attempt_adds)

lemma phase_weth_ok: "adds (action_ok snaps targets) (sent_ok E) r (phase_weth E snaps r)"
  by (auto simp: phase_weth_def Let_def unwrap_weth_on_chain_def plan_ok_def
      split: option.split prod.split intro: attempt_adds)

lemma f_min_le2: "b \<noteq> NaN \<Longrightarrow> f_le (f_min a b) b"
  by (cases a; cases b) (auto simp: f_min_def)

lemma f_min_le1: "a \<noteq> NaN \<Longrightarrow> f_le (f_min a b) a"
  by (cases a; cases b) (auto simp: f_min_def)

lemma f_max_0: "f_max x (Fin 0) \<noteq> NaN" "\<not> f_lt (f_max x (Fin 0)) (Fin 1) \<Longrightarrow> f_max x (Fin 0) = x \<and> f_ge x (Fin 1)"
  by (cases x; auto simp: f_max_def)+

lemma gas_src_in: "gas_src snaps t r = Some src \<Longrightarrow> src \<in> set snaps \<and> sn_chain src \<noteq> it_chain t"
  by (auto simp: gas_src_def dest!: max_by_in)

lemma src_gas_step_ok: "adds (action_ok snaps targets) (sent_ok E) r (src_gas_step E snaps (st, t, sn) r)"
proof (cases "gas_src snaps t r")
  case (Some src)
  then have "sn_chain src \<noteq> it_chain t" using gas_src_in by blast
  moreover have "f_le (f_min (working (sn_chain src) r) (Fin 1)) (Fin 4)"
    using f_min_le2 [of "Fin 1" "working (sn_chain src) r"] by (rule f_le_trans) simp_all
  ultimately have "plan_ok snaps targets (sn_chain src) (it_chain t) (f_min (working (sn_chain src) r) (Fin 1)) GasTopup"
    by (simp add: plan_ok_def)
  then show ?thesis
    by (auto simp: src_gas_step_def Some Let_def gas_topup_def split: prod.split intro: attempt_adds)
qed (simp add: src_gas_step_def)

lemma best_surplus_not_excluded: "best_surplus_source bal targets ex needed = Some c \<Longrightarrow> c \<noteq> ex"
  by (auto simp: best_surplus_source_def List.map_filter_def Let_def dest!: max_by_in split: if_splits)

lemma gas_step_ok: "adds (action_ok snaps targets) (sent_ok E) r (gas_step E snaps targets (st, t, sn) r)"
proof (cases "best_surplus_source (\<lambda>c. working c r) targets (it_chain t) gas_topup_usd")
  case src: (Some c)
  show ?thesis
  proof (cases "snap_of snaps c")
    case (Some s)
    then have "plan_ok snaps targets (sn_chain s) (it_chain t) gas_topup_usd GasTopup"
      using snap_of_in [OF Some] best_surplus_not_excluded [OF src] by (simp add: plan_ok_def gas_topup_usd_def)
    then show ?thesis
      by (auto simp: gas_step_def src Some Let_def gas_topup_def split: prod.split intro: attempt_adds)
  qed (simp add: gas_step_def src)
qed (simp add: gas_step_def)
text \<open>Snapshots whose bridge balance is a number.\<close>

definition readable :: "chain_snapshot list \<Rightarrow> bool" where
  "readable snaps \<longleftrightarrow> list_all (\<lambda>s. sn_bridge_usd s \<noteq> NaN) snaps"

lemma readable_in: "readable snaps \<Longrightarrow> s \<in> set snaps \<Longrightarrow> sn_bridge_usd s \<noteq> NaN"
  by (simp add: readable_def list_all_iff)

lemma holds_bridgeI: "s \<in> set snaps \<Longrightarrow> f_le usd (sn_bridge_usd s) \<Longrightarrow> holds_bridge snaps (sn_chain s) usd"
  by (auto simp: holds_bridge_def list_ex_iff)

lemma classified_in:
  assumes "(st, t, sn) \<in> set (classified snaps targets)"
  shows "t \<in> set targets" "sn \<in> set snaps" "sn_chain sn = it_chain t" "st = classify t (sn_stable_usd sn) (sn_gas_eth sn)"
  using assms snap_of_in by (force simp: classified_def List.map_filter_def)+

lemma classify_fill: "classify t b g = LowFunds \<or> classify t b g = Critical \<Longrightarrow> it_fill t"
  by (auto simp: classify_def split: if_splits)

lemma fill_step_ok:
  assumes "(st, t, sn) \<in> set (classified snaps targets)" "readable snaps"
  shows "adds (action_ok snaps targets) (sent_ok E) r (fill_step E snaps targets (st, t, sn) r)"
proof (cases "st = LowFunds \<or> st = Critical")
  case status: True
  note c = classified_in [OF assms(1)]
  let ?sf = "stable_shortfall t (sn_stable_usd sn)"
  show ?thesis
  proof (cases "best_surplus_source (\<lambda>c. working c r) targets (it_chain t) min_bridge_usd")
    case src: (Some ch)
    show ?thesis
    proof (cases "snap_of snaps ch")
      case (Some s)
      let ?av = "f_min (f_sub (working ch r) (reserve_of targets ch)) (sn_bridge_usd s)"
      let ?usd = "f_max (f_min ?sf ?av) (Fin 0)"
      have s: "s \<in> set snaps" "sn_chain s = ch" using snap_of_in [OF Some] by auto
      have num: "?sf \<noteq> NaN" "sn_bridge_usd s \<noteq> NaN"
        using f_max_0(1) readable_in [OF assms(2) s(1)] by (auto simp: stable_shortfall_def)
      have "plan_ok snaps targets (sn_chain s) (it_chain t) ?usd StableFill" if "\<not> f_lt ?usd min_bridge_usd"
      proof -
        have usd: "?usd = f_min ?sf ?av" "f_ge ?usd (Fin 1)"
          using that f_max_0(2) [of "f_min ?sf ?av"] by (simp_all add: min_bridge_usd_def)
        have "f_le ?av (sn_bridge_usd s)" using num(2) by (rule f_min_le2)
        moreover from this have "?av \<noteq> NaN" using f_le_not_NaN by blast
        ultimately have "f_le ?usd (sn_bridge_usd s)" "f_le ?usd ?sf"
          using usd(1) f_min_le2 [of ?av ?sf] f_min_le1 [of ?sf ?av] num(1) f_le_trans by metis+
        with s usd(2) c status classify_fill [of t "sn_stable_usd sn" "sn_gas_eth sn"]
          best_surplus_not_excluded [OF src] holds_bridgeI [of s snaps ?usd]
        show ?thesis by (auto simp: plan_ok_def list_ex_iff)
      qed
      then show ?thesis
        by (auto simp: fill_step_def src Some Let_def stable_fill_def split: prod.split intro: attempt_adds)
    qed (simp add: fill_step_def src Let_def)
  qed (simp add: fill_step_def Let_def)
qed (simp add: fill_step_def)

lemma sweep_step_ok:
  assumes "(st, t, sn) \<in> set (classified snaps targets)" "readable snaps"
  shows "adds (action_ok snaps targets) (sent_ok E) r (sweep_step E (st, t, sn) r)"
proof -
  note c = classified_in [OF assms(1)]
  let ?m = "f_min (f_sub (working (it_chain t) r) (it_target t)) (sn_bridge_usd sn)"
  let ?usd = "f_max ?m (Fin 0)"
  have num: "sn_bridge_usd sn \<noteq> NaN" using readable_in [OF assms(2) c(2)] .
  have "plan_ok snaps targets (sn_chain sn) home_chain ?usd ClaimSweep" if "\<not> f_lt ?usd min_bridge_usd"
  proof -
    have "?usd = ?m" "f_ge ?usd (Fin 1)" using that f_max_0(2) [of ?m] by (simp_all add: min_bridge_usd_def)
    moreover have "f_le ?m (sn_bridge_usd sn)" using num by (rule f_min_le2)
    ultimately show ?thesis using holds_bridgeI [OF c(2), of ?usd] by (simp add: plan_ok_def)
  qed
  then show ?thesis
    by (auto simp: sweep_step_def Let_def claim_sweep_def split: prod.split intro: attempt_adds)
qed

lemma recover_step_ok:
  assumes "(st, t, sn) \<in> set (classified snaps targets)" "readable snaps"
  shows "adds (action_ok snaps targets) (sent_ok E) r (recover_step E (st, t, sn) r)"
proof -
  note c = classified_in [OF assms(1)]
  let ?m = "f_min (f_sub (working (it_chain t) r) (it_high t)) (sn_bridge_usd sn)"
  have num: "sn_bridge_usd sn \<noteq> NaN" using readable_in [OF assms(2) c(2)] .
  have "plan_ok snaps targets (sn_chain sn) home_chain ?m ClaimSweep" if "f_ge ?m min_bridge_usd"
    using that holds_bridgeI [OF c(2) f_min_le2 [OF num]] by (simp add: plan_ok_def min_bridge_usd_def)
  then have "adds (action_ok snaps targets) (sent_ok E) r (recover_stable E t sn r)"
    by (auto simp: recover_stable_def Let_def claim_sweep_def split: prod.split intro: attempt_adds)
  moreover have "adds (action_ok snaps targets) (sent_ok E) r' (recover_native E t sn r')" for r'
    by (auto simp: recover_native_def Let_def plan_ok_def split: prod.split intro: attempt_adds)
  ultimately show ?thesis by (auto simp: recover_step_def intro: adds_trans)
qed

lemma funding_ok:
  assumes "readable snaps"
  shows "adds (action_ok snaps targets) (sent_ok E) r (funding_phases E snaps targets r)"
proof -
  let ?A = "adds (action_ok snaps targets) (sent_ok E)" and ?cs = "classified snaps targets"
  have "?A r (fold (src_gas_step E snaps) ?cs r)" for r by (rule adds_fold) (metis src_gas_step_ok prod_cases3)
  moreover have "?A r (fold (gas_step E snaps targets) ?cs r)" for r by (rule adds_fold) (metis gas_step_ok prod_cases3)
  moreover have "?A r (fold (fill_step E snaps targets) ?cs r)" for r
    by (rule adds_fold) (metis fill_step_ok [OF _ assms] prod_cases3)
  moreover have "?A r (if \<not> any_critical ?cs then fold (sweep_step E) ?cs r else r)" for r
  proof (cases "any_critical ?cs")
    case False
    have "?A r (fold (sweep_step E) ?cs r)" by (rule adds_fold) (metis sweep_step_ok [OF _ assms] prod_cases3)
    with False show ?thesis by simp
  qed simp
  moreover have "?A r (fold (recover_step E) ?cs r)" for r
    by (rule adds_fold) (metis recover_step_ok [OF _ assms] prod_cases3)
  ultimately show ?thesis unfolding funding_phases_def Let_def by (meson adds_trans)
qed

lemma direct_src_in:
  assumes "direct_src snaps = Some s"
  shows "sn_chain s = 42161 \<or> sn_chain s = 10" "f_ge (sn_bridge_usd s) (Fin 5)"
proof -
  have "s \<in> set (to_list (snap_of snaps 42161)) \<union> set (to_list (snap_of snaps 10)) \<and> f_ge (sn_bridge_usd s) (Fin 5)"
    using max_by_in [OF assms [unfolded direct_src_def]] by auto
  then show "sn_chain s = 42161 \<or> sn_chain s = 10" "f_ge (sn_bridge_usd s) (Fin 5)"
    by (auto simp: to_list_def dest: snap_of_in snap_of_in [OF sym] split: option.splits)
qed

lemma direct_bridge_ok:
  assumes "direct_src snaps = Some s" "home_safe snaps"
  shows "adds (action_ok snaps targets) (sent_ok E) r (direct_bridge E sol s r)"
  using direct_src_in [OF assms(1)] assms(2)
  by (auto simp: direct_bridge_def Let_def execute_mayan_on_chain_def send_def adds_def grows_def action_ok_def planned_def
      plan_ok_def sent_ok_def rpc_for_def split: sum.split)

lemma eth_bridge_ok: "home_safe snaps \<Longrightarrow> adds (action_ok snaps targets) (sent_ok E) r (eth_bridge E snaps base sol r)"
  unfolding eth_bridge_def Let_def mayan_solana_bridge_eth_def mayan_solana_bridge_eth_from_chain_def
  by (auto simp: plan_ok_def plain_run_def send_def split: option.split prod.split intro!: attempt_adds)

lemma phase_solana_ok: "grows (action_ok snaps targets) (sent_ok E) r (phase_solana E snaps targets r)"
proof (cases "re_env E ''SOLANA_ADDRESS''")
  case sol: (Some sol)
  show ?thesis
  proof (cases "snap_of snaps home_chain")
    case base: (Some base)
    show ?thesis
    proof (cases "f_gt (sn_bridge_usd base) (Fin 15)")
      case True
      then have safe: "home_safe snaps" by (simp add: home_safe_def base)
      have bridge: "grows (action_ok snaps targets) (sent_ok E) r
          (case mayan_solana_bridge E base sol raw usd tok sym (r\<lparr>rb_last_mayan := n\<rparr>) of
             (a, r1) \<Rightarrow> push a (spend home_chain x r1))" for raw usd tok sym n x
      proof -
        obtain a r1 where m: "mayan_solana_bridge E base sol raw usd tok sym (r\<lparr>rb_last_mayan := n\<rparr>) = (a, r1)"
          by fastforce
        then have "adds (action_ok snaps targets) (sent_ok E) (r\<lparr>rb_last_mayan := n\<rparr>) (push a (spend home_chain x r1))"
          unfolding mayan_solana_bridge_def
          by (rule attempt_adds) (simp_all add: plan_ok_def safe)
        then show ?thesis by (simp add: m adds_def grows_def)
      qed
      show ?thesis
        using bridge eth_bridge_ok [OF safe] direct_bridge_ok [OF _ safe]
        by (simp add: phase_solana_def sol base Let_def adds_def split: option.split)
    qed (simp add: phase_solana_def sol base Let_def)
  qed (simp add: phase_solana_def sol)
qed (simp add: phase_solana_def)

lemma before_solana_ok:
  "readable snaps \<Longrightarrow> adds (action_ok snaps targets) (sent_ok E) r
     (funding_phases E snaps targets (phase_weth E snaps (phase_base_eth E snaps r)))"
  using phase_base_eth_ok phase_weth_ok funding_ok by (meson adds_trans)

lemma rebalance_ok:
  "readable snaps \<Longrightarrow> grows (action_ok snaps targets) (sent_ok E) (rb_start since snaps) (rebalance E since snaps targets)"
  unfolding rebalance_def using before_solana_ok phase_solana_ok by (metis adds_def grows_trans)

section \<open>Properties\<close>

lemma six_decimals:
  "ct \<in> set chain_token_map \<Longrightarrow> tok = ct_primary ct \<or> tok = ct_secondary ct \<Longrightarrow> tok = Some ad \<Longrightarrow> \<exists>a. ad = (a, 6)"
  by (auto simp: chain_token_map_def)

lemma scan_readable: "readable (scan_all n price)"
proof -
  have p6: "pow10 6 = Fin 1000000" using fround_of_int [of 1000000] by (simp add: pow10_def)
  have num: "f_div (fround q) (Fin 1000000) \<noteq> NaN" for q by (cases "fround q") (auto simp: f_signed_inf_def)
  have "sn_bridge_usd (scan_chain n price ct) \<noteq> NaN" if ct: "ct \<in> set chain_token_map" for ct
  proof -
    have usd: "fst (snd (scan_stable n (ct_rpc ct) tok)) \<noteq> NaN" if "tok = ct_primary ct \<or> tok = ct_secondary ct" for tok
    proof (cases tok)
      case (Some ad)
      from six_decimals [OF ct that Some] obtain a where "ad = (a, 6)" ..
      then show ?thesis using num
        by (simp add: Some scan_stable_def Let_def p6 f_of_u128_def f_of_nat_def split: prod.split)
    qed (simp add: scan_stable_def)
    from usd [of "ct_primary ct"] usd [of "ct_secondary ct"] show ?thesis
      by (auto simp: scan_chain_def Let_def split: prod.split)
  qed
  then show ?thesis by (auto simp: readable_def list_all_iff scan_all_def)
qed

text \<open>C4. The plan of a cycle stays within bounds, whatever the nodes answered and whatever the targets,
  earlier failures and clock are: gas top-ups come from another chain and are of at most four dollars; a
  stable fill goes from another chain to a fill chain, is of at least a dollar and exceeds neither
  the shortfall of its destination nor the bridge token of its source; sweeps go to the home chain
  and never exceed the bridge token; wrapped ether is unwrapped in place; and funds go to Solana only
  while the home chain holds more than fifteen dollars of its bridge token.\<close>

theorem rebalance_plan_bounded:
  "list_all (action_ok (scan_all n price) targets) (rb_actions (rebalance E since (scan_all n price) targets))"
  using rebalance_ok [OF scan_readable] by (auto simp: grows_def rb_start_def)

text \<open>In dry-run mode nothing is sent except, possibly, the direct bridge of stranded stables from Arbitrum
  or Optimism; and nothing at all when no Solana address is configured or its wallet needs no
  bootstrap.\<close>

theorem dry_run_sends_only_direct:
  assumes "re_dry E"
  shows "list_all (\<lambda>t. case t of Tx_Mayan_Token c _ _ _ \<Rightarrow> c = 42161 \<or> c = 10 | _ \<Rightarrow> False)
      (rb_sent (rebalance E since (scan_all n price) targets))"
  using rebalance_ok [OF scan_readable, where E = E] assms
  by (auto simp: grows_def rb_start_def sent_ok_def list_all_iff)

text \<open>The direct bridge knows neither the dry-run mode nor the cooldown: while the Solana wallet needs a
  bootstrap, the home chain is safe and the cooldown since the last bridge has not passed, the whole
  bridge token of the stranded chain is sent to Solana in every cycle, in dry-run mode as well.\<close>

theorem direct_bridge_ignores_cooldown:
  assumes "readable snaps" "re_env E ''SOLANA_ADDRESS'' = Some sol" "sol \<noteq> []" "needs_bootstrap E sol" "home_safe snaps"
    and "since \<le> re_now E" "re_now E - since < 600" "direct_src snaps = Some src"
  shows "Tx_Mayan_Token (sn_chain src) (sn_bridge_raw src) sol
      (if sn_chain src = 42161 then ''0xaf88d065e77c8cC2239327C5EDb3A432268e5831''
       else ''0x0b2C639c533813f4Aa9D7837CAf62653d097Ff85'')
    \<in> set (rb_sent (rebalance E since snaps targets))"
proof -
  obtain base where base: "snap_of snaps home_chain = Some base" "f_gt (sn_bridge_usd base) (Fin 15)"
    using assms(5) by (auto simp: home_safe_def split: option.splits)
  let ?r = "funding_phases E snaps targets (phase_weth E snaps (phase_base_eth E snaps (rb_start since snaps)))"
  have "rb_last_mayan ?r = since"
    using before_solana_ok [OF assms(1), of targets E "rb_start since snaps"] by (simp add: adds_def rb_start_def)
  then have "rebalance E since snaps targets = direct_bridge E sol src ?r"
    using assms base by (simp add: rebalance_def phase_solana_def Let_def not_le [symmetric])
  then show ?thesis
    using direct_src_in(1) [OF assms(8)]
    by (auto simp: direct_bridge_def Let_def execute_mayan_on_chain_def send_def rpc_for_def split: sum.split)
qed

text \<open>An unreachable node reads as an empty chain: a fill chain with positive minimums whose node answers
  nothing is classified critical, although its balances are unknown, and gas is bridged to it from the
  best surplus source when there is one.\<close>

theorem outage_triggers_topup:
  assumes "nd_wei n (ct_rpc ct) = None" "nd_balance_of n (ct_rpc ct) = (\<lambda>_. None)"
    and "ct \<in> set chain_token_map" "it_fill t" "f_lt (Fin 0) (it_gas t)" "f_lt (Fin 0) (it_min t)"
    and "best_surplus_source (\<lambda>c. working c r) targets (it_chain t) gas_topup_usd = Some c" "snap_of snaps c = Some src"
  shows "let s = scan_chain n price ct; st = classify t (sn_stable_usd s) (sn_gas_eth s)
    in st = Critical \<and> (\<exists>a. rb_actions (gas_step E snaps targets (st, t, s) r) = rb_actions r @ [a]
          \<and> ba_kind a = GasTopup \<and> ba_dst a = it_chain t \<and> ba_src a = c)"
proof -
  have w: "eth_balance n (ct_rpc ct) = None" using assms(1) by (simp add: eth_balance_def)
  have b: "erc20_balance_raw n (ct_rpc ct) tok = None" for tok using assms(2) by (simp add: erc20_balance_raw_def)
  have p6: "pow10 6 = Fin 1000000" using fround_of_int [of 1000000] by (simp add: pow10_def)
  have z: "f_div (f_of_u128 0) (Fin 1000000) = Fin 0" by (simp add: f_of_u128_def f_of_nat_def)
  have "fst (snd (scan_stable n (ct_rpc ct) tok)) = Fin 0" if "tok = ct_primary ct \<or> tok = ct_secondary ct" for tok
  proof (cases tok)
    case (Some ad)
    from six_decimals [OF assms(3) that Some] obtain a where "ad = (a, 6)" ..
    then show ?thesis by (simp add: Some scan_stable_def Let_def b p6 z split: prod.split)
  qed (simp add: scan_stable_def)
  from this [of "ct_primary ct"] this [of "ct_secondary ct"]
  have "sn_stable_usd (scan_chain n price ct) = Fin 0" "sn_gas_eth (scan_chain n price ct) = Fin 0"
    by (auto simp: scan_chain_def Let_def w split: prod.split)
  moreover have "\<not> f_ge (Fin 0) (it_gas t)" "\<not> f_ge (Fin 0) (it_min t)"
    using assms(5,6) f_le_not_lt by blast+
  ultimately have "classify t (sn_stable_usd (scan_chain n price ct)) (sn_gas_eth (scan_chain n price ct)) = Critical"
    using assms(4) by (simp add: classify_def Let_def)
  then show ?thesis
    using snap_of_in [OF assms(8)]
    by (auto simp: Let_def gas_step_def assms(7,8) gas_topup_def attempt_def send_def planned_def
        split: sum.split)
qed

section \<open>Examples\<close>

text \<open>A machine with a Solana wallet that was never funded, in the given mode, a minute after the last bridge.\<close>

definition sample_rb_env :: "bool \<Rightarrow> rb_env" where
  "sample_rb_env dry =
     \<lparr>re_dry = dry, re_now = 1060, re_env = [''SOLANA_ADDRESS'' \<mapsto> ''So1''], re_lamports = (\<lambda>_. Some 0),
      re_addr_ok = (\<lambda>_. True), re_quote = (\<lambda>_ _ _ _. None), re_send = (\<lambda>_. Inr ''0xab'')\<rparr>"

definition sample_snap :: "u64 \<Rightarrow> rat \<Rightarrow> u128 \<Rightarrow> chain_snapshot" where
  "sample_snap c usd raw =
     \<lparr>sn_chain = c, sn_stable_usd = Fin usd, sn_primary_raw = raw, sn_primary_addr = usdc_base, sn_primary_decimals = 6,
      sn_primary_usd = Fin usd, sn_secondary_usd = Fin 0, sn_secondary_raw = 0, sn_secondary_addr = '''',
      sn_secondary_decimals = 6, sn_gas_eth = Fin 1, sn_weth_usd = Fin 0, sn_weth_raw = 0, sn_bridge_addr = usdc_base,
      sn_bridge_decimals = 6, sn_bridge_raw = raw, sn_bridge_usd = Fin usd\<rparr>"

definition sample_snaps :: "chain_snapshot list" where
  "sample_snaps = [sample_snap 8453 20 20000000, sample_snap 42161 10 10000000]"

definition down :: node where
  "down = \<lparr>nd_wei = (\<lambda>_. None), nd_balance_of = (\<lambda>_ _. None)\<rparr>"

definition live_target :: "u64 \<Rightarrow> inventory_target" where
  "live_target c = \<lparr>it_chain = c, it_name = ''x'', it_min = Fin 5, it_target = Fin 8, it_high = Fin 50, it_gas = Fin 1, it_fill = True\<rparr>"

lemma fround_small: "f_le (fround (3 / 100000)) (Fin 1)"
  using fround_mono [of "3 / 100000" 1] fround_of_int [of 1] by simp

lemma sample_direct: "direct_src sample_snaps = Some (sample_snap 42161 10 10000000)"
  using fround_small
  by (simp add: direct_src_def sample_snaps_def snap_of_def sample_snap_def to_list_def max_by_def)

theorem dry_run_sends_only_direct_witness:
  "list_all (\<lambda>t. case t of Tx_Mayan_Token c _ _ _ \<Rightarrow> c = 42161 \<or> c = 10 | _ \<Rightarrow> False)
     (rb_sent (rebalance (sample_rb_env True) 0 (scan_all down (Fin 3000)) built_in_targets))"
  by (rule dry_run_sends_only_direct) (simp add: sample_rb_env_def)

theorem direct_bridge_ignores_cooldown_witness:
  "Tx_Mayan_Token 42161 10000000 ''So1'' ''0xaf88d065e77c8cC2239327C5EDb3A432268e5831''
     \<in> set (rb_sent (rebalance (sample_rb_env True) 1000 sample_snaps built_in_targets))"
proof -
  have 1: "readable sample_snaps" by (simp add: readable_def sample_snaps_def sample_snap_def)
  have 2: "re_env (sample_rb_env True) ''SOLANA_ADDRESS'' = Some ''So1''" by (simp add: sample_rb_env_def)
  have 3: "needs_bootstrap (sample_rb_env True) ''So1''" by (simp add: needs_bootstrap_def sample_rb_env_def)
  have 4: "home_safe sample_snaps" by (simp add: home_safe_def sample_snaps_def sample_snap_def snap_of_def home_chain_def)
  show ?thesis
    using direct_bridge_ignores_cooldown [OF 1 2 _ 3 4 _ _ sample_direct, of 1000 built_in_targets]
    by (simp add: sample_rb_env_def sample_snap_def)
qed

theorem outage_triggers_topup_witness:
  "let s = scan_chain down (Fin 3000) (chain_token_map ! 1); st = classify (live_target 42161) (sn_stable_usd s) (sn_gas_eth s);
     r = rb_start 0 [sample_snap 8453 20 20000000]
   in st = Critical \<and> (\<exists>a. rb_actions (gas_step (sample_rb_env False) [sample_snap 8453 20 20000000]
          [live_target 8453, live_target 42161] (st, live_target 42161, s) r) = rb_actions r @ [a]
        \<and> ba_kind a = GasTopup \<and> ba_dst a = 42161 \<and> ba_src a = 8453)"
proof -
  let ?snaps = "[sample_snap 8453 20 20000000]" and ?ts = "[live_target 8453, live_target 42161]"
  have src: "snap_of ?snaps 8453 = Some (sample_snap 8453 20 20000000)" by (simp add: snap_of_def sample_snap_def)
  have sub: "f_sub (f_sub (Fin 20) (Fin 5)) (Fin 4) = Fin 11"
    using fround_of_int [of 15] fround_of_int [of 11] by (simp add: f_sub_def)
  have best: "best_surplus_source (\<lambda>c. working c (rb_start 0 ?snaps)) ?ts (it_chain (live_target 42161)) gas_topup_usd
      = Some 8453"
    by (simp add: best_surplus_source_def List.map_filter_def live_target_def working_def rb_start_def sample_snap_def
        gas_topup_usd_def max_by_def Let_def sub)
  have down: "nd_wei down (ct_rpc (chain_token_map ! 1)) = None" "nd_balance_of down (ct_rpc (chain_token_map ! 1)) = (\<lambda>_. None)"
    by (simp_all add: down_def)
  have t: "it_fill (live_target 42161)" "f_lt (Fin 0) (it_gas (live_target 42161))"
    "f_lt (Fin 0) (it_min (live_target 42161))" "it_chain (live_target 42161) = 42161"
    by (simp_all add: live_target_def)
  have ct: "chain_token_map ! 1 \<in> set chain_token_map" by (simp add: chain_token_map_def)
  show ?thesis
    using outage_triggers_topup [OF down(1) down(2) ct t(1) t(2) t(3) best src, of "Fin 3000" "sample_rb_env False"]
    unfolding t(4) Let_def .
qed

end
