(* ===== verification/RebalTx.thy ===== *)
theory RebalTx
  imports Rebalancer Dln
begin

text \<open>
  What the transfers of the rebalancer do on chain (\<open>crates/portfolio-sidecar/src/rebalancer.rs\<close>, the
  \<open>execute_\<close> methods): allowances, calldata, the guard (\<open>TxGuard\<close>) and the broadcast.  The state is the
  list of transactions handed to a node, in order.  Nodes, bridge APIs, the ABI encoder and the parsers
  of addresses and numbers are parameters; error texts are their outermost part.
\<close>

section \<open>Transactions and what they depend on\<close>

type_synonym u256 = "256 word"

record chain_tx =
  tx_rpc :: string
  tx_to :: evm_addr
  tx_data :: bytes
  tx_value :: u256

text \<open>The calls of the contracts, as declared in the source.\<close>

record deposit_v3 =
  dv_depositor :: evm_addr
  dv_recipient :: evm_addr
  dv_input_token :: evm_addr
  dv_output_token :: evm_addr
  dv_input :: u256
  dv_output :: u256
  dv_dst :: u256
  dv_relayer :: evm_addr
  dv_quote_ts :: u32
  dv_fill_deadline :: u32
  dv_excl_deadline :: u32
  dv_message :: bytes

record exact_input =
  sp_in :: evm_addr
  sp_out :: evm_addr
  sp_fee :: "24 word"
  sp_recipient :: evm_addr
  sp_amount :: u256
  sp_min_out :: u256
  sp_limit :: "160 word"

record mayan_create =
  mc_payload :: u8
  mc_trader :: bytes
  mc_dest :: bytes
  mc_dest_chain :: "16 word"
  mc_referrer :: bytes
  mc_token_out :: bytes
  mc_min_out :: u64
  mc_gas_drop :: u64
  mc_cancel_fee :: u64
  mc_refund_fee :: u64
  mc_deadline :: u64
  mc_referrer_bps :: u8
  mc_auction_mode :: u8
  mc_random :: bytes

datatype contract_call =
    Approve evm_addr u256
  | DepositV3 deposit_v3
  | ExactInputSingle exact_input
  | UnwrapWETH9 u256 evm_addr
  | Multicall "bytes list"
  | Withdraw u256
  | CreateOrderWithToken evm_addr u256 mayan_create bytes
  | ForwardERC20 evm_addr u256 evm_addr bytes

text \<open>Answers of the bridge APIs.\<close>

record fees_resp =
  fe_output :: string
  fe_timestamp :: string
  fe_fill_deadline :: u32
  fe_relayer :: string
  fe_excl_deadline :: u32
  fe_token :: string

record swap_resp =
  sw_to :: string
  sw_data :: string
  sw_approvals :: "(u64 \<times> string \<times> string) list"

record dln_resp =
  dl_to :: string
  dl_data :: string
  dl_value :: "string option"

datatype node_reply = Refused | NoReceipt string | Receipt string bool

text \<open>The environment: the solver, the parsers and encoders, the APIs, the nodes (what a call of \<open>allowance\<close> or
  \<open>balanceOf\<close> and what a transaction results in, after the transactions sent before).\<close>

record tx_env =
  te_solver :: evm_addr
  te_addr :: "string \<Rightarrow> evm_addr option"
  te_addr_text :: "evm_addr \<Rightarrow> string"
  te_url_ok :: "string \<Rightarrow> bool"
  te_codec :: codec
  te_bs58 :: "string \<Rightarrow> bytes option"
  te_u256 :: "string \<Rightarrow> u256 option"
  te_u256_hex :: "string \<Rightarrow> u256 option"
  te_abi :: "contract_call \<Rightarrow> bytes"
  te_var :: "string \<Rightarrow> string option"
  te_secs :: "chain_tx list \<Rightarrow> u64"
  te_nanos :: "chain_tx list \<Rightarrow> nat"
  te_fees :: "u64 \<Rightarrow> evm_addr \<Rightarrow> u64 \<Rightarrow> u128 \<Rightarrow> fees_resp option"
  te_gas_swap :: "u64 \<Rightarrow> u64 \<Rightarrow> string \<Rightarrow> u128 \<Rightarrow> swap_resp option"
  te_native_swap :: "u64 \<Rightarrow> u64 \<Rightarrow> string \<Rightarrow> u128 \<Rightarrow> swap_resp option"
  te_dln :: "u64 \<Rightarrow> evm_addr \<Rightarrow> u128 \<Rightarrow> u64 \<Rightarrow> string \<Rightarrow> dln_resp option"
  te_allowance :: "string \<Rightarrow> evm_addr \<Rightarrow> evm_addr \<Rightarrow> chain_tx list \<Rightarrow> bytes option"
  te_balance :: "string \<Rightarrow> evm_addr \<Rightarrow> chain_tx list \<Rightarrow> bytes option"
  te_node :: "chain_tx \<Rightarrow> chain_tx list \<Rightarrow> node_reply"

section \<open>Steps that may fail\<close>

type_synonym 'a chain_act = "chain_tx list \<Rightarrow> (string + 'a) \<times> chain_tx list"

definition act_ret :: "'a \<Rightarrow> 'a chain_act" where "act_ret a s = (Inr a, s)"
definition act_fail :: "string \<Rightarrow> 'a chain_act" where "act_fail e s = (Inl e, s)"

definition act_bind :: "'a chain_act \<Rightarrow> ('a \<Rightarrow> 'b chain_act) \<Rightarrow> 'b chain_act" where
  "act_bind m f s = (case m s of (Inl e, s1) \<Rightarrow> (Inl e, s1) | (Inr a, s1) \<Rightarrow> f a s1)"

definition act_opt :: "string \<Rightarrow> 'a option \<Rightarrow> 'a chain_act" where
  "act_opt e x = (case x of None \<Rightarrow> act_fail e | Some a \<Rightarrow> act_ret a)"

definition act_context :: "string \<Rightarrow> 'a chain_act \<Rightarrow> 'a chain_act" where
  "act_context e m s = (case m s of (Inl _, s1) \<Rightarrow> (Inl e, s1) | (Inr a, s1) \<Rightarrow> (Inr a, s1))"

fun act_each :: "('a \<Rightarrow> 'b chain_act) \<Rightarrow> 'a list \<Rightarrow> unit chain_act" where
  "act_each f [] = act_ret ()"
| "act_each f (x # xs) = act_bind (f x) (\<lambda>_. act_each f xs)"

text \<open>One transaction: handed to the node, then its receipt.  The hash and whether it succeeded.\<close>

definition transmit :: "tx_env \<Rightarrow> string \<Rightarrow> string \<Rightarrow> chain_tx \<Rightarrow> (string \<times> bool) chain_act" where
  "transmit E e_send e_receipt t s =
     (case te_node E t s of
        Refused \<Rightarrow> (Inl e_send, s @ [t])
      | NoReceipt h \<Rightarrow> (Inl e_receipt, s @ [t])
      | Receipt h ok \<Rightarrow> (Inr (h, ok), s @ [t]))"

definition guarded :: "tx_env \<Rightarrow> string \<Rightarrow> evm_addr \<Rightarrow> bytes \<Rightarrow> evm_addr list \<Rightarrow> unit chain_act" where
  "guarded E e to data recipients =
     (case check (with_default_tokens (te_solver E) []) to data recipients of Inl _ \<Rightarrow> act_fail e | Inr _ \<Rightarrow> act_ret ())"

definition url_parsed :: "tx_env \<Rightarrow> string \<Rightarrow> unit chain_act" where
  "url_parsed E rpc = (if te_url_ok E rpc then act_ret () else act_fail ''parse rpc'')"

text \<open>The last word of an answer, or a default when it is shorter or there is none.\<close>

definition last_word :: "u256 \<Rightarrow> bytes option \<Rightarrow> u256" where
  "last_word d b = (case b of None \<Rightarrow> d | Some x \<Rightarrow> if 32 \<le> length x then of_nat (be_val (drop (length x - 32) x)) else d)"

definition send_raw_value :: "tx_env \<Rightarrow> string \<Rightarrow> string \<Rightarrow> string \<Rightarrow> u256 \<Rightarrow> string chain_act" where
  "send_raw_value E rpc to data value =
     act_bind (act_opt ''parse to'' (te_addr E to)) (\<lambda>addr.
     act_bind (act_opt ''decode calldata'' (cx_decode (te_codec E) (trim_start_str ''0x'' data))) (\<lambda>b.
     act_bind (guarded E ''tx_guard blocked send_raw_value'' addr b []) (\<lambda>_.
     act_bind (url_parsed E rpc) (\<lambda>_.
     act_bind (transmit E ''send tx'' ''receipt'' \<lparr>tx_rpc = rpc, tx_to = addr, tx_data = b, tx_value = value\<rparr>) (\<lambda>(h, ok).
     if ok then act_ret h else act_fail (''reverted: '' @ h))))))"

definition send_raw :: "tx_env \<Rightarrow> string \<Rightarrow> string \<Rightarrow> string \<Rightarrow> string chain_act" where
  "send_raw E rpc to data = send_raw_value E rpc to data 0"

definition ensure_allowance :: "tx_env \<Rightarrow> string \<Rightarrow> string \<Rightarrow> u256 \<Rightarrow> string \<Rightarrow> unit chain_act" where
  "ensure_allowance E token spender amount rpc =
     act_bind (act_opt ''parse token'' (te_addr E token)) (\<lambda>t.
     act_bind (act_opt ''parse spender'' (te_addr E spender)) (\<lambda>sp.
     act_bind (url_parsed E rpc) (\<lambda>_ s.
     if amount \<le> last_word 0 (te_allowance E rpc t sp s) then (Inr (), s)
     else let b = te_abi E (Approve sp (- 1))
          in act_bind (guarded E ''tx_guard blocked ensure_allowance'' t b []) (\<lambda>_.
             act_bind (url_parsed E rpc) (\<lambda>_.
             act_bind (transmit E ''approve tx'' ''approve receipt'' \<lparr>tx_rpc = rpc, tx_to = t, tx_data = b, tx_value = 0\<rparr>)
             (\<lambda>(h, ok). if ok then act_ret () else act_fail ''approve tx reverted on-chain''))) s)))"

section \<open>Transfers\<close>

definition or_zero :: "'a::zero option \<Rightarrow> 'a" where
  "or_zero x = (case x of None \<Rightarrow> 0 | Some a \<Rightarrow> a)"

definition execute_gas_topup :: "tx_env \<Rightarrow> u64 \<Rightarrow> string \<Rightarrow> u64 \<Rightarrow> u128 \<Rightarrow> string chain_act" where
  "execute_gas_topup E c token dst raw =
     act_bind (act_opt ''Across swap API'' (te_gas_swap E c dst token raw)) (\<lambda>r.
     act_bind (act_each (\<lambda>(chain, to, data).
         if chain = c then act_context ''approval for gas top-up'' (send_raw E (rpc_for c) to data) else act_ret [])
       (sw_approvals r)) (\<lambda>_.
     send_raw E (rpc_for c) (sw_to r) (sw_data r)))"

definition execute_across_deposit ::
    "tx_env \<Rightarrow> u64 \<Rightarrow> string \<Rightarrow> evm_addr \<Rightarrow> u64 \<Rightarrow> u128 \<Rightarrow> fees_resp \<Rightarrow> string chain_act" where
  "execute_across_deposit E c token src_token dst raw fees =
     act_bind (act_opt ''No SpokePool for chain'' (spoke_pool c)) (\<lambda>spoke.
     act_bind (act_context ''approval for stable bridge''
       (ensure_allowance E token (te_addr_text E spoke) (ucast raw) (rpc_for c))) (\<lambda>_.
     send_raw E (rpc_for c) (te_addr_text E spoke) (cx_encode (te_codec E) (te_abi E (DepositV3
       \<lparr>dv_depositor = te_solver E, dv_recipient = te_solver E, dv_input_token = src_token,
        dv_output_token = or_zero (te_addr E (fe_token fees)), dv_input = ucast raw,
        dv_output = or_zero (te_u256 E (fe_output fees)), dv_dst = ucast dst,
        dv_relayer = or_zero (te_addr E (fe_relayer fees)),
        dv_quote_ts = of_nat (case parse_unsigned (2 ^ 32 - 1) (fe_timestamp fees) of None \<Rightarrow> 0 | Some n \<Rightarrow> n),
        dv_fill_deadline = fe_fill_deadline fees, dv_excl_deadline = fe_excl_deadline fees, dv_message = []\<rparr>)))))"

definition dln_value :: "tx_env \<Rightarrow> dln_resp \<Rightarrow> u256" where
  "dln_value E r = or_zero (Option.bind (dl_value r) (\<lambda>v.
     if starts_with v ''0x'' then te_u256_hex E (trim_start_str ''0x'' v) else te_u256 E v))"

definition execute_debridge_tx :: "tx_env \<Rightarrow> u64 \<Rightarrow> string \<Rightarrow> u64 \<Rightarrow> u128 \<Rightarrow> string chain_act" where
  "execute_debridge_tx E c token dst raw =
     act_bind (act_opt ''parse src token addr'' (te_addr E token)) (\<lambda>src_token.
     act_bind (act_opt ''deBridge: no destination USDC mapping'' (debridge_dst_usdc dst)) (\<lambda>usdc.
     act_bind (act_opt ''deBridge create-tx request'' (te_dln E c src_token raw dst usdc)) (\<lambda>r.
     act_bind (act_context ''approval for deBridge bridge''
       (ensure_allowance E token (dl_to r) (ucast raw) (rpc_for c))) (\<lambda>_.
     send_raw_value E (rpc_for c) (dl_to r) (trim_start_str ''0x'' (dl_data r)) (dln_value E r)))))"

definition usable_quote :: "tx_env \<Rightarrow> u64 \<Rightarrow> fees_resp option \<Rightarrow> fees_resp option" where
  "usable_quote E c f =
     Option.bind f (\<lambda>fees.
       if or_zero (te_u256 E (fe_output fees)) = 0 then None
       else if spoke_pool c = None then None else Some fees)"

definition stable_bridge_tx :: "tx_env \<Rightarrow> u64 \<Rightarrow> string \<Rightarrow> u64 \<Rightarrow> u128 \<Rightarrow> string chain_act" where
  "stable_bridge_tx E c token dst raw =
     act_bind (act_opt ''parse src token addr'' (te_addr E token)) (\<lambda>src_token.
     case usable_quote E c (te_fees E c src_token dst raw) of
       Some fees \<Rightarrow> execute_across_deposit E c token src_token dst raw fees
     | None \<Rightarrow>
         if debridge_supports c dst then act_context (debridge_fallback c dst) (execute_debridge_tx E c token dst raw)
         else act_fail ''Across quote failed and deBridge fallback not supported on this path'')"

definition unwrap_weth_tx :: "tx_env \<Rightarrow> u64 \<Rightarrow> string \<Rightarrow> u128 \<Rightarrow> string chain_act" where
  "unwrap_weth_tx E c weth raw =
     send_raw E (rpc_for c) weth (cx_encode (te_codec E) (te_abi E (Withdraw (ucast raw))))"

definition usdt_base :: string where "usdt_base = ''0xfde4C96c8593536E31F229EA8f37b2ADa2699bb2''"
definition mayan_swift :: string where "mayan_swift = ''0x40ffe85a28dc9993541449464d7529a922142960''"
definition mayan_forwarder :: string where "mayan_forwarder = ''0x337685fdaB40D39bd02028545a4FfA7D287cC3E2''"
definition wrapped_sol :: string where "wrapped_sol = ''So11111111111111111111111111111111111111112''"

definition execute_usdt_to_eth_swap :: "tx_env \<Rightarrow> u128 \<Rightarrow> string chain_act" where
  "execute_usdt_to_eth_swap E raw =
     act_bind (act_opt ''parse router'' (te_addr E swap_router_base)) (\<lambda>router.
     act_bind (act_context ''approve Uniswap router for USDT''
       (ensure_allowance E usdt_base swap_router_base (ucast raw) (rpc_for 8453))) (\<lambda>_.
     act_bind (act_opt ''parse USDT'' (te_addr E usdt_base)) (\<lambda>usdt.
     act_bind (act_opt ''parse WETH'' (te_addr E weth_base)) (\<lambda>weth.
     let min_out = f_to_u128 (f_mul (f_mul (f_div (f_div (f_of_u128 raw) (fround (10 ^ 6))) (eth_price_usd (te_var E)))
           (fround (9 / 10))) (fround (10 ^ 18)));
         swap = te_abi E (ExactInputSingle \<lparr>sp_in = usdt, sp_out = weth, sp_fee = 3000, sp_recipient = router,
           sp_amount = ucast raw, sp_min_out = ucast min_out, sp_limit = 0\<rparr>);
         unwrap = te_abi E (UnwrapWETH9 0 (te_solver E))
     in send_raw E (rpc_for 8453) swap_router_base (cx_encode (te_codec E) (te_abi E (Multicall [swap, unwrap])))))))"

text \<open>\<open>as u64\<close>: truncation towards zero, saturating, NaN to zero.\<close>

fun f_to_u64 :: "f64 \<Rightarrow> u64" where
  "f_to_u64 NaN = 0"
| "f_to_u64 NInf = 0"
| "f_to_u64 PInf = - 1"
| "f_to_u64 (Fin q) = (if q \<le> 0 then 0 else word_of_int (min (2 ^ 64 - 1) \<lfloor>q\<rfloor>))"

definition sol_price_usd :: "tx_env \<Rightarrow> f64" where
  "sol_price_usd E = env_f64 (te_var E) ''SOL_PRICE_USD'' (Fin 160)"

definition mayan_random :: "nat \<Rightarrow> bytes" where
  "mayan_random ts = replicate 16 0 @ be_enc 16 ts"

definition min_sol_lamports :: "tx_env \<Rightarrow> u128 \<Rightarrow> u64" where
  "min_sol_lamports E raw =
     f_to_u64 (f_mul (f_mul (f_div (f_div (f_of_u128 raw) (fround (10 ^ 6))) (sol_price_usd E)) (fround (85 / 100)))
       (fround (10 ^ 9)))"

definition mayan_order_of :: "tx_env \<Rightarrow> u128 \<Rightarrow> bytes \<Rightarrow> chain_tx list \<Rightarrow> mayan_create" where
  "mayan_order_of E raw dest s =
     \<lparr>mc_payload = 1, mc_trader = replicate 12 0 @ be_enc 20 (unat (te_solver E)), mc_dest = dest, mc_dest_chain = 1,
      mc_referrer = replicate 32 0,
      mc_token_out = (case te_bs58 E wrapped_sol of None \<Rightarrow> replicate 32 0
         | Some b \<Rightarrow> if length b = 32 then b else replicate 32 0),
      mc_min_out = min_sol_lamports E raw, mc_gas_drop = 0, mc_cancel_fee = 2000, mc_refund_fee = 0,
      mc_deadline = te_secs E s + 14400, mc_referrer_bps = 0, mc_auction_mode = 2,
      mc_random = mayan_random (te_nanos E s)\<rparr>"

definition mayan_token_tx :: "tx_env \<Rightarrow> u64 \<Rightarrow> u128 \<Rightarrow> string \<Rightarrow> string \<Rightarrow> string chain_act" where
  "mayan_token_tx E c raw sol token s =
     (if rpc_for c = [] then (Inl ''no RPC configured'', s)
      else act_bind (act_opt ''invalid Solana base58 address'' (te_bs58 E sol)) (\<lambda>dest.
           if length dest \<noteq> 32 then act_fail ''Solana address must be 32 bytes''
           else let order = mayan_order_of E raw dest s
                in act_bind (act_opt ''parse tokenIn addr'' (te_addr E token)) (\<lambda>token_in.
                   act_bind (act_opt ''parse forwarder addr'' (te_addr E mayan_forwarder)) (\<lambda>forwarder.
                   act_bind (act_opt ''parse MayanSwift addr'' (te_addr E mayan_swift)) (\<lambda>swift.
                   act_bind (act_context ''approve MayanForwarder''
                     (ensure_allowance E token (te_addr_text E forwarder) (ucast raw) (rpc_for c))) (\<lambda>_.
                   let inner = te_abi E (CreateOrderWithToken token_in (ucast raw) order []);
                       outer = te_abi E (ForwardERC20 token_in (ucast raw) swift inner)
                   in send_raw E (rpc_for c) (te_addr_text E forwarder) (cx_encode (te_codec E) outer)))))) s)"

text \<open>Ether to the stable by a swap, then the stable to Solana.  What the swap has to yield, and what is bridged
  of the balance found after it.\<close>

definition usdc_expected :: "tx_env \<Rightarrow> u128 \<Rightarrow> u128" where
  "usdc_expected E wei =
     f_to_u128 (f_mul (f_mul (f_mul (f_div (f_of_u128 wei) (fround (10 ^ 18))) (eth_price_usd (te_var E)))
       (fround (9 / 10))) (fround (10 ^ 6)))"

definition sat_add_u128 :: "u128 \<Rightarrow> u128 \<Rightarrow> u128" where
  "sat_add_u128 a b = (if 2 ^ 128 \<le> unat a + unat b then - 1 else a + b)"

definition bridge_amount :: "u128 \<Rightarrow> u256 \<Rightarrow> u256" where
  "bridge_amount expected bal = min bal (ucast (sat_add_u128 expected 1000000))"

definition swap_eth_tx :: "tx_env \<Rightarrow> u64 \<Rightarrow> u128 \<Rightarrow> evm_addr \<Rightarrow> evm_addr \<Rightarrow> evm_addr \<Rightarrow> string chain_act" where
  "swap_eth_tx E c wei usdc weth router =
     (let data = te_abi E (ExactInputSingle \<lparr>sp_in = weth, sp_out = usdc, sp_fee = 500, sp_recipient = te_solver E,
            sp_amount = ucast wei, sp_min_out = ucast (max 1 (usdc_expected E wei)), sp_limit = 0\<rparr>)
      in act_bind (guarded E ''tx_guard blocked'' router data [te_solver E]) (\<lambda>_.
         act_bind (url_parsed E (rpc_for c)) (\<lambda>_.
         act_bind (transmit E ''uniswap swap tx'' ''swap receipt''
           \<lparr>tx_rpc = rpc_for c, tx_to = router, tx_data = data, tx_value = ucast wei\<rparr>) (\<lambda>(h, ok).
         if ok then act_ret h else act_fail ''Uniswap swap reverted''))))"

definition mayan_eth_tx ::
    "tx_env \<Rightarrow> u64 \<Rightarrow> u128 \<Rightarrow> string \<Rightarrow> string \<Rightarrow> string \<Rightarrow> string \<Rightarrow> string chain_act" where
  "mayan_eth_tx E c wei sol usdc_addr weth_addr router_addr s =
     (if rpc_for c = [] then (Inl ''no RPC configured'', s)
      else act_bind (act_opt ''parse WETH'' (te_addr E weth_addr)) (\<lambda>weth.
           act_bind (act_opt ''parse USDC'' (te_addr E usdc_addr)) (\<lambda>usdc.
           act_bind (act_opt ''parse router'' (te_addr E router_addr)) (\<lambda>router.
           act_bind (swap_eth_tx E c wei usdc weth router) (\<lambda>_ s1.
           let bal = last_word (ucast (usdc_expected E wei)) (te_balance E (rpc_for c) usdc s1);
               amount = bridge_amount (usdc_expected E wei) bal
           in if amount = 0 then (Inl ''USDC balance is zero after swap'', s1)
              else mayan_token_tx E c (ucast amount) sol usdc_addr s1)))) s)"

definition native_sweep_tx :: "tx_env \<Rightarrow> u64 \<Rightarrow> u128 \<Rightarrow> u64 \<Rightarrow> string chain_act" where
  "native_sweep_tx E c wei dst =
     (if rpc_for c = [] then act_fail ''no RPC for chain''
      else act_bind (act_opt ''Across native-sweep swap API'' (te_native_swap E c dst usdc_base wei)) (\<lambda>r.
           act_bind (act_each (\<lambda>(chain, to, data).
               if chain = c \<and> data \<noteq> [] then act_context ''native sweep approval'' (send_raw E (rpc_for c) to data)
               else act_ret []) (sw_approvals r)) (\<lambda>_.
           send_raw_value E (rpc_for c) (sw_to r) (sw_data r) (ucast wei))))"

text \<open>What a transfer of the decision engine does.\<close>

definition perform :: "tx_env \<Rightarrow> transfer \<Rightarrow> string chain_act" where
  "perform E t =
     (case t of
        Tx_Unwrap c weth raw \<Rightarrow> unwrap_weth_tx E c weth raw
      | Tx_Swap_Usdt raw \<Rightarrow> execute_usdt_to_eth_swap E raw
      | Tx_Gas_Topup c token dst raw \<Rightarrow> execute_gas_topup E c token dst raw
      | Tx_Across c token dst raw \<Rightarrow> stable_bridge_tx E c token dst raw
      | Tx_Debridge c token dst raw \<Rightarrow> stable_bridge_tx E c token dst raw
      | Tx_Native_Sweep c wei dst \<Rightarrow> native_sweep_tx E c wei dst
      | Tx_Mayan_Token c raw sol token \<Rightarrow> mayan_token_tx E c raw sol token
      | Tx_Mayan_Eth c wei sol usdc weth router \<Rightarrow> mayan_eth_tx E c wei sol usdc weth router)"

fun perform_all :: "tx_env \<Rightarrow> transfer list \<Rightarrow> chain_tx list \<Rightarrow> chain_tx list" where
  "perform_all E [] s = s"
| "perform_all E (t # ts) s = perform_all E ts (snd (perform E t s))"

section \<open>Every transaction passed the guard\<close>

definition tx_passes :: "tx_env \<Rightarrow> chain_tx \<Rightarrow> bool" where
  "tx_passes E t \<longleftrightarrow> check (with_default_tokens (te_solver E) []) (tx_to t) (tx_data t) [] = Inr ()"

text \<open>A step only appends transactions that pass.\<close>

definition clean :: "tx_env \<Rightarrow> 'a chain_act \<Rightarrow> bool" where
  "clean E m \<longleftrightarrow> (\<forall>s. \<exists>ts. snd (m s) = s @ ts \<and> list_all (tx_passes E) ts)"

lemma clean_simps [simp]: "clean E (act_ret a)" "clean E (act_fail e)" "clean E (act_opt e x)" "clean E (url_parsed E r)"
  "clean E (guarded E e to d rs)"
  by (auto simp: clean_def act_ret_def act_fail_def act_opt_def url_parsed_def guarded_def split: option.split sum.split)

lemma clean_bind [intro]: "clean E m \<Longrightarrow> (\<And>a. clean E (f a)) \<Longrightarrow> clean E (act_bind m f)"
  unfolding clean_def act_bind_def
  by (intro allI) (auto split: prod.split sum.split, (metis append_assoc list_all_append snd_conv)+)

lemma clean_context [simp]: "clean E (act_context e m) = clean E m"
proof -
  have "snd (act_context e m s) = snd (m s)" for s by (simp add: act_context_def split: prod.split sum.split)
  then show ?thesis by (simp add: clean_def)
qed

lemma clean_each: "(\<And>x. x \<in> set xs \<Longrightarrow> clean E (f x)) \<Longrightarrow> clean E (act_each f xs)"
  by (induction xs) (auto intro!: clean_bind)

lemma clean_if [intro]: "clean E m \<Longrightarrow> clean E n \<Longrightarrow> clean E (if b then m else n)" by simp

text \<open>A transaction behind its guard.\<close>

lemma guarded_bind: "act_bind (guarded E e to d rs) f s =
    (case check (with_default_tokens (te_solver E) []) to d rs of Inl _ \<Rightarrow> (Inl e, s) | Inr _ \<Rightarrow> f () s)"
  by (simp add: act_bind_def guarded_def act_fail_def act_ret_def split: sum.split)

lemma check_own: "check g to d [tg_solver g] = check g to d []"
  by (simp add: check_def)

lemma clean_transmit: "tx_passes E t \<Longrightarrow> clean E (transmit E e1 e2 t)"
  by (auto simp: clean_def transmit_def split: node_reply.split)

lemma clean_guarded:
  assumes "set rs \<subseteq> {te_solver E}" "tx_passes E \<lparr>tx_rpc = r, tx_to = to, tx_data = d, tx_value = v\<rparr> \<Longrightarrow> clean E (f ())"
  shows "clean E (act_bind (guarded E e to d rs) f)"
proof (cases "check (with_default_tokens (te_solver E) []) to d rs")
  case (Inl b)
  then show ?thesis by (simp add: clean_def guarded_bind)
next
  case (Inr u)
  have "tg_solver (with_default_tokens (te_solver E) []) = te_solver E"
    by (simp add: with_default_tokens_def tx_guard_new_def)
  moreover have "List.find (\<lambda>a. a \<noteq> te_solver E \<and> a \<noteq> 0) rs = None" using assms(1) by (auto simp: find_None_iff)
  ultimately have "check (with_default_tokens (te_solver E) []) to d [] = Inr ()"
    using Inr by (simp add: check_def)
  then have "clean E (f ())" using assms(2) by (simp add: tx_passes_def)
  then show ?thesis using Inr by (simp add: clean_def guarded_bind)
qed

lemma clean_send_raw_value: "clean E (send_raw_value E rpc to data value)"
  unfolding send_raw_value_def
  by (rule clean_bind, simp, rule clean_bind, simp, rule clean_guarded [where r = rpc and v = "value"], simp)
    (auto intro!: clean_bind clean_transmit)

lemma clean_send_raw: "clean E (send_raw E rpc to data)"
  by (simp add: send_raw_def clean_send_raw_value)

lemma clean_ensure_allowance: "clean E (ensure_allowance E token spender amount rpc)"
proof -
  let ?b = "\<lambda>t sp. act_bind (guarded E ''tx_guard blocked ensure_allowance'' t (te_abi E (Approve sp (- 1))) []) (\<lambda>_.
     act_bind (url_parsed E rpc) (\<lambda>_. act_bind (transmit E ''approve tx'' ''approve receipt''
       \<lparr>tx_rpc = rpc, tx_to = t, tx_data = te_abi E (Approve sp (- 1)), tx_value = 0\<rparr>)
       (\<lambda>(h, ok). if ok then act_ret () else act_fail ''approve tx reverted on-chain'')))"
  have "clean E (?b t sp)" for t sp
    by (rule clean_guarded [where r = rpc and v = 0]) (auto intro!: clean_bind clean_transmit)
  then have "clean E (\<lambda>s. if amount \<le> last_word 0 (te_allowance E rpc t sp s) then (Inr (), s) else ?b t sp s)" for t sp
    by (simp add: clean_def)
  then show ?thesis unfolding ensure_allowance_def Let_def by (intro clean_bind) simp_all
qed

lemmas clean_parts = clean_send_raw clean_send_raw_value clean_ensure_allowance

lemma clean_read: "(\<And>a. clean E (m a)) \<Longrightarrow> clean E (\<lambda>s. m (g s) s)"
  by (simp add: clean_def)

lemma clean_mayan_token: "clean E (mayan_token_tx E c raw sol token)"
proof -
  let ?m = "\<lambda>order. if rpc_for c = [] then act_fail ''no RPC configured''
      else act_bind (act_opt ''invalid Solana base58 address'' (te_bs58 E sol)) (\<lambda>dest.
           if length dest \<noteq> 32 then act_fail ''Solana address must be 32 bytes''
           else act_bind (act_opt ''parse tokenIn addr'' (te_addr E token)) (\<lambda>token_in.
                   act_bind (act_opt ''parse forwarder addr'' (te_addr E mayan_forwarder)) (\<lambda>forwarder.
                   act_bind (act_opt ''parse MayanSwift addr'' (te_addr E mayan_swift)) (\<lambda>swift.
                   act_bind (act_context ''approve MayanForwarder''
                     (ensure_allowance E token (te_addr_text E forwarder) (ucast raw) (rpc_for c))) (\<lambda>_.
                   send_raw E (rpc_for c) (te_addr_text E forwarder) (cx_encode (te_codec E)
                     (te_abi E (ForwardERC20 token_in (ucast raw) swift
                       (te_abi E (CreateOrderWithToken token_in (ucast raw) (order dest) [])))))))))) "
  have "clean E (?m order)" for order
    by (intro clean_if clean_bind) (simp_all add: clean_parts)
  then have "clean E (\<lambda>s. ?m (\<lambda>dest. mayan_order_of E raw dest s) s)" by (rule clean_read)
  moreover have "(\<lambda>s. ?m (\<lambda>dest. mayan_order_of E raw dest s) s) = mayan_token_tx E c raw sol token"
    unfolding mayan_token_tx_def Let_def by (simp add: fun_eq_iff act_fail_def)
  ultimately show ?thesis by simp
qed

lemma clean_swap_eth: "clean E (swap_eth_tx E c wei usdc weth router)"
  unfolding swap_eth_tx_def Let_def
  by (rule clean_guarded [where r = "rpc_for c" and v = "ucast wei"]) (auto intro!: clean_bind clean_transmit)

lemma clean_mayan_eth: "clean E (mayan_eth_tx E c wei sol usdc_addr weth_addr router_addr)"
proof -
  have "clean E (\<lambda>s1. let bal = last_word (ucast (usdc_expected E wei)) (te_balance E (rpc_for c) usdc s1);
               amount = bridge_amount (usdc_expected E wei) bal
           in if amount = 0 then (Inl ''USDC balance is zero after swap'', s1)
              else mayan_token_tx E c (ucast amount) sol usdc_addr s1)" for usdc
    using clean_mayan_token [of E c _ sol usdc_addr] by (simp add: clean_def Let_def)
  then have "clean E (act_bind (act_opt ''parse WETH'' (te_addr E weth_addr)) (\<lambda>weth.
       act_bind (act_opt ''parse USDC'' (te_addr E usdc_addr)) (\<lambda>usdc.
       act_bind (act_opt ''parse router'' (te_addr E router_addr)) (\<lambda>router.
       act_bind (swap_eth_tx E c wei usdc weth router) (\<lambda>_ s1.
           let bal = last_word (ucast (usdc_expected E wei)) (te_balance E (rpc_for c) usdc s1);
               amount = bridge_amount (usdc_expected E wei) bal
           in if amount = 0 then (Inl ''USDC balance is zero after swap'', s1)
              else mayan_token_tx E c (ucast amount) sol usdc_addr s1)))))"
    by (intro clean_bind) (simp_all add: clean_swap_eth)
  then show ?thesis by (cases "rpc_for c = []") (auto simp: clean_def mayan_eth_tx_def)
qed

lemma clean_debridge: "clean E (execute_debridge_tx E c token dst raw)"
  unfolding execute_debridge_tx_def by (intro clean_bind) (simp_all add: clean_parts)

lemma clean_stable_bridge: "clean E (stable_bridge_tx E c token dst raw)"
proof -
  have "clean E (execute_across_deposit E c token t dst raw fees)" for t fees
    unfolding execute_across_deposit_def by (intro clean_bind) (simp_all add: clean_parts)
  then show ?thesis unfolding stable_bridge_tx_def
    by (intro clean_bind) (auto simp: clean_debridge split: option.split)
qed

lemma clean_perform: "clean E (perform E t)"
proof (cases t)
  case (Tx_Gas_Topup c token dst raw)
  then show ?thesis
    by (auto simp: perform_def execute_gas_topup_def clean_parts intro!: clean_bind clean_each)
next
  case (Tx_Native_Sweep c wei dst)
  then show ?thesis
    by (auto simp: perform_def native_sweep_tx_def clean_parts intro!: clean_bind clean_each)
next
  case (Tx_Swap_Usdt raw)
  then show ?thesis
    by (auto simp: perform_def execute_usdt_to_eth_swap_def Let_def clean_parts intro!: clean_bind)
qed (simp_all add: perform_def unwrap_weth_tx_def clean_parts clean_stable_bridge clean_mayan_token clean_mayan_eth)

text \<open>C5. Whatever the bridge APIs answer, every transaction the rebalancer hands to a node passed the guard: its
  target is the solver or a listed contract, or a listed token called with \<open>approve\<close>.\<close>

theorem rebalancer_transactions_guarded:
  "list_all (tx_passes E) (perform_all E ts [])"
proof -
  have "list_all (tx_passes E) s \<Longrightarrow> list_all (tx_passes E) (perform_all E ts s)" for s
  proof (induction ts arbitrary: s)
    case (Cons t ts)
    obtain new where "snd (perform E t s) = s @ new" "list_all (tx_passes E) new"
      using clean_perform [of E t] by (auto simp: clean_def)
    then show ?case using Cons by simp
  qed simp
  then show ?thesis by simp
qed

section \<open>What single transfers do\<close>

lemma act_bind_simps:
  "act_bind (act_opt e (Some a)) f s = f a s" "act_bind (act_opt e None) f s = (Inl e, s)"
  "act_bind (act_ret a) f s = f a s" "act_bind (act_fail e) f s = (Inl e, s)"
  "te_url_ok E rpc \<Longrightarrow> act_bind (url_parsed E rpc) g s = g () s"
  by (simp_all add: act_bind_def act_opt_def act_ret_def act_fail_def url_parsed_def)

lemma act_bind_transmit:
  "te_node E t s = Receipt h ok \<Longrightarrow> act_bind (transmit E e1 e2 t) f s = f (h, ok) (s @ [t])"
  by (simp add: act_bind_def transmit_def)

lemma act_bind_context: "act_bind (act_context e m) f s =
    (case m s of (Inl _, s1) \<Rightarrow> (Inl e, s1) | (Inr a, s1) \<Rightarrow> f a s1)"
  by (simp add: act_bind_def act_context_def split: prod.split sum.split)

definition approval :: "tx_env \<Rightarrow> string \<Rightarrow> evm_addr \<Rightarrow> evm_addr \<Rightarrow> chain_tx" where
  "approval E rpc token spender = \<lparr>tx_rpc = rpc, tx_to = token, tx_data = te_abi E (Approve spender (- 1)), tx_value = 0\<rparr>"

abbreviation guard_of :: "tx_env \<Rightarrow> tx_guard" where "guard_of E \<equiv> with_default_tokens (te_solver E) []"

lemma check_unlisted: "a \<notin> open_targets g \<union> set (tg_tokens g) \<Longrightarrow> check g a d [] = Inl (UnknownTarget a)"
  by (simp add: check_def open_targets_def)

lemma check_token: "t \<in> set (tg_tokens g) \<Longrightarrow> is_approve_calldata d \<Longrightarrow> check g t d [] = Inr ()"
  by (simp add: check_def)

lemma check_open: "a \<in> open_targets g \<Longrightarrow> check g a d [] = Inr ()"
  by (auto simp: check_def open_targets_def)

text \<open>The allowance step, when its texts are addresses and the node's address is well formed.\<close>

lemma ensure_allowance_cases:
  assumes "te_addr E token = Some t" "te_addr E spender = Some sp" "te_url_ok E rpc"
  shows "ensure_allowance E token spender amount rpc s =
    (if amount \<le> last_word 0 (te_allowance E rpc t sp s) then (Inr (), s)
     else case check (guard_of E) t (te_abi E (Approve sp (- 1))) [] of
            Inl _ \<Rightarrow> (Inl ''tx_guard blocked ensure_allowance'', s)
          | Inr _ \<Rightarrow>
              (case te_node E (approval E rpc t sp) s of
                 Refused \<Rightarrow> (Inl ''approve tx'', s @ [approval E rpc t sp])
               | NoReceipt h \<Rightarrow> (Inl ''approve receipt'', s @ [approval E rpc t sp])
               | Receipt h ok \<Rightarrow> (if ok then Inr () else Inl ''approve tx reverted on-chain'', s @ [approval E rpc t sp])))"
  unfolding ensure_allowance_def Let_def
  by (simp add: assms act_bind_simps guarded_bind approval_def act_bind_def [of "transmit _ _ _ _"] transmit_def act_ret_def
      act_fail_def split: sum.split node_reply.split)

text \<open>An answer of the deBridge API that names an unlisted contract is blocked only after that contract has
  been approved to draw the whole balance of the token: the guard never looks at the spender of an approval.\<close>

theorem unlisted_spender_approved:
  assumes "te_addr E token = Some t" "debridge_dst_usdc dst = Some usdc" "te_dln E c t raw dst usdc = Some r"
    and "te_addr E (dl_to r) = Some a" "a \<notin> open_targets (guard_of E) \<union> set (tg_tokens (guard_of E))"
    and "t \<in> set (tg_tokens (guard_of E))" "is_approve_calldata (te_abi E (Approve a (- 1)))"
    and "te_url_ok E (rpc_for c)" "last_word 0 (te_allowance E (rpc_for c) t a s) < ucast raw"
    and "te_node E (approval E (rpc_for c) t a) s = Receipt h True"
    and "cx_decode (te_codec E) (trim_start_str ''0x'' (trim_start_str ''0x'' (dl_data r))) = Some b"
  shows "execute_debridge_tx E c token dst raw s
     = (Inl ''tx_guard blocked send_raw_value'', s @ [approval E (rpc_for c) t a])"
proof -
  have "ensure_allowance E token (dl_to r) (ucast raw) (rpc_for c) s = (Inr (), s @ [approval E (rpc_for c) t a])"
    using assms(9) by (simp add: ensure_allowance_cases [OF assms(1,4,8)] check_token [OF assms(6,7)] assms(10))
  moreover have "send_raw_value E (rpc_for c) (dl_to r) (trim_start_str ''0x'' (dl_data r)) v s1
      = (Inl ''tx_guard blocked send_raw_value'', s1)" for v s1
    by (simp add: send_raw_value_def assms(4,11) act_bind_simps guarded_bind check_unlisted [OF assms(5)])
  ultimately show ?thesis
    by (simp add: execute_debridge_tx_def assms(1-3) act_bind_simps act_bind_context)
qed

text \<open>The deposit of a quote.\<close>

definition deposit_tx :: "tx_env \<Rightarrow> u64 \<Rightarrow> evm_addr \<Rightarrow> evm_addr \<Rightarrow> u64 \<Rightarrow> u128 \<Rightarrow> fees_resp \<Rightarrow> chain_tx" where
  "deposit_tx E c spoke token dst raw fees =
     \<lparr>tx_rpc = rpc_for c, tx_to = spoke, tx_data = te_abi E (DepositV3
       \<lparr>dv_depositor = te_solver E, dv_recipient = te_solver E, dv_input_token = token,
        dv_output_token = or_zero (te_addr E (fe_token fees)), dv_input = ucast raw,
        dv_output = or_zero (te_u256 E (fe_output fees)), dv_dst = ucast dst,
        dv_relayer = or_zero (te_addr E (fe_relayer fees)),
        dv_quote_ts = of_nat (case parse_unsigned (2 ^ 32 - 1) (fe_timestamp fees) of None \<Rightarrow> 0 | Some n \<Rightarrow> n),
        dv_fill_deadline = fe_fill_deadline fees, dv_excl_deadline = fe_excl_deadline fees, dv_message = []\<rparr>), tx_value = 0\<rparr>"

lemma spoke_listed: "spoke_pool c = Some a \<Longrightarrow> a \<in> open_targets g"
  by (auto simp: spoke_pool_def open_targets_def across_spoke_pools_def split: if_splits)

text \<open>C26. A stable bridge with a usable Across quote, of a token the guard lists and over nodes that answer every transaction
  with a receipt, sends in this order an approval of the spoke pool of the source chain, if the allowance is too small, and
  the deposit, and nothing else.  The deposit is of the amount and token asked, from and for the solver itself, to the destination
  asked, with the output, relayer and deadlines of the quote and without value or message.  A failed approval leaves no deposit, and
  the result is the hash of the deposit exactly when it succeeds.\<close>

theorem across_bridge_effect:
  assumes "te_addr E token = Some t" "usable_quote E c (te_fees E c t dst raw) = Some fees"
    and "t \<in> set (tg_tokens (guard_of E))" "\<And>sp. is_approve_calldata (te_abi E (Approve sp (- 1)))"
    and "\<And>a. te_addr E (te_addr_text E a) = Some a" "codec_ok (te_codec E)" "te_url_ok E (rpc_for c)"
    and "spoke_pool c = Some spoke"
    and "\<And>x l. te_node E x l = Receipt (hash x) (ok x)"
  shows "stable_bridge_tx E c token dst raw s =
    (let ask = last_word 0 (te_allowance E (rpc_for c) t spoke s) < ucast raw;
         app = approval E (rpc_for c) t spoke; dep = deposit_tx E c spoke t dst raw fees
     in if ask \<and> \<not> ok app then (Inl ''approval for stable bridge'', s @ [app])
        else (if ok dep then Inr (hash dep) else Inl (''reverted: '' @ hash dep),
              s @ (if ask then [app, dep] else [dep])))"
proof -
  let ?ask = "last_word 0 (te_allowance E (rpc_for c) t spoke s) < ucast raw"
  let ?app = "approval E (rpc_for c) t spoke" and ?dep = "deposit_tx E c spoke t dst raw fees"
  have ens: "ensure_allowance E token (te_addr_text E spoke) (ucast raw) (rpc_for c) s =
      (if ?ask then (if ok ?app then Inr () else Inl ''approve tx reverted on-chain'', s @ [?app]) else (Inr (), s))"
    by (simp add: ensure_allowance_cases [OF assms(1,5,7)] check_token [OF assms(3,4)] assms(9) not_le [symmetric])
  have "trim_start_str ''0x'' (cx_encode (te_codec E) x) = cx_encode (te_codec E) x" for x
    using assms(6) trim_start_no_prefix by (simp add: codec_ok_def)
  then have dec: "cx_decode (te_codec E) (trim_start_str ''0x'' (cx_encode (te_codec E) x)) = Some x" for x
    using assms(6) by (simp add: codec_ok_def)
  have raw: "send_raw E (rpc_for c) (te_addr_text E spoke) (cx_encode (te_codec E) x) s1 =
      (let dep = \<lparr>tx_rpc = rpc_for c, tx_to = spoke, tx_data = x, tx_value = 0\<rparr>
       in (if ok dep then Inr (hash dep) else Inl (''reverted: '' @ hash dep), s1 @ [dep]))" for x s1
    by (simp add: send_raw_def send_raw_value_def assms(5) dec act_bind_simps(1) guarded_bind
        check_open [OF spoke_listed [OF assms(8)]] act_bind_simps(5) [OF assms(7)] act_bind_transmit [OF assms(9)]
        act_ret_def act_fail_def Let_def)
  show ?thesis
    by (simp add: stable_bridge_tx_def execute_across_deposit_def assms(1,2,8) act_bind_simps act_bind_context ens raw
        deposit_tx_def Let_def)
qed

text \<open>The tokens of the portfolio that the guard does not list: USDT on Arbitrum, Optimism, Ethereum and Polygon.\<close>

definition unlisted_usdt :: "evm_addr list" where
  "unlisted_usdt =
     [0xfd086bc7cd5c481dcc9c85ebe478a1c0b69fcbb9, 0x94b008aa00579c1307b0ef2c499ad98a8ce58e58,
      0xdac17f958d2ee523a2206206994597c13d831ec7, 0xc2132d05d31c914a87c6611c10748aeb04b58e8f]"

lemma unlisted_usdt_blocked:
  assumes "t \<in> set unlisted_usdt" "te_solver E \<notin> set unlisted_usdt"
  shows "check (guard_of E) t d [] = Inl (UnknownTarget t)"
proof -
  have "t \<notin> set across_spoke_pools" "t \<notin> set debridge_dln_contracts" "t \<notin> set mayan_contracts"
    "t \<notin> set uniswap_routers" "t \<notin> set weth_contracts" "t \<notin> set (tg_tokens (guard_of E))"
    using assms(1)
    by (auto simp: unlisted_usdt_def across_spoke_pools_def debridge_dln_contracts_def mayan_contracts_def
        uniswap_routers_def weth_contracts_def with_default_tokens_def tx_guard_new_def)
  moreover have "t \<noteq> te_solver E" using assms by blast
  ultimately show ?thesis
    by (intro check_unlisted) (simp add: open_targets_def with_default_tokens_def tx_guard_new_def)
qed

lemma ensure_allowance_blocked:
  assumes "te_addr E token = Some t" "t \<in> set unlisted_usdt" "te_solver E \<notin> set unlisted_usdt"
    and "\<And>sp. last_word 0 (te_allowance E rpc t sp s) < amount"
  shows "\<exists>e. ensure_allowance E token spender amount rpc s = (Inl e, s)"
proof (cases "te_addr E spender = None \<or> \<not> te_url_ok E rpc")
  case True
  then show ?thesis
    by (cases "te_addr E spender")
      (simp_all add: ensure_allowance_def assms(1) act_bind_simps act_bind_def [of "url_parsed _ _"] url_parsed_def act_fail_def)
next
  case False
  then obtain sp where sp: "te_addr E spender = Some sp" "te_url_ok E rpc" by auto
  show ?thesis
    using assms(4) [of sp]
    by (simp add: ensure_allowance_cases [OF assms(1) sp] unlisted_usdt_blocked [OF assms(2,3)] not_le [symmetric])
qed

text \<open>The tether balances of Arbitrum, Optimism, Ethereum and Polygon are scanned and planned with, but without
  an allowance from elsewhere no bridge of them sends anything: the guard blocks the approval in every cycle.\<close>

theorem unlisted_token_never_bridged:
  assumes "te_addr E token = Some t" "t \<in> set unlisted_usdt" "te_solver E \<notin> set unlisted_usdt"
    and "\<And>sp. last_word 0 (te_allowance E (rpc_for c) t sp s) < ucast raw"
  shows "\<exists>e. stable_bridge_tx E c token dst raw s = (Inl e, s)"
proof -
  have ens: "\<exists>e. ensure_allowance E token spender (ucast raw) (rpc_for c) s = (Inl e, s)" for spender
    using ensure_allowance_blocked [OF assms] by blast
  have "\<exists>e. execute_across_deposit E c token t dst raw fees s = (Inl e, s)" for fees
  proof (cases "spoke_pool c")
    case None
    then show ?thesis by (simp add: execute_across_deposit_def act_bind_simps)
  next
    case (Some sp)
    obtain e where "ensure_allowance E token (te_addr_text E sp) (ucast raw) (rpc_for c) s = (Inl e, s)" using ens by blast
    then show ?thesis using Some by (simp add: execute_across_deposit_def act_bind_simps act_bind_context)
  qed
  moreover have "\<exists>e. execute_debridge_tx E c token dst raw s = (Inl e, s)"
  proof (cases "debridge_dst_usdc dst")
    case None
    then show ?thesis by (simp add: execute_debridge_tx_def assms(1) act_bind_simps)
  next
    case (Some usdc)
    show ?thesis
    proof (cases "te_dln E c t raw dst usdc")
      case (Some r)
      obtain e where "ensure_allowance E token (dl_to r) (ucast raw) (rpc_for c) s = (Inl e, s)" using ens by blast
      then show ?thesis
        using Some \<open>debridge_dst_usdc dst = Some usdc\<close>
        by (simp add: execute_debridge_tx_def assms(1) act_bind_simps act_bind_context)
    qed (simp add: execute_debridge_tx_def assms(1) Some act_bind_simps)
  qed
  ultimately show ?thesis
    by (auto simp: stable_bridge_tx_def assms(1) act_bind_simps act_fail_def act_context_def split: option.split)
qed

section \<open>A sample environment\<close>

definition sample_token :: evm_addr where "sample_token = 0x833589fcd6edb6e08f4c7c32d4f71b54bda02913"

definition sample_tx_env :: "evm_addr \<Rightarrow> dln_resp option \<Rightarrow> fees_resp option \<Rightarrow> tx_env" where
  "sample_tx_env token dln fees =
     \<lparr>te_solver = 5, te_addr = (\<lambda>s. if s = ''token'' then Some token else map_option (\<lambda>b. of_nat (be_val b)) (hex_decode s)),
      te_addr_text = (\<lambda>a. hex_encode (be_enc 20 (unat a))), te_url_ok = (\<lambda>_. True), te_codec = hex_codec,
      te_bs58 = (\<lambda>_. None), te_u256 = (\<lambda>_. Some 990), te_u256_hex = (\<lambda>_. None),
      te_abi = (\<lambda>c. case c of Approve sp n \<Rightarrow> approve_selector | _ \<Rightarrow> [1]), te_var = (\<lambda>_. None),
      te_secs = (\<lambda>_. 7), te_nanos = (\<lambda>_. 7), te_fees = (\<lambda>_ _ _ _. fees), te_gas_swap = (\<lambda>_ _ _ _. None),
      te_native_swap = (\<lambda>_ _ _ _. None), te_dln = (\<lambda>_ _ _ _ _. dln), te_allowance = (\<lambda>_ _ _ _. None),
      te_balance = (\<lambda>_ _ _. None), te_node = (\<lambda>_ _. Receipt ''0xh'' True)\<rparr>"

lemma sample_tx_env_simps [simp]:
  "te_solver (sample_tx_env t d f) = 5" "te_addr (sample_tx_env t d f) ''token'' = Some t"
  "te_url_ok (sample_tx_env t d f) u" "te_codec (sample_tx_env t d f) = hex_codec"
  "te_abi (sample_tx_env t d f) (Approve sp n) = approve_selector"
  "te_dln (sample_tx_env t d f) c tk raw dst u = d" "te_fees (sample_tx_env t d f) c tk dst raw = f"
  "te_allowance (sample_tx_env t d f) u tk sp s = None" "te_node (sample_tx_env t d f) x l = Receipt ''0xh'' True"
  "te_u256 (sample_tx_env t d f) w = Some 990"
  by (simp_all add: sample_tx_env_def)

lemma sample_addr_text: "te_addr (sample_tx_env t d f) (te_addr_text (sample_tx_env t d f) a) = Some a"
proof -
  have "hex_decode (hex_encode b) = Some b" for b using hex_codec_ok by (simp add: codec_ok_def hex_codec_def)
  moreover have "hex_encode b \<noteq> ''token''" for b
    using hex_codec_ok calculation [of b] by (auto simp: hex_digit_def Let_def split: option.splits)
  moreover have "unat a < 256 ^ 20" using unsigned_less [of a] by simp
  ultimately show ?thesis
    by (simp add: sample_tx_env_def be_val_be_enc del: be_enc.simps)
qed

lemma approve_ok: "is_approve_calldata approve_selector"
  by (simp add: is_approve_calldata_def approve_selector_def)

lemma sample_listed: "sample_token \<in> set (tg_tokens (with_default_tokens 5 []))"
  by (simp add: sample_token_def with_default_tokens_def tx_guard_new_def)

theorem unlisted_spender_approved_witness:
  "execute_debridge_tx (sample_tx_env sample_token (Some \<lparr>dl_to = ''0b'', dl_data = [], dl_value = None\<rparr>) None) 42161 ''token'' 8453 1000 []
   = (Inl ''tx_guard blocked send_raw_value'',
      [approval (sample_tx_env sample_token (Some \<lparr>dl_to = ''0b'', dl_data = [], dl_value = None\<rparr>) None) (rpc_for 42161) sample_token 11])"
proof -
  let ?E = "sample_tx_env sample_token (Some \<lparr>dl_to = ''0b'', dl_data = [], dl_value = None\<rparr>) None"
  have a: "te_addr ?E ''0b'' = Some 11" by (simp add: sample_tx_env_def hex_digit_def be_val_def)
  have u: "11 \<notin> open_targets (guard_of ?E) \<union> set (tg_tokens (guard_of ?E))"
    by (simp add: open_targets_def with_default_tokens_def tx_guard_new_def across_spoke_pools_def
        debridge_dln_contracts_def mayan_contracts_def uniswap_routers_def weth_contracts_def)
  have d: "cx_decode hex_codec (trim_start_str ''0x'' (trim_start_str ''0x'' [])) = Some []"
    by (simp add: hex_codec_def trim_start_str.simps starts_with_def)
  show ?thesis
    using unlisted_spender_approved [of ?E "''token''" sample_token 8453 _ 42161 1000 "\<lparr>dl_to = ''0b'', dl_data = [], dl_value = None\<rparr>" 11 "[]" "''0xh''" "[]"] u
    by (simp add: a d approve_ok sample_listed debridge_dst_usdc_def last_word_def)
qed

definition sample_fees :: fees_resp where
  "sample_fees = \<lparr>fe_output = ''990'', fe_timestamp = ''7'', fe_fill_deadline = 8, fe_relayer = [], fe_excl_deadline = 0, fe_token = []\<rparr>"

theorem across_bridge_effect_witness:
  "stable_bridge_tx (sample_tx_env sample_token None (Some sample_fees)) 42161 ''token'' 8453 1000 [] =
    (Inr ''0xh'', [approval (sample_tx_env sample_token None (Some sample_fees)) (rpc_for 42161) sample_token 0xe35e9842fceaca96570b734083f4a58e8f7c5f2a,
       deposit_tx (sample_tx_env sample_token None (Some sample_fees)) 42161 0xe35e9842fceaca96570b734083f4a58e8f7c5f2a sample_token 8453 1000 sample_fees])"
proof -
  let ?E = "sample_tx_env sample_token None (Some sample_fees)"
  have q: "usable_quote ?E 42161 (te_fees ?E 42161 sample_token 8453 1000) = Some sample_fees"
    by (simp add: usable_quote_def or_zero_def spoke_pool_def)
  show ?thesis
    using across_bridge_effect [of ?E "''token''" sample_token 42161 8453 1000 sample_fees
        "0xe35e9842fceaca96570b734083f4a58e8f7c5f2a" "\<lambda>_. ''0xh''" "\<lambda>_. True" "[]"] q
    by (simp add: approve_ok sample_listed sample_addr_text hex_codec_ok spoke_pool_def last_word_def Let_def)
qed

theorem unlisted_token_never_bridged_witness:
  "\<exists>e. stable_bridge_tx (sample_tx_env 0xfd086bc7cd5c481dcc9c85ebe478a1c0b69fcbb9 None (Some sample_fees)) 42161 ''token'' 8453 1000 [] = (Inl e, [])"
  by (rule unlisted_token_never_bridged [where t = "0xfd086bc7cd5c481dcc9c85ebe478a1c0b69fcbb9"]) (simp_all add: unlisted_usdt_def last_word_def)

end
