(* ===== verification/SolanaFills.thy ===== *)
theory SolanaFills
  imports SolanaWire Sse RebalTx
begin

text \<open>
  The Solana fill adapters of \<open>crates/protocol-adapters-solana/src\<close>: the projections of an intent
  (\<open>mayan_solana.rs\<close>, \<open>mayan_flash.rs\<close>, \<open>dln_solana.rs\<close>, \<open>wormhole_ntt.rs\<close>, \<open>relay_solana.rs\<close>), the signing key
  (\<open>send.rs\<close>, \<open>keychain.rs\<close>), the transactions they sign, the broadcast over JSON-RPC and the simulation with
  its classifier (\<open>simulate.rs\<close>).  Base58, hex, base64, SHA-256, the ed25519 key and the replies of the node are
  parameters; error texts are their outermost part.
\<close>

record sol_env =
  se_bs58 :: "string \<Rightarrow> bytes option"
  se_bs58_text :: "bytes \<Rightarrow> string"
  se_hex :: "string \<Rightarrow> bytes option"
  se_b64 :: "string \<Rightarrow> bytes option"
  se_sha256 :: "bytes \<Rightarrow> bytes"
  se_pubkey :: "bytes \<Rightarrow> pubkey"
  se_sign :: "bytes \<Rightarrow> bytes \<Rightarrow> bytes"
  se_on_curve :: "bytes \<Rightarrow> bool"

section \<open>Constants\<close>

definition mayan_swift_program :: string where "mayan_swift_program = ''BLZRi6frs4X4DNLw56V4EXai1b6QVESN1BhHBTYM9VcY''"
definition system_program :: string where "system_program = ''11111111111111111111111111111111''"
definition compute_budget_program :: string where "compute_budget_program = ''ComputeBudget111111111111111111111111111111''"
definition priority_fee :: u64 where "priority_fee = 50000"
definition mayan_flash_program :: string where "mayan_flash_program = ''PLACEHOLDER0MayanFlash0XXXXXXXXXXXXXXXXXXXXXXX''"
definition dln_solana_program :: string where "dln_solana_program = ''dln1xxxxxxxxxxxxxxxxxxxxxxxxxxxxxxxxxxxxxxxxxxxx''"
definition wormhole_ntt_program :: string where "wormhole_ntt_program = ''PLACEHOLDER0WormholeNTT0XXXXXXXXXXXXXXXXXXXXXXX''"
definition flash_compute_units :: u64 where "flash_compute_units = 200000"
definition ntt_compute_units :: u64 where "ntt_compute_units = 250000"

definition mayan_flash_program_ready :: bool where
  "mayan_flash_program_ready \<longleftrightarrow> \<not> contains mayan_flash_program ''PLACEHOLDER''"

definition dln_solana_program_ready :: bool where
  "dln_solana_program_ready \<longleftrightarrow> \<not> contains dln_solana_program ''x''"

section \<open>Decoders and the signing key\<close>

definition decode_b58_32 :: "sol_env \<Rightarrow> string \<Rightarrow> (string, pubkey) res" where
  "decode_b58_32 E s =
     (case se_bs58 E s of
        None \<Rightarrow> Err ''base58 decode''
      | Some b \<Rightarrow> if length b \<noteq> 32 then Err ''expected 32-byte pubkey'' else Ok b)"

definition decode_hex_32 :: "sol_env \<Rightarrow> string \<Rightarrow> (string, bytes) res" where
  "decode_hex_32 E s =
     (case se_hex E (trim_start_str ''0x'' s) of
        None \<Rightarrow> Err ''hex decode''
      | Some b \<Rightarrow> if length b \<noteq> 32 then Err ''expected 32 bytes'' else Ok b)"

definition anchor_discriminator :: "sol_env \<Rightarrow> string \<Rightarrow> bytes" where
  "anchor_discriminator E name = take 8 (se_sha256 E (bytes_of (''global:'' @ name)))"

text \<open>The secret of \<open>SOLANA_PRIVATE_KEY\<close>: base58 of 64 or 32 bytes, else hex of 32.\<close>

definition load_signing_key :: "sol_env \<Rightarrow> string \<Rightarrow> (string, bytes) res" where
  "load_signing_key E raw =
     (let trimmed = trim raw;
          hex_key = (case se_hex E (trim_start_str ''0x'' trimmed) of
             Some b \<Rightarrow> if length b = 32 then Ok b else Err ''SOLANA_PRIVATE_KEY must be base58 or hex''
           | None \<Rightarrow> Err ''SOLANA_PRIVATE_KEY must be base58 or hex'')
      in case se_bs58 E trimmed of
           Some b \<Rightarrow> if length b = 64 then Ok (take 32 b) else if length b = 32 then Ok b else hex_key
         | None \<Rightarrow> hex_key)"

definition from_env :: "sol_env \<Rightarrow> string option \<Rightarrow> (string, bytes) res" where
  "from_env E var = res_bind (ok_or ''SOLANA_PRIVATE_KEY not set'' var) (load_signing_key E)"

text \<open>\<open>load_solana_signer\<close>: the keychain first, when it has a non-empty UTF-8 entry, else the variable.\<close>

definition load_solana_signer :: "sol_env \<Rightarrow> string option \<Rightarrow> string option \<Rightarrow> (string, bytes) res" where
  "load_solana_signer E keychain var =
     (let secret = Option.bind keychain (\<lambda>k. let t = trim k in if t = [] then None else Some t)
      in res_bind (case secret of Some k \<Rightarrow> Ok k | None \<Rightarrow> ok_or ''Solana signer not available'' var) (\<lambda>raw.
         case load_signing_key E raw of Err e \<Rightarrow> Err ''Solana signer secret is not a valid ed25519 key'' | r \<Rightarrow> r))"

definition derive_mayan_vault_pda :: "sol_env \<Rightarrow> string \<Rightarrow> string \<Rightarrow> string option" where
  "derive_mayan_vault_pda E order program =
     Option.bind (se_hex E (trim_start_str ''0x'' order)) (\<lambda>ob.
     if length ob \<noteq> 32 then None
     else Option.bind (se_bs58 E program) (\<lambda>pb.
     if length pb \<noteq> 32 then None
     else map_option (se_bs58_text E) (List.find (\<lambda>d. \<not> se_on_curve E d)
       (map (\<lambda>bump. se_sha256 E (bytes_of ''vault'' @ ob @ [of_nat bump] @ pb @ bytes_of ''ProgramDerivedAddress''))
          (rev [0..<256])))))"

section \<open>Projections of an intent\<close>

record mayan_sol_intent =
  ms_id :: string
  ms_order_hex :: string
  ms_min_out :: u64
  ms_deadline :: u64
  ms_trader :: string
  ms_state :: string
  ms_vault :: string
  ms_program :: string
  ms_units :: u64

definition is_solana_pubkey :: "string \<Rightarrow> bool" where
  "is_solana_pubkey s \<longleftrightarrow> \<not> starts_with s ''0x'' \<and> \<not> starts_with s ''0X'' \<and> 40 < length s"

definition solana_trader :: "feed_intent \<Rightarrow> (string, string) res" where
  "solana_trader it =
     (let raw = or_str (fi_trader it) (i_depositor it)
      in if is_solana_pubkey raw then Ok raw
         else if is_solana_pubkey (i_recipient it) then Ok (i_recipient it)
         else Err ''no Solana trader/recipient pubkey found'')"

text \<open>An amount: an integer text, else a decimal one cut off to an integer.\<close>

definition amount_u64 :: "string \<Rightarrow> (string, u64) res" where
  "amount_u64 raw =
     (case parse_unsigned (2 ^ 64 - 1) raw of
        Some n \<Rightarrow> Ok (of_nat n)
      | None \<Rightarrow> (case parse_f64 raw of None \<Rightarrow> Err ''min_amount_out parse'' | Some f \<Rightarrow> Ok (f_to_u64 f)))"

definition mayan_min_out :: "feed_intent \<Rightarrow> (string, u64) res" where
  "mayan_min_out it =
     (case fi_mayan_min_amount_out it of
        Some v \<Rightarrow> Ok v
      | None \<Rightarrow> amount_u64 (or_str (i_output_amount it) (i_amount it)))"

definition vault_of :: "sol_env \<Rightarrow> feed_intent \<Rightarrow> string \<Rightarrow> string \<Rightarrow> (string, string) res" where
  "vault_of E it order program =
     (case fi_vault_account it of
        Some v \<Rightarrow> Ok v
      | None \<Rightarrow> ok_or ''failed to derive vault PDA'' (derive_mayan_vault_pda E order program))"

definition deadline_of :: "u64 \<Rightarrow> feed_intent \<Rightarrow> u64" where
  "deadline_of now it = (case i_deadline it of Some d \<Rightarrow> d | None \<Rightarrow> now + 3600)"

definition u32_cap :: "u64 \<Rightarrow> u64" where "u32_cap n = min n 0xffffffff"

definition mayan_sol_from_intent :: "sol_env \<Rightarrow> u64 \<Rightarrow> feed_intent \<Rightarrow> (string, mayan_sol_intent) res" where
  "mayan_sol_from_intent E now it =
     res_bind (ok_or ''Mayan Solana estimate requires intent.mayan_order_id'' (i_mayan_order_id it)) (\<lambda>order.
     res_bind (solana_trader it) (\<lambda>trader.
     res_bind (ok_or ''Mayan Solana estimate requires intent.state_account'' (fi_state_account it)) (\<lambda>state.
     let program = or_str (fi_swift_program_id it) mayan_swift_program
     in res_bind (vault_of E it order program) (\<lambda>vault.
        res_bind (mayan_min_out it) (\<lambda>min_out.
        Ok \<lparr>ms_id = i_id it, ms_order_hex = order, ms_min_out = min_out, ms_deadline = deadline_of now it,
            ms_trader = trader, ms_state = state, ms_vault = vault, ms_program = program,
            ms_units = u32_cap (case fi_compute_units it of Some u \<Rightarrow> u | None \<Rightarrow> 240000)\<rparr>)))))"

definition flash_from_intent :: "sol_env \<Rightarrow> u64 \<Rightarrow> feed_intent \<Rightarrow> (string, mayan_sol_intent) res" where
  "flash_from_intent E now it =
     res_bind (ok_or ''Mayan Flash requires intent.mayan_order_id'' (i_mayan_order_id it)) (\<lambda>order.
     res_bind (solana_trader it) (\<lambda>trader.
     res_bind (ok_or ''Mayan Flash requires intent.state_account'' (fi_state_account it)) (\<lambda>state.
     let program = (case fi_swift_program_id it of Some p \<Rightarrow> if p \<noteq> [] then p else mayan_flash_program
                    | None \<Rightarrow> mayan_flash_program)
     in res_bind (vault_of E it order program) (\<lambda>vault.
        res_bind (mayan_min_out it) (\<lambda>min_out.
        Ok \<lparr>ms_id = i_id it, ms_order_hex = order, ms_min_out = min_out, ms_deadline = deadline_of now it,
            ms_trader = trader, ms_state = state, ms_vault = vault, ms_program = program,
            ms_units = (case fi_compute_units it of Some u \<Rightarrow> u | None \<Rightarrow> flash_compute_units)\<rparr>)))))"

record dln_sol_intent =
  ds_id :: string
  ds_order_hex :: string
  ds_take_amount :: u64
  ds_receiver :: string
  ds_mint :: string
  ds_units :: u64

definition dln_sol_from_intent :: "feed_intent \<Rightarrow> (string, dln_sol_intent) res" where
  "dln_sol_from_intent it =
     res_bind (ok_or ''DLN Solana: intent.order_id is required'' (i_order_id it)) (\<lambda>order.
     if length (trim_start_str ''0x'' order) \<noteq> 64 then Err ''DLN Solana: order_id must be 32-byte hex''
     else res_bind (ok_or ''DLN Solana: intent.take_amount is required'' (i_take_amount it)) (\<lambda>take_text.
     res_bind (ok_or ''DLN Solana: take_amount is not a valid u64'' (parse_unsigned (2 ^ 64 - 1) take_text)) (\<lambda>n.
     if starts_with (i_recipient it) ''0x'' \<or> length (i_recipient it) < 32
     then Err ''DLN Solana: intent.recipient is not a Solana base58 pubkey''
     else if starts_with (i_dst_token it) ''0x'' then Err ''DLN Solana: intent.dst_token looks like an EVM address''
     else Ok \<lparr>ds_id = i_id it, ds_order_hex = order, ds_take_amount = of_nat n, ds_receiver = i_recipient it,
              ds_mint = i_dst_token it, ds_units = (case fi_compute_units it of Some u \<Rightarrow> u | None \<Rightarrow> 200000)\<rparr>)))"

record ntt_intent =
  nt_id :: string
  nt_sequence :: u64
  nt_emitter_chain :: u16
  nt_emitter :: string
  nt_recipient :: string
  nt_mint :: string
  nt_amount :: u64
  nt_program :: string
  nt_units :: u64

definition last_number :: "string \<Rightarrow> nat option" where
  "last_number s = parse_unsigned (2 ^ 64 - 1) (last (split_on (\<lambda>c. c = CHR '':'') s))"

definition wormhole_chain :: "u64 \<Rightarrow> u16 option" where
  "wormhole_chain c = map_of [(1, 2), (56, 4), (137, 5), (43114, 6), (42161, 23), (10, 24), (8453, 30)] c"

definition parsed_u64 :: "string \<Rightarrow> u64 option" where
  "parsed_u64 s = map_option of_nat (parse_unsigned (2 ^ 64 - 1) s)"

definition ntt_from_intent :: "feed_intent \<Rightarrow> (string, ntt_intent) res" where
  "ntt_from_intent it =
     res_bind (ok_or ''WormholeNttIntent: cannot parse sequence'' (last_number (i_id it))) (\<lambda>n.
     res_bind (ok_or ''WormholeNttIntent: unknown src_chain'' (wormhole_chain (i_src_chain it))) (\<lambda>chain.
     Ok \<lparr>nt_id = i_id it, nt_sequence = of_nat n, nt_emitter_chain = chain,
         nt_emitter = trim_start_str ''0x'' (i_tx_hash it), nt_recipient = i_recipient it, nt_mint = i_dst_token it,
         nt_amount = (case Option.bind (i_output_amount it) parsed_u64 of
            Some a \<Rightarrow> a | None \<Rightarrow> (case parsed_u64 (i_amount it) of Some a \<Rightarrow> a | None \<Rightarrow> 0)),
         nt_program = wormhole_ntt_program,
         nt_units = u32_cap (case fi_compute_units it of Some u \<Rightarrow> u | None \<Rightarrow> ntt_compute_units)\<rparr>))"

record relay_intent =
  rl_id :: string
  rl_deposit_id :: u64
  rl_input_mint :: string
  rl_output_mint :: string
  rl_input :: u64
  rl_output :: u64
  rl_recipient :: string
  rl_exclusivity :: u64
  rl_fill_deadline :: u64
  rl_units :: u64

definition relay_from_intent :: "feed_intent \<Rightarrow> (string, relay_intent) res" where
  "relay_from_intent it =
     res_bind (ok_or ''RelaySolanaIntent: cannot parse deposit_id'' (last_number (i_id it))) (\<lambda>n.
     Ok \<lparr>rl_id = i_id it, rl_deposit_id = of_nat n, rl_input_mint = i_src_token it, rl_output_mint = i_dst_token it,
         rl_input = (case parsed_u64 (i_amount it) of Some a \<Rightarrow> a | None \<Rightarrow> 0),
         rl_output = (case Option.bind (i_output_amount it) parsed_u64 of Some a \<Rightarrow> a | None \<Rightarrow> 0),
         rl_recipient = i_recipient it, rl_exclusivity = 0,
         rl_fill_deadline = (case i_fill_deadline it of Some d \<Rightarrow> ucast d | None \<Rightarrow> 0), rl_units = 180000\<rparr>)"

section \<open>Transactions\<close>

definition le_bytes :: "nat \<Rightarrow> nat \<Rightarrow> bytes" where
  "le_bytes k n = rev (be_enc k n)"

text \<open>The two compute-budget instructions in front of every fill.\<close>

definition budget_ixs :: "pubkey \<Rightarrow> u64 \<Rightarrow> instruction list" where
  "budget_ixs cb units =
     [(cb, [], 2 # le_bytes 4 (unat (u32_cap units))), (cb, [], 3 # le_bytes 8 (unat priority_fee))]"

definition decoded :: "string \<Rightarrow> (string, 'a) res \<Rightarrow> (string, 'a) res" where
  "decoded e r = (case r of Err _ \<Rightarrow> Err e | x \<Rightarrow> x)"

definition expect :: "(string, 'a) res \<Rightarrow> (string, 'a) res" where
  "expect r = (case r of Err _ \<Rightarrow> Panic | x \<Rightarrow> x)"

definition fulfill_ix :: "sol_env \<Rightarrow> mayan_sol_intent \<Rightarrow> pubkey \<Rightarrow> pubkey \<Rightarrow> pubkey \<Rightarrow> pubkey \<Rightarrow> pubkey \<Rightarrow> pubkey \<Rightarrow> bytes \<Rightarrow> instruction" where
  "fulfill_ix E it payer program state vault trader system order =
     (program,
      [\<lparr>am_pubkey = payer, am_signer = True, am_writable = True\<rparr>,
       \<lparr>am_pubkey = state, am_signer = False, am_writable = True\<rparr>,
       \<lparr>am_pubkey = vault, am_signer = False, am_writable = True\<rparr>,
       \<lparr>am_pubkey = trader, am_signer = False, am_writable = False\<rparr>,
       \<lparr>am_pubkey = system, am_signer = False, am_writable = False\<rparr>],
      anchor_discriminator E ''fulfill'' @ order @ le_bytes 8 (unat (ms_min_out it)) @ le_bytes 8 (unat (ms_deadline it)))"

definition swift_ixs :: "sol_env \<Rightarrow> pubkey \<Rightarrow> mayan_sol_intent \<Rightarrow> (string, instruction list) res" where
  "swift_ixs E payer it =
     res_bind (decoded ''decode swift program id'' (decode_b58_32 E (ms_program it))) (\<lambda>program.
     res_bind (decoded ''decode state account'' (decode_b58_32 E (ms_state it))) (\<lambda>state.
     res_bind (decoded ''decode vault account'' (decode_b58_32 E (ms_vault it))) (\<lambda>vault.
     res_bind (decoded ''decode trader pubkey'' (decode_b58_32 E (ms_trader it))) (\<lambda>trader.
     res_bind (expect (decode_b58_32 E system_program)) (\<lambda>system.
     res_bind (expect (decode_b58_32 E compute_budget_program)) (\<lambda>cb.
     res_bind (decoded ''decode mayan_order_id hex'' (decode_hex_32 E (ms_order_hex it))) (\<lambda>order.
     Ok (budget_ixs cb (ms_units it) @
        [fulfill_ix E it payer program state vault trader system order]))))))))"

definition flash_ixs :: "sol_env \<Rightarrow> pubkey \<Rightarrow> mayan_sol_intent \<Rightarrow> (string, instruction list) res" where
  "flash_ixs E payer it =
     res_bind (decoded ''decode flash program id'' (decode_b58_32 E (ms_program it))) (\<lambda>program.
     res_bind (decoded ''decode vault account'' (decode_b58_32 E (ms_vault it))) (\<lambda>vault.
     res_bind (decoded ''decode state account'' (decode_b58_32 E (ms_state it))) (\<lambda>state.
     res_bind (expect (decode_b58_32 E compute_budget_program)) (\<lambda>cb.
     res_bind (decoded ''decode mayan_order_id hex'' (decode_hex_32 E (ms_order_hex it))) (\<lambda>order.
     Ok (budget_ixs cb (ms_units it) @
        [(program,
          [\<lparr>am_pubkey = payer, am_signer = True, am_writable = True\<rparr>,
           \<lparr>am_pubkey = vault, am_signer = False, am_writable = True\<rparr>,
           \<lparr>am_pubkey = state, am_signer = False, am_writable = True\<rparr>,
           \<lparr>am_pubkey = program, am_signer = False, am_writable = False\<rparr>],
          anchor_discriminator E ''flash_fill'' @ order @ le_bytes 8 (unat (ms_min_out it)) @ le_bytes 8 (unat (ms_deadline it)))]))))))"

definition dln_ixs :: "sol_env \<Rightarrow> pubkey \<Rightarrow> dln_sol_intent \<Rightarrow> (string, instruction list) res" where
  "dln_ixs E payer it =
     res_bind (decoded ''decode DLN Solana program id'' (decode_b58_32 E dln_solana_program)) (\<lambda>program.
     res_bind (expect (decode_b58_32 E compute_budget_program)) (\<lambda>cb.
     res_bind (decoded ''decode order_id hex'' (decode_hex_32 E (ds_order_hex it))) (\<lambda>order.
     res_bind (decoded ''decode receiver pubkey'' (decode_b58_32 E (ds_receiver it))) (\<lambda>receiver.
     Ok (budget_ixs cb (ds_units it) @
        [(program,
          [\<lparr>am_pubkey = payer, am_signer = True, am_writable = True\<rparr>,
           \<lparr>am_pubkey = program, am_signer = False, am_writable = False\<rparr>],
          anchor_discriminator E ''fulfill_order'' @ order @ le_bytes 8 (unat (ds_take_amount it)) @ receiver)])))))"

definition ntt_ixs :: "sol_env \<Rightarrow> pubkey \<Rightarrow> ntt_intent \<Rightarrow> bytes \<Rightarrow> (string, instruction list) res" where
  "ntt_ixs E payer it vaa =
     res_bind (decoded ''ntt program'' (decode_b58_32 E (nt_program it))) (\<lambda>program.
     res_bind (decoded ''compute budget program'' (decode_b58_32 E compute_budget_program)) (\<lambda>cb.
     Ok (budget_ixs cb (nt_units it) @
        [(program, [\<lparr>am_pubkey = payer, am_signer = True, am_writable = True\<rparr>],
          anchor_discriminator E ''release_inbound_mint'' @ le_bytes 2 (unat (of_nat (length vaa) :: u16)) @ vaa)])))"

text \<open>Signed and capped; the transfer of a Wormhole token has no cap.\<close>

definition signed_tx :: "sol_env \<Rightarrow> bytes \<Rightarrow> instruction list \<Rightarrow> bytes \<Rightarrow> (string, bytes) res" where
  "signed_tx E secret ixs blockhash =
     res_bind (build_message_multi (se_pubkey E secret) ixs blockhash) (\<lambda>msg.
     let tx = with_signature (se_sign E secret msg) msg
     in if tx_limit < length tx then Err ''signed tx exceeds the limit'' else Ok tx)"

definition build_signed_tx :: "sol_env \<Rightarrow> bytes \<Rightarrow> mayan_sol_intent \<Rightarrow> bytes \<Rightarrow> (string, bytes) res" where
  "build_signed_tx E secret it blockhash =
     res_bind (swift_ixs E (se_pubkey E secret) it) (\<lambda>ixs. signed_tx E secret ixs blockhash)"

definition build_flash_tx :: "sol_env \<Rightarrow> bytes \<Rightarrow> mayan_sol_intent \<Rightarrow> bytes \<Rightarrow> (string, bytes) res" where
  "build_flash_tx E secret it blockhash =
     res_bind (flash_ixs E (se_pubkey E secret) it) (\<lambda>ixs. signed_tx E secret ixs blockhash)"

definition build_dln_tx :: "sol_env \<Rightarrow> bytes \<Rightarrow> dln_sol_intent \<Rightarrow> bytes \<Rightarrow> (string, bytes) res" where
  "build_dln_tx E secret it blockhash =
     res_bind (dln_ixs E (se_pubkey E secret) it) (\<lambda>ixs. signed_tx E secret ixs blockhash)"

definition build_release_inbound_tx :: "sol_env \<Rightarrow> bytes \<Rightarrow> ntt_intent \<Rightarrow> bytes \<Rightarrow> bytes \<Rightarrow> (string, bytes) res" where
  "build_release_inbound_tx E secret it vaa blockhash =
     res_bind (ntt_ixs E (se_pubkey E secret) it vaa) (\<lambda>ixs.
     res_bind (build_message_multi (se_pubkey E secret) ixs blockhash) (\<lambda>msg.
     Ok (1 # se_sign E secret msg @ msg)))"

text \<open>The unsigned twin of \<open>build_signed_tx\<close> that is simulated (before base64).\<close>

definition build_simulate_tx :: "sol_env \<Rightarrow> string \<Rightarrow> mayan_sol_intent \<Rightarrow> (string, bytes) res" where
  "build_simulate_tx E payer_text it =
     res_bind (decoded ''decode payer pubkey'' (decode_b58_32 E payer_text)) (\<lambda>payer.
     res_bind (swift_ixs E payer it) (serialize_legacy_transaction_multi payer))"

section \<open>The node\<close>

record rpc_reply =
  hr_ok :: bool
  hr_json :: "json option"

definition reply_blockhash :: "sol_env \<Rightarrow> json \<Rightarrow> (string, bytes) res" where
  "reply_blockhash E v =
     (case Option.bind (Option.bind (jget ''result'' v) (jget ''value'')) (jstr ''blockhash'') of
        None \<Rightarrow> Err ''getLatestBlockhash: missing result.value.blockhash''
      | Some s \<Rightarrow>
          (case se_bs58 E s of
             None \<Rightarrow> Err ''blockhash base58 decode''
           | Some b \<Rightarrow> if length b \<noteq> 32 then Err ''blockhash wrong length'' else Ok b))"

definition get_latest_blockhash :: "sol_env \<Rightarrow> rpc_reply option \<Rightarrow> (string, bytes) res" where
  "get_latest_blockhash E reply =
     (case reply of
        None \<Rightarrow> Err ''getLatestBlockhash HTTP''
      | Some r \<Rightarrow>
          if \<not> hr_ok r then Err ''getLatestBlockhash HTTP status''
          else (case hr_json r of None \<Rightarrow> Err ''getLatestBlockhash parse'' | Some v \<Rightarrow> reply_blockhash E v))"

definition send_raw_transaction :: "rpc_reply option \<Rightarrow> (string, string) res" where
  "send_raw_transaction reply =
     (case reply of
        None \<Rightarrow> Err ''sendTransaction HTTP''
      | Some r \<Rightarrow>
          (case hr_json r of
             None \<Rightarrow> Err ''sendTransaction parse''
           | Some v \<Rightarrow>
               if jget ''error'' v \<noteq> None then Err ''sendTransaction RPC error''
               else if \<not> hr_ok r then Err ''sendTransaction HTTP status''
               else ok_or ''sendTransaction: missing result (signature)'' (jstr ''result'' v)))"

text \<open>A broadcast: blockhash, transaction, send; the transactions handed to the node.\<close>

definition send_built ::
    "sol_env \<Rightarrow> (bytes \<Rightarrow> (string, bytes) res) \<Rightarrow> rpc_reply option \<Rightarrow> (bytes \<Rightarrow> rpc_reply option)
       \<Rightarrow> (string, string) res \<times> bytes list" where
  "send_built E build hash_reply node =
     (case res_bind (decoded ''getLatestBlockhash RPC'' (get_latest_blockhash E hash_reply))
             (\<lambda>h. decoded ''build signed tx'' (build h)) of
        Err e \<Rightarrow> (Err e, [])
      | Panic \<Rightarrow> (Panic, [])
      | Ok tx \<Rightarrow> (decoded ''sendTransaction RPC'' (send_raw_transaction (node tx)), [tx]))"

definition send_fulfill :: "sol_env \<Rightarrow> bytes \<Rightarrow> mayan_sol_intent \<Rightarrow> rpc_reply option \<Rightarrow> (bytes \<Rightarrow> rpc_reply option)
       \<Rightarrow> (string, string) res \<times> bytes list" where
  "send_fulfill E secret it = send_built E (build_signed_tx E secret it)"

definition send_flash_fill :: "sol_env \<Rightarrow> bytes \<Rightarrow> mayan_sol_intent \<Rightarrow> rpc_reply option \<Rightarrow> (bytes \<Rightarrow> rpc_reply option)
       \<Rightarrow> (string, string) res \<times> bytes list" where
  "send_flash_fill E secret it = send_built E (build_flash_tx E secret it)"

definition send_dln_fulfill :: "sol_env \<Rightarrow> bytes \<Rightarrow> dln_sol_intent \<Rightarrow> rpc_reply option \<Rightarrow> (bytes \<Rightarrow> rpc_reply option)
       \<Rightarrow> (string, string) res \<times> bytes list" where
  "send_dln_fulfill E secret it = send_built E (build_dln_tx E secret it)"

definition fetch_vaa :: "rpc_reply option \<Rightarrow> (string, string) res" where
  "fetch_vaa reply =
     (case reply of
        None \<Rightarrow> Err ''wormholescan GET''
      | Some r \<Rightarrow>
          if \<not> hr_ok r then Err ''wormholescan returned''
          else (case hr_json r of
                  None \<Rightarrow> Err ''wormholescan JSON''
                | Some v \<Rightarrow> ok_or ''wormholescan response missing vaaBytes'' (jstr ''vaaBytes'' v)))"

definition reply_json :: "rpc_reply option \<Rightarrow> (string, json) res" where
  "reply_json reply = ok_or ''rpc'' (Option.bind reply hr_json)"

definition send_release_inbound ::
    "sol_env \<Rightarrow> bytes \<Rightarrow> ntt_intent \<Rightarrow> rpc_reply option \<Rightarrow> rpc_reply option \<Rightarrow> (bytes \<Rightarrow> rpc_reply option)
       \<Rightarrow> (string, string) res \<times> bytes list" where
  "send_release_inbound E secret it vaa_reply hash_reply node =
     (case res_bind (fetch_vaa vaa_reply) (\<lambda>text.
           res_bind (ok_or ''decode VAA base64'' (se_b64 E text)) (\<lambda>vaa.
           res_bind (res_bind (reply_json hash_reply) (reply_blockhash E)) (\<lambda>h.
           build_release_inbound_tx E secret it vaa h))) of
        Err e \<Rightarrow> (Err e, [])
      | Panic \<Rightarrow> (Panic, [])
      | Ok tx \<Rightarrow> (res_bind (reply_json (node tx)) (\<lambda>v. ok_or ''sendTransaction: no result'' (jstr ''result'' v)), [tx]))"
section \<open>What the validator reads\<close>

lemma decode_b58_32_length: "decode_b58_32 E s = Ok b \<Longrightarrow> length b = 32"
  by (auto simp: decode_b58_32_def split: option.splits if_splits)

lemma decode_hex_32_length: "decode_hex_32 E s = Ok b \<Longrightarrow> length b = 32"
  by (auto simp: decode_hex_32_def split: option.splits if_splits)

lemma decoded_Ok [simp]: "decoded e r = Ok b \<longleftrightarrow> r = Ok b"
  by (cases r) (auto simp: decoded_def)

lemma decoded_simps [simp]: "decoded e (Ok b) = Ok b" "decoded e (Err x) = Err e" "decoded e Panic = Panic"
  by (simp_all add: decoded_def)

lemma expect_Ok [simp]: "expect r = Ok b \<longleftrightarrow> r = Ok b"
  by (cases r) (auto simp: expect_def)

text \<open>What the key and its signatures promise.\<close>

definition key_ok :: "sol_env \<Rightarrow> bytes \<Rightarrow> bool" where
  "key_ok E secret \<longleftrightarrow> length (se_pubkey E secret) = 32 \<and> (\<forall>msg. length (se_sign E secret msg) = 64)"

lemma signed_tx_Ok: "signed_tx E secret ixs h = Ok tx \<Longrightarrow>
    let b = sort_accounts (se_pubkey E secret) ixs; msg = enc_message b ixs h
    in tx = with_signature (se_sign E secret msg) msg \<and> length tx \<le> tx_limit"
  by (auto simp: signed_tx_def build_message_multi_def message_bytes_Ok [OF sorts_both(1)] Let_def split: if_splits)

lemma with_signature_length: "length msg \<le> length (with_signature sig msg)"
  by (simp add: with_signature_def write_compact_append)

lemma signed_tx_reads:
  assumes tx: "signed_tx E secret ixs h = Ok tx" and k: "key_ok E secret" "keys32 (se_pubkey E secret) ixs" "length h = 32"
  shows "let payer = se_pubkey E secret; b = sort_accounts payer ixs; msg = enc_message b ixs h
    in read_tx tx = Some ([se_sign E secret msg], msg, message_of b ixs h) \<and> length tx \<le> tx_limit"
proof -
  let ?b = "sort_accounts (se_pubkey E secret) ixs"
  note t = signed_tx_Ok [OF tx, unfolded Let_def]
  then have "length (enc_message ?b ixs h) \<le> tx_limit"
    using with_signature_length [of "enc_message ?b ixs h" "se_sign E secret (enc_message ?b ixs h)"] by (metis order_trans)
  from read_signed [OF sorts_both(1) k(2,3) this] k(1) t show ?thesis by (auto simp: key_ok_def Let_def)
qed

text \<open>C8. Whatever the instructions, a signed transaction that is not refused is read by the validator's layout as one
  signature over the message with the given blockhash, the payer first with both rights, and exactly the instructions
  with, for each account, the union of the rights it was given: no length field and no index is cut off.\<close>

theorem signed_tx_roundtrip:
  assumes "signed_tx E secret ixs h = Ok tx" "key_ok E secret" "keys32 (se_pubkey E secret) ixs" "length h = 32"
  shows "\<exists>msg m. read_tx tx = Some ([se_sign E secret msg], msg, m) \<and> length tx \<le> 1232 \<and> sm_hash m = h
    \<and> rights m 0 = Some (se_pubkey E secret, True, True) \<and> resolve m = Some (meant_ixs (se_pubkey E secret) ixs)"
proof -
  note s = sorts_both(1) [of "se_pubkey E secret" ixs]
  show ?thesis
    using signed_tx_reads [OF assms] sorts_payer_first [OF s, of h] resolve_message_of [OF s, of h]
    by (auto simp: Let_def tx_limit_def message_of_def)
qed

text \<open>When only the payer is marked as a signer, there is one signature to check.\<close>

lemma one_signer:
  assumes "\<forall>(p, ms, d) \<in> set ixs. \<forall>a \<in> set ms. am_signer a \<longrightarrow> am_pubkey a = payer" "sorts payer ixs b"
  shows "sm_sigs (message_of b ixs h) = 1"
proof -
  have "\<not> fst (cap_of (caps_of payer ixs) k)" if "k \<in> accounts payer ixs" for k
    using that assms(1) by (fastforce simp: cap_of_caps meant_def Let_def accounts_def)
  then have none: "{k \<in> accounts payer ixs. cap_of (caps_of payer ixs) k = (True, c)} = {}" for c by force
  from assms(2) obtain r where r: "bk_sw b = payer # r" "set (payer # r) = {payer}" "distinct (payer # r)" "set (bk_sr b) = {}"
    unfolding sorts_def hold_def none by auto
  then have "r = []" by (cases r) auto
  with r show ?thesis by (simp add: message_of_def)
qed

lemma swift_ixs_Ok:
  assumes "swift_ixs E payer it = Ok ixs"
  obtains program state vault trader system cb order where
    "decode_b58_32 E (ms_program it) = Ok program" "decode_b58_32 E (ms_state it) = Ok state"
    "decode_b58_32 E (ms_vault it) = Ok vault" "decode_b58_32 E (ms_trader it) = Ok trader"
    "decode_b58_32 E system_program = Ok system" "decode_b58_32 E compute_budget_program = Ok cb"
    "decode_hex_32 E (ms_order_hex it) = Ok order"
    "ixs = budget_ixs cb (ms_units it) @
        [fulfill_ix E it payer program state vault trader system order]"
  using assms by (auto simp: swift_ixs_def)

lemma swift_keys32: "swift_ixs E payer it = Ok ixs \<Longrightarrow> length payer = 32 \<Longrightarrow> keys32 payer ixs"
  by (erule swift_ixs_Ok) (simp add: keys32_def budget_ixs_def fulfill_ix_def decode_b58_32_length)

lemma reply_blockhash_length: "reply_blockhash E v = Ok h \<Longrightarrow> length h = 32"
  by (auto simp: reply_blockhash_def split: option.splits if_splits)

lemma blockhash_length: "get_latest_blockhash E r = Ok h \<Longrightarrow> length h = 32"
  by (auto simp: get_latest_blockhash_def reply_blockhash_length split: option.splits if_splits)

lemma send_built_sent: "tx \<in> set (snd (send_built E build r node)) \<Longrightarrow>
    \<exists>h. get_latest_blockhash E r = Ok h \<and> build h = Ok tx \<and> snd (send_built E build r node) = [tx]"
  by (auto simp: send_built_def split: res.splits)
section \<open>A Mayan fill\<close>

text \<open>The rights of the accounts of a fill.\<close>

lemma meant_swift:
  fixes payer :: pubkey
  defines "right \<equiv> (\<lambda>ks k. (k, k = payer, k \<in> set ks)) :: pubkey list \<Rightarrow> pubkey \<Rightarrow> pubkey \<times> bool \<times> bool"
  shows "meant_ixs payer (budget_ixs cb u @ [fulfill_ix E it payer program state vault trader system order]) =
     [(right [payer, state, vault] cb, [], 2 # le_bytes 4 (unat (u32_cap u))),
      (right [payer, state, vault] cb, [], 3 # le_bytes 8 50000),
      (right [payer, state, vault] program, map (right [payer, state, vault]) [payer, state, vault, trader, system],
       anchor_discriminator E ''fulfill'' @ order @ le_bytes 8 (unat (ms_min_out it)) @ le_bytes 8 (unat (ms_deadline it)))]"
proof -
  have "meant payer (budget_ixs cb u @ [fulfill_ix E it payer program state vault trader system order])
      = right [payer, state, vault]"
    by (rule ext) (auto simp: right_def meant_def budget_ixs_def fulfill_ix_def)
  then show ?thesis by (simp add: meant_ixs_def budget_ixs_def fulfill_ix_def priority_fee_def)
qed

lemma swift_one_signer:
  "sorts payer ixs b \<Longrightarrow> swift_ixs E payer it = Ok ixs \<Longrightarrow> sm_sigs (message_of b ixs h) = 1"
  by (rule one_signer) (auto elim!: swift_ixs_Ok simp: budget_ixs_def fulfill_ix_def)

text \<open>C7. Whatever the node answers, at most one transaction is handed to it for a Mayan Swift fill.  It is read as one
  signature of the solver over three instructions: the compute limit, the priority fee, and the fill, whose data are
  the discriminator, the order, the minimum amount and the deadline, and whose accounts are the solver, the state,
  the vault, the trader and the system program; only the solver signs, only solver, state and vault are writable.\<close>

theorem mayan_solana_fill_effect:
  assumes "key_ok E secret" "tx \<in> set (snd (send_fulfill E secret it hash_reply node))"
  shows "snd (send_fulfill E secret it hash_reply node) = [tx] \<and>
    (\<exists>program state vault trader system cb order h msg m.
       decode_b58_32 E (ms_program it) = Ok program \<and> decode_b58_32 E (ms_state it) = Ok state
     \<and> decode_b58_32 E (ms_vault it) = Ok vault \<and> decode_b58_32 E (ms_trader it) = Ok trader
     \<and> decode_b58_32 E system_program = Ok system \<and> decode_b58_32 E compute_budget_program = Ok cb
     \<and> decode_hex_32 E (ms_order_hex it) = Ok order \<and> get_latest_blockhash E hash_reply = Ok h
     \<and> read_tx tx = Some ([se_sign E secret msg], msg, m) \<and> length tx \<le> 1232 \<and> sm_sigs m = 1 \<and> sm_hash m = h
     \<and> (let payer = se_pubkey E secret; right = (\<lambda>k. (k, k = payer, k \<in> {payer, state, vault}))
        in resolve m = Some
            [(right cb, [], 2 # le_bytes 4 (unat (u32_cap (ms_units it)))),
             (right cb, [], 3 # le_bytes 8 50000),
             (right program, map right [payer, state, vault, trader, system],
              anchor_discriminator E ''fulfill'' @ order @ le_bytes 8 (unat (ms_min_out it))
                @ le_bytes 8 (unat (ms_deadline it)))]))"
proof -
  let ?payer = "se_pubkey E secret"
  from send_built_sent [OF assms(2) [unfolded send_fulfill_def]] obtain h where
    h: "get_latest_blockhash E hash_reply = Ok h" "build_signed_tx E secret it h = Ok tx"
      "snd (send_fulfill E secret it hash_reply node) = [tx]"
    by (auto simp: send_fulfill_def)
  then obtain ixs where ixs: "swift_ixs E ?payer it = Ok ixs" "signed_tx E secret ixs h = Ok tx"
    by (auto simp: build_signed_tx_def)
  have payer: "length ?payer = 32" using assms(1) by (simp add: key_ok_def)
  note r = signed_tx_reads [OF ixs(2) assms(1) swift_keys32 [OF ixs(1) payer] blockhash_length [OF h(1)], unfolded Let_def]
  note res = resolve_message_of [OF sorts_both(1), of ?payer ixs h]
  note one = swift_one_signer [OF sorts_both(1) ixs(1), of h]
  have hash: "sm_hash (message_of (sort_accounts ?payer ixs) ixs h) = h" by (simp add: message_of_def)
  from ixs(1) show ?thesis
    by (rule swift_ixs_Ok) (use h r res one hash in \<open>auto simp: Let_def tx_limit_def meant_swift\<close>)
qed
section \<open>The simulation and the broadcast\<close>

lemma compact_len_1: "compact_len (of_nat 1) = [1]"
  by (simp add: compact_len_def write_compact_u16.simps)

lemma enc_ix_length_eq: "length (enc_ix ks ix) = length (enc_ix ks' ix)"
  by (cases ix) (simp add: enc_ix_def)

lemma sorts_length:
  assumes "sorts payer ixs b" "sorts payer ixs b'"
  shows "length (bk_sw b) = length (bk_sw b')" "length (bk_sr b) = length (bk_sr b')"
    "length (bk_nw b) = length (bk_nw b')" "length (bk_nr b) = length (bk_nr b')"
  using assms unfolding sorts_def hold_def by (metis distinct_card)+

lemma enc_message_length:
  assumes "sorts payer ixs b" "sorts payer ixs b'" "keys32 payer ixs" "length h = length h'"
  shows "length (enc_message b ixs h) = length (enc_message b' ixs h')"
proof -
  have k: "length (account_keys b) = length (account_keys b')" using sorts_length [OF assms(1,2)] by (simp add: account_keys_def)
  moreover have "length (concat (account_keys b)) = length (account_keys b) * 32" "length (concat (account_keys b')) = length (account_keys b') * 32"
    using length_concat_const keys32_sorts assms(1-3) by blast+
  moreover have "length (concat (map (enc_ix (account_keys b)) ixs)) = length (concat (map (enc_ix (account_keys b')) ixs))"
    by (induction ixs) (simp_all add: enc_ix_length_eq [of "account_keys b" _ "account_keys b'"])
  ultimately show ?thesis using assms(4) by (simp add: enc_message_def header_bytes_def)
qed

text \<open>With one signer, the bytes that are simulated.\<close>

lemma serialize_one_signer:
  assumes "swift_ixs E payer it = Ok ixs"
  shows "serialize_legacy_transaction_multi payer ixs =
    (let tx = with_signature (replicate 64 0) (enc_message (sort_accounts_sim payer ixs) ixs (replicate 32 0))
     in if tx_limit < length tx then Err ''serialized tx exceeds the limit'' else Ok tx)"
proof -
  let ?b = "sort_accounts_sim payer ixs"
  have "length (bk_sw ?b) + length (bk_sr ?b) = 1"
    using swift_one_signer [OF sorts_both(2) assms] by (simp add: message_of_def)
  then show ?thesis
    by (simp add: serialize_legacy_transaction_multi_def message_bytes_Ok [OF sorts_both(2)] Let_def with_signature_def
        del: of_nat_add)
qed

lemma simulation_frame:
  assumes "key_ok E secret" "se_bs58 E payer_text = Some (se_pubkey E secret)" "length h = 32"
  shows "((\<exists>a. build_simulate_tx E payer_text it = Ok a) \<longleftrightarrow> (\<exists>b. build_signed_tx E secret it h = Ok b))
    \<and> (\<forall>a b. build_simulate_tx E payer_text it = Ok a \<longrightarrow> build_signed_tx E secret it h = Ok b \<longrightarrow>
         length a = length b \<and> (\<exists>ga x m gb y n. read_tx a = Some ([ga], x, m) \<and> read_tx b = Some ([gb], y, n)
           \<and> resolve m = resolve n \<and> resolve m \<noteq> None))"
proof (cases "\<exists>ixs. swift_ixs E (se_pubkey E secret) it = Ok ixs")
  case False
  then have "swift_ixs E (se_pubkey E secret) it \<noteq> Ok ixs" for ixs by blast
  then show ?thesis by (auto simp: build_simulate_tx_def build_signed_tx_def decode_b58_32_def assms(2))
next
  case True
  let ?p = "se_pubkey E secret"
  from True obtain ixs where ixs: "swift_ixs E ?p it = Ok ixs" by blast
  have p: "length ?p = 32" "length (se_sign E secret m) = 64" for m using assms(1) by (simp_all add: key_ok_def)
  note k = swift_keys32 [OF ixs p(1)]
  let ?b = "sort_accounts ?p ixs" and ?c = "sort_accounts_sim ?p ixs"
  let ?mb = "enc_message ?b ixs h" and ?mc = "enc_message ?c ixs (replicate 32 0)"
  have len: "length ?mc = length ?mb"
    using enc_message_length [OF sorts_both(2) sorts_both(1) k, of "replicate 32 0" h] assms(3) by simp
  then have wlen: "length (with_signature (replicate 64 0) ?mc) = length (with_signature (se_sign E secret ?mb) ?mb)"
    by (simp add: with_signature_def write_compact_append p)
  have sim: "build_simulate_tx E payer_text it = (let tx = with_signature (replicate 64 0) ?mc
      in if tx_limit < length tx then Err ''serialized tx exceeds the limit'' else Ok tx)"
    by (simp add: build_simulate_tx_def decode_b58_32_def assms(2) p(1) ixs serialize_one_signer [OF ixs])
  have sgn: "build_signed_tx E secret it h = (let tx = with_signature (se_sign E secret ?mb) ?mb
      in if tx_limit < length tx then Err ''signed tx exceeds the limit'' else Ok tx)"
    by (simp add: build_signed_tx_def ixs signed_tx_def build_message_multi_def message_bytes_Ok [OF sorts_both(1)])
  show ?thesis
  proof (cases "tx_limit < length (with_signature (se_sign E secret ?mb) ?mb)")
    case True
    with wlen show ?thesis by (simp add: sim sgn Let_def)
  next
    case False
    then have fit: "length ?mb \<le> tx_limit" "length ?mc \<le> tx_limit"
      using with_signature_length [of ?mb "se_sign E secret ?mb"] len by linarith+
    have "read_tx (with_signature (se_sign E secret ?mb) ?mb) = Some ([se_sign E secret ?mb], ?mb, message_of ?b ixs h)"
      by (rule read_signed [OF sorts_both(1) k assms(3) fit(1) p(2)])
    moreover have "read_tx (with_signature (replicate 64 0) ?mc) = Some ([replicate 64 0], ?mc, message_of ?c ixs (replicate 32 0))"
      by (rule read_signed [OF sorts_both(2) k _ fit(2)]) simp_all
    ultimately show ?thesis
      using False wlen resolve_message_of [OF sorts_both(1), of ?p ixs h]
        resolve_message_of [OF sorts_both(2), of ?p ixs "replicate 32 0"] by (simp add: sim sgn Let_def)
  qed
qed

text \<open>C28. With the key of the solver as payer, a Mayan fill can be built for the simulation exactly when it can be built
  for the broadcast, and both blobs have the same length and are read as the same instructions with the same rights
  and one signature, although the two builders order the accounts differently.\<close>

theorem simulation_matches_broadcast:
  assumes "key_ok E secret" "se_bs58 E payer_text = Some (se_pubkey E secret)" "length h = 32"
  shows "((\<exists>a. build_simulate_tx E payer_text it = Ok a) \<longleftrightarrow> (\<exists>b. build_signed_tx E secret it h = Ok b))
    \<and> (\<forall>a b. build_simulate_tx E payer_text it = Ok a \<longrightarrow> build_signed_tx E secret it h = Ok b \<longrightarrow>
         length a = length b \<and> (\<exists>ga x m gb y n. read_tx a = Some ([ga], x, m) \<and> read_tx b = Some ([gb], y, n)
           \<and> resolve m = resolve n \<and> resolve m \<noteq> None))"
  by (rule simulation_frame [OF assms])

text \<open>The account list of a message holds no key twice exactly when no program of it is the payer or an account
  that some instruction marks as a signer or as writable; this is so for the broadcast and for the simulation.\<close>

theorem account_list_distinct:
  "distinct (account_keys (sort_accounts payer ixs)) = distinct (account_keys (sort_accounts_sim payer ixs))
   \<and> distinct (account_keys (sort_accounts payer ixs)) =
       list_all (\<lambda>(p, _, _). p \<noteq> payer \<and> list_all (\<lambda>(_, ms, _). list_all (\<lambda>a. am_pubkey a = p \<longrightarrow> \<not> am_signer a \<and> \<not> am_writable a) ms) ixs) ixs"
proof -
  have "(\<forall>p \<in> fst ` set ixs. snd (meant payer ixs p) = (False, False)) =
      list_all (\<lambda>(p, _, _). p \<noteq> payer \<and> list_all (\<lambda>(_, ms, _). list_all (\<lambda>a. am_pubkey a = p \<longrightarrow> \<not> am_signer a \<and> \<not> am_writable a) ms) ixs) ixs"
    by (fastforce simp: meant_def list_all_iff)
  then show ?thesis using sorts_distinct [OF sorts_both(1)] sorts_distinct [OF sorts_both(2)] by simp
qed
section \<open>Programs that are not configured\<close>

lemma programs_not_ready: "\<not> mayan_flash_program_ready" "\<not> dln_solana_program_ready"
  by (simp_all add: mayan_flash_program_ready_def mayan_flash_program_def dln_solana_program_ready_def dln_solana_program_def
      starts_with_def)

lemma ntt_program_fixed: "ntt_from_intent it = Ok n \<Longrightarrow> nt_program n = wormhole_ntt_program"
  by (auto simp: ntt_from_intent_def)

text \<open>As long as base58 has no digit zero, no transaction is ever handed to a node for a Wormhole transfer of an
  intent: the program of the projection is a placeholder that no base58 decoder accepts.\<close>

theorem wormhole_fill_never_sent:
  assumes "\<forall>s. CHR ''0'' \<in> set s \<longrightarrow> se_bs58 E s = None" "ntt_from_intent it = Ok n"
  shows "snd (send_release_inbound E secret n vaa_reply hash_reply node) = []
    \<and> (\<forall>sig. fst (send_release_inbound E secret n vaa_reply hash_reply node) \<noteq> Ok sig)"
proof -
  have "CHR ''0'' \<in> set wormhole_ntt_program" by (simp add: wormhole_ntt_program_def)
  then have "se_bs58 E wormhole_ntt_program = None" using assms(1) by blast
  then have "build_release_inbound_tx E secret n vaa h \<noteq> Ok tx" for vaa h tx
    by (auto simp: build_release_inbound_tx_def ntt_ixs_def decode_b58_32_def ntt_program_fixed [OF assms(2)])
  then show ?thesis by (auto simp: send_release_inbound_def split: res.splits)
qed

text \<open>The transfer of a Wormhole token is the one fill without the size limit: with a decodable program, a VAA of 1232
  bytes or more makes a transaction beyond the limit of the validators, and it is handed to the node all the same.\<close>

theorem wormhole_fill_unbounded:
  assumes "fetch_vaa vaa_reply = Ok text" "se_b64 E text = Some vaa" "1232 \<le> length vaa"
    "res_bind (reply_json hash_reply) (reply_blockhash E) = Ok h"
    "decode_b58_32 E (nt_program n) = Ok program" "decode_b58_32 E compute_budget_program = Ok cb"
  shows "\<exists>tx. snd (send_release_inbound E secret n vaa_reply hash_reply node) = [tx] \<and> 1232 < length tx"
proof -
  obtain ixs where ixs: "ntt_ixs E (se_pubkey E secret) n vaa = Ok ixs" "\<exists>p d. (p, d @ vaa) \<in> (\<lambda>(p, ms, d). (p, d)) ` set ixs"
    using assms(5,6) by (simp add: ntt_ixs_def) fastforce
  let ?m = "enc_message (sort_accounts (se_pubkey E secret) ixs) ixs h"
  have "length vaa < length ?m"
  proof -
    from ixs(2) obtain p ms d where i: "(p, ms, d @ vaa) \<in> set ixs" by auto
    have "length vaa < length (enc_ix ks (p, ms, d @ vaa))" for ks using enc_ix_length [of ms "d @ vaa" ks p] by simp
    also have "length (enc_ix ks (p, ms, d @ vaa)) \<le> length (concat (map (enc_ix ks) ixs))" for ks
      using member_sum_list [OF i, of "\<lambda>ix. length (enc_ix ks ix)"] by (simp add: length_concat comp_def)
    finally show ?thesis by (simp add: enc_message_def trans_less_add2)
  qed
  then show ?thesis
    using assms ixs(1) by (simp add: send_release_inbound_def build_release_inbound_tx_def build_message_multi_def
        message_bytes_Ok [OF sorts_both(1)] del: res_bind_Ok)
qed

section \<open>Amounts\<close>

text \<open>A fill whose minimum is only known as a decimal text below one is projected with the minimum zero: the fraction is
  cut off.\<close>

theorem fractional_minimum_is_zero:
  assumes "mayan_sol_from_intent E now it = Ok p" "fi_mayan_min_amount_out it = None"
    "i_output_amount it = Some raw" "parse_unsigned (2 ^ 64 - 1) raw = None" "parse_f64 raw = Some (Fin q)" "q < 1"
  shows "ms_min_out p = 0"
proof -
  have "\<lfloor>q\<rfloor> \<le> 0" using assms(6) by linarith
  then have "0 < q \<Longrightarrow> \<lfloor>q\<rfloor> = 0" by linarith
  then have "f_to_u64 (Fin q) = 0" by auto
  then show ?thesis using assms(1-5) by (auto simp: mayan_sol_from_intent_def mayan_min_out_def amount_u64_def or_str_def Let_def)
qed


section \<open>The simulation\<close>

datatype sol_outcome =
    SvmComputeUnits u64
  | SvmLamports msg
  | SvmLogsError msg
  | SvmInvalidIx msg

fun svm_green :: "sol_outcome \<Rightarrow> bool" where
  "svm_green (SvmComputeUnits _) = True"
| "svm_green (SvmLamports _) = True"
| "svm_green _ = False"

text \<open>Cutting a text at a byte that is inside a character panics.\<close>

definition truncate :: "string \<Rightarrow> nat \<Rightarrow> (msg, msg) res" where
  "truncate s mx =
     (if length s \<le> mx then Ok (lit s)
      else case str_slice 0 mx s of None \<Rightarrow> Panic | Some t \<Rightarrow> Ok (Msg ''{}...'' [AStr t]))"

definition has_any :: "string \<Rightarrow> string list \<Rightarrow> bool" where
  "has_any s ps = list_ex (contains s) ps"

fun log_lines :: "json \<Rightarrow> string list" where
  "log_lines (JArr vs) = List.map_filter json_str vs"
| "log_lines _ = []"

fun join_with :: "string \<Rightarrow> string list \<Rightarrow> string" where
  "join_with sep [] = []"
| "join_with sep [x] = x"
| "join_with sep (x # y # xs) = x @ sep @ join_with sep (y # xs)"

definition simulate_logs :: "json \<Rightarrow> string" where
  "simulate_logs v = join_with [CHR 0x0A] (case jget ''logs'' v of None \<Rightarrow> [] | Some l \<Rightarrow> log_lines l)"

definition funds_short :: "string \<Rightarrow> string \<Rightarrow> bool" where
  "funds_short err logs \<longleftrightarrow>
     has_any err [''insufficient lamports'', ''insufficient funds'', ''insufficientfunds'', ''insufficientfundsforfee'',
       ''insufficient funds for rent'']
   \<or> has_any logs [''insufficient funds for rent'', ''insufficient lamports'', ''insufficient funds for fee'',
       ''insufficient funds'', ''account does not have enough sol'']"

definition program_reject :: "string \<Rightarrow> string \<Rightarrow> bool" where
  "program_reject err logs \<longleftrightarrow>
     has_any err [''custom'', ''instructionerror'', ''programfailedtocomplete'', ''invalidaccountdata'']
   \<or> has_any logs [''custom program error'', ''program failed'']"

definition classify_simulate :: "(json \<Rightarrow> string) \<Rightarrow> json \<Rightarrow> (msg, sol_outcome) res" where
  "classify_simulate js_text v =
     (let logs = simulate_logs v; low = to_lowercase logs
      in case jget ''err'' v of
           None \<Rightarrow> Ok (SvmComputeUnits (case Option.bind (jget ''unitsConsumed'' v) as_u64 of None \<Rightarrow> 0 | Some u \<Rightarrow> u))
         | Some JNull \<Rightarrow> Ok (SvmComputeUnits (case Option.bind (jget ''unitsConsumed'' v) as_u64 of None \<Rightarrow> 0 | Some u \<Rightarrow> u))
         | Some e \<Rightarrow>
             let err = js_text e; lerr = to_lowercase err
             in if funds_short lerr low
                then res_bind (truncate logs 256) (\<lambda>t. Ok (SvmLamports (Msg ''err={} logs={}'' [AStr err, AMsg t])))
                else if has_any lerr [''accountnotfound'', ''invalidaccountforfee'']
                then Ok (SvmLamports (Msg ''Payer-shape failure: err={}'' [AStr err]))
                else if program_reject lerr low
                then res_bind (truncate logs 512) (\<lambda>t. Ok (SvmLogsError (Msg ''err={} logs={}'' [AStr err, AMsg t])))
                else Ok (SvmInvalidIx (Msg ''err={}'' [AStr err])))"

definition simulate :: "(json \<Rightarrow> string) \<Rightarrow> rpc_reply option \<Rightarrow> string \<Rightarrow> (msg, sol_outcome) res" where
  "simulate js_text reply body =
     (case reply of
        None \<Rightarrow> Ok (SvmInvalidIx (lit ''rpc network error''))
      | Some r \<Rightarrow>
          if \<not> hr_ok r then res_bind (truncate body 256) (\<lambda>t. Ok (SvmInvalidIx (Msg ''rpc HTTP: {}'' [AMsg t])))
          else case hr_json r of
                 None \<Rightarrow> Ok (SvmInvalidIx (lit ''rpc body parse''))
               | Some v \<Rightarrow>
                   (case jget ''error'' v of
                      Some e \<Rightarrow> Ok (SvmInvalidIx (Msg ''rpc error: {}'' [AStr (js_text e)]))
                    | None \<Rightarrow>
                        (case Option.bind (jget ''result'' v) (jget ''value'') of
                           None \<Rightarrow> Ok (SvmInvalidIx (lit ''rpc response missing result.value''))
                         | Some x \<Rightarrow> classify_simulate js_text x)))"

text \<open>The whole estimate: a transaction that cannot be built is an invalid instruction and nothing is simulated.\<close>

definition mayan_solana_estimate ::
    "sol_env \<Rightarrow> (json \<Rightarrow> string) \<Rightarrow> string \<Rightarrow> mayan_sol_intent \<Rightarrow> (bytes \<Rightarrow> rpc_reply option \<times> string) \<Rightarrow> (msg, sol_outcome) res" where
  "mayan_solana_estimate E js_text payer it node =
     (case build_simulate_tx E payer it of
        Err e \<Rightarrow> Ok (SvmInvalidIx (lit e))
      | Panic \<Rightarrow> Panic
      | Ok tx \<Rightarrow> (let (reply, body) = node tx in simulate js_text reply body))"

text \<open>The executor's view (\<open>crates/executor/src/mayan_solana_estimate.rs\<close>), with the texts rendered.\<close>

fun svm_to_parent :: "(msg \<Rightarrow> string) \<Rightarrow> sol_outcome \<Rightarrow> estimate_outcome" where
  "svm_to_parent render (SvmComputeUnits u) = OkComputeUnits u"
| "svm_to_parent render (SvmLamports s) = InsufficientLamports (render s)"
| "svm_to_parent render (SvmLogsError s) = EstReverted (render s)"
| "svm_to_parent render (SvmInvalidIx s) = AbiInvalid (render s)"

lemma svm_green_parent: "is_green (svm_to_parent render x) = svm_green x"
  by (cases x) simp_all

definition estimate_mayan_solana ::
    "sol_env \<Rightarrow> (json \<Rightarrow> string) \<Rightarrow> (msg \<Rightarrow> string) \<Rightarrow> u64 \<Rightarrow> string \<Rightarrow> feed_intent \<Rightarrow> (bytes \<Rightarrow> rpc_reply option \<times> string)
       \<Rightarrow> (msg, estimate_outcome) res" where
  "estimate_mayan_solana E js_text render now payer it node =
     (case mayan_sol_from_intent E now it of
        Err e \<Rightarrow> Ok (AbiInvalid (''solana intent: '' @ e))
      | Panic \<Rightarrow> Panic
      | Ok p \<Rightarrow>
          (case build_simulate_tx E payer p of
             Err e \<Rightarrow> Ok (AbiInvalid (''solana tx build: '' @ e))
           | Panic \<Rightarrow> Panic
           | Ok _ \<Rightarrow> res_bind (mayan_solana_estimate E js_text payer p node) (\<lambda>x. Ok (svm_to_parent render x))))"

text \<open>An estimate is green only when the transaction was built and a node's reply was a success envelope whose
  verdict has no error or one that reads as a shortage of funds or a payer that cannot pay.\<close>

theorem green_estimate_sound:
  assumes "estimate_mayan_solana E js_text render now payer it node = Ok x" "is_green x"
  shows "\<exists>p tx r v res. mayan_sol_from_intent E now it = Ok p \<and> build_simulate_tx E payer p = Ok tx \<and> length tx \<le> 1232
    \<and> fst (node tx) = Some r \<and> hr_ok r \<and> hr_json r = Some v \<and> jget ''error'' v = None
    \<and> Option.bind (jget ''result'' v) (jget ''value'') = Some res
    \<and> (jget ''err'' res \<in> {None, Some JNull} \<or> (\<exists>e. jget ''err'' res = Some e
         \<and> (funds_short (to_lowercase (js_text e)) (to_lowercase (simulate_logs res))
            \<or> has_any (to_lowercase (js_text e)) [''accountnotfound'', ''invalidaccountforfee''])))"
proof -
  from assms obtain p tx y where b: "mayan_sol_from_intent E now it = Ok p" "build_simulate_tx E payer p = Ok tx"
    and y: "simulate js_text (fst (node tx)) (snd (node tx)) = Ok y" "svm_green y"
    by (auto simp: estimate_mayan_solana_def mayan_solana_estimate_def svm_green_parent split: res.splits prod.splits)
  have len: "length tx \<le> 1232"
    using b(2) by (auto simp: build_simulate_tx_def serialize_legacy_transaction_multi_def tx_limit_def Let_def split: if_splits)
  from y obtain r v x where r: "fst (node tx) = Some r" "hr_ok r" "hr_json r = Some v" "jget ''error'' v = None"
      "Option.bind (jget ''result'' v) (jget ''value'') = Some x" "classify_simulate js_text x = Ok y"
    by (auto simp: simulate_def split: option.splits if_splits)
  from r(6) y(2) have "jget ''err'' x \<in> {None, Some JNull} \<or> (\<exists>e. jget ''err'' x = Some e
       \<and> (funds_short (to_lowercase (js_text e)) (to_lowercase (simulate_logs x))
          \<or> has_any (to_lowercase (js_text e)) [''accountnotfound'', ''invalidaccountforfee'']))"
    by (cases "jget ''err'' x"; cases "the (jget ''err'' x)") (auto simp: classify_simulate_def Let_def split: if_splits)
  with b len r show ?thesis by blast
qed

text \<open>A verdict of the simulation panics exactly when the logs are quoted and a character of theirs lies across the cut:
  byte 256 for a shortage of funds, byte 512 for a rejection by the program.\<close>

theorem simulate_verdict_panics:
  "classify_simulate js_text v = Panic \<longleftrightarrow>
     (\<exists>e. jget ''err'' v = Some e \<and> e \<noteq> JNull \<and>
       (let err = to_lowercase (js_text e); logs = simulate_logs v; low = to_lowercase logs
        in if funds_short err low then 256 < length logs \<and> \<not> char_boundary 256 logs
           else \<not> has_any err [''accountnotfound'', ''invalidaccountforfee''] \<and> program_reject err low
             \<and> 512 < length logs \<and> \<not> char_boundary 512 logs))"
proof -
  have tr: "truncate s n = Panic \<longleftrightarrow> n < length s \<and> \<not> char_boundary n s" if "0 < n" for s n
    using that by (auto simp: truncate_def str_slice_def char_boundary_def)
  have pb: "res_bind r (\<lambda>t. Ok (f t)) = Panic \<longleftrightarrow> r = Panic" for r :: "(msg, msg) res" and f :: "msg \<Rightarrow> sol_outcome"
    by (cases r) auto
  show ?thesis
    by (cases "jget ''err'' v"; cases "the (jget ''err'' v)") (auto simp: classify_simulate_def Let_def pb tr)
qed
section \<open>Size\<close>

lemma length_push_unique: "length (push_unique k xs) \<le> Suc (length xs)"
  by (simp add: push_unique_def)

lemma length_bucket_meta: "length (account_keys (bucket_meta p C a b)) \<le> Suc (length (account_keys b))"
proof -
  obtain s w where c: "cap_of C (am_pubkey a) = (s, w)" by fastforce
  show ?thesis by (cases s; cases w) (simp_all add: bucket_meta_def account_keys_def c Let_def length_push_unique)
qed

lemma length_bucket_metas: "length (account_keys (fold (bucket_meta p C) ms b)) \<le> length ms + length (account_keys b)"
proof (induction ms arbitrary: b)
  case (Cons a ms)
  from Cons [of "bucket_meta p C a b"] length_bucket_meta [of p C a b] show ?case by simp
qed simp

lemma length_bucket_ixs:
  "length (account_keys (fold (\<lambda>(prog, metas, _) b. bucket_prog prog (fold (bucket_meta p C) metas b)) ixs b))
   \<le> (\<Sum>ix \<leftarrow> ixs. Suc (length (fst (snd ix)))) + length (account_keys b)"
proof (induction ixs arbitrary: b)
  case (Cons ix ixs)
  obtain prog ms d where ix: "ix = (prog, ms, d)" using prod_cases3 by blast
  let ?b = "fold (bucket_meta p C) ms b"
  have "length (account_keys (bucket_prog prog ?b)) \<le> Suc (length (account_keys ?b))"
    by (simp add: account_keys_def bucket_prog_def length_push_unique)
  with Cons [of "bucket_prog prog ?b"] length_bucket_metas [of p C ms b] show ?case by (simp add: ix)
qed simp

lemma length_sort_accounts: "length (account_keys (sort_accounts p ixs)) \<le> Suc (\<Sum>ix \<leftarrow> ixs. Suc (length (fst (snd ix))))"
  using length_bucket_ixs [of p "caps_of p ixs" ixs "first_buckets p"]
  by (simp add: sort_accounts_def Let_def) (simp add: first_buckets_def account_keys_def)

lemma length_compact_len_3: "length (compact_len n) \<le> 3"
proof -
  have "unat n < 128 ^ Suc 2" using u16_bound [of n] by simp
  from write_compact_rounds [OF this, of "[]"] show ?thesis by (auto simp: compact_len_def)
qed

lemma enc_ix_bound: "length (enc_ix ks (p, ms, d)) \<le> 7 + length ms + length d"
  using length_compact_len_3 [of "of_nat (length ms)"] length_compact_len_3 [of "of_nat (length d)"] by (simp add: enc_ix_def)

lemma length_le_bytes [simp]: "length (le_bytes k n) = k"
  by (simp add: le_bytes_def)

text \<open>A Mayan fill whose texts decode always fits.\<close>

lemma swift_fits:
  assumes "key_ok E secret" "swift_ixs E (se_pubkey E secret) it = Ok ixs" "length h = 32"
  shows "\<exists>tx. signed_tx E secret ixs h = Ok tx"
proof -
  let ?p = "se_pubkey E secret" and ?b = "sort_accounts (se_pubkey E secret) ixs"
  have p: "length ?p = 32" "length (se_sign E secret m) = 64" for m using assms(1) by (simp_all add: key_ok_def)
  have disc: "length (anchor_discriminator E n) \<le> 8" for n by (simp add: anchor_discriminator_def)
  from assms(2) have n: "(\<Sum>ix \<leftarrow> ixs. Suc (length (fst (snd ix)))) = 8"
    by (rule swift_ixs_Ok) (simp add: budget_ixs_def fulfill_ix_def)
  have e: "length (concat (map (enc_ix ks) ixs)) \<le> 96" for ks
  proof (rule swift_ixs_Ok [OF assms(2)])
    fix program state vault trader system cb order
    assume i: "ixs = budget_ixs cb (ms_units it) @ [fulfill_ix E it ?p program state vault trader system order]"
      and o: "decode_hex_32 E (ms_order_hex it) = Ok order"
    show ?thesis
      using enc_ix_bound [of ks cb "[]" "2 # le_bytes 4 (unat (u32_cap (ms_units it)))"]
        enc_ix_bound [of ks cb "[]" "3 # le_bytes 8 (unat priority_fee)"]
        enc_ix_bound [of ks "fst (fulfill_ix E it ?p program state vault trader system order)"
          "fst (snd (fulfill_ix E it ?p program state vault trader system order))"
          "snd (snd (fulfill_ix E it ?p program state vault trader system order))"]
        decode_hex_32_length [OF o] disc [of "''fulfill''"]
      by (simp add: i budget_ixs_def fulfill_ix_def)
  qed
  have "length (account_keys ?b) \<le> 9" using length_sort_accounts [of ?p ixs] n by simp
  then have "length (concat (account_keys ?b)) \<le> 288"
    using length_concat_const [OF keys32_sorts [OF swift_keys32 [OF assms(2) p(1)] sorts_both(1)]] by simp
  then have "length (with_signature (se_sign E secret (enc_message ?b ixs h)) (enc_message ?b ixs h)) \<le> tx_limit"
    using length_compact_len_3 [of "of_nat (length (account_keys ?b))"] length_compact_len_3 [of "of_nat (length ixs)"]
      length_compact_len_3 [of 1] e [of "account_keys ?b"] assms(3)
    by (simp add: with_signature_def write_compact_append enc_message_def header_bytes_def p tx_limit_def)
  then show ?thesis
    by (simp add: signed_tx_def build_message_multi_def message_bytes_Ok [OF sorts_both(1)])
qed

text \<open>Neither program of the placeholders is ready, so with these switches the controller skips every Mayan Flash and
  every deBridge fill towards Solana before anything is signed or sent.\<close>

theorem placeholder_programs_never_broadcast:
  assumes "sp_ready (v_flash v) = mayan_flash_program_ready" "sp_ready (v_dln_sol v) = dln_solana_program_ready"
  shows "(stage_flash v it test s = Go () s \<or> (\<exists>s'. l_sent s' = l_sent s
            \<and> stage_flash v it test s = Stop (Inr (LSkipped (lit ''mayan_flash_program_not_configured''))) s'))
    \<and> (stage_dln_solana v it test s = Go () s \<or> (\<exists>s'. l_sent s' = l_sent s
            \<and> stage_dln_solana v it test s = Stop (Inr (LSkipped (lit ''dln_solana_program_not_configured''))) s'))"
  using assms programs_not_ready
  by (simp add: stage_flash_def stage_dln_solana_def solana_fill_def skip_def free_hold_def trans_to_def clock_def)
section \<open>Witnesses\<close>

definition sample_sol :: sol_env where
  "sample_sol = \<lparr>se_bs58 = (\<lambda>s. if CHR ''0'' \<in> set s then None else Some (replicate 32 (of_nat (length s)))),
     se_bs58_text = (\<lambda>b. []), se_hex = (\<lambda>s. Some (replicate 32 7)), se_b64 = (\<lambda>s. Some (replicate 1300 0)),
     se_sha256 = (\<lambda>b. replicate 32 9), se_pubkey = (\<lambda>b. replicate 32 1), se_sign = (\<lambda>k m. replicate 64 2),
     se_on_curve = (\<lambda>b. False)\<rparr>"

definition sample_swift :: mayan_sol_intent where
  "sample_swift = \<lparr>ms_id = ''a'', ms_order_hex = ''0x'', ms_min_out = 5, ms_deadline = 9, ms_trader = ''abc'',
     ms_state = ''ab'', ms_vault = ''abcd'', ms_program = ''abcde'', ms_units = 240000\<rparr>"

definition sample_hash_reply :: rpc_reply where
  "sample_hash_reply = \<lparr>hr_ok = True,
     hr_json = Some (JObj [(''result'', JObj [(''value'', JObj [(''blockhash'', JStr ''h'')])])])\<rparr>"

lemma sample_key: "key_ok sample_sol secret"
  by (simp add: key_ok_def sample_sol_def)

lemma sample_hash: "get_latest_blockhash sample_sol (Some sample_hash_reply) = Ok (replicate 32 1)"
  by (simp add: get_latest_blockhash_def reply_blockhash_def sample_hash_reply_def sample_sol_def jstr_def)

lemma sample_b58: "CHR ''0'' \<notin> set s \<Longrightarrow> decode_b58_32 sample_sol s = Ok (replicate 32 (of_nat (length s)))"
  by (simp add: decode_b58_32_def sample_sol_def)

lemma sample_swift_ixs: "\<exists>ixs. swift_ixs sample_sol payer sample_swift = Ok ixs"
proof -
  have "decode_hex_32 sample_sol s = Ok (replicate 32 7)" for s by (simp add: decode_hex_32_def sample_sol_def)
  then show ?thesis by (simp add: swift_ixs_def sample_b58 sample_swift_def system_program_def compute_budget_program_def)
qed

lemma sample_built: "\<exists>tx. build_signed_tx sample_sol [] sample_swift (replicate 32 1) = Ok tx"
proof -
  obtain ixs where "swift_ixs sample_sol (se_pubkey sample_sol []) sample_swift = Ok ixs" using sample_swift_ixs by blast
  with swift_fits [OF sample_key this, of "replicate 32 1"] show ?thesis by (simp add: build_signed_tx_def)
qed

lemma sample_sent: "\<exists>tx. snd (send_fulfill sample_sol [] sample_swift (Some sample_hash_reply) (\<lambda>_. None)) = [tx]"
  using sample_built by (auto simp: send_fulfill_def send_built_def sample_hash)

theorem mayan_solana_fill_effect_witness:
  "\<exists>tx sig msg m. snd (send_fulfill sample_sol [] sample_swift (Some sample_hash_reply) (\<lambda>_. None)) = [tx]
     \<and> read_tx tx = Some ([sig], msg, m) \<and> sm_sigs m = 1 \<and> sm_hash m = replicate 32 1"
proof -
  obtain tx where tx: "snd (send_fulfill sample_sol [] sample_swift (Some sample_hash_reply) (\<lambda>_. None)) = [tx]"
    using sample_sent by blast
  then have "tx \<in> set (snd (send_fulfill sample_sol [] sample_swift (Some sample_hash_reply) (\<lambda>_. None)))" by simp
  from mayan_solana_fill_effect [OF sample_key this] tx show ?thesis by (auto simp: sample_hash)
qed

theorem signed_tx_roundtrip_witness:
  "\<exists>ixs tx sig msg m. signed_tx sample_sol [] ixs (replicate 32 1) = Ok tx \<and> read_tx tx = Some ([sig], msg, m)
     \<and> resolve m = Some (meant_ixs (replicate 32 1) ixs) \<and> length ixs = 3"
proof -
  let ?p = "se_pubkey sample_sol []"
  obtain ixs where i: "swift_ixs sample_sol ?p sample_swift = Ok ixs" using sample_swift_ixs by blast
  have p: "?p = replicate 32 1" by (simp add: sample_sol_def)
  obtain tx where tx: "signed_tx sample_sol [] ixs (replicate 32 1) = Ok tx"
    using swift_fits [OF sample_key i, of "replicate 32 1"] by auto
  have "keys32 ?p ixs" by (rule swift_keys32 [OF i]) (simp add: p)
  from signed_tx_roundtrip [OF tx sample_key this] obtain msg m where
    "read_tx tx = Some ([se_sign sample_sol [] msg], msg, m)" "resolve m = Some (meant_ixs ?p ixs)" by auto
  moreover have "length ixs = 3" using i by (rule swift_ixs_Ok) (simp add: budget_ixs_def)
  ultimately show ?thesis using tx p by metis
qed

theorem simulation_matches_broadcast_witness:
  "\<exists>a b x y m n ga gb. build_simulate_tx sample_sol ''s'' sample_swift = Ok a
     \<and> build_signed_tx sample_sol [] sample_swift (replicate 32 1) = Ok b \<and> length a = length b
     \<and> read_tx a = Some ([ga], x, m) \<and> read_tx b = Some ([gb], y, n) \<and> resolve m = resolve n"
proof -
  have p: "se_bs58 sample_sol ''s'' = Some (se_pubkey sample_sol [])" by (simp add: sample_sol_def)
  note s = simulation_matches_broadcast [OF sample_key p, of "replicate 32 1" sample_swift]
  obtain b where b: "build_signed_tx sample_sol [] sample_swift (replicate 32 1) = Ok b" using sample_built by blast
  with s obtain a where a: "build_simulate_tx sample_sol ''s'' sample_swift = Ok a" by auto
  from s a b show ?thesis by fastforce
qed

definition sample_ntt :: ntt_intent where
  "sample_ntt = \<lparr>nt_id = ''a:3'', nt_sequence = 3, nt_emitter_chain = 2, nt_emitter = ''ab'', nt_recipient = ''r'',
     nt_mint = ''m'', nt_amount = 5, nt_program = ''abcde'', nt_units = 250000\<rparr>"

definition sample_vaa_reply :: rpc_reply where
  "sample_vaa_reply = \<lparr>hr_ok = True, hr_json = Some (JObj [(''vaaBytes'', JStr ''v'')])\<rparr>"

theorem wormhole_fill_unbounded_witness:
  "\<exists>tx. snd (send_release_inbound sample_sol [] sample_ntt (Some sample_vaa_reply) (Some sample_hash_reply) (\<lambda>_. None)) = [tx]
     \<and> 1232 < length tx"
proof (rule wormhole_fill_unbounded)
  show "fetch_vaa (Some sample_vaa_reply) = Ok ''v''" by (simp add: fetch_vaa_def sample_vaa_reply_def jstr_def)
  show "se_b64 sample_sol ''v'' = Some (replicate 1300 0)" by (simp add: sample_sol_def)
  show "1232 \<le> length (replicate 1300 0)" by simp
  show "res_bind (reply_json (Some sample_hash_reply)) (reply_blockhash sample_sol) = Ok (replicate 32 1)"
    by (simp add: reply_json_def reply_blockhash_def sample_hash_reply_def sample_sol_def jstr_def)
  show "decode_b58_32 sample_sol (nt_program sample_ntt) = Ok (replicate 32 5)" by (simp add: sample_b58 sample_ntt_def)
  show "decode_b58_32 sample_sol compute_budget_program = Ok (replicate 32 43)"
    by (simp add: sample_b58 compute_budget_program_def)
qed

definition sample_sol_intent :: feed_intent where
  "sample_sol_intent = default_intent\<lparr>i_id := ''wormhole:3'', i_src_chain := 1, i_amount := ''7'',
     i_mayan_order_id := Some ''0x'', i_output_amount := Some ''0.5'',
     i_recipient := replicate 41 (CHR ''r''), fi_state_account := Some ''ab'', fi_vault_account := Some ''abcd'',
     i_deadline := Some 9\<rparr>"

theorem wormhole_fill_never_sent_witness:
  "\<exists>n. ntt_from_intent sample_sol_intent = Ok n
     \<and> snd (send_release_inbound sample_sol [] n (Some sample_vaa_reply) (Some sample_hash_reply) (\<lambda>_. None)) = []"
proof -
  have "\<exists>n. ntt_from_intent sample_sol_intent = Ok n"
    by (simp add: ntt_from_intent_def sample_sol_intent_def last_number_def parse_unsigned_def starts_with_def is_digit_def
        digits_val_def digit_val_def wormhole_chain_def)
  moreover have "\<forall>s. CHR ''0'' \<in> set s \<longrightarrow> se_bs58 sample_sol s = None" by (simp add: sample_sol_def)
  ultimately show ?thesis using wormhole_fill_never_sent by blast
qed

theorem fractional_minimum_is_zero_witness:
  "\<exists>p. mayan_sol_from_intent sample_sol 0 sample_sol_intent = Ok p \<and> ms_min_out p = 0"
proof -
  have q: "parse_f64 ''0.5'' = Some (Fin (1 / 2))"
  proof -
    have "fround (1 / 2) = Fin (1 / 2)"
      using fval_exact [of "1" "- 1"] by (simp add: fround_def)
    then show ?thesis
      by (simp add: parse_f64_def parse_decimal_def parse_exp_def to_lowercase_def lower_char_def starts_with_def is_digit_def
          digits_val_def digit_val_def Let_def power_int_minus)
  qed
  have n: "parse_unsigned mx ''0.5'' = None" for mx by (simp add: parse_unsigned_def starts_with_def is_digit_def)
  have "\<exists>p. mayan_sol_from_intent sample_sol 0 sample_sol_intent = Ok p"
    by (simp add: mayan_sol_from_intent_def sample_sol_intent_def solana_trader_def is_solana_pubkey_def starts_with_def
        default_intent_def or_str_def vault_of_def mayan_min_out_def amount_u64_def n q)
  then obtain p where p: "mayan_sol_from_intent sample_sol 0 sample_sol_intent = Ok p" by blast
  moreover have "ms_min_out p = 0"
    by (rule fractional_minimum_is_zero [OF p _ _ n q]) (simp_all add: sample_sol_intent_def default_intent_def)
  ultimately show ?thesis by blast
qed

definition sample_verdict :: rpc_reply where
  "sample_verdict = \<lparr>hr_ok = True, hr_json = Some (JObj [(''result'', JObj [(''value'', JObj [(''unitsConsumed'', JInt 7)])])])\<rparr>"

definition sample_known_intent :: feed_intent where
  "sample_known_intent = sample_sol_intent\<lparr>fi_mayan_min_amount_out := Some 5\<rparr>"

theorem green_estimate_sound_witness:
  "\<exists>p tx. estimate_mayan_solana sample_sol (\<lambda>_. []) (\<lambda>_. []) 0 ''s'' sample_known_intent (\<lambda>_. (Some sample_verdict, []))
       = Ok (OkComputeUnits 7)
     \<and> mayan_sol_from_intent sample_sol 0 sample_known_intent = Ok p \<and> build_simulate_tx sample_sol ''s'' p = Ok tx"
proof -
  let ?p = "se_pubkey sample_sol []"
  have p: "se_bs58 sample_sol ''s'' = Some ?p" by (simp add: sample_sol_def)
  obtain f where f: "mayan_sol_from_intent sample_sol 0 sample_known_intent = Ok f"
    and t: "CHR ''0'' \<notin> set (ms_program f)" "CHR ''0'' \<notin> set (ms_state f)" "CHR ''0'' \<notin> set (ms_vault f)" "CHR ''0'' \<notin> set (ms_trader f)"
    by (simp add: mayan_sol_from_intent_def sample_known_intent_def sample_sol_intent_def solana_trader_def is_solana_pubkey_def
        starts_with_def default_intent_def or_str_def vault_of_def mayan_min_out_def mayan_swift_program_def)
  have hx: "decode_hex_32 sample_sol s = Ok (replicate 32 7)" for s by (simp add: decode_hex_32_def sample_sol_def)
  obtain ixs where "swift_ixs sample_sol ?p f = Ok ixs"
    by (simp add: swift_ixs_def sample_b58 t hx system_program_def compute_budget_program_def)
  with swift_fits [OF sample_key this, of "replicate 32 1"]
  obtain b where "build_signed_tx sample_sol [] f (replicate 32 1) = Ok b" by (auto simp: build_signed_tx_def)
  with simulation_frame [OF sample_key p, of "replicate 32 1" f] obtain a where a: "build_simulate_tx sample_sol ''s'' f = Ok a" by auto
  have e: "estimate_mayan_solana sample_sol (\<lambda>_. []) (\<lambda>_. []) 0 ''s'' sample_known_intent (\<lambda>_. (Some sample_verdict, []))
      = Ok (OkComputeUnits 7)"
    by (simp add: estimate_mayan_solana_def f a mayan_solana_estimate_def simulate_def sample_verdict_def classify_simulate_def)
  have g: "is_green (OkComputeUnits 7)" by simp
  from green_estimate_sound [OF e g] e show ?thesis by blast
qed

text \<open>A fill from Solana by Mayan Flash that the controller gives up.\<close>

definition flash_env :: lambda_env where
  "flash_env = sample_env\<lparr>v_flash := sample_port\<lparr>sp_ready := mayan_flash_program_ready\<rparr>,
     v_dln_sol := sample_port\<lparr>sp_ready := dln_solana_program_ready\<rparr>\<rparr>"

definition flash_intent :: intent where
  "flash_intent = sample_intent\<lparr>i_protocol := ''mayan_flash'', i_is_solana_source := Some True\<rparr>"

theorem placeholder_programs_never_broadcast_witness:
  "\<exists>s. l_sent s = [] \<and> stage_flash flash_env flash_intent None sample_state
     = Stop (Inr (LSkipped (lit ''mayan_flash_program_not_configured''))) s"
proof -
  have "contains (to_lowercase (i_protocol flash_intent)) ''flash'' \<and> is_solana_src flash_intent"
    by (simp add: flash_intent_def to_lowercase_def lower_char_def starts_with_def is_solana_src_def)
  then have "stage_flash flash_env flash_intent None sample_state \<noteq> Go () sample_state"
    using programs_not_ready(1) by (simp add: stage_flash_def solana_fill_def flash_env_def skip_def)
  moreover have "l_sent sample_state = []" by (simp add: sample_state_def)
  moreover have "sp_ready (v_flash flash_env) = mayan_flash_program_ready"
    "sp_ready (v_dln_sol flash_env) = dln_solana_program_ready" by (simp_all add: flash_env_def)
  ultimately show ?thesis
    using placeholder_programs_never_broadcast [of flash_env flash_intent None sample_state] by auto
qed

text \<open>A program that is writable for itself is listed twice, one that is not is listed once.\<close>

theorem account_list_distinct_witness:
  "\<not> distinct (account_keys (sort_accounts [1] [([2], [\<lparr>am_pubkey = [2], am_signer = False, am_writable = True\<rparr>], [])]))
   \<and> distinct (account_keys (sort_accounts [1] [([2], [\<lparr>am_pubkey = [3], am_signer = False, am_writable = True\<rparr>], [])]))"
  by (simp add: account_list_distinct [THEN conjunct2])

end
