(* ===== verification/Profit.thy ===== *)
theory Profit
  imports Across
begin

text \<open>
  The profit estimate of \<open>crates/profit-calc/src/lib.rs\<close>: protocol fees, the cache of gas prices, token decimals and
  prices, and the verdict on an intent, with the valuation of the same intent by the controller (\<open>Guards\<close>) beside
  it.  The clock, the replies of the gas API and the environment variables are inputs.
\<close>

section \<open>State\<close>

record gas_entry =
  ge_gwei :: f64
  ge_ts :: u64

record profit_calc =
  pc_min :: f64
  pc_fees :: "string \<Rightarrow> f64 option"
  pc_eth :: f64
  pc_cache :: "u64 \<Rightarrow> gas_entry option"

record breakdown =
  br_fee :: f64
  br_spread :: f64
  br_gas :: f64
  br_liquidity :: f64

record profit_result =
  pr_net :: f64
  pr_profitable :: bool
  pr_breakdown :: breakdown

definition eth_price_of :: "string option \<Rightarrow> f64" where
  "eth_price_of v = (case Option.bind v parse_f64 of None \<Rightarrow> Fin 3000 | Some p \<Rightarrow> p)"

definition new_calc :: "f64 \<Rightarrow> string option \<Rightarrow> profit_calc" where
  "new_calc mn eth = \<lparr>pc_min = mn, pc_fees = Map.empty, pc_eth = eth_price_of eth, pc_cache = Map.empty\<rparr>"

section \<open>Protocol fees\<close>

definition normal_id :: "string \<Rightarrow> string" where
  "normal_id p = filter (\<lambda>c. c \<noteq> CHR ''_'') (to_lowercase p)"

text \<open>The protocols of \<open>solver_intel.json\<close> in the order the hash map yields them.\<close>

definition load_fee :: "string \<times> f64 option \<Rightarrow> (string \<Rightarrow> f64 option) \<Rightarrow> string \<Rightarrow> f64 option" where
  "load_fee e fees =
     (case e of (p, None) \<Rightarrow> fees | (p, Some bps) \<Rightarrow> fees(normal_id p \<mapsto> bps, p \<mapsto> bps))"

definition load_solver_intel :: "(string \<times> f64 option) list option \<Rightarrow> profit_calc \<Rightarrow> (string, profit_calc) res" where
  "load_solver_intel intel c =
     (case intel of
        None \<Rightarrow> Err ''Failed to read or parse solver_intel.json''
      | Some ps \<Rightarrow> Ok (c\<lparr>pc_fees := fold load_fee ps (pc_fees c)\<rparr>))"

definition get_protocol_fee :: "profit_calc \<Rightarrow> string \<Rightarrow> f64" where
  "get_protocol_fee c p =
     (case pc_fees c p of
        Some fee \<Rightarrow> fee
      | None \<Rightarrow> (case pc_fees c (normal_id p) of Some fee \<Rightarrow> fee | None \<Rightarrow> Fin 10))"

section \<open>Tokens\<close>

definition six_decimals :: "string list" where
  "six_decimals =
     [''0xa0b86991c6218b36c1d19d4a2e9eb0ce3606eb48'',
      ''0xaf88d065e77c8cc2239327c5edb3a432268e5831'',
      ''0xff970a61a04b1ca14834a43f5de4533ebddb5cc8'',
      ''0x833589fcd6edb6e08f4c7c32d4f71b54bda02913'',
      ''0x0b2c639c533813f4aa9d7837caf62653d097ff85'',
      ''0x7f5c764cbc14f9669b88837ca1490cca17c31607'',
      ''0x3c499c542cef5e3811e1192ce70d8cc03d5c3359'',
      ''0x2791bca1f2de4661ed88a30c99a7a9449aa84174'',
      ''0x176211869ca2b568f2a7d4ee941e073a821ee1ff'',
      ''0x06efdbff2a14a7c8e15944d1f4a48f9f95f663a4'',
      ''0x2a22f9c3b484c3629090feed35f17ff8f88f76f0'',
      ''0xddafbb505ad214d7b80b1f830fccc89b60fb7a83'',
      ''0x1c7d4b196cb0c7b01d743fbc6116a902379c7238'',
      ''0x036cbd53842c5426634e7929541ec2318f3dcf7e'',
      ''0xdac17f958d2ee523a2206206994597c13d831ec7'',
      ''0xfd086bc7cd5c481dcc9c85ebe478a1c0b69fcbb9'',
      ''0x94b008aa00579c1307b0ef2c499ad98a8ce58e58'',
      ''0x55d398326f99059ff775485246999027b3197955'',
      ''0x049d68029688eabf473097a2fc38ef61633a3c7a'',
      ''0xc2132d05d31c914a87c6611c10748aeb04b58e8f'',
      ''0x078d782b760474a361dda7ff6e249887ddf39eb0'',
      ''0x2d270e6886d130d724215a266106e6832161eaed'',
      ''0xd988097fb8612cc24eec14542bc03424c656005f'',
      ''0x9c3c9283d3e44854697cd22d3faa240cfb032889'',
      ''0xe0b7927c4af23765cb51314a0e0521a9645f0e2a'',
      ''0xb97ef9ef8734c71904d8002f8b6bc66dd9c48a6e'',
      ''0x1d17cbcf0d6d143135ae902365d2e5e2a16538d4'',
      ''0xfde4c96c8593536e31f229ea8f37b2ada2699bb2'',
      ''0xf55bec9cafdbe8730f096aa55dad6d22d44099df'',
      ''0x0200c29006150606b650577bbe7b6248f58470c1'',
      ''0xf0f161fda2712db8b566946122a5af183995e2ed'',
      ''0x9702230a8ea53601f5cd2dc00fdbc13d4df4a8c7'',
      ''0xc7198437980c041c805a1edcba50c1ce5db95118'',
      ''usdc'',
      ''usdt'']"

definition stablecoins :: "string list" where
  "stablecoins =
     [''0xa0b86991c6218b36c1d19d4a2e9eb0ce3606eb48'',
      ''0xaf88d065e77c8cc2239327c5edb3a432268e5831'',
      ''0xff970a61a04b1ca14834a43f5de4533ebddb5cc8'',
      ''0x833589fcd6edb6e08f4c7c32d4f71b54bda02913'',
      ''0x0b2c639c533813f4aa9d7837caf62653d097ff85'',
      ''0x7f5c764cbc14f9669b88837ca1490cca17c31607'',
      ''0x3c499c542cef5e3811e1192ce70d8cc03d5c3359'',
      ''0x2791bca1f2de4661ed88a30c99a7a9449aa84174'',
      ''0x176211869ca2b568f2a7d4ee941e073a821ee1ff'',
      ''0x06efdbff2a14a7c8e15944d1f4a48f9f95f663a4'',
      ''0x2a22f9c3b484c3629090feed35f17ff8f88f76f0'',
      ''0xddafbb505ad214d7b80b1f830fccc89b60fb7a83'',
      ''0x1c7d4b196cb0c7b01d743fbc6116a902379c7238'',
      ''0x036cbd53842c5426634e7929541ec2318f3dcf7e'',
      ''0xdac17f958d2ee523a2206206994597c13d831ec7'',
      ''0xfd086bc7cd5c481dcc9c85ebe478a1c0b69fcbb9'',
      ''0x94b008aa00579c1307b0ef2c499ad98a8ce58e58'',
      ''0x55d398326f99059ff775485246999027b3197955'',
      ''0x049d68029688eabf473097a2fc38ef61633a3c7a'',
      ''0xc2132d05d31c914a87c6611c10748aeb04b58e8f'',
      ''0x078d782b760474a361dda7ff6e249887ddf39eb0'',
      ''0x2d270e6886d130d724215a266106e6832161eaed'',
      ''0xd988097fb8612cc24eec14542bc03424c656005f'',
      ''0x9c3c9283d3e44854697cd22d3faa240cfb032889'',
      ''0xe0b7927c4af23765cb51314a0e0521a9645f0e2a'',
      ''0xb97ef9ef8734c71904d8002f8b6bc66dd9c48a6e'',
      ''0x1d17cbcf0d6d143135ae902365d2e5e2a16538d4'',
      ''0xfde4c96c8593536e31f229ea8f37b2ada2699bb2'',
      ''0xf55bec9cafdbe8730f096aa55dad6d22d44099df'',
      ''0x0200c29006150606b650577bbe7b6248f58470c1'',
      ''0xf0f161fda2712db8b566946122a5af183995e2ed'',
      ''0x9702230a8ea53601f5cd2dc00fdbc13d4df4a8c7'',
      ''0xc7198437980c041c805a1edcba50c1ce5db95118'',
      ''0x6b175474e89094c44da98b954eedeac495271d0f'',
      ''0xda10009cbd5d07dd0cecc66161fc93d7c9000da1'',
      ''0xe91d153e0b41518a2ce8dd3d7944fa863463a97d'',
      ''usdc'',
      ''usdt'',
      ''dai'']"

definition detect_token_decimals :: "string \<Rightarrow> nat" where
  "detect_token_decimals token = (if to_lowercase token \<in> set six_decimals then 6 else 18)"

definition get_token_price :: "profit_calc \<Rightarrow> string \<Rightarrow> f64" where
  "get_token_price c token = (if to_lowercase token \<in> set stablecoins then Fin 1 else pc_eth c)"

section \<open>Gas\<close>

text \<open>The answer of the gas API as the derived reader takes it: the required fields, each known field at most once.\<close>

definition gas_fields :: "string list" where
  "gas_fields = [''chain_id'', ''block_number'', ''timestamp'', ''base_fee_per_gas_wei'', ''gas_price_gwei'', ''gas_used'',
     ''gas_limit'', ''utilization_pct'']"

fun opt_field :: "(json \<Rightarrow> 'a option) \<Rightarrow> json option \<Rightarrow> 'a option option" where
  "opt_field f None = Some None"
| "opt_field f (Some JNull) = Some None"
| "opt_field f (Some v) = map_option Some (f v)"

definition read_gas_fields :: "(string \<times> json) list \<Rightarrow> f64 option option" where
  "read_gas_fields kvs =
     (if \<not> distinct (filter (\<lambda>k. k \<in> set gas_fields) (map fst kvs)) then None
      else if \<exists>k \<in> set [''chain_id'', ''block_number'', ''timestamp'', ''gas_used'', ''gas_limit''].
                Option.bind (map_of kvs k) as_u64 = None then None
      else if Option.bind (map_of kvs ''utilization_pct'') as_f64 = None then None
      else if opt_field json_str (map_of kvs ''base_fee_per_gas_wei'') = None then None
      else opt_field as_f64 (map_of kvs ''gas_price_gwei''))"

text \<open>An object, or the array of the eight values in order.\<close>

fun read_gas_response :: "json \<Rightarrow> f64 option option" where
  "read_gas_response (JObj kvs) = read_gas_fields kvs"
| "read_gas_response (JArr vs) = (if length vs = 8 then read_gas_fields (zip gas_fields vs) else None)"
| "read_gas_response _ = None"

datatype gas_reply = NoAnswer | BadStatus | Body "json option"

definition cache_ttl :: u64 where "cache_ttl = 30"

text \<open>The price used for an answer: the one it gives, 25 gwei when it gives none.\<close>

definition gwei_of :: "f64 option \<Rightarrow> f64" where
  "gwei_of answer = (case answer of Some x \<Rightarrow> x | None \<Rightarrow> Fin 25)"

text \<open>\<open>now - cached.timestamp\<close> panics with overflow checks when the clock has stepped back, and wraps without.  The price
  and the cache after it; the two clock readings are \<open>t0\<close> and \<open>t1\<close>.\<close>

definition fetch_gas_price ::
    "bool \<Rightarrow> profit_calc \<Rightarrow> u64 \<Rightarrow> u64 \<Rightarrow> u64 \<Rightarrow> gas_reply \<Rightarrow> (string, f64) res \<times> profit_calc" where
  "fetch_gas_price checks c chain t0 t1 reply =
     (let fetch =
        (case reply of
           NoAnswer \<Rightarrow> (Err ''Failed to fetch gas price'', c)
         | BadStatus \<Rightarrow> (Err ''API returned error status'', c)
         | Body v \<Rightarrow>
             (case Option.bind v read_gas_response of
                None \<Rightarrow> (Err ''Failed to parse gas response'', c)
              | Some g \<Rightarrow>
                  let gwei = gwei_of g
                  in (Ok gwei, c\<lparr>pc_cache := (pc_cache c)(chain \<mapsto> \<lparr>ge_gwei = gwei, ge_ts = t1\<rparr>)\<rparr>)))
      in case pc_cache c chain of
           None \<Rightarrow> fetch
         | Some e \<Rightarrow>
             if checks \<and> t0 < ge_ts e then (Panic, c)
             else if t0 - ge_ts e < cache_ttl then (Ok (ge_gwei e), c) else fetch)"

definition gas_units :: "u64 \<Rightarrow> string \<Rightarrow> nat" where
  "gas_units chain protocol =
     (let p = to_lowercase protocol;
          units = (if contains p ''debridge'' \<or> contains p ''dln'' then 300000 else if contains p ''mayan'' then 250000 else 200000)
      in if chain = 1 then units + 50000 else units)"

definition gas_fallback :: "u64 \<Rightarrow> f64" where
  "gas_fallback chain =
     (if chain = 1 then fround (120 / 100) else if chain = 10 \<or> chain = 8453 then fround (2 / 100)
      else if chain = 42161 \<or> chain = 137 \<or> chain = 56 then fround (5 / 100) else fround (30 / 100))"

definition estimate_chain_gas_cost ::
    "bool \<Rightarrow> profit_calc \<Rightarrow> u64 \<Rightarrow> string \<Rightarrow> u64 \<Rightarrow> u64 \<Rightarrow> gas_reply \<Rightarrow> (string, f64) res \<times> profit_calc" where
  "estimate_chain_gas_cost checks c chain protocol t0 t1 reply =
     (case fetch_gas_price checks c chain t0 t1 reply of
        (Ok gwei, c1) \<Rightarrow>
          (Ok (f_mul (f_mul (fround (of_nat (gas_units chain protocol))) (f_div gwei (fround (10 ^ 9)))) (pc_eth c)), c1)
      | (Err _, c1) \<Rightarrow> (Ok (gas_fallback chain), c1)
      | (Panic, c1) \<Rightarrow> (Panic, c1))"

section \<open>The verdict\<close>

definition calc_amount_usd :: "profit_calc \<Rightarrow> string \<Rightarrow> nat \<Rightarrow> f64" where
  "calc_amount_usd c token raw =
     f_mul (f_div (fround (of_nat raw)) (fround (10 ^ detect_token_decimals token))) (get_token_price c token)"

definition calculate ::
    "bool \<Rightarrow> profit_calc \<Rightarrow> intent \<Rightarrow> u64 \<Rightarrow> u64 \<Rightarrow> gas_reply \<Rightarrow> (string, profit_result) res \<times> profit_calc" where
  "calculate checks c it t0 t1 reply =
     (let bps = get_protocol_fee c (i_protocol it)
      in case parse_u128 (i_amount it) of
           None \<Rightarrow> (Err ''Failed to parse amount as u128'', c)
         | Some raw \<Rightarrow>
             if raw = 0 then (Err ''Intent has zero amount'', c)
             else let fee = f_mul (calc_amount_usd c (i_src_token it) raw) (f_div bps (fround 10000))
                  in case estimate_chain_gas_cost checks c (i_dst_chain it) (i_protocol it) t0 t1 reply of
                       (Ok dst, c1) \<Rightarrow>
                         let gas = f_add (Fin 0) dst; net = f_sub (f_sub (f_add fee (Fin 0)) gas) (Fin 0)
                         in (Ok \<lparr>pr_net = net, pr_profitable = f_gt net (pc_min c),
                                 pr_breakdown = \<lparr>br_fee = fee, br_spread = Fin 0, br_gas = gas, br_liquidity = Fin 0\<rparr>\<rparr>, c1)
                     | (Err e, c1) \<Rightarrow> (Err e, c1)
                     | (Panic, c1) \<Rightarrow> (Panic, c1))"
section \<open>Outcomes\<close>

lemma fetch_panics: "fst (fetch_gas_price checks c chain t0 t1 reply) = Panic \<longleftrightarrow>
    checks \<and> (\<exists>e. pc_cache c chain = Some e \<and> t0 < ge_ts e)"
  by (cases "pc_cache c chain") (auto simp: fetch_gas_price_def Let_def split: gas_reply.splits option.splits)

lemma estimate_panics: "fst (estimate_chain_gas_cost checks c chain p t0 t1 reply) = Panic \<longleftrightarrow>
    checks \<and> (\<exists>e. pc_cache c chain = Some e \<and> t0 < ge_ts e)"
  unfolding fetch_panics [of checks c chain t0 t1 reply, symmetric]
  by (auto simp: estimate_chain_gas_cost_def split: prod.splits res.splits)

lemma estimate_no_error: "fst (estimate_chain_gas_cost checks c chain p t0 t1 reply) \<noteq> Err e"
  by (auto simp: estimate_chain_gas_cost_def split: prod.splits res.splits)

text \<open>The verdict on an intent is an error exactly when its amount is not the text of a positive 128-bit number, whatever
  the gas API answers; it panics exactly when overflow is checked and the clock is before the cached price of the
  destination; otherwise there is a verdict.\<close>

theorem calculate_outcomes:
  "(\<exists>e. fst (calculate checks c it t0 t1 reply) = Err e) = (parse_u128 (i_amount it) \<in> {None, Some 0})
   \<and> (fst (calculate checks c it t0 t1 reply) = Panic) =
       (parse_u128 (i_amount it) \<notin> {None, Some 0} \<and> checks
        \<and> (\<exists>e. pc_cache c (i_dst_chain it) = Some e \<and> t0 < ge_ts e))"
proof -
  obtain r c1 where g: "estimate_chain_gas_cost checks c (i_dst_chain it) (i_protocol it) t0 t1 reply = (r, c1)" by fastforce
  let ?P = "checks \<and> (\<exists>e. pc_cache c (i_dst_chain it) = Some e \<and> t0 < ge_ts e)"
  have "(r = Panic) = ?P" "\<forall>e. r \<noteq> Err e"
    using estimate_panics [of checks c "i_dst_chain it" "i_protocol it" t0 t1 reply]
      estimate_no_error [of checks c "i_dst_chain it" "i_protocol it" t0 t1 reply] by (simp_all add: g)
  moreover have "(\<exists>e. fst (calculate checks c it t0 t1 reply) = Err e) = (parse_u128 (i_amount it) \<in> {None, Some 0})
      \<and> (fst (calculate checks c it t0 t1 reply) = Panic) = (parse_u128 (i_amount it) \<notin> {None, Some 0} \<and> P)"
    if "(r = Panic) = P" "\<forall>e. r \<noteq> Err e" for P
    using that by (cases "parse_u128 (i_amount it)"; cases r) (auto simp: calculate_def g Let_def)
  ultimately show ?thesis by blast
qed

section \<open>The cache\<close>

text \<open>What the API answered: nothing readable, an answer without a price, or a price.\<close>

definition reply_answer :: "gas_reply \<Rightarrow> f64 option option" where
  "reply_answer reply = (case reply of Body v \<Rightarrow> Option.bind v read_gas_response | _ \<Rightarrow> None)"

text \<open>Whether the API is asked: no price of the chain is held that is less than thirty seconds old.\<close>

definition asks :: "profit_calc \<Rightarrow> u64 \<Rightarrow> u64 \<Rightarrow> bool" where
  "asks c chain t0 = (case pc_cache c chain of None \<Rightarrow> True | Some e \<Rightarrow> \<not> t0 - ge_ts e < cache_ttl)"

definition answered :: "profit_calc \<Rightarrow> u64 \<Rightarrow> u64 \<Rightarrow> u64 \<Rightarrow> gas_reply \<Rightarrow> (u64 \<times> u64 \<times> f64 option) set" where
  "answered c chain t0 t1 reply = {h. asks c chain t0 \<and> (\<exists>a. reply_answer reply = Some a \<and> h = (chain, t1, a))}"

text \<open>The states of a calculator whose clock does not step back, with every answer the API gave when it was asked: chain,
  time, and the price if the answer had one.\<close>

inductive calc_reach :: "bool \<Rightarrow> profit_calc \<Rightarrow> u64 \<Rightarrow> (u64 \<times> u64 \<times> f64 option) set \<Rightarrow> bool" for checks where
  Fresh: "pc_cache c = Map.empty \<Longrightarrow> calc_reach checks c 0 {}"
| Verdict: "calc_reach checks c t H \<Longrightarrow> t \<le> t0 \<Longrightarrow> t0 \<le> t1 \<Longrightarrow> calculate checks c it t0 t1 reply = (r, c')
    \<Longrightarrow> calc_reach checks c' t1 (if parse_u128 (i_amount it) \<in> {None, Some 0} then H
          else H \<union> answered c (i_dst_chain it) t0 t1 reply)"

lemma fetch_cache:
  assumes "fetch_gas_price checks c chain t0 t1 reply = (r, c')" "pc_cache c' k = Some e"
  shows "pc_cache c k = Some e \<or> k = chain \<and> ge_ts e = t1
    \<and> (\<exists>a. (chain, t1, a) \<in> answered c chain t0 t1 reply \<and> ge_gwei e = gwei_of a)"
  using assms by (auto simp: fetch_gas_price_def Let_def answered_def asks_def reply_answer_def
      split: option.splits gas_reply.splits if_splits)

lemma calculate_cache:
  assumes "calculate checks c it t0 t1 reply = (r, c')" "pc_cache c' k = Some e"
  shows "pc_cache c k = Some e \<or> k = i_dst_chain it \<and> ge_ts e = t1 \<and> parse_u128 (i_amount it) \<notin> {None, Some 0}
    \<and> (\<exists>a. (k, t1, a) \<in> answered c (i_dst_chain it) t0 t1 reply \<and> ge_gwei e = gwei_of a)"
proof (cases "parse_u128 (i_amount it) \<in> {None, Some 0}")
  case True
  then show ?thesis using assms by (auto simp: calculate_def Let_def)
next
  case False
  obtain r1 c1 where f: "fetch_gas_price checks c (i_dst_chain it) t0 t1 reply = (r1, c1)" by fastforce
  have "c' = c1"
    using assms(1) False by (auto simp: calculate_def estimate_chain_gas_cost_def f Let_def split: res.splits)
  with fetch_cache [OF f] assms(2) False show ?thesis by blast
qed

lemma reach_cache:
  "calc_reach checks c t H \<Longrightarrow> pc_cache c k = Some e
   \<Longrightarrow> (\<exists>a. (k, ge_ts e, a) \<in> H \<and> ge_gwei e = gwei_of a) \<and> ge_ts e \<le> t"
proof (induction arbitrary: k e rule: calc_reach.induct)
  case (Verdict c t H t0 t1 it reply r c')
  from calculate_cache [OF Verdict.hyps(4) Verdict.prems] show ?case
    using Verdict.IH [of k e] Verdict.hyps(2,3) by auto
qed simp

text \<open>C29. As long as the clock does not step back, fetching a gas price never panics, and the price used rests on an answer
  that is fresh: the one the API gives now, when it is asked, and otherwise one it gave for the same chain less than
  thirty seconds before.  It is the price of that answer, or 25 gwei when the answer had no price.  (The 25 gwei are then
  held for thirty seconds like a price.)\<close>

theorem gas_price_fresh:
  assumes "calc_reach checks c t H" "t \<le> t0" "fetch_gas_price checks c chain t0 t1 reply = (r, c')"
  shows "r \<noteq> Panic \<and> (\<forall>g. r = Ok g \<longrightarrow> (\<exists>a. g = gwei_of a
    \<and> (if asks c chain t0 then reply_answer reply = Some a
       else \<exists>ts. (chain, ts, a) \<in> H \<and> ts \<le> t0 \<and> unat t0 < unat ts + 30)))"
proof (cases "pc_cache c chain")
  case None
  then show ?thesis
    using assms(3)
    by (auto simp: fetch_gas_price_def Let_def reply_answer_def asks_def split: option.splits gas_reply.splits)
next
  case (Some e)
  from reach_cache [OF assms(1) Some] assms(2)
  obtain a where e: "(chain, ge_ts e, a) \<in> H" "ge_gwei e = gwei_of a" "ge_ts e \<le> t0" by auto
  show ?thesis
  proof (cases "asks c chain t0")
    case True
    with Some e(3) have "\<not> t0 < ge_ts e" "\<not> t0 - ge_ts e < cache_ttl" by (auto simp: asks_def)
    with Some True show ?thesis
      using assms(3)
      by (simp add: fetch_gas_price_def) (auto simp: Let_def reply_answer_def split: option.splits gas_reply.splits)
  next
    case False
    then have "unat (t0 - ge_ts e) < 30" using Some by (simp add: asks_def cache_ttl_def word_less_nat_alt)
    then have "unat t0 < unat (ge_ts e) + 30" using e(3) by (simp add: unat_sub word_le_nat_alt)
    moreover have "r = Ok (ge_gwei e)"
      using assms(3) Some False e(3) by (auto simp: fetch_gas_price_def Let_def asks_def split: if_splits)
    ultimately show ?thesis using False e by auto
  qed
qed

text \<open>An order for Base, judged at second 1000 and priced again twenty seconds later.\<close>

definition base_order :: intent where
  "base_order = intent.truncate default_intent\<lparr>i_dst_chain := 8453, i_src_token := ''USDC'', i_amount := ''2000000''\<rparr>"

definition gas_answer :: json where
  "gas_answer = JArr [JInt 8453, JInt 7, JInt 100, JNull, JFloat (Fin 7), JInt 1, JInt 2, JFloat (Fin 50)]"

lemma gas_answer_price: "read_gas_response gas_answer = Some (Some (Fin 7))"
  by (simp add: gas_answer_def read_gas_fields_def gas_fields_def)

lemma base_order_amount: "parse_u128 (i_amount base_order) = Some 2000000"
  by (simp add: base_order_def parse_u128_def parse_unsigned_def digits_val_def digit_val_def is_digit_def starts_with_def
      Let_def)

definition priced_calc :: profit_calc where
  "priced_calc = snd (calculate True (new_calc (Fin 1) None) base_order 1000 1000 (Body (Some gas_answer)))"

lemma priced_cache: "pc_cache priced_calc 8453 = Some \<lparr>ge_gwei = Fin 7, ge_ts = 1000\<rparr>"
proof -
  have "i_dst_chain base_order = 8453" by (simp add: base_order_def)
  then show ?thesis
    by (simp add: priced_calc_def calculate_def base_order_amount estimate_chain_gas_cost_def fetch_gas_price_def new_calc_def
        gas_answer_price gwei_of_def Let_def)
qed

lemma priced_reach: "\<exists>H. calc_reach True priced_calc 1000 H"
proof -
  obtain r where r: "calculate True (new_calc (Fin 1) None) base_order 1000 1000 (Body (Some gas_answer)) = (r, priced_calc)"
    by (metis priced_calc_def prod.collapse)
  have "calc_reach True (new_calc (Fin 1) None) 0 {}" by (rule calc_reach.Fresh) (simp add: new_calc_def)
  then show ?thesis using calc_reach.Verdict [OF _ word_zero_le order_refl r] by blast
qed

theorem gas_price_fresh_witness:
  "\<exists>H. calc_reach True priced_calc 1000 H \<and> fetch_gas_price True priced_calc 8453 1020 1020 NoAnswer = (Ok (Fin 7), priced_calc)
    \<and> (\<exists>ts. (8453, ts, Some (Fin 7)) \<in> H \<and> unat (1020 :: u64) < unat ts + 30)"
proof -
  obtain H where H: "calc_reach True priced_calc 1000 H" using priced_reach by blast
  have f: "fetch_gas_price True priced_calc 8453 1020 1020 NoAnswer = (Ok (Fin 7), priced_calc)"
    by (simp add: fetch_gas_price_def priced_cache cache_ttl_def)
  have held: "\<not> asks priced_calc 8453 1020" by (simp add: asks_def priced_cache cache_ttl_def)
  have "(1000 :: u64) \<le> 1020" by simp
  from gas_price_fresh [OF H this f] held
  have "\<exists>ts. (8453, ts, Some (Fin 7)) \<in> H \<and> unat (1020 :: u64) < unat ts + 30"
    by (auto simp: gwei_of_def split: option.splits)
  with H f show ?thesis by blast
qed

section \<open>Two valuations\<close>

text \<open>The tables of the two components.\<close>

lemma tables_nested: "set six_dec \<subseteq> set six_decimals" "set six_dec \<subseteq> set stablecoins" "set six_decimals \<subseteq> set stablecoins"
  by code_simp+

lemma natives_listed: "{zero_address_text, ''native'', ''0x000000000000000000000000000000000000800a''} \<subseteq> set eth_like"
  by code_simp

lemma tables_apart: "set eth_like \<inter> set stablecoins = {}"
  by code_simp

text \<open>On every token of the controller's six-decimal and ether tables the profit estimate and the controller's cap value an
  intent alike, from the same ether price.\<close>

theorem valuations_agree:
  assumes "to_lowercase (i_src_token it) \<in> set six_dec \<union> set eth_like"
    "\<not> contains (i_amount it) ''.''" "parse_u128 (i_amount it) = Some raw"
  shows "calc_amount_usd (new_calc mn eth) (i_src_token it) raw = intent_amount_usd eth it"
proof -
  let ?t = "to_lowercase (i_src_token it)"
  consider "?t \<in> set six_dec" "?t \<in> set stablecoins" "?t \<notin> set eth_like" "?t \<in> set six_decimals"
    | "?t \<in> set eth_like" "?t \<notin> set stablecoins" "?t \<notin> set six_decimals" "?t \<notin> set six_dec"
    using assms(1) tables_nested tables_apart by blast
  moreover have "token_decimals (i_src_token it) = 6" if "?t \<in> set six_dec" "?t \<notin> set eth_like"
    using that natives_listed by (auto simp: token_decimals_def Let_def)
  moreover have "token_decimals (i_src_token it) = 18" if "?t \<notin> set six_dec"
    using that by (simp add: token_decimals_def Let_def)
  ultimately show ?thesis
    by cases (simp_all add: calc_amount_usd_def intent_amount_usd_def assms(2,3) detect_token_decimals_def get_token_price_def
        token_price_heuristic_def new_calc_def eth_price_of_def)
qed

lemma base_order_whole: "\<not> contains (i_amount base_order) ''.''"
  by (simp add: base_order_def) code_simp

lemma base_order_token: "to_lowercase (i_src_token base_order) \<in> set six_dec \<union> set eth_like"
  by (simp add: base_order_def) code_simp

theorem valuations_agree_witness:
  "calc_amount_usd (new_calc (Fin 1) None) (i_src_token base_order) 2000000 = intent_amount_usd None base_order"
  by (rule valuations_agree [OF base_order_token base_order_whole base_order_amount])

definition bsc_tether :: string where "bsc_tether = ''0x55d398326f99059ff775485246999027b3197955''"

lemma bsc_tether_tables: "bsc_tether \<in> set six_decimals" "bsc_tether \<in> set stablecoins" "bsc_tether \<notin> set six_dec" "bsc_tether \<notin> set eth_like"
  by code_simp+

text \<open>The tether of BSC has six decimals for the profit estimate and eighteen for the controller: the same order is worth
  a million million times as much to the one that decides about profit as to the one that caps the notional.\<close>

theorem bsc_tether_valued_twice:
  assumes "to_lowercase (i_src_token it) = bsc_tether" "\<not> contains (i_amount it) ''.''" "parse_u128 (i_amount it) = Some raw"
  shows "calc_amount_usd c (i_src_token it) raw = f_mul (f_div (fround (of_nat raw)) (fround (10 ^ 6))) (Fin 1)
    \<and> intent_amount_usd eth it = f_mul (f_div (fround (of_nat raw)) (fround (10 ^ 18))) (Fin 1)"
  using assms bsc_tether_tables
  by (simp add: calc_amount_usd_def intent_amount_usd_def detect_token_decimals_def get_token_price_def
      token_decimals_def token_price_heuristic_def Let_def)

theorem bsc_tether_valued_twice_witness:
  "calc_amount_usd (new_calc (Fin 1) None) bsc_tether 2000000 = f_mul (f_div (fround 2000000) (fround (10 ^ 6))) (Fin 1)
    \<and> intent_amount_usd None (base_order\<lparr>i_src_token := bsc_tether\<rparr>)
        = f_mul (f_div (fround 2000000) (fround (10 ^ 18))) (Fin 1)"
proof -
  have "to_lowercase bsc_tether = bsc_tether" by code_simp
  then show ?thesis
    using bsc_tether_valued_twice [of "base_order\<lparr>i_src_token := bsc_tether\<rparr>" 2000000 "new_calc (Fin 1) None" None]
      base_order_whole base_order_amount by simp
qed

end
