(* ===== verification/Spinner.thy ===== *)
theory Spinner
  imports SolanaFills
begin

text \<open>
  The scoped session keys of \<open>crates/spinner-signer/src\<close>: the configuration (\<open>config.rs\<close>), the signer of an EVM
  treasury behind a Roles module (\<open>evm/mod.rs\<close>, \<open>evm/roles_abi.rs\<close>), the one of a Squads multisig
  (\<open>solana/mod.rs\<close>, \<open>solana/squads_program.rs\<close>), and the interface the two share (\<open>lib.rs\<close>) as a locale.
  Encoders, decoders, key operations, the transaction builder of the EVM library, the environment variables and the
  answers of the node are parameters; error texts are their outermost part.
\<close>

section \<open>Configuration\<close>

record evm_config =
  ec_safe :: string
  ec_module :: string
  ec_role :: string
  ec_targets :: "string list"
  ec_key_env :: string
  ec_rpc :: string
  ec_chain :: u64

record squads_config =
  qc_multisig :: string
  qc_limit :: string
  qc_programs :: "string list"
  qc_key_env :: string
  qc_rpc :: string

datatype session_config = EvmConfig evm_config | SolanaConfig squads_config

definition session_json :: "session_config \<Rightarrow> json" where
  "session_json c =
     (case c of
        EvmConfig e \<Rightarrow> JObj
          [(''chain'', JStr ''evm''), (''safe_address'', JStr (ec_safe e)), (''roles_module'', JStr (ec_module e)),
           (''role_key'', JStr (ec_role e)), (''allowed_targets'', JArr (map JStr (ec_targets e))),
           (''session_key_env'', JStr (ec_key_env e)), (''rpc_url'', JStr (ec_rpc e)), (''chain_id'', JInt (uint (ec_chain e)))]
      | SolanaConfig q \<Rightarrow> JObj
          [(''chain'', JStr ''solana''), (''squads_multisig'', JStr (qc_multisig q)), (''spending_limit'', JStr (qc_limit q)),
           (''allowed_programs'', JArr (map JStr (qc_programs q))), (''session_key_env'', JStr (qc_key_env q)),
           (''rpc_url'', JStr (qc_rpc q))])"

definition evm_fields :: "string list" where
  "evm_fields = [''safe_address'', ''roles_module'', ''role_key'', ''allowed_targets'', ''session_key_env'', ''rpc_url'', ''chain_id'']"

definition squads_fields :: "string list" where
  "squads_fields = [''squads_multisig'', ''spending_limit'', ''allowed_programs'', ''session_key_env'', ''rpc_url'']"

fun json_strings :: "json \<Rightarrow> string list option" where
  "json_strings (JArr vs) = those (map json_str vs)"
| "json_strings _ = None"

definition read_evm :: "(string \<times> json) list \<Rightarrow> evm_config option" where
  "read_evm kvs =
     (let text = (\<lambda>k. Option.bind (map_of kvs k) json_str)
      in if \<not> distinct (filter (\<lambda>k. k \<in> set evm_fields) (map fst kvs)) then None
         else Option.bind (text ''safe_address'') (\<lambda>safe.
              Option.bind (text ''roles_module'') (\<lambda>rm.
              Option.bind (text ''role_key'') (\<lambda>role.
              Option.bind (Option.bind (map_of kvs ''allowed_targets'') json_strings) (\<lambda>ts.
              Option.bind (text ''session_key_env'') (\<lambda>env.
              Option.bind (text ''rpc_url'') (\<lambda>rpc.
              Option.bind (Option.bind (map_of kvs ''chain_id'') as_u64) (\<lambda>ch.
              Some \<lparr>ec_safe = safe, ec_module = rm, ec_role = role, ec_targets = ts, ec_key_env = env,
                    ec_rpc = rpc, ec_chain = ch\<rparr>))))))))"

definition read_squads :: "(string \<times> json) list \<Rightarrow> squads_config option" where
  "read_squads kvs =
     (let text = (\<lambda>k. Option.bind (map_of kvs k) json_str)
      in if \<not> distinct (filter (\<lambda>k. k \<in> set squads_fields) (map fst kvs)) then None
         else Option.bind (text ''squads_multisig'') (\<lambda>ms.
              Option.bind (text ''spending_limit'') (\<lambda>lim.
              Option.bind (Option.bind (map_of kvs ''allowed_programs'') json_strings) (\<lambda>ps.
              Option.bind (text ''session_key_env'') (\<lambda>env.
              Option.bind (text ''rpc_url'') (\<lambda>rpc.
              Some \<lparr>qc_multisig = ms, qc_limit = lim, qc_programs = ps, qc_key_env = env, qc_rpc = rpc\<rparr>))))))"

text \<open>The tag decides which of the two is read from the rest; an array is read by position, the tag first.\<close>

definition tagged_config :: "string \<Rightarrow> (string \<times> json) list \<Rightarrow> session_config option" where
  "tagged_config tag kvs =
     (if tag = ''evm'' then map_option EvmConfig (read_evm kvs)
      else if tag = ''solana'' then map_option SolanaConfig (read_squads kvs) else None)"

fun session_of_json :: "json \<Rightarrow> session_config option" where
  "session_of_json (JObj kvs) =
     (case filter (\<lambda>(k, v). k = ''chain'') kvs of
        [(_, JStr tag)] \<Rightarrow> tagged_config tag (filter (\<lambda>(k, v). k \<noteq> ''chain'') kvs)
      | _ \<Rightarrow> None)"
| "session_of_json (JArr (JStr tag # vs)) =
     (let names = (if tag = ''evm'' then evm_fields else squads_fields)
      in if length vs = length names then tagged_config tag (zip names vs) else None)"
| "session_of_json _ = None"

section \<open>Verdicts and requests\<close>

datatype policy_result = Allowed | Denied string

definition is_allowed :: "policy_result \<Rightarrow> bool" where
  "is_allowed p = (case p of Allowed \<Rightarrow> True | Denied _ \<Rightarrow> False)"

text \<open>What is asked of the node; an \<open>eth_call\<close> names the contract and the data, and no sender.\<close>

datatype node_request = EthCall evm_addr bytes | EthSendRaw bytes | SimulateTx string | SendTx string

fun sends :: "node_request \<Rightarrow> bool" where
  "sends (EthSendRaw _) = True"
| "sends (SendTx _) = True"
| "sends _ = False"

text \<open>An answer of the node: no connection, a body that is not JSON, or a value; the HTTP status is not looked at.\<close>

datatype node_answer = NoConnection | NotJson | Answer json

definition answer_value :: "string \<Rightarrow> string \<Rightarrow> node_answer \<Rightarrow> (string, json) res" where
  "answer_value e1 e2 a = (case a of NoConnection \<Rightarrow> Err e1 | NotJson \<Rightarrow> Err e2 | Answer v \<Rightarrow> Ok v)"

section \<open>The EVM signer\<close>

record exec_args =
  ea_to :: evm_addr
  ea_value :: u256
  ea_data :: bytes
  ea_operation :: u8
  ea_role :: bytes
  ea_should_revert :: bool

datatype roles_call = ExecWithRole exec_args | ExecWithRoleReturnData exec_args

definition operation_call :: u8 where "operation_call = 0"

text \<open>A transaction request of the EVM library: the destination is unset, a creation or a contract.\<close>

record evm_request =
  rq_to :: "evm_addr option option"
  rq_value :: "u256 option"
  rq_input :: "bytes option"
  rq_chain :: "u64 option"
  rq_nonce :: "u64 option"
  rq_gas :: "u64 option"
  rq_max_fee :: "u128 option"
  rq_priority_fee :: "u128 option"

definition empty_request :: evm_request where
  "empty_request = \<lparr>rq_to = None, rq_value = None, rq_input = None, rq_chain = None, rq_nonce = None, rq_gas = None,
     rq_max_fee = None, rq_priority_fee = None\<rparr>"

record spin_env = sol_env +
  sp_hex_text :: "bytes \<Rightarrow> string"
  sp_b64_text :: "bytes \<Rightarrow> string"
  sp_addr :: "string \<Rightarrow> evm_addr option"
  sp_addr_text :: "evm_addr \<Rightarrow> string"
  sp_hash :: "string \<Rightarrow> bytes option"
  sp_abi :: "roles_call \<Rightarrow> bytes"
  sp_outcome :: "bytes \<Rightarrow> (bool \<times> bytes) option"
  sp_abi_text :: "bytes \<Rightarrow> string option"
  sp_evm_key :: "bytes \<Rightarrow> bool"
  sp_is_1559 :: "evm_request \<Rightarrow> bool option"
  sp_envelope :: "bytes \<Rightarrow> evm_request \<Rightarrow> (bytes \<times> bytes) option"
  sp_show :: "json \<Rightarrow> string"
  sp_var :: "string \<Rightarrow> string option"

record evm_signer =
  es_config :: evm_config
  es_role :: bytes
  es_module :: evm_addr
  es_targets :: "evm_addr list"

fun target_addresses :: "spin_env \<Rightarrow> string list \<Rightarrow> (string, evm_addr list) res" where
  "target_addresses E [] = Ok []"
| "target_addresses E (t # ts) =
     res_bind (ok_or (''allowed_target '' @ t @ '' not a valid address'') (sp_addr E t)) (\<lambda>a.
     res_bind (target_addresses E ts) (\<lambda>xs. Ok (a # xs)))"

definition evm_from_config :: "spin_env \<Rightarrow> evm_config \<Rightarrow> (string, evm_signer) res" where
  "evm_from_config E c =
     res_bind (ok_or (''roles_module '' @ ec_module c @ '' not a valid address'') (sp_addr E (ec_module c))) (\<lambda>m.
     let role_hex = (case strip_prefix (ec_role c) ''0x'' of None \<Rightarrow> ec_role c | Some h \<Rightarrow> h)
     in res_bind (ok_or (''role_key '' @ ec_role c @ '' not valid hex'') (se_hex E role_hex)) (\<lambda>key.
        if length key \<noteq> 32 then Err (''role_key must be 32 bytes, got '' @ show_nat (length key))
        else res_bind (target_addresses E (ec_targets c)) (\<lambda>ts.
             Ok \<lparr>es_config = c, es_role = key, es_module = m, es_targets = ts\<rparr>)))"

definition is_target_allowed :: "evm_signer \<Rightarrow> evm_addr \<Rightarrow> bool" where
  "is_target_allowed s t \<longleftrightarrow> t \<in> set (es_targets s)"

definition encode_exec_with_role_calldata :: "spin_env \<Rightarrow> evm_signer \<Rightarrow> evm_addr \<Rightarrow> u256 \<Rightarrow> bytes \<Rightarrow> bool \<Rightarrow> bytes" where
  "encode_exec_with_role_calldata E s t v d should_revert =
     sp_abi E (ExecWithRole \<lparr>ea_to = t, ea_value = v, ea_data = d, ea_operation = operation_call, ea_role = es_role s,
       ea_should_revert = should_revert\<rparr>)"

definition encode_dry_run_calldata :: "spin_env \<Rightarrow> evm_signer \<Rightarrow> evm_addr \<Rightarrow> u256 \<Rightarrow> bytes \<Rightarrow> bytes" where
  "encode_dry_run_calldata E s t v d =
     sp_abi E (ExecWithRoleReturnData \<lparr>ea_to = t, ea_value = v, ea_data = d, ea_operation = operation_call,
       ea_role = es_role s, ea_should_revert = False\<rparr>)"

definition parse_revert_reason :: "spin_env \<Rightarrow> bytes \<Rightarrow> string" where
  "parse_revert_reason E b =
     (let text = (if 4 \<le> length b \<and> take 4 b = [0x08, 0xc3, 0x79, 0xa0] then sp_abi_text E (drop 4 b) else None)
      in case text of
           Some s \<Rightarrow> s
         | None \<Rightarrow> if b = [] then ''scope contract denied (empty return data)'' else ''0x'' @ sp_hex_text E b)"

definition decode_dry_run_result :: "spin_env \<Rightarrow> bytes \<Rightarrow> (string, policy_result) res" where
  "decode_dry_run_result E raw =
     (case sp_outcome E raw of
        None \<Rightarrow> Err ''decode (bool, bytes) from execTransactionWithRoleReturnData''
      | Some (success, data) \<Rightarrow> Ok (if success then Allowed else Denied (parse_revert_reason E data)))"

definition call_target :: "evm_request \<Rightarrow> evm_addr option" where
  "call_target r = Option.bind (rq_to r) (\<lambda>t. t)"

definition request_value :: "evm_request \<Rightarrow> u256" where
  "request_value r = (case rq_value r of None \<Rightarrow> 0 | Some v \<Rightarrow> v)"

definition request_data :: "evm_request \<Rightarrow> bytes" where
  "request_data r = (case rq_input r of None \<Rightarrow> [] | Some d \<Rightarrow> d)"

definition evm_wrap :: "spin_env \<Rightarrow> evm_signer \<Rightarrow> evm_request \<Rightarrow> (string, evm_request) res" where
  "evm_wrap E s tx =
     (case call_target tx of
        None \<Rightarrow> Err ''target_call.to is unset or a contract-creation tx''
      | Some t \<Rightarrow>
          if \<not> is_target_allowed s t
          then Err (''target '' @ sp_addr_text E t @ '' not in allowed_targets ('' @ show_nat (length (es_targets s)) @ '' entries)'')
          else Ok (empty_request\<lparr>rq_to := Some (Some (es_module s)),
                 rq_input := Some (encode_exec_with_role_calldata E s t (request_value tx) (request_data tx) True)\<rparr>))"

definition eth_call_verdict :: "spin_env \<Rightarrow> node_answer \<Rightarrow> (string, policy_result) res" where
  "eth_call_verdict E a =
     res_bind (answer_value ''eth_call request'' ''eth_call response json'' a) (\<lambda>v.
     case jget ''error'' v of
       Some e \<Rightarrow> Ok (Denied (or_str (jstr ''message'' e) ''execution reverted''))
     | None \<Rightarrow>
         res_bind (ok_or (''eth_call response missing result field: '' @ sp_show E v) (jstr ''result'' v)) (\<lambda>h.
         res_bind (ok_or ''decode eth_call result hex'' (se_hex E (trim_start_str ''0x'' h))) (decode_dry_run_result E)))"

definition evm_dry_run :: "spin_env \<Rightarrow> evm_signer \<Rightarrow> (node_request \<Rightarrow> node_answer) \<Rightarrow> evm_request
    \<Rightarrow> (string, policy_result) res \<times> node_request list" where
  "evm_dry_run E s node tx =
     (case call_target tx of
        None \<Rightarrow> (Err ''target_call.to is unset'', [])
      | Some t \<Rightarrow>
          if \<not> is_target_allowed s t then (Ok (Denied (''target '' @ sp_addr_text E t @ '' not in allowed_targets'')), [])
          else let q = EthCall (es_module s) (encode_dry_run_calldata E s t (request_value tx) (request_data tx))
               in (eth_call_verdict E (node q), [q]))"

definition pin_chain :: "u64 \<Rightarrow> evm_request \<Rightarrow> evm_request" where
  "pin_chain c tx = (if rq_chain tx = None then tx\<lparr>rq_chain := Some c\<rparr> else tx)"

definition build_signed_envelope :: "spin_env \<Rightarrow> bytes \<Rightarrow> evm_request \<Rightarrow> u64 \<Rightarrow> (string, bytes \<times> bytes) res" where
  "build_signed_envelope E key tx c =
     (let tx1 = pin_chain c tx
      in case sp_is_1559 E tx1 of
           None \<Rightarrow> Err ''build_typed_tx''
         | Some False \<Rightarrow> Err ''not an EIP-1559 transaction''
         | Some True \<Rightarrow> ok_or ''sign_transaction_sync'' (sp_envelope E key tx1))"

text \<open>The signed transaction: the raw bytes and their hash.\<close>

definition evm_sign :: "spin_env \<Rightarrow> evm_signer \<Rightarrow> evm_request \<Rightarrow> (string, bytes \<times> bytes) res" where
  "evm_sign E s tx =
     res_bind (ok_or (''session-key env var '' @ ec_key_env (es_config s) @ '' is unset'') (sp_var E (ec_key_env (es_config s)))) (\<lambda>raw.
     res_bind (ok_or ''session-key env var did not contain valid hex'' (se_hex E (trim_start_str ''0x'' raw))) (\<lambda>key.
     if length key \<noteq> 32 then Err (''session-key must be 32 bytes, got '' @ show_nat (length key))
     else if \<not> sp_evm_key E key then Err ''construct PrivateKeySigner from session-key bytes''
     else decoded ''sign envelope'' (build_signed_envelope E key tx (ec_chain (es_config s)))))"

definition sent_hash :: "spin_env \<Rightarrow> bytes \<Rightarrow> node_answer \<Rightarrow> (string, bytes) res" where
  "sent_hash E local a =
     res_bind (answer_value ''eth_sendRawTransaction request'' ''response json'' a) (\<lambda>v.
     case jget ''error'' v of
       Some e \<Rightarrow> Err (''eth_sendRawTransaction error: '' @ sp_show E e)
     | None \<Rightarrow>
         res_bind (ok_or (''eth_sendRawTransaction missing result: '' @ sp_show E v) (jstr ''result'' v)) (\<lambda>h.
         res_bind (ok_or (''parse tx hash '' @ h) (sp_hash E h)) (\<lambda>hash.
         if hash \<noteq> local then Err ''tx-hash mismatch'' else Ok hash)))"

definition evm_broadcast :: "spin_env \<Rightarrow> (node_request \<Rightarrow> node_answer) \<Rightarrow> bytes \<times> bytes
    \<Rightarrow> (string, bytes) res \<times> node_request list" where
  "evm_broadcast E node sg =
     (let q = EthSendRaw (fst sg) in (sent_hash E (snd sg) (node q), [q]))"

section \<open>The Solana signer\<close>

definition squads_program :: string where "squads_program = ''SQDS4ep65T869zMMBKyuUq6aD6EgTu8psMjkvj52pCf''"

definition spending_limit_use_discriminator :: "spin_env \<Rightarrow> bytes" where
  "spending_limit_use_discriminator E = take 8 (se_sha256 E (bytes_of ''global:'' @ bytes_of ''spending_limit_use''))"

definition pubkey_from_b58 :: "spin_env \<Rightarrow> string \<Rightarrow> (string, pubkey) res" where
  "pubkey_from_b58 E s =
     (case se_bs58 E s of
        None \<Rightarrow> Err (''invalid base58 pubkey '' @ s)
      | Some v \<Rightarrow> if length v \<noteq> 32 then Err (''pubkey must be 32 bytes, got '' @ show_nat (length v)) else Ok v)"

record session_tx =
  st_wire :: "string option"
  st_programs :: "string list"
  st_label :: string

definition new_unbuilt :: "string list \<Rightarrow> string \<Rightarrow> session_tx" where
  "new_unbuilt ps l = \<lparr>st_wire = None, st_programs = ps, st_label = l\<rparr>"

definition with_wire :: "string \<Rightarrow> session_tx \<Rightarrow> session_tx" where
  "with_wire w t = t\<lparr>st_wire := Some w\<rparr>"

record squads_signer =
  sq_config :: squads_config
  sq_multisig :: pubkey
  sq_limit :: pubkey
  sq_programs :: "pubkey list"

fun pubkeys_from_b58 :: "spin_env \<Rightarrow> string list \<Rightarrow> (string, pubkey list) res" where
  "pubkeys_from_b58 E [] = Ok []"
| "pubkeys_from_b58 E (p # ps) =
     res_bind (decoded (''allowed_program '' @ p) (pubkey_from_b58 E p)) (\<lambda>k.
     res_bind (pubkeys_from_b58 E ps) (\<lambda>ks. Ok (k # ks)))"

definition squads_from_config :: "spin_env \<Rightarrow> squads_config \<Rightarrow> (string, squads_signer) res" where
  "squads_from_config E c =
     res_bind (decoded (''squads_multisig '' @ qc_multisig c) (pubkey_from_b58 E (qc_multisig c))) (\<lambda>ms.
     res_bind (decoded (''spending_limit '' @ qc_limit c) (pubkey_from_b58 E (qc_limit c))) (\<lambda>lim.
     res_bind (pubkeys_from_b58 E (qc_programs c)) (\<lambda>ps.
     Ok \<lparr>sq_config = c, sq_multisig = ms, sq_limit = lim, sq_programs = ps\<rparr>)))"

definition is_program_allowed :: "spin_env \<Rightarrow> squads_signer \<Rightarrow> string \<Rightarrow> bool" where
  "is_program_allowed E s p = (case pubkey_from_b58 E p of Ok k \<Rightarrow> k \<in> set (sq_programs s) | _ \<Rightarrow> False)"

definition build_spending_limit_use_data :: "spin_env \<Rightarrow> u64 \<Rightarrow> bytes" where
  "build_spending_limit_use_data E amount = spending_limit_use_discriminator E @ le_bytes 8 (unat amount) @ [0]"

text \<open>Hex of 32 bytes first, then base58 of 64 or 32.\<close>

definition load_signing_key_from_str :: "spin_env \<Rightarrow> string \<Rightarrow> (string, bytes) res" where
  "load_signing_key_from_str E text =
     (let raw = trim text;
          b58 = (case se_bs58 E raw of
             None \<Rightarrow> Err ''session-key env var is neither hex(32) nor base58(64)''
           | Some v \<Rightarrow>
               if length v = 64 then Ok (take 32 v) else if length v = 32 then Ok v
               else Err (''session-key env var must decode to 32 or 64 bytes, got '' @ show_nat (length v)))
      in case se_hex E (trim_start_str ''0x'' raw) of
           Some b \<Rightarrow> if length b = 32 then Ok b else b58
         | None \<Rightarrow> b58)"

definition load_session_keypair :: "spin_env \<Rightarrow> squads_signer \<Rightarrow> (string, bytes) res" where
  "load_session_keypair E s =
     res_bind (ok_or (''session-key env var '' @ qc_key_env (sq_config s) @ '' is unset'') (sp_var E (qc_key_env (sq_config s))))
       (load_signing_key_from_str E)"

text \<open>The first program that is not allowed.\<close>

definition disallowed_program :: "spin_env \<Rightarrow> squads_signer \<Rightarrow> session_tx \<Rightarrow> string option" where
  "disallowed_program E s t = List.find (\<lambda>p. \<not> is_program_allowed E s p) (st_programs t)"

definition squads_wrap :: "spin_env \<Rightarrow> squads_signer \<Rightarrow> session_tx \<Rightarrow> (string, session_tx) res" where
  "squads_wrap E s t =
     (case disallowed_program E s t of
        Some p \<Rightarrow> Err (''program '' @ p @ '' not in allowed_programs ('' @ show_nat (length (sq_programs s)) @ '' entries)'')
      | None \<Rightarrow> Ok (t\<lparr>st_label := ''squads-wrapped::'' @ st_label t\<rparr>))"

definition simulate_verdict :: "spin_env \<Rightarrow> node_answer \<Rightarrow> (string, policy_result) res" where
  "simulate_verdict E a =
     res_bind (answer_value ''simulateTransaction request'' ''simulateTransaction response json'' a) (\<lambda>v.
     case jget ''error'' v of
       Some e \<Rightarrow> Ok (Denied (sp_show E e))
     | None \<Rightarrow>
         res_bind (ok_or (''simulateTransaction missing result.value: '' @ sp_show E v) (Option.bind (jget ''result'' v) (jget ''value''))) (\<lambda>r.
         case jget ''err'' r of
           None \<Rightarrow> Ok Allowed
         | Some JNull \<Rightarrow> Ok Allowed
         | Some e \<Rightarrow> Ok (Denied (sp_show E e))))"

definition squads_dry_run :: "spin_env \<Rightarrow> squads_signer \<Rightarrow> (node_request \<Rightarrow> node_answer) \<Rightarrow> session_tx
    \<Rightarrow> (string, policy_result) res \<times> node_request list" where
  "squads_dry_run E s node t =
     (case disallowed_program E s t of
        Some p \<Rightarrow> (Ok (Denied (''program '' @ p @ '' not in allowed_programs'')), [])
      | None \<Rightarrow>
          (case st_wire t of
             None \<Rightarrow> (Ok Allowed, [])
           | Some w \<Rightarrow> (simulate_verdict E (node (SimulateTx w)), [SimulateTx w])))"

text \<open>The signed transaction: its base64 text and the signature in base58.\<close>

definition squads_sign :: "spin_env \<Rightarrow> squads_signer \<Rightarrow> session_tx \<Rightarrow> (string, string \<times> string) res" where
  "squads_sign E s t =
     res_bind (ok_or ''transaction wire_base64 not populated; build it first'' (st_wire t)) (\<lambda>w.
     res_bind (decoded ''load session key'' (load_session_keypair E s)) (\<lambda>secret.
     res_bind (ok_or ''decode wire_base64'' (se_b64 E w)) (\<lambda>b.
     if b = [] then Err ''wire bytes empty''
     else if unat (b ! 0) \<noteq> 1 then Err (''session signer expects exactly 1 signature slot, found '' @ show_nat (unat (b ! 0)))
     else if length b < 65 then Err ''wire bytes too short for sig+msg layout''
     else let sig = se_sign E secret (drop 65 b)
          in Ok (sp_b64_text E (take 1 b @ sig @ drop 65 b), se_bs58_text E sig))))"

definition sent_signature :: "spin_env \<Rightarrow> node_answer \<Rightarrow> (string, string) res" where
  "sent_signature E a =
     res_bind (answer_value ''sendTransaction request'' ''response json'' a) (\<lambda>v.
     case jget ''error'' v of
       Some e \<Rightarrow> Err (''sendTransaction error: '' @ sp_show E e)
     | None \<Rightarrow> ok_or (''sendTransaction missing result: '' @ sp_show E v) (jstr ''result'' v))"

definition squads_broadcast :: "spin_env \<Rightarrow> (node_request \<Rightarrow> node_answer) \<Rightarrow> string \<times> string
    \<Rightarrow> (string, string) res \<times> node_request list" where
  "squads_broadcast E node sg =
     (let q = SendTx (fst sg) in (sent_signature E (node q), [q]))"

section \<open>The interface\<close>

text \<open>What the two signers share of the interface's operations: wrapping succeeds exactly on the requests the
  configured list permits, the policy check allows only those, refuses the others without asking the node and never
  sends, and a broadcast sends once.  Nothing in the crate makes these calls in any order.\<close>

locale session_signer =
  fixes wrap :: "'t \<Rightarrow> (string, 't) res"
    and dry :: "'t \<Rightarrow> (string, policy_result) res \<times> node_request list"
    and cast :: "'g \<Rightarrow> (string, 'h) res \<times> node_request list"
    and permitted :: "'t \<Rightarrow> bool"
  assumes wrap_permitted: "(\<exists>w. wrap t = Ok w) \<longleftrightarrow> permitted t"
    and wrap_returns: "wrap t \<noteq> Panic"
    and dry_permitted: "fst (dry t) = Ok Allowed \<Longrightarrow> permitted t"
    and denied_locally: "\<not> permitted t \<Longrightarrow> snd (dry t) = []"
    and dry_silent: "q \<in> set (snd (dry t)) \<Longrightarrow> \<not> sends q"
    and cast_once: "\<exists>q. snd (cast g) = [q] \<and> sends q"
begin

lemma wrap_refuses:
  assumes "\<not> permitted t"
  shows "\<exists>e. wrap t = Err e"
  using assms wrap_permitted [of t] wrap_returns [of t] by (cases "wrap t") auto

lemma refusals_agree:
  assumes "wrap t = Err e"
  shows "\<not> permitted t \<and> fst (dry t) \<noteq> Ok Allowed \<and> snd (dry t) = []"
  using assms wrap_permitted [of t] dry_permitted [of t] denied_locally [of t] by auto

lemma sends_of_calls: "length (filter sends (concat (map (snd \<circ> dry) ts @ map (snd \<circ> cast) gs))) = length gs"
proof -
  have "filter sends (concat (map (snd \<circ> dry) ts)) = []"
    using dry_silent by (auto simp: filter_empty_conv)
  moreover have "length (filter sends (snd (cast g))) = 1" for g using cast_once [of g] by auto
  then have "length (filter sends (concat (map (snd \<circ> cast) gs))) = length gs" by (induction gs) simp_all
  ultimately show ?thesis by simp
qed

end

definition evm_permitted :: "evm_signer \<Rightarrow> evm_request \<Rightarrow> bool" where
  "evm_permitted s tx \<longleftrightarrow> (case call_target tx of None \<Rightarrow> False | Some t \<Rightarrow> is_target_allowed s t)"

definition squads_permitted :: "spin_env \<Rightarrow> squads_signer \<Rightarrow> session_tx \<Rightarrow> bool" where
  "squads_permitted E s t \<longleftrightarrow> list_all (is_program_allowed E s) (st_programs t)"

lemma disallowed_None: "disallowed_program E s t = None \<longleftrightarrow> squads_permitted E s t"
  by (auto simp: disallowed_program_def squads_permitted_def find_None_iff list_all_iff)

interpretation evm: session_signer "evm_wrap E s" "evm_dry_run E s node" "evm_broadcast E node" "evm_permitted s"
  for E s node
  by unfold_locales
    (auto simp: evm_wrap_def evm_permitted_def evm_dry_run_def evm_broadcast_def Let_def split: option.splits if_splits)

interpretation squads: session_signer "squads_wrap E s" "squads_dry_run E s node" "squads_broadcast E node" "squads_permitted E s"
  for E s node
  by unfold_locales
    (auto simp: squads_wrap_def squads_dry_run_def squads_broadcast_def Let_def disallowed_None [symmetric] split: option.splits)

section \<open>What an EVM session sends\<close>

lemma evm_config_parts:
  assumes "evm_from_config E c = Ok s"
  shows "es_config s = c \<and> sp_addr E (ec_module c) = Some (es_module s) \<and> length (es_role s) = 32
    \<and> es_targets s = map (\<lambda>t. the (sp_addr E t)) (ec_targets c) \<and> (\<forall>t \<in> set (ec_targets c). sp_addr E t \<noteq> None)"
proof -
  have ts: "target_addresses E ts = Ok xs \<Longrightarrow> xs = map (\<lambda>t. the (sp_addr E t)) ts \<and> (\<forall>t \<in> set ts. sp_addr E t \<noteq> None)" for ts xs
    by (induction ts arbitrary: xs) auto
  from assms ts [of "ec_targets c"] show ?thesis
    by (auto simp: evm_from_config_def Let_def split: if_splits)
qed

lemma evm_sign_Ok:
  assumes "evm_sign E s tx = Ok g"
  shows "\<exists>text key. sp_var E (ec_key_env (es_config s)) = Some text \<and> se_hex E (trim_start_str ''0x'' text) = Some key
    \<and> length key = 32 \<and> sp_evm_key E key \<and> sp_envelope E key (pin_chain (ec_chain (es_config s)) tx) = Some g"
  using assms by (auto simp: evm_sign_def build_signed_envelope_def Let_def split: if_splits option.splits bool.splits)

lemma decode_allowed: "decode_dry_run_result E raw = Ok Allowed \<longleftrightarrow> (\<exists>d. sp_outcome E raw = Some (True, d))"
  by (auto simp: decode_dry_run_result_def split: option.splits if_splits)

lemma eth_call_allowed:
  "eth_call_verdict E a = Ok Allowed \<longleftrightarrow>
     (\<exists>v h raw d. a = Answer v \<and> jget ''error'' v = None \<and> jstr ''result'' v = Some h
       \<and> se_hex E (trim_start_str ''0x'' h) = Some raw \<and> sp_outcome E raw = Some (True, d))"
  by (auto simp: eth_call_verdict_def answer_value_def decode_allowed split: node_answer.splits option.splits)

text \<open>C30. What the operations of an EVM session do with a request.  Wrapping it succeeds exactly when its target is an address of
  the configured allowlist, and gives a call to the configured Roles module, with nothing else set, that carries exactly
  this target, value and data, the plain-call operation, the configured role and the flag that makes a refusal revert.
  The policy check of the same request then asks the node one thing, the same call without that flag, and allows it
  exactly when the node answers without an error, with a result that decodes to success.  A request that wrapping
  refuses the check does not allow and asks nothing about.  A signed request is signed with the 32-byte key of the
  configured variable, on its own chain or, when it names none, on the configured one.\<close>

theorem evm_session_scoped:
  assumes "evm_from_config E c = Ok s"
  shows "(case evm_wrap E s tx of
      Ok w \<Rightarrow> \<exists>target m args probe.
          call_target tx = Some target \<and> (\<exists>t \<in> set (ec_targets c). sp_addr E t = Some target) \<and> sp_addr E (ec_module c) = Some m
        \<and> args = \<lparr>ea_to = target, ea_value = request_value tx, ea_data = request_data tx, ea_operation = 0, ea_role = es_role s,
                 ea_should_revert = True\<rparr>
        \<and> w = empty_request\<lparr>rq_to := Some (Some m), rq_input := Some (sp_abi E (ExecWithRole args))\<rparr>
        \<and> probe = EthCall m (sp_abi E (ExecWithRoleReturnData (args\<lparr>ea_should_revert := False\<rparr>)))
        \<and> snd (evm_dry_run E s node tx) = [probe]
        \<and> (fst (evm_dry_run E s node tx) = Ok Allowed) =
            (\<exists>v h b d. node probe = Answer v \<and> jget ''error'' v = None \<and> jstr ''result'' v = Some h
               \<and> se_hex E (trim_start_str ''0x'' h) = Some b \<and> sp_outcome E b = Some (True, d))
    | Err e \<Rightarrow> (\<forall>t \<in> set (ec_targets c). call_target tx \<noteq> sp_addr E t)
        \<and> fst (evm_dry_run E s node tx) \<noteq> Ok Allowed \<and> snd (evm_dry_run E s node tx) = []
    | Panic \<Rightarrow> False)
    \<and> (evm_sign E s tx = Ok (raw, h) \<longrightarrow>
        (\<exists>text key. sp_var E (ec_key_env c) = Some text \<and> se_hex E (trim_start_str ''0x'' text) = Some key \<and> length key = 32
          \<and> sp_envelope E key (if rq_chain tx = None then tx\<lparr>rq_chain := Some (ec_chain c)\<rparr> else tx) = Some (raw, h)))"
proof -
  note c = evm_config_parts [OF assms(1)]
  have listed: "is_target_allowed s a \<longleftrightarrow> (\<exists>t \<in> set (ec_targets c). sp_addr E t = Some a)" for a
    using c by (force simp: is_target_allowed_def)
  have signed: "evm_sign E s tx = Ok (raw, h) \<longrightarrow>
        (\<exists>text key. sp_var E (ec_key_env c) = Some text \<and> se_hex E (trim_start_str ''0x'' text) = Some key \<and> length key = 32
          \<and> sp_envelope E key (if rq_chain tx = None then tx\<lparr>rq_chain := Some (ec_chain c)\<rparr> else tx) = Some (raw, h))"
    using evm_sign_Ok [of E s tx "(raw, h)"] c by (auto simp: pin_chain_def)
  show ?thesis
  proof (cases "evm_permitted s tx")
    case True
    then obtain target where t: "call_target tx = Some target" "is_target_allowed s target"
      by (auto simp: evm_permitted_def split: option.splits)
    with listed signed c show ?thesis
      by (simp add: evm_wrap_def evm_dry_run_def Let_def encode_dry_run_calldata_def encode_exec_with_role_calldata_def
          operation_call_def eth_call_allowed)
  next
    case False
    then obtain e where "evm_wrap E s tx = Err e" using evm.wrap_refuses by blast
    with evm.refusals_agree [OF this, of node] False signed listed c show ?thesis
      by (auto simp: evm_permitted_def split: option.splits)
  qed
qed

text \<open>A broadcast hands the node the signed bytes once, and reports a hash only when the node answered with the hash of
  what was signed; an answer with a null error member is reported as a failure although it carries that hash.\<close>

theorem evm_broadcast_reports:
  "(\<exists>r. evm_broadcast E node (raw, h) = (r, [EthSendRaw raw]) \<and> (r = Ok x \<longrightarrow> x = h \<and> (\<exists>v t. node (EthSendRaw raw) = Answer v
      \<and> jstr ''result'' v = Some t \<and> sp_hash E t = Some h)))
   \<and> (node (EthSendRaw raw) = Answer (JObj [(''error'', JNull), (''result'', JStr t)]) \<longrightarrow>
       fst (evm_broadcast E node (raw, h)) = Err (''eth_sendRawTransaction error: '' @ sp_show E JNull))"
  by (auto simp: evm_broadcast_def sent_hash_def answer_value_def Let_def split: node_answer.splits option.splits if_splits)

section \<open>What a Solana session sends\<close>

lemma squads_sign_Ok:
  assumes "squads_sign E s t = Ok g"
  shows "\<exists>w secret b. st_wire t = Some w \<and> load_session_keypair E s = Ok secret \<and> se_b64 E w = Some b \<and> 65 \<le> length b
    \<and> b ! 0 = 1 \<and> g = (sp_b64_text E ([1] @ se_sign E secret (drop 65 b) @ drop 65 b), se_bs58_text E (se_sign E secret (drop 65 b)))"
proof -
  have "b ! 0 = 1 \<and> take 1 b = [1]" if "unat (b ! 0) = 1" "b \<noteq> []" for b :: bytes
    using that by (cases b) (auto simp: word_unat_eq_iff)
  with assms show ?thesis
    by (auto simp: squads_sign_def Let_def not_less split: if_splits)
qed

lemma squads_listed:
  assumes "squads_from_config E c = Ok s"
  shows "is_program_allowed E s p \<longleftrightarrow>
    (\<exists>k. se_bs58 E p = Some k \<and> length k = 32 \<and> (\<exists>q \<in> set (qc_programs c). se_bs58 E q = Some k))"
proof -
  have ps: "pubkeys_from_b58 E ps = Ok ks \<Longrightarrow> set ks = {k. \<exists>q \<in> set ps. se_bs58 E q = Some k \<and> length k = 32}" for ps ks
  proof (induction ps arbitrary: ks)
    case (Cons p ps)
    then show ?case by (auto simp: pubkey_from_b58_def split: option.splits if_splits)
  qed simp
  from assms have "set (sq_programs s) = {k. \<exists>q \<in> set (qc_programs c). se_bs58 E q = Some k \<and> length k = 32}"
    using ps by (auto simp: squads_from_config_def)
  then show ?thesis by (auto simp: is_program_allowed_def pubkey_from_b58_def split: option.splits if_splits)
qed

text \<open>C31. What the operations of a Squads session do with a transaction.  Wrapping it succeeds exactly when every program it
  declares is a key of the configured list, and changes only its label: no spending limit instruction is added.  The
  policy check of the same transaction then allows it unasked while it has no bytes, and otherwise asks the node only to
  simulate exactly these bytes.  A transaction that wrapping refuses the check does not allow and asks nothing about.
  What signing returns is the transaction's own bytes with their one signature slot replaced by the signature of the
  configured variable's key over the rest, the message unchanged, and broadcasting a signed transaction sends it once.\<close>

theorem squads_session_effect:
  assumes "squads_from_config E c = Ok s"
  shows "(case squads_wrap E s t of
      Ok w \<Rightarrow>
          (\<forall>p \<in> set (st_programs t). \<exists>k. se_bs58 E p = Some k \<and> length k = 32 \<and> (\<exists>q \<in> set (qc_programs c). se_bs58 E q = Some k))
        \<and> w = t\<lparr>st_label := ''squads-wrapped::'' @ st_label t\<rparr>
        \<and> squads_dry_run E s node t = (case st_wire t of None \<Rightarrow> (Ok Allowed, [])
            | Some blob \<Rightarrow> (simulate_verdict E (node (SimulateTx blob)), [SimulateTx blob]))
    | Err e \<Rightarrow>
          (\<exists>p \<in> set (st_programs t). \<forall>k. se_bs58 E p = Some k \<and> length k = 32 \<longrightarrow> (\<forall>q \<in> set (qc_programs c). se_bs58 E q \<noteq> Some k))
        \<and> fst (squads_dry_run E s node t) \<noteq> Ok Allowed \<and> snd (squads_dry_run E s node t) = []
    | Panic \<Rightarrow> False)
    \<and> (squads_sign E s t = Ok (sent, sig) \<longrightarrow>
        (\<exists>blob text secret b. st_wire t = Some blob \<and> sp_var E (qc_key_env c) = Some text
          \<and> load_signing_key_from_str E text = Ok secret \<and> se_b64 E blob = Some b \<and> 65 \<le> length b \<and> take 1 b = [1]
          \<and> sent = sp_b64_text E ([1] @ se_sign E secret (drop 65 b) @ drop 65 b)
          \<and> sig = se_bs58_text E (se_sign E secret (drop 65 b))))
    \<and> snd (squads_broadcast E node (sent, sig)) = [SendTx sent]"
proof -
  have cfg: "sq_config s = c" using assms by (auto simp: squads_from_config_def)
  have signed: "squads_sign E s t = Ok (sent, sig) \<longrightarrow>
        (\<exists>blob text secret b. st_wire t = Some blob \<and> sp_var E (qc_key_env c) = Some text
          \<and> load_signing_key_from_str E text = Ok secret \<and> se_b64 E blob = Some b \<and> 65 \<le> length b \<and> take 1 b = [1]
          \<and> sent = sp_b64_text E ([1] @ se_sign E secret (drop 65 b) @ drop 65 b)
          \<and> sig = se_bs58_text E (se_sign E secret (drop 65 b)))"
  proof
    assume "squads_sign E s t = Ok (sent, sig)"
    then obtain w secret b where b: "st_wire t = Some w" "load_session_keypair E s = Ok secret" "se_b64 E w = Some b"
        "65 \<le> length b" "b ! 0 = 1" "sent = sp_b64_text E ([1] @ se_sign E secret (drop 65 b) @ drop 65 b)"
        "sig = se_bs58_text E (se_sign E secret (drop 65 b))"
      using squads_sign_Ok by blast
    moreover from b(4,5) have "take 1 b = [1]" by (cases b) auto
    moreover from b(2) cfg obtain kt where "sp_var E (qc_key_env c) = Some kt" "load_signing_key_from_str E kt = Ok secret"
      by (auto simp: load_session_keypair_def)
    ultimately show "\<exists>blob text secret b. st_wire t = Some blob \<and> sp_var E (qc_key_env c) = Some text
          \<and> load_signing_key_from_str E text = Ok secret \<and> se_b64 E blob = Some b \<and> 65 \<le> length b \<and> take 1 b = [1]
          \<and> sent = sp_b64_text E ([1] @ se_sign E secret (drop 65 b) @ drop 65 b)
          \<and> sig = se_bs58_text E (se_sign E secret (drop 65 b))" by blast
  qed
  have once: "snd (squads_broadcast E node (sent, sig)) = [SendTx sent]" by (simp add: squads_broadcast_def Let_def)
  note listed = squads_listed [OF assms]
  show ?thesis
  proof (cases "squads_permitted E s t")
    case True
    then have "disallowed_program E s t = None" by (simp add: disallowed_None)
    moreover from True have "\<forall>p \<in> set (st_programs t). \<exists>k. se_bs58 E p = Some k \<and> length k = 32
        \<and> (\<exists>q \<in> set (qc_programs c). se_bs58 E q = Some k)"
      by (simp add: squads_permitted_def list_all_iff listed)
    ultimately show ?thesis using signed once by (simp add: squads_wrap_def squads_dry_run_def)
  next
    case False
    then obtain e where e: "squads_wrap E s t = Err e" using squads.wrap_refuses by blast
    from False obtain p where p: "p \<in> set (st_programs t)" "\<not> is_program_allowed E s p"
      by (auto simp: squads_permitted_def list_all_iff)
    then have "\<exists>p \<in> set (st_programs t). \<forall>k. se_bs58 E p = Some k \<and> length k = 32
        \<longrightarrow> (\<forall>q \<in> set (qc_programs c). se_bs58 E q \<noteq> Some k)"
      unfolding listed by blast
    with e squads.refusals_agree [OF e, of node] signed once show ?thesis by simp
  qed
qed

lemma truncate_env [simp]:
  "se_bs58 (sol_env.truncate E) = se_bs58 E" "se_hex (sol_env.truncate E) = se_hex E"
  "se_pubkey (sol_env.truncate E) = se_pubkey E" "se_sign (sol_env.truncate E) = se_sign E"
  by (simp_all add: sol_env.defs)

text \<open>On a blob with an empty signature slot around the message of some instructions, the session signer produces the very
  bytes the broadcaster would send for these instructions and the same key.\<close>

theorem session_sign_matches_broadcaster:
  assumes "signed_tx (sol_env.truncate E) secret ixs h = Ok tx"
    and "build_message_multi (se_pubkey E secret) ixs h = Ok msg" "st_wire t = Some w" "se_b64 E w = Some (1 # replicate 64 0 @ msg)"
    and "load_session_keypair E s = Ok secret"
  shows "squads_sign E s t = Ok (sp_b64_text E tx, se_bs58_text E (se_sign E secret msg))"
proof -
  have "tx = with_signature (se_sign E secret msg) msg"
    using assms(1) by (simp add: signed_tx_def assms(2) Let_def split: if_splits)
  moreover have "compact_len 1 = [1]" using compact_len_1 by simp
  ultimately have "tx = 1 # se_sign E secret msg @ msg" by (simp add: with_signature_def write_compact_append)
  with assms(3-5) show ?thesis by (simp add: squads_sign_def Let_def)
qed

text \<open>The key text is read alike by the session signer, which tries hex first, and by the broadcaster, which tries base58
  first, unless it is both 32 bytes of hex and 32 or 64 bytes of base58.\<close>

theorem session_key_as_broadcaster:
  assumes "\<And>a b. se_hex E (trim_start_str ''0x'' (trim raw)) = Some a \<Longrightarrow> se_bs58 E (trim raw) = Some b
      \<Longrightarrow> length a = 32 \<Longrightarrow> length b \<notin> {32, 64}"
  shows "(load_signing_key_from_str E raw = Ok k) = (load_signing_key (sol_env.truncate E) raw = Ok k)"
proof -
  let ?h = "se_hex E (trim_start_str ''0x'' (trim raw))" and ?b = "se_bs58 E (trim raw)"
  consider "?h = None" | a where "?h = Some a" "length a \<noteq> 32" | a where "?h = Some a" "length a = 32" by fastforce
  then show ?thesis
  proof cases
    case (3 a)
    with assms have "length b \<noteq> 64 \<and> length b \<noteq> 32" if "?b = Some b" for b using that by auto
    with 3 show ?thesis by (cases ?b) (simp_all add: load_signing_key_from_str_def load_signing_key_def Let_def)
  qed (cases ?b; simp add: load_signing_key_from_str_def load_signing_key_def Let_def)+
qed

text \<open>A transaction that declares no program is wrapped unchanged whatever its bytes call, and while it has no bytes the
  policy check allows it without asking the node.\<close>

theorem undeclared_programs_pass:
  assumes "st_programs t = []"
  shows "(\<exists>w. squads_wrap E s t = Ok w \<and> st_wire w = st_wire t \<and> st_programs w = [])
    \<and> (st_wire t = None \<longrightarrow> squads_dry_run E s node t = (Ok Allowed, []))"
  using assms by (auto simp: squads_wrap_def squads_dry_run_def disallowed_program_def)

section \<open>The configuration file\<close>

text \<open>A configuration of either chain that is written to its file is read back.\<close>

theorem session_config_roundtrip: "session_of_json (session_json c) = Some c"
proof -
  have strings: "those (map (json_str \<circ> JStr) xs) = Some xs" for xs by (induction xs) simp_all
  have word: "as_u64 (JInt (uint n)) = Some n" for n :: u64 using uint_bounded [of n] by simp
  show ?thesis
  proof (cases c)
    case (EvmConfig e)
    then show ?thesis
      by (cases e) (simp add: session_json_def tagged_config_def read_evm_def evm_fields_def strings word del: as_u64.simps)
  next
    case (SolanaConfig q)
    then show ?thesis
      by (cases q) (simp add: session_json_def tagged_config_def read_squads_def squads_fields_def strings)
  qed
qed
section \<open>Witnesses\<close>

definition sample_spin :: spin_env where
  "sample_spin = sol_env.extend (sample_sol\<lparr>se_b64 := (\<lambda>_. Some (1 # replicate 99 0))\<rparr>)
     \<lparr>sp_hex_text = (\<lambda>_. []), sp_b64_text = (\<lambda>b. ''b64''), sp_addr = (\<lambda>s. if s = ''t'' then Some 9 else Some 7),
      sp_addr_text = (\<lambda>_. ''0x''), sp_hash = (\<lambda>_. Some [5]), sp_abi = (\<lambda>_. [1]), sp_outcome = (\<lambda>_. Some (True, [])),
      sp_abi_text = (\<lambda>_. None), sp_evm_key = (\<lambda>_. True), sp_is_1559 = (\<lambda>_. Some True), sp_envelope = (\<lambda>_ _. Some ([2], [5])),
      sp_show = (\<lambda>_. []), sp_var = (\<lambda>_. Some ''0'')\<rparr>"

lemmas sample_spin_simps = sample_spin_def sol_env.extend_def sample_sol_def

definition sample_evm_config :: evm_config where
  "sample_evm_config = \<lparr>ec_safe = ''s'', ec_module = ''m'', ec_role = ''r'', ec_targets = [''t''], ec_key_env = ''K'', ec_rpc = ''u'',
     ec_chain = 8453\<rparr>"

definition sample_squads_config :: squads_config where
  "sample_squads_config = \<lparr>qc_multisig = ''m'', qc_limit = ''l'', qc_programs = [''p''], qc_key_env = ''K'', qc_rpc = ''u''\<rparr>"

definition sample_node :: "node_request \<Rightarrow> node_answer" where
  "sample_node _ = Answer (JObj [(''result'', JStr ''0x05'')])"

theorem evm_session_scoped_witness:
  "\<exists>s w. evm_from_config sample_spin sample_evm_config = Ok s
     \<and> evm_wrap sample_spin s (empty_request\<lparr>rq_to := Some (Some 9)\<rparr>) = Ok w \<and> rq_to w = Some (Some 7)
     \<and> fst (evm_dry_run sample_spin s sample_node (empty_request\<lparr>rq_to := Some (Some 9)\<rparr>)) = Ok Allowed"
proof -
  obtain s where s: "evm_from_config sample_spin sample_evm_config = Ok s" "es_targets s = [9]"
    by (simp add: evm_from_config_def sample_spin_simps sample_evm_config_def strip_prefix_def starts_with_def)
  let ?tx = "empty_request\<lparr>rq_to := Some (Some 9)\<rparr>"
  obtain w where w: "evm_wrap sample_spin s ?tx = Ok w"
    using s(2) by (simp add: evm_wrap_def call_target_def is_target_allowed_def)
  have "jstr ''result'' (JObj [(''result'', JStr ''0x05'')]) = Some ''0x05''" "jget ''error'' (JObj [(''result'', JStr ''0x05'')]) = None"
    by (simp_all add: jstr_def)
  then have "\<exists>v h b d. sample_node q = Answer v \<and> jget ''error'' v = None \<and> jstr ''result'' v = Some h
      \<and> se_hex sample_spin (trim_start_str ''0x'' h) = Some b \<and> sp_outcome sample_spin b = Some (True, d)" for q
    by (simp add: sample_node_def sample_spin_simps)
  with evm_session_scoped [OF s(1), of ?tx sample_node "[]" "[]"] w s(1) show ?thesis
    by (auto simp: sample_spin_simps sample_evm_config_def)
qed

theorem evm_broadcast_reports_witness:
  "fst (evm_broadcast sample_spin (\<lambda>_. Answer (JObj [(''error'', JNull), (''result'', JStr ''0x05'')])) ([2], [5]))
     = Err (''eth_sendRawTransaction error: '')"
  using evm_broadcast_reports [of sample_spin "\<lambda>_. Answer (JObj [(''error'', JNull), (''result'', JStr ''0x05'')])" "[2]" "[5]" _ "''0x05''"]
  by (simp add: sample_spin_simps)

lemma sample_squads: "\<exists>s. squads_from_config sample_spin sample_squads_config = Ok s"
  by (simp add: squads_from_config_def pubkey_from_b58_def sample_spin_simps sample_squads_config_def)

lemma sample_session_key: "load_session_keypair sample_spin s = Ok (replicate 32 7)"
  by (simp add: load_session_keypair_def load_signing_key_from_str_def sample_spin_simps Let_def)

theorem squads_session_effect_witness:
  "\<exists>s w. squads_from_config sample_spin sample_squads_config = Ok s
     \<and> squads_wrap sample_spin s (with_wire ''w'' (new_unbuilt [''p''] ''fill'')) = Ok w \<and> st_wire w = Some ''w''
     \<and> snd (squads_dry_run sample_spin s sample_node (with_wire ''w'' (new_unbuilt [''p''] ''fill''))) = [SimulateTx ''w'']"
proof -
  obtain s where s: "squads_from_config sample_spin sample_squads_config = Ok s" using sample_squads by blast
  let ?t = "with_wire ''w'' (new_unbuilt [''p''] ''fill'')"
  have "sq_programs s = [replicate 32 1]"
    using s by (auto simp: squads_from_config_def pubkey_from_b58_def sample_spin_simps sample_squads_config_def)
  then have "disallowed_program sample_spin s ?t = None"
    by (simp add: disallowed_program_def with_wire_def new_unbuilt_def is_program_allowed_def pubkey_from_b58_def sample_spin_simps)
  then obtain w where w: "squads_wrap sample_spin s ?t = Ok w" by (simp add: squads_wrap_def)
  with squads_session_effect [OF s, of ?t sample_node "[]" "[]"] s show ?thesis by (auto simp: with_wire_def)
qed

theorem session_sign_matches_broadcaster_witness:
  "\<exists>E s ixs tx. signed_tx (sol_env.truncate E) (replicate 32 7) ixs (replicate 32 1) = Ok tx \<and> length ixs = 3
     \<and> (\<exists>sig. squads_sign E s (with_wire ''w'' (new_unbuilt [] ''fill'')) = Ok (sp_b64_text E tx, sig))"
proof -
  obtain s where s: "squads_from_config sample_spin sample_squads_config = Ok s" using sample_squads by blast
  let ?k = "replicate 32 7 :: bytes"
  obtain ixs where i: "swift_ixs sample_sol (se_pubkey sample_sol ?k) sample_swift = Ok ixs" using sample_swift_ixs by blast
  obtain tx where tx: "signed_tx sample_sol ?k ixs (replicate 32 1) = Ok tx"
    using swift_fits [OF sample_key i, of "replicate 32 1"] by auto
  define msg where "msg = enc_message (sort_accounts (se_pubkey sample_sol ?k) ixs) ixs (replicate 32 1)"
  have m: "build_message_multi (se_pubkey sample_sol ?k) ixs (replicate 32 1) = Ok msg"
    by (simp add: build_message_multi_def message_bytes_Ok [OF sorts_both(1)] msg_def)
  define E where "E = sample_spin\<lparr>se_b64 := (\<lambda>_. Some (1 # replicate 64 0 @ msg))\<rparr>"
  have E: "se_pubkey E = se_pubkey sample_sol" "se_sign E = se_sign sample_sol"
    by (simp_all add: E_def sample_spin_simps)
  have "load_session_keypair E s = Ok ?k"
    by (simp add: E_def load_session_keypair_def load_signing_key_from_str_def sample_spin_simps Let_def)
  moreover have t: "signed_tx (sol_env.truncate E) ?k ixs (replicate 32 1) = Ok tx"
    using tx by (simp add: signed_tx_def E)
  ultimately have "squads_sign E s (with_wire ''w'' (new_unbuilt [] ''fill'')) = Ok (sp_b64_text E tx, se_bs58_text E (se_sign E ?k msg))"
    by (intro session_sign_matches_broadcaster [OF t]) (simp_all add: m E with_wire_def, simp add: E_def)
  moreover have "length ixs = 3" using i by (rule swift_ixs_Ok) (simp add: budget_ixs_def)
  ultimately show ?thesis using t by blast
qed

theorem session_key_as_broadcaster_witness:
  "load_signing_key (sol_env.truncate sample_spin) ''0'' = Ok (replicate 32 7)"
  using session_key_as_broadcaster [of sample_spin "''0''" "replicate 32 7"] sample_session_key
  by (simp add: load_session_keypair_def) (simp add: sample_spin_simps trim_def is_space_def)

theorem undeclared_programs_pass_witness:
  "\<forall>s. squads_dry_run sample_spin s sample_node (new_unbuilt [] ''fill'') = (Ok Allowed, [])"
  using undeclared_programs_pass [of "new_unbuilt [] ''fill''" sample_spin _ sample_node] by (simp add: new_unbuilt_def)

end
