(* ===== verification/AcrossFill.thy ===== *)
theory AcrossFill
  imports DlnFeed
begin

text \<open>
  Across fills on EVM chains (\<open>crates/executor/src/across_executor.rs\<close>, \<open>spinner_solver.rs\<close>, \<open>operator_calldata.rs\<close>):
  the calldata of a fill, the relay data read back from the deposit on the source chain, the answers of the spinner
  and the executor that wraps a fill with a proof.  The ABI encoder, the parsers of addresses and numbers, hex, the
  node and the spinner are parameters; error texts are their outermost part.
\<close>

type_synonym w256 = "256 word"

section \<open>The calldata of a fill\<close>

record across_order =
  ao_deposit_id :: int
  ao_depositor :: evm_addr
  ao_recipient :: evm_addr
  ao_input_token :: evm_addr
  ao_output_token :: evm_addr
  ao_input :: w256
  ao_output :: w256
  ao_origin :: u64
  ao_fill_deadline :: u32
  ao_excl_deadline :: u32
  ao_relayer :: evm_addr
  ao_message :: bytes

record relay_tuple =
  rl_depositor :: bytes
  rl_recipient :: bytes
  rl_relayer :: bytes
  rl_input_token :: bytes
  rl_output_token :: bytes
  rl_input :: w256
  rl_output :: w256
  rl_origin :: w256
  rl_deposit_id :: w256
  rl_fill_deadline :: u32
  rl_excl_deadline :: u32
  rl_message :: bytes

datatype spoke_call =
    FillRelay relay_tuple w256 bytes
  | AdapterFill int bytes w256
  | ExecuteWithProof bytes evm_addr bytes

record fill_codec =
  fc_hex :: codec
  fc_addr :: "string \<Rightarrow> evm_addr option"
  fc_u256 :: "string \<Rightarrow> w256 option"
  fc_relay :: "across_order \<Rightarrow> bytes"
  fc_abi :: "spoke_call \<Rightarrow> bytes"

definition addr_to_b32 :: "evm_addr \<Rightarrow> bytes" where
  "addr_to_b32 a = replicate 12 0 @ be_enc 20 (unat a)"

definition parse_deposit_id_legacy :: "string \<Rightarrow> int option" where
  "parse_deposit_id_legacy s =
     (case List.map_filter parse_i64 (split_on (\<lambda>c. c \<in> set '':_/'') s) of [] \<Rightarrow> None | ns \<Rightarrow> Some (last ns))"

definition resolve_deposit_id :: "intent \<Rightarrow> int option" where
  "resolve_deposit_id it =
     (case i_deposit_id it of
        Some d \<Rightarrow> Some d
      | None \<Rightarrow>
          (case parse_deposit_id_legacy (i_id it) of Some d \<Rightarrow> Some d | None \<Rightarrow> parse_deposit_id_legacy (i_tx_hash it)))"

definition output_token_of :: "fill_codec \<Rightarrow> intent \<Rightarrow> (string, evm_addr) res" where
  "output_token_of C it =
     (let t = to_lowercase (trim (i_dst_token it))
      in if t = ''native'' \<or> t = ''0xeeeeeeeeeeeeeeeeeeeeeeeeeeeeeeeeeeeeeeee'' then Ok 0
         else ok_or (''invalid dst_token '' @ i_dst_token it) (fc_addr C (i_dst_token it)))"

definition given :: "string option \<Rightarrow> string option" where
  "given x = keep (\<lambda>s. s \<noteq> [] \<and> s \<noteq> ''0x'') x"

definition relayer_of :: "fill_codec \<Rightarrow> intent \<Rightarrow> evm_addr" where
  "relayer_of C it = (case Option.bind (given (i_exclusive_relayer it)) (fc_addr C) of None \<Rightarrow> 0 | Some a \<Rightarrow> a)"

definition message_of_intent :: "fill_codec \<Rightarrow> intent \<Rightarrow> bytes" where
  "message_of_intent C it =
     (case Option.bind (given (i_message it)) (\<lambda>s. cx_decode (fc_hex C) (trim_start_str ''0x'' s)) of None \<Rightarrow> [] | Some b \<Rightarrow> b)"

text \<open>The part both builders share; \<open>now\<close> is the clock in seconds.\<close>

definition across_order_of :: "fill_codec \<Rightarrow> u64 \<Rightarrow> intent \<Rightarrow> (string, across_order) res" where
  "across_order_of C now it =
     res_bind (ok_or (''cannot resolve depositId for intent '' @ i_id it) (resolve_deposit_id it)) (\<lambda>d.
     res_bind (ok_or (''invalid depositor '' @ i_depositor it) (fc_addr C (i_depositor it))) (\<lambda>dep.
     res_bind (ok_or (''invalid recipient '' @ i_recipient it) (fc_addr C (i_recipient it))) (\<lambda>rec.
     res_bind (ok_or (''invalid src_token '' @ i_src_token it) (fc_addr C (i_src_token it))) (\<lambda>tin.
     res_bind (output_token_of C it) (\<lambda>tout.
     res_bind (ok_or ''invalid input amount'' (fc_u256 C (i_amount it))) (\<lambda>amt.
     res_bind (case i_output_amount it of None \<Rightarrow> Ok amt | Some s \<Rightarrow> ok_or ''invalid output_amount'' (fc_u256 C s)) (\<lambda>out.
     Ok \<lparr>ao_deposit_id = d, ao_depositor = dep, ao_recipient = rec, ao_input_token = tin, ao_output_token = tout,
         ao_input = amt, ao_output = out, ao_origin = i_src_chain it,
         ao_fill_deadline = (case i_fill_deadline it of None \<Rightarrow> ucast (now + 3600) | Some t \<Rightarrow> t),
         ao_excl_deadline = (case i_exclusivity_deadline it of None \<Rightarrow> 0 | Some t \<Rightarrow> t),
         ao_relayer = relayer_of C it, ao_message = message_of_intent C it\<rparr>)))))))"

definition build_across_adapter_calldata :: "fill_codec \<Rightarrow> u64 \<Rightarrow> intent \<Rightarrow> (string, bytes) res" where
  "build_across_adapter_calldata C now it =
     res_bind (across_order_of C now it) (\<lambda>ord.
     Ok (fc_abi C (AdapterFill (ao_deposit_id ord) (fc_relay C ord) (ucast (i_dst_chain it)))))"

definition relay_of_order :: "across_order \<Rightarrow> relay_tuple" where
  "relay_of_order ord =
     \<lparr>rl_depositor = addr_to_b32 (ao_depositor ord), rl_recipient = addr_to_b32 (ao_recipient ord),
      rl_relayer = addr_to_b32 (ao_relayer ord), rl_input_token = addr_to_b32 (ao_input_token ord),
      rl_output_token = addr_to_b32 (ao_output_token ord), rl_input = ao_input ord, rl_output = ao_output ord,
      rl_origin = ucast (ao_origin ord), rl_deposit_id = word_of_int (ao_deposit_id ord),
      rl_fill_deadline = ao_fill_deadline ord, rl_excl_deadline = ao_excl_deadline ord, rl_message = ao_message ord\<rparr>"

definition build_across_spoke_pool_calldata_with_relayer ::
    "fill_codec \<Rightarrow> u64 \<Rightarrow> intent \<Rightarrow> evm_addr option \<Rightarrow> u64 option \<Rightarrow> (string, bytes) res" where
  "build_across_spoke_pool_calldata_with_relayer C now it relayer chain =
     res_bind (across_order_of C now it) (\<lambda>ord.
     if ao_deposit_id ord < 0 then Err ''negative depositId''
     else Ok (fc_abi C (FillRelay (relay_of_order ord) (ucast (case chain of None \<Rightarrow> i_dst_chain it | Some c \<Rightarrow> c))
            (addr_to_b32 (case relayer of None \<Rightarrow> ao_depositor ord | Some a \<Rightarrow> a)))))"

definition build_across_spoke_pool_calldata :: "fill_codec \<Rightarrow> u64 \<Rightarrow> intent \<Rightarrow> (string, bytes) res" where
  "build_across_spoke_pool_calldata C now it = build_across_spoke_pool_calldata_with_relayer C now it None None"

definition build_execute_with_proof_calldata :: "fill_codec \<Rightarrow> bytes \<Rightarrow> evm_addr \<Rightarrow> bytes \<Rightarrow> bytes" where
  "build_execute_with_proof_calldata C proof adapter data = fc_abi C (ExecuteWithProof proof adapter data)"

section \<open>The deposit on the source chain\<close>

record relay_record = relay_data +
  rr_input_token :: string
  rr_input_amount :: string

definition v3_deposited_topics :: "string list" where
  "v3_deposited_topics =
     [''0x32ed1a409ef04c7b0227189c3a103dc5ac10e775a15b785dcc510201f7c25ad3'',
      ''0xa123dc29aebf7d0c3322c8eeb5b999e859f39937950ed31056532713d0de396f'']"

definition slot :: "bytes \<Rightarrow> nat \<Rightarrow> bytes" where
  "slot data off = take 32 (drop off data)"

definition packed_format :: "bytes \<Rightarrow> bool" where
  "packed_format data \<longleftrightarrow>
     32 \<le> length data \<and> list_all (\<lambda>b. b = 0) (take 12 (drop 20 data)) \<and> list_ex (\<lambda>b. b \<noteq> 0) (take 20 data)"

text \<open>\<open>read_addr\<close> and \<open>read_uint_slot\<close>, at offsets within the data.\<close>

definition read_addr :: "codec \<Rightarrow> bytes \<Rightarrow> nat \<Rightarrow> string" where
  "read_addr H data off =
     ''0x'' @ cx_encode H (if packed_format data then take 20 (drop off data) else take 20 (drop (off + 12) data))"

definition read_uint_slot :: "bytes \<Rightarrow> nat \<Rightarrow> nat" where
  "read_uint_slot data off =
     be_val (if packed_format data then take 4 (drop (off + 16) data) else slot data off)"

text \<open>\<open>to::<u32>()\<close> and \<open>to::<usize>()\<close> panic when the value does not fit.\<close>

definition to_u32 :: "nat \<Rightarrow> (unit, u32) res" where
  "to_u32 n = (if n < 2 ^ 32 then Ok (of_nat n) else Panic)"

text \<open>\<open>i64::from_str_radix(s, 16)\<close>.\<close>

definition hex_i64 :: "string \<Rightarrow> int option" where
  "hex_i64 s =
     (let neg = starts_with s ''-''; ds = (if neg \<or> starts_with s ''+'' then drop 1 s else s)
      in if ds = [] then None
         else case those (map hex_digit ds) of
                None \<Rightarrow> None
              | Some xs \<Rightarrow>
                  let n = int (hex_fold xs)
                  in if neg then (if n \<le> 2 ^ 63 then Some (- n) else None) else (if n < 2 ^ 63 then Some n else None))"

text \<open>The message: an offset, there a length and the bytes.  Offsets and lengths that do not fit a machine word panic in the
  conversion, those near its end in the sum or in the slice.\<close>

definition relay_message :: "codec \<Rightarrow> bytes \<Rightarrow> (unit, string option) res" where
  "relay_message H data =
     (let off = be_val (slot data 288)
      in if 2 ^ 64 \<le> off + 32 then Panic
         else if length data < off + 32 then Ok None
         else let len = be_val (slot data off)
              in if 2 ^ 64 \<le> len then Panic
                 else if len = 0 then Ok None
                 else if 2 ^ 64 \<le> off + 32 + len then Panic
                 else if length data < off + 32 + len then Ok None
                 else Ok (Some (''0x'' @ cx_encode H (take len (drop (off + 32) data)))))"

definition jarr :: "string \<Rightarrow> json \<Rightarrow> json list option" where
  "jarr k v = (case jget k v of Some (JArr vs) \<Rightarrow> Some vs | _ \<Rightarrow> None)"

definition depositor_text :: "json list \<Rightarrow> string option" where
  "depositor_text topics =
     Option.bind (Option.bind (nth_opt topics 3) json_str) (\<lambda>t.
     let h = trim_start_str ''0x'' t in map_option (\<lambda>x. ''0x'' @ x) (str_slice 24 (length h) h))"

text \<open>One log with the right topic and enough data.\<close>

definition decode_deposit :: "codec \<Rightarrow> json list \<Rightarrow> bytes \<Rightarrow> (unit, relay_record option) res" where
  "decode_deposit H topics data =
     res_bind (to_u32 (read_uint_slot data 160)) (\<lambda>fill_deadline.
     res_bind (to_u32 (read_uint_slot data 192)) (\<lambda>excl_deadline.
     case depositor_text topics of
       None \<Rightarrow> Ok None
     | Some depositor \<Rightarrow>
         res_bind (relay_message H data) (\<lambda>message.
         Ok (Some \<lparr>rd_depositor = Some depositor, rd_recipient = Some (read_addr H data 224),
                   rd_exclusive_relayer = Some (read_addr H data 256), rd_output_token = Some (read_addr H data 32),
                   rd_output_amount = Some (show_nat (read_uint_slot data 96)), rd_fill_deadline = Some fill_deadline,
                   rd_exclusivity_deadline = Some excl_deadline, rd_message = message,
                   rd_deposit_id = Option.bind (Option.bind (nth_opt topics 2) json_str) (\<lambda>t. hex_i64 (trim_start_str ''0x'' t)),
                   rr_input_token = read_addr H data 0, rr_input_amount = show_nat (read_uint_slot data 64)\<rparr>))))"

fun scan_deposit_logs :: "codec \<Rightarrow> json list \<Rightarrow> (unit, relay_record option) res" where
  "scan_deposit_logs H [] = Ok None"
| "scan_deposit_logs H (lg # lgs) =
     (case jarr ''topics'' lg of
        None \<Rightarrow> Ok None
      | Some topics \<Rightarrow>
          (case Option.bind (nth_opt topics 0) json_str of
             None \<Rightarrow> Ok None
           | Some topic0 \<Rightarrow>
               if topic0 \<notin> set v3_deposited_topics then scan_deposit_logs H lgs
               else case Option.bind (Option.bind (jstr ''data'' lg) (\<lambda>d. strip_prefix d ''0x'')) (cx_decode H) of
                      None \<Rightarrow> Ok None
                    | Some data \<Rightarrow> if length data < 320 then scan_deposit_logs H lgs else decode_deposit H topics data))"

text \<open>The answer of the node to the request for the receipt, when it is JSON.\<close>

definition fetch_relay_data_from_tx :: "codec \<Rightarrow> string \<Rightarrow> json option \<Rightarrow> (unit, relay_record option) res" where
  "fetch_relay_data_from_tx H tx_hash reply =
     (if tx_hash = [] \<or> tx_hash = ''0x'' \<or> starts_with tx_hash ''synthetic_'' then Ok None
      else case Option.bind (Option.bind reply (jget ''result'')) (jarr ''logs'') of
             None \<Rightarrow> Ok None
           | Some logs \<Rightarrow> scan_deposit_logs H logs)"

text \<open>The transaction hash of a deposit, from the status API when it answered with success.\<close>

definition deposit_tx_hash :: "json \<Rightarrow> string option" where
  "deposit_tx_hash v =
     keep (\<lambda>s. s \<noteq> [] \<and> starts_with s ''0x'')
       (Option.bind (case jget ''depositTxHash'' v of Some x \<Rightarrow> Some x | None \<Rightarrow> jget ''depositTxnRef'' v) json_str)"

definition fetch_relay_data_for_deposit ::
    "codec \<Rightarrow> json option \<Rightarrow> (string \<Rightarrow> json option) \<Rightarrow> (unit, relay_record option) res" where
  "fetch_relay_data_for_deposit H reply node =
     (case Option.bind reply deposit_tx_hash of
        None \<Rightarrow> Ok None
      | Some h \<Rightarrow> fetch_relay_data_from_tx H h (node h))"

section \<open>The answers of the spinner\<close>

record test_result = test_run +
  te_gas_price_wei :: "nat option"
  te_gas_cost_usd :: f64
  te_recommendation :: string

fun as_bool :: "json \<Rightarrow> bool option" where
  "as_bool (JBool b) = Some b"
| "as_bool _ = None"

definition jbool :: "string \<Rightarrow> json \<Rightarrow> bool option" where "jbool k v = Option.bind (jget k v) as_bool"
definition jf64 :: "string \<Rightarrow> json \<Rightarrow> f64 option" where "jf64 k v = Option.bind (jget k v) as_f64"

definition either :: "'a option \<Rightarrow> 'a option \<Rightarrow> 'a option" where
  "either a b = (case a of Some x \<Rightarrow> Some x | None \<Rightarrow> b)"

definition opt_else :: "'a option \<Rightarrow> 'a \<Rightarrow> 'a" where
  "opt_else x d = (case x of Some a \<Rightarrow> a | None \<Rightarrow> d)"

definition profitability :: "json \<Rightarrow> bool \<times> f64 \<times> string" where
  "profitability v =
     (case jget ''profitability'' v of
        Some p \<Rightarrow> (opt_else (jbool ''is_profitable'' p) False, opt_else (jf64 ''net_profit_usd'' p) (Fin 0), or_str (jstr ''recommendation'' p) [])
      | None \<Rightarrow> (opt_else (jbool ''is_profitable'' v) (opt_else (jbool ''profitable'' v) False),
                 opt_else (jf64 ''net_profit_usd'' v) (Fin 0), or_str (jstr ''recommendation'' v) []))"

definition gas_of_test :: "json \<Rightarrow> u64 \<times> f64 \<times> nat option" where
  "gas_of_test v =
     (case jget ''gas_estimate'' v of
        Some g \<Rightarrow>
          (opt_else (Option.bind (either (jget ''total_gas_units'' g) (jget ''gas_units'' g)) as_u64) 0,
           opt_else (Option.bind (either (jget ''gas_cost_usd'' g) (jget ''total_cost_usd'' g)) as_f64) (Fin 0),
           either (map_option unat (Option.bind (jget ''gas_price_wei'' g) as_u64))
             (map_option (\<lambda>x. unat (f_to_u128 (f_mul x (fround (10 ^ 9))))) (jf64 ''gas_price_gwei'' g)))
      | None \<Rightarrow> (opt_else (Option.bind (jget ''gas_units'' v) as_u64) 0, opt_else (jf64 ''gas_cost_usd'' v) (Fin 0), None))"

definition test_result_of_json :: "json \<Rightarrow> test_result" where
  "test_result_of_json v =
     (let (ok, net, rec) = profitability v; (units, cost, price) = gas_of_test v
      in \<lparr>tr_is_profitable = ok, tr_net_profit_usd = net, tr_gas_units = units, te_gas_price_wei = price,
          te_gas_cost_usd = cost, te_recommendation = rec\<rparr>)"

text \<open>An answer: whether the status is a success, the content type, the body and the body as JSON.\<close>

record spinner_reply =
  ht_ok :: bool
  ht_type :: string
  ht_body :: bytes
  ht_json :: "json option"

definition test_run_reply :: "spinner_reply option \<Rightarrow> (string, test_result) res" where
  "test_run_reply r =
     (case r of
        None \<Rightarrow> Err ''POST''
      | Some h \<Rightarrow>
          if \<not> ht_ok h then Err ''test-run http''
          else (case ht_json h of None \<Rightarrow> Err ''json'' | Some v \<Rightarrow> Ok (test_result_of_json v)))"

definition proof_bundle_reply :: "codec \<Rightarrow> (json \<Rightarrow> bytes) \<Rightarrow> spinner_reply option \<Rightarrow> (string, bytes) res" where
  "proof_bundle_reply H dump r =
     (case r of
        None \<Rightarrow> Err ''GET''
      | Some h \<Rightarrow>
          if \<not> ht_ok h then Err ''proof-bundle http''
          else if starts_with (ht_type h) ''application/octet-stream'' then Ok (ht_body h)
          else (case ht_json h of
                  None \<Rightarrow> Err ''json''
                | Some v \<Rightarrow>
                    (case either (jstr ''proof_blob_hex'' v) (either (jstr ''proof'' v) (jstr ''blob'' v)) of
                       Some s \<Rightarrow> ok_or ''hex'' (cx_decode H (or_str (strip_prefix s ''0x'') s))
                     | None \<Rightarrow> Ok (dump v))))"

section \<open>The executor with proofs\<close>

record across_exec =
  xe_codec :: fill_codec
  xe_chains :: "(u64 \<times> chain_wiring) list"
  xe_dry_run :: bool
  xe_threshold :: f64
  xe_now :: u64
  xe_started :: int
  xe_log_ok :: bool
  xe_test :: "(string, test_result) res"
  xe_proof :: "(string, bytes) res"
  xe_rpc_ok :: bool
  xe_send :: "evm_tx \<Rightarrow> string + string"
  xe_receipt :: "string \<Rightarrow> string + receipt"

text \<open>The part of the test run's cost that the receipt exceeds, at the price per unit the test run had.\<close>

definition estimate_gas_overrun_usd :: "test_result \<Rightarrow> u64 \<Rightarrow> nat \<Rightarrow> f64" where
  "estimate_gas_overrun_usd t used price =
     (let unit_cost = f_div (te_gas_cost_usd t) (fround (of_nat (max (unat (tr_gas_units t)) 1)));
          ratio = f_div (fround (of_nat price)) (fround (of_nat (max (opt_else (te_gas_price_wei t) 0) 1)));
          cost = f_mul (f_mul unit_cost (fround (of_nat (unat used)))) ratio
      in f_max (f_sub cost (te_gas_cost_usd t)) (Fin 0))"

text \<open>The rows of the log and the transactions handed to the node.\<close>

type_synonym exec_state = "outcome_log \<times> evm_tx list"

definition log_row :: "across_exec \<Rightarrow> outcome \<Rightarrow> (string, 'a) res \<Rightarrow> outcome_log \<Rightarrow> evm_tx list \<Rightarrow> (string, 'a) res \<times> exec_state" where
  "log_row X row r rows sent = (if xe_log_ok X then (r, append_outcome_row row rows, sent) else (Err ''outcome log'', rows, sent))"

definition predicted_row :: "across_exec \<Rightarrow> intent \<Rightarrow> test_result \<Rightarrow> string \<Rightarrow> outcome" where
  "predicted_row X it t decision =
     (outcome_for (xe_started X) it decision)\<lparr>o_predicted_gas := Some (tr_gas_units t), o_predicted_profit := Some (tr_net_profit_usd t)\<rparr>"

definition skip_row :: "across_exec \<Rightarrow> intent \<Rightarrow> test_result \<Rightarrow> string \<Rightarrow> msg \<Rightarrow> outcome" where
  "skip_row X it t decision reason = (predicted_row X it t decision)\<lparr>o_skip_reason := Some reason\<rparr>"

definition proof_call :: "across_exec \<Rightarrow> intent \<Rightarrow> chain_wiring \<Rightarrow> (string, evm_tx) res" where
  "proof_call X it w =
     res_bind (case xe_proof X of Err _ \<Rightarrow> Err ''spinner /api/v5/proof/bundle/across'' | r \<Rightarrow> r) (\<lambda>proof.
     res_bind (build_across_adapter_calldata (xe_codec X) (xe_now X) it) (\<lambda>data.
     Ok \<lparr>tx_rpc_url = cw_rpc_url w, tx_to = cw_operator w,
         tx_data = build_execute_with_proof_calldata (xe_codec X) proof (cw_across_adapter w) data,
         tx_value = None, tx_fees = None\<rparr>))"

definition broadcast_proof :: "across_exec \<Rightarrow> intent \<Rightarrow> test_result \<Rightarrow> evm_tx \<Rightarrow> outcome_log \<Rightarrow> (string, string option) res \<times> exec_state" where
  "broadcast_proof X it t tx rows =
     (if \<not> xe_rpc_ok X then (Err ''rpc url'', rows, [])
      else case xe_send X tx of
             Inl e \<Rightarrow> (Err ''send_transaction failed'', rows, [tx])
           | Inr h \<Rightarrow>
               (case xe_receipt X h of
                  Inl e \<Rightarrow> (Err ''get_receipt failed'', rows, [tx])
                | Inr rc \<Rightarrow>
                    log_row X ((predicted_row X it t (if rc_status rc then ''executed'' else ''executed_failed''))\<lparr>
                        o_tx_hash := Some h, o_gas_used := Some (rc_gas_used rc),
                        o_effective_gas_price := Some (show_nat (rc_gas_price rc)),
                        o_actual_profit := Some (f_sub (tr_net_profit_usd t)
                          (estimate_gas_overrun_usd t (rc_gas_used rc) (rc_gas_price rc)))\<rparr>)
                      (if rc_status rc then Ok (Some h) else Err ''executeWithProof reverted on-chain'') rows [tx]))"

definition across_executor_fill :: "across_exec \<Rightarrow> intent \<Rightarrow> outcome_log \<Rightarrow> (string, string option) res \<times> exec_state" where
  "across_executor_fill X it rows =
     (if \<not> contains (to_lowercase (i_protocol it)) ''across'' then (Err ''not an Across intent'', rows, [])
      else case xe_test X of
        Err _ \<Rightarrow> (Err ''spinner /api/solver/test-run'', rows, [])
      | Panic \<Rightarrow> (Panic, rows, [])
      | Ok t \<Rightarrow>
          if \<not> tr_is_profitable t
          then log_row X (skip_row X it t ''skip_unprofitable'' (lit ''unprofitable'')) (Ok None) rows []
          else if f_lt (tr_net_profit_usd t) (xe_threshold X)
          then log_row X (skip_row X it t ''skip_threshold''
                 (Msg ''below_threshold:${:.4}<${:.2}'' [AF64 (tr_net_profit_usd t), AF64 (xe_threshold X)])) (Ok None) rows []
          else case map_of (xe_chains X) (i_dst_chain it) of
                 None \<Rightarrow> (Err ''no chain wiring for dst'', rows, [])
               | Some w \<Rightarrow>
                   (case proof_call X it w of
                      Err e \<Rightarrow> (Err e, rows, [])
                    | Panic \<Rightarrow> (Panic, rows, [])
                    | Ok tx \<Rightarrow>
                        if xe_dry_run X then log_row X (skip_row X it t ''dry_run'' (lit ''dry_run'')) (Ok None) rows []
                        else broadcast_proof X it t tx rows))"

section \<open>A deposit read back and filled\<close>

text \<open>The text of an address, and the log of a deposit as the contract writes it.\<close>

definition addr_text :: "evm_addr \<Rightarrow> string" where
  "addr_text a = ''0x'' @ hex_encode (be_enc 20 (unat a))"

definition deposit_blocks :: "nat \<Rightarrow> across_order \<Rightarrow> bytes list" where
  "deposit_blocks quote ord =
     [addr_to_b32 (ao_input_token ord), addr_to_b32 (ao_output_token ord), be32 (unat (ao_input ord)),
       be32 (unat (ao_output ord)), be32 quote, be32 (unat (ao_fill_deadline ord)), be32 (unat (ao_excl_deadline ord)),
       addr_to_b32 (ao_recipient ord), addr_to_b32 (ao_relayer ord), be32 320, be32 (length (ao_message ord))]"

definition deposit_data :: "nat \<Rightarrow> across_order \<Rightarrow> bytes \<Rightarrow> bytes" where
  "deposit_data quote ord tail = concat (deposit_blocks quote ord) @ ao_message ord @ tail"

definition deposit_topics :: "string \<Rightarrow> nat \<Rightarrow> across_order \<Rightarrow> json list" where
  "deposit_topics topic0 dst ord =
     [JStr topic0, JStr (''0x'' @ hex_encode (be32 dst)), JStr (''0x'' @ hex_encode (be32 (nat (ao_deposit_id ord)))),
      JStr (''0x'' @ hex_encode (addr_to_b32 (ao_depositor ord)))]"

definition deposit_log :: "string \<Rightarrow> nat \<Rightarrow> nat \<Rightarrow> across_order \<Rightarrow> bytes \<Rightarrow> json" where
  "deposit_log topic0 dst quote ord tail =
     JObj [(''topics'', JArr (deposit_topics topic0 dst ord)), (''data'', JStr (''0x'' @ hex_encode (deposit_data quote ord tail)))]"

definition receipt_with :: "json list \<Rightarrow> json" where
  "receipt_with logs = JObj [(''result'', JObj [(''logs'', JArr logs)])]"

text \<open>Logs of other events, as every transaction has them.\<close>

definition other_log :: "json \<Rightarrow> bool" where
  "other_log lg \<longleftrightarrow> (\<exists>t ts. jarr ''topics'' lg = Some (JStr t # ts) \<and> t \<notin> set v3_deposited_topics)"

text \<open>What the parsers promise.\<close>

definition codec_fits :: "fill_codec \<Rightarrow> bool" where
  "codec_fits C \<longleftrightarrow> fc_hex C = hex_codec \<and> (\<forall>a. fc_addr C (addr_text a) = Some a) \<and> (\<forall>w. fc_u256 C (show_nat (unat w)) = Some w)"

definition eth_sentinel :: string where "eth_sentinel = ''0xeeeeeeeeeeeeeeeeeeeeeeeeeeeeeeeeeeeeeeee''"

text \<open>An intent that knows only what every feed reports.\<close>

definition bare_intent :: "across_order \<Rightarrow> intent \<Rightarrow> bool" where
  "bare_intent ord it \<longleftrightarrow> i_src_token it = addr_text (ao_input_token ord) \<and> i_amount it = show_nat (unat (ao_input ord))
     \<and> i_src_chain it = ao_origin ord \<and> blank_addr (i_depositor it) \<and> blank_addr (i_recipient it) \<and> blank_addr (i_dst_token it)
     \<and> i_output_amount it = None \<and> i_fill_deadline it = None \<and> i_exclusivity_deadline it = None
     \<and> i_exclusive_relayer it = None \<and> i_message it = None \<and> i_deposit_id it = None"

lemma hex_facts: "hex_decode (hex_encode b) = Some b" "length (hex_encode b) = 2 * length b" "CHR ''x'' \<notin> set (hex_encode b)"
  using hex_codec_ok by (simp_all add: codec_ok_def hex_codec_def)

lemma hex_encode_append: "hex_encode (a @ b) = hex_encode a @ hex_encode b"
  by (simp add: hex_encode_def)

lemma length_addr_to_b32 [simp]: "length (addr_to_b32 a) = 32"
  by (simp add: addr_to_b32_def)

lemma block_at:
  assumes "\<forall>b \<in> set bs. length b = 32" "i < length bs"
  shows "take 32 (drop (32 * i) (concat bs @ rest)) = bs ! i"
  using assms
proof (induction bs arbitrary: i)
  case (Cons b bs)
  then show ?case by (cases i) (simp_all add: algebra_simps)
qed simp

lemma be_val_zero: "list_all (\<lambda>b. b = 0) bs \<Longrightarrow> be_val bs = 0"
  by (induction bs rule: rev_induct) (simp_all add: be_val_snoc, simp add: be_val_def)

lemma slot_deposit: "i < 11 \<Longrightarrow> slot (deposit_data quote ord tail) (32 * i) = deposit_blocks quote ord ! i"
  unfolding slot_def deposit_data_def
  by (rule block_at) (simp_all add: deposit_blocks_def del: be_enc.simps)

lemma standard_layout:
  assumes "unat (ao_input_token ord) mod 2 ^ 96 \<noteq> 0"
  shows "\<not> packed_format (deposit_data quote ord tail)"
proof -
  let ?d = "deposit_data quote ord tail" and ?n = "unat (ao_input_token ord)"
  have "take 12 (drop 20 ?d) = drop 20 (slot ?d 0)" by (simp add: slot_def drop_take)
  also have "\<dots> = drop 8 (be_enc (8 + 12) ?n)" using slot_deposit [of 0 quote ord tail] by (simp add: deposit_blocks_def addr_to_b32_def del: be_enc.simps)
  also have "\<dots> = be_enc 12 ?n" by (rule drop_be_enc)
  finally have "be_val (take 12 (drop 20 ?d)) = ?n mod 2 ^ 96" by (simp add: be_val_be_enc del: be_enc.simps)
  with assms show ?thesis using be_val_zero [of "take 12 (drop 20 ?d)"] by (auto simp: packed_format_def)
qed

lemma read_deposit:
  fixes quote :: nat and tail :: bytes
  assumes "unat (ao_input_token ord) mod 2 ^ 96 \<noteq> 0"
  defines "d \<equiv> deposit_data quote ord tail"
  shows "read_uint_slot d 64 = unat (ao_input ord)" "read_uint_slot d 96 = unat (ao_output ord)"
    "read_uint_slot d 160 = unat (ao_fill_deadline ord)" "read_uint_slot d 192 = unat (ao_excl_deadline ord)"
    "read_addr hex_codec d 32 = addr_text (ao_output_token ord)" "read_addr hex_codec d 224 = addr_text (ao_recipient ord)"
    "read_addr hex_codec d 256 = addr_text (ao_relayer ord)" "read_addr hex_codec d 0 = addr_text (ao_input_token ord)"
proof -
  note np = standard_layout [OF assms(1), of quote tail, folded d_def]
  have w: "be_val (be32 (unat x)) = unat x" for x :: w256 by (rule be_val_be32) (use unsigned_less [of x] in simp)
  have t: "be_val (be32 (unat x)) = unat x" for x :: u32
    by (rule be_val_be32) (rule order_less_le_trans [OF unsigned_less], simp)
  note s = slot_deposit [of _ quote ord tail, folded d_def, unfolded deposit_blocks_def]
  have n: "read_uint_slot d (32 * i) = be_val (slot d (32 * i))" for i using np by (simp add: read_uint_slot_def)
  show "read_uint_slot d 64 = unat (ao_input ord)" "read_uint_slot d 96 = unat (ao_output ord)"
    "read_uint_slot d 160 = unat (ao_fill_deadline ord)" "read_uint_slot d 192 = unat (ao_excl_deadline ord)"
    using n [of 2] n [of 3] n [of 5] n [of 6] s [of 2] s [of 3] s [of 5] s [of 6]
    by (simp_all add: w t del: be_enc.simps)
  have a: "read_addr hex_codec d (32 * i) = addr_text x" if "slot d (32 * i) = addr_to_b32 x" for i x
  proof -
    have "take 20 (drop (32 * i + 12) d) = drop 12 (slot d (32 * i))" by (simp add: slot_def drop_take add.commute)
    with that np show ?thesis by (simp add: read_addr_def addr_text_def addr_to_b32_def hex_codec_def)
  qed
  show "read_addr hex_codec d 32 = addr_text (ao_output_token ord)" "read_addr hex_codec d 224 = addr_text (ao_recipient ord)"
    "read_addr hex_codec d 256 = addr_text (ao_relayer ord)" "read_addr hex_codec d 0 = addr_text (ao_input_token ord)"
    using a [of 1] a [of 7] a [of 8] a [of 0] s [of 1] s [of 7] s [of 8] s [of 0] by (simp_all del: be_enc.simps)
qed

lemma length_deposit_data: "length (deposit_data quote ord tail) = 352 + length (ao_message ord) + length tail"
  by (simp add: deposit_data_def deposit_blocks_def del: be_enc.simps)

lemma message_deposit:
  assumes "length (ao_message ord) < 2 ^ 63"
  shows "relay_message hex_codec (deposit_data quote ord tail)
    = Ok (if ao_message ord = [] then None else Some (''0x'' @ hex_encode (ao_message ord)))"
proof -
  let ?d = "deposit_data quote ord tail"
  note s = slot_deposit [of _ quote ord tail, unfolded deposit_blocks_def]
  have off: "be_val (slot ?d 288) = 320" using s [of 9] by (simp add: be_val_be32 del: be_enc.simps)
  have "(2::nat) ^ 63 < 2 ^ 256" by simp
  then have len: "be_val (slot ?d 320) = length (ao_message ord)"
    using s [of 10] assms by (simp add: be_val_be32 del: be_enc.simps)
  have m: "take (length (ao_message ord)) (drop 352 ?d) = ao_message ord"
    by (simp add: deposit_data_def deposit_blocks_def del: be_enc.simps)
  show ?thesis
    using assms by (simp add: relay_message_def off len length_deposit_data m hex_codec_def)
qed

lemma depositor_deposit: "depositor_text (deposit_topics topic0 dst ord) = Some (addr_text (ao_depositor ord))"
proof -
  let ?h = "hex_encode (addr_to_b32 (ao_depositor ord))"
  have "str_slice 24 (length ?h) ?h = Some (drop 24 ?h)"
    using hex_text_ascii [of "addr_to_b32 (ao_depositor ord)"]
    by (auto simp: str_slice_def char_boundary_def Let_def del: disjCI)
  moreover have "drop 24 ?h = hex_encode (be_enc 20 (unat (ao_depositor ord)))"
    by (simp add: addr_to_b32_def hex_encode_append)
  ultimately show ?thesis
    by (simp add: depositor_text_def deposit_topics_def nth_opt_def trim_hex_prefix [OF hex_facts(3), simplified] addr_text_def Let_def)
qed

lemma id_deposit:
  assumes "0 \<le> d" "d < 2 ^ 63"
  shows "hex_i64 (hex_encode (be32 (nat d))) = Some d"
proof -
  let ?s = "hex_encode (be32 (nat d))"
  have digits: "those (map hex_digit ?s) = Some (nibbles (be32 (nat d)))"
  proof -
    have "those (map hex_digit (map hex_char ns)) = Some ns" if "list_all (\<lambda>n. n < 16) ns" for ns
      using that by (induction ns) (simp_all add: hex_digit_char)
    with nibbles_less show ?thesis by (simp add: hex_encode_map del: be_enc.simps)
  qed
  have ne: "?s \<noteq> []" by (metis hex_encode_Nil length_be_enc list.size(3) zero_neq_numeral)
  have "\<not> starts_with ?s [c]" if "hex_digit c = None" for c
    using digits that ne by (cases ?s) (auto simp: starts_with_def simp del: be_enc.simps hex_encode_Nil)
  then have "\<not> starts_with ?s ''-''" "\<not> starts_with ?s ''+''" by (simp_all add: hex_digit_def)
  moreover have "nat d < 2 ^ 256" using assms by (simp add: nat_less_iff)
  then have "int (hex_fold (nibbles (be32 (nat d)))) = d"
    using assms by (simp add: hex_fold_nibbles be_val_be32 del: be_enc.simps)
  ultimately show ?thesis using digits ne assms by (simp add: hex_i64_def Let_def del: be_enc.simps hex_encode_Nil)
qed

text \<open>What is read from the receipt of a deposit.\<close>

definition deposit_record :: "across_order \<Rightarrow> relay_record" where
  "deposit_record ord =
     \<lparr>rd_depositor = Some (addr_text (ao_depositor ord)), rd_recipient = Some (addr_text (ao_recipient ord)),
      rd_exclusive_relayer = Some (addr_text (ao_relayer ord)), rd_output_token = Some (addr_text (ao_output_token ord)),
      rd_output_amount = Some (show_nat (unat (ao_output ord))), rd_fill_deadline = Some (ao_fill_deadline ord),
      rd_exclusivity_deadline = Some (ao_excl_deadline ord),
      rd_message = (if ao_message ord = [] then None else Some (''0x'' @ hex_encode (ao_message ord))),
      rd_deposit_id = Some (ao_deposit_id ord),
      rr_input_token = addr_text (ao_input_token ord), rr_input_amount = show_nat (unat (ao_input ord))\<rparr>"

definition sound_deposit :: "across_order \<Rightarrow> bool" where
  "sound_deposit ord \<longleftrightarrow> unat (ao_input_token ord) mod 2 ^ 96 \<noteq> 0 \<and> length (ao_message ord) < 2 ^ 63
     \<and> 0 \<le> ao_deposit_id ord \<and> ao_deposit_id ord < 2 ^ 63"

lemma decode_deposit_log:
  assumes "sound_deposit ord"
  shows "decode_deposit hex_codec (deposit_topics topic0 dst ord) (deposit_data quote ord tail) = Ok (Some (deposit_record ord))"
proof -
  have u: "to_u32 (unat t) = Ok t" for t :: u32 using unsigned_less [of t] by (simp add: to_u32_def)
  have i: "hex_i64 (trim_start_str ''0x'' (''0x'' @ hex_encode (be32 (nat (ao_deposit_id ord))))) = Some (ao_deposit_id ord)"
    using assms id_deposit by (simp add: trim_hex_prefix [OF hex_facts(3), simplified] sound_deposit_def del: be_enc.simps)
  note r = read_deposit [of ord quote tail]
  from assms show ?thesis
    by (simp add: decode_deposit_def sound_deposit_def r u message_deposit depositor_deposit deposit_record_def)
      (simp add: deposit_topics_def nth_opt_def i [simplified] del: be_enc.simps)
qed

lemma scan_finds_deposit:
  assumes "sound_deposit ord" "topic0 \<in> set v3_deposited_topics" "list_all other_log before"
  shows "scan_deposit_logs hex_codec (before @ deposit_log topic0 dst quote ord tail # rest) = Ok (Some (deposit_record ord))"
  using assms(3)
proof (induction before)
  case Nil
  have "jarr ''topics'' (deposit_log topic0 dst quote ord tail) = Some (deposit_topics topic0 dst ord)"
    "nth_opt (deposit_topics topic0 dst ord) 0 = Some (JStr topic0)"
    "Option.bind (Option.bind (jstr ''data'' (deposit_log topic0 dst quote ord tail)) (\<lambda>d. strip_prefix d ''0x'')) (cx_decode hex_codec)
      = Some (deposit_data quote ord tail)"
    by (simp_all add: jarr_def deposit_log_def deposit_topics_def nth_opt_def jstr_def strip_prefix_def starts_with_def hex_codec_def
        hex_facts)
  with assms(1,2) show ?case by (simp add: decode_deposit_log length_deposit_data)
next
  case (Cons lg before)
  then show ?case by (auto simp: other_log_def nth_opt_def)
qed

lemma trim_plain:
  assumes "\<forall>c \<in> set s. \<not> is_space c"
  shows "trim s = s"
proof -
  have "dropWhile is_space t = t" if "set t \<subseteq> set s" for t
    using that assms by (cases t) auto
  then show ?thesis by (simp add: trim_def)
qed

lemma trim_hex: "trim (''0x'' @ hex_encode b) = ''0x'' @ hex_encode b"
proof (rule trim_plain)
  have "\<not> is_space (hex_char n)" if "n < 16" for n
    using that by (auto simp: hex_char_def is_space_def)
  moreover have "\<not> is_space (CHR ''0'')" "\<not> is_space (CHR ''x'')" by (simp_all add: is_space_def)
  ultimately show "\<forall>c \<in> set (''0x'' @ hex_encode b). \<not> is_space c"
    using nibbles_less [of b] by (auto simp: hex_encode_map list_all_iff)
qed

lemma be_enc_20 [simp]: "be_enc 20 n \<noteq> []"
  using length_be_enc [of 20 n] by (metis list.size(3) zero_neq_numeral)

text \<open>C32. A fill of an intent of which the feed knew only the source token, the amount and the transaction is the deposit it answers:
  from the receipt of the deposit, whatever other events it holds, the executor reads the terms back, and with
  these the calldata carries exactly the depositor, recipient, tokens, amounts, deadlines, exclusive relayer, message
  and deposit number that were deposited.\<close>

theorem across_fill_reproduces_deposit:
  assumes "codec_fits C" "sound_deposit ord" "topic0 \<in> set v3_deposited_topics" "list_all other_log before"
    and "tx \<notin> {[], ''0x''}" "\<not> starts_with tx ''synthetic_''" "bare_intent ord it" "addr_text (ao_output_token ord) \<noteq> eth_sentinel"
  shows "\<exists>r. fetch_relay_data_from_tx (fc_hex C) tx (Some (receipt_with (before @ deposit_log topic0 dst quote ord tail # rest))) = Ok (Some r)
    \<and> across_order_of C now (patch_intent (relay_data.truncate r) it) = Ok ord"
proof -
  have C: "fc_hex C = hex_codec" "fc_addr C (addr_text a) = Some a" "fc_u256 C (show_nat (unat w)) = Some w" for a w
    using assms(1) by (simp_all add: codec_fits_def)
  have "fetch_relay_data_from_tx (fc_hex C) tx (Some (receipt_with (before @ deposit_log topic0 dst quote ord tail # rest)))
      = Ok (Some (deposit_record ord))"
    using assms(5,6) scan_finds_deposit [OF assms(2-4)]
    by (simp add: fetch_relay_data_from_tx_def receipt_with_def jarr_def C)
  moreover have "across_order_of C now (patch_intent (relay_data.truncate (deposit_record ord)) it) = Ok ord"
  proof -
    let ?it = "patch_intent (relay_data.truncate (deposit_record ord)) it"
    have f: "i_depositor ?it = addr_text (ao_depositor ord)" "i_recipient ?it = addr_text (ao_recipient ord)"
      "i_dst_token ?it = addr_text (ao_output_token ord)" "i_src_token ?it = addr_text (ao_input_token ord)"
      "i_amount ?it = show_nat (unat (ao_input ord))" "i_output_amount ?it = Some (show_nat (unat (ao_output ord)))"
      "i_fill_deadline ?it = Some (ao_fill_deadline ord)" "i_exclusivity_deadline ?it = Some (ao_excl_deadline ord)"
      "i_exclusive_relayer ?it = Some (addr_text (ao_relayer ord))" "i_deposit_id ?it = Some (ao_deposit_id ord)"
      "i_message ?it = (if ao_message ord = [] then None else Some (''0x'' @ hex_encode (ao_message ord)))"
      "i_src_chain ?it = ao_origin ord"
      using assms(7) by (simp_all add: bare_intent_def patch_intent_def relay_data.defs deposit_record_def or_opt_def)
    have tok: "output_token_of C ?it = Ok (ao_output_token ord)"
      using assms(8) trim_hex [of "be_enc 20 (unat (ao_output_token ord))"] lower_hex [of "be_enc 20 (unat (ao_output_token ord))"] C(2)
      by (simp add: output_token_of_def f addr_text_def eth_sentinel_def to_lowercase_def lower_char_def Let_def)
    have rel: "relayer_of C ?it = ao_relayer ord"
      using C(2) by (simp add: relayer_of_def f given_def keep_def addr_text_def del: be_enc.simps)
    have msg: "message_of_intent C ?it = ao_message ord"
      by (simp add: message_of_intent_def f given_def keep_def C(1) hex_codec_def hex_facts trim_hex_prefix [OF hex_facts(3), simplified])
    show ?thesis
      using assms(7) by (simp add: across_order_of_def resolve_deposit_id_def tok rel msg f bare_intent_def C(2,3))
  qed
  ultimately show ?thesis by blast
qed

text \<open>C35. Reading a deposit panics exactly when a deadline does not fit 32 bits, or, with a depositor present, the offset or the
  length of the message reaches the end of the machine's address range.\<close>

theorem decode_deposit_panics:
  "decode_deposit H topics data = Panic \<longleftrightarrow>
     2 ^ 32 \<le> read_uint_slot data 160 \<or> 2 ^ 32 \<le> read_uint_slot data 192
     \<or> depositor_text topics \<noteq> None
       \<and> (2 ^ 64 \<le> be_val (slot data 288) + 32
          \<or> be_val (slot data 288) + 32 \<le> length data \<and> 2 ^ 64 \<le> be_val (slot data 288) + 32 + be_val (slot data (be_val (slot data 288))))"
proof -
  have m: "relay_message H data = Panic \<longleftrightarrow> 2 ^ 64 \<le> be_val (slot data 288) + 32
      \<or> be_val (slot data 288) + 32 \<le> length data \<and> 2 ^ 64 \<le> be_val (slot data 288) + 32 + be_val (slot data (be_val (slot data 288)))"
    by (simp add: relay_message_def Let_def not_less)
  have u: "to_u32 n = Panic \<longleftrightarrow> 2 ^ 32 \<le> n" "to_u32 n \<noteq> Err e" for n e by (simp_all add: to_u32_def)
  show ?thesis
    unfolding m [symmetric] u(1) [symmetric]
    by (cases "to_u32 (read_uint_slot data 160)"; cases "to_u32 (read_uint_slot data 192)"; cases "relay_message H data")
      (auto simp: decode_deposit_def u(2) split: option.splits)
qed

section \<open>The controller's direct fills\<close>

text \<open>The calldata the controller gets for this order are what the builder makes of it, as enriched from the chain.\<close>

definition builds_spoke :: "fill_codec \<Rightarrow> u64 \<Rightarrow> lambda_env \<Rightarrow> intent \<Rightarrow> bool" where
  "builds_spoke C now v it \<longleftrightarrow> (\<forall>it' a c b. enriched v it it' \<longrightarrow> v_spoke_calldata v it' a c = Inr b
     \<longrightarrow> build_across_spoke_pool_calldata_with_relayer C now it' (Some a) (Some c) = Ok b)"

lemma no_hook_no_message:
  assumes "across_message_hook_skip_reason (i_message it) = None" "cx_decode (fc_hex C) ''0'' = None"
  shows "message_of_intent C it = []"
proof -
  have "trim_start_str ''0x'' ''0x0'' = ''0''" by (simp add: trim_start_str.simps starts_with_def)
  with assms show ?thesis
    by (auto simp: message_of_intent_def across_message_hook_skip_reason_def given_def keep_def split: option.splits if_splits)
qed

text \<open>C33. When the controller hands out a transaction for an Across order on a chain without operator, it is a call of the wired pool
  that repays the solver on this chain, for a relay all of whose fields are the order's own, as signalled or read from
  the chain: the output amount and the deadline are never made up, the message is empty and the deposit number is not
  negative.\<close>

theorem direct_across_fill_exact:
  assumes "lambda_execute v it s = (r, s')" "l_sent s' = l_sent s @ [EvmTx tx]" "builds_spoke C now v it"
    and "is_across it" "\<not> is_debridge it" "\<not> is_mayan it"
    and "map_of (v_chains v) (i_dst_chain it) = Some w" "direct_fill w" "cx_decode (fc_hex C) ''0'' = None"
  shows "\<exists>it' ord out. enriched v it it' \<and> across_order_of C now it' = Ok ord \<and> tx_to tx = cw_across_adapter w
    \<and> tx_data tx = fc_abi C (FillRelay (relay_of_order ord) (ucast (cw_chain_id w)) (addr_to_b32 (v_signer v)))
    \<and> i_output_amount it' = Some out \<and> fc_u256 C out = Some (ao_output ord)
    \<and> i_fill_deadline it' = Some (ao_fill_deadline ord) \<and> ao_message ord = [] \<and> 0 \<le> ao_deposit_id ord"
proof -
  from execute_run [OF assms(1)] assms(2) obtain s1 where
    "reserved_at v it s s1" "settles (cleared v it) v it r s1 s'"
    by (auto simp: after_hold_def LambdaSafety.refused_def)
  then have "cleared v it tx" using assms(2) by (auto simp: settles_def reserved_at_def)
  then obtain test pf it' call where
    scr: "screened v it w pf it'" and ok: "fill_cleared v w it' pf call" and tx: "tx = fill_tx v w call (eth_fill_value v w it')"
    using assms(7) by (auto simp: cleared_def admitted_def)
  have en: "enriched v it it'" using scr by (simp add: screened_def)
  then have kind: "is_across it'" "\<not> is_debridge it'" "\<not> is_mayan it'"
    using assms(4-6) by (auto simp: enriched_def is_across_def is_debridge_def is_mayan_def)
  have plain: "plain_across w it'" using kind assms(8) by (simp add: plain_across_def)
  have call: "v_spoke_calldata v it' (v_signer v) (cw_chain_id w) = Inr (snd call)" "fst call = cw_across_adapter w"
    using ok kind assms(8) by (auto simp: fill_cleared_def fill_call_def split: sum.splits)
  with assms(3) en have b: "build_across_spoke_pool_calldata_with_relayer C now it' (Some (v_signer v)) (Some (cw_chain_id w)) = Ok (snd call)"
    by (auto simp: builds_spoke_def)
  obtain out dl where info: "i_output_amount it' = Some out" "i_fill_deadline it' = Some dl"
    using scr kind assms(8) by (auto simp: screened_def claim_info_complete_def)
  have hook: "across_message_hook_skip_reason (i_message it') = None" using ok plain by (simp add: fill_cleared_def)
  obtain ord where ord: "across_order_of C now it' = Ok ord" "0 \<le> ao_deposit_id ord"
    "snd call = fc_abi C (FillRelay (relay_of_order ord) (ucast (cw_chain_id w)) (addr_to_b32 (v_signer v)))"
    using b by (auto simp: build_across_spoke_pool_calldata_with_relayer_def not_less split: if_splits)
  have "fc_u256 C out = Some (ao_output ord)" "ao_fill_deadline ord = dl" "ao_message ord = message_of_intent C it'"
    using ord(1) info by (auto simp: across_order_of_def)
  with en ord call(2) info no_hook_no_message [OF hook assms(9)] tx show ?thesis by (auto simp: fill_tx_def)
qed

section \<open>Both builders, and the executor with proofs\<close>

text \<open>The two builders fill the same order: the pool's is refused exactly when the adapter's is or the deposit number is negative.\<close>

theorem builders_agree:
  "(\<exists>b. build_across_spoke_pool_calldata_with_relayer C now it a c = Ok b) =
     ((\<exists>b. build_across_adapter_calldata C now it = Ok b) \<and> (\<exists>d. resolve_deposit_id it = Some d \<and> 0 \<le> d))"
proof -
  have d: "across_order_of C now it = Ok ord \<Longrightarrow> resolve_deposit_id it = Some (ao_deposit_id ord)" for ord
    by (auto simp: across_order_of_def)
  show ?thesis
  proof (cases "across_order_of C now it")
    case (Ok ord)
    with d [OF Ok] show ?thesis
      by (simp add: build_across_spoke_pool_calldata_with_relayer_def build_across_adapter_calldata_def not_less)
  qed (simp_all add: build_across_spoke_pool_calldata_with_relayer_def build_across_adapter_calldata_def)
qed

text \<open>C34. The executor hands out at most one transaction, only when the spinner's test run is profitable at the threshold and the run
  is live: the order's calldata for the wired adapter, wrapped with the proof, to the operator.  It writes at most one
  row, about this intent, and reports a hash only for a receipt that succeeded, with the row marked executed.\<close>

theorem across_executor_effect:
  assumes "across_executor_fill X it rows = (r, rows', sent)"
  shows "(sent = [] \<or> (\<exists>tx t w proof data. sent = [tx] \<and> \<not> xe_dry_run X \<and> xe_test X = Ok t \<and> tr_is_profitable t
        \<and> \<not> f_lt (tr_net_profit_usd t) (xe_threshold X) \<and> map_of (xe_chains X) (i_dst_chain it) = Some w
        \<and> xe_proof X = Ok proof \<and> build_across_adapter_calldata (xe_codec X) (xe_now X) it = Ok data \<and> tx_to tx = cw_operator w
        \<and> tx_data tx = build_execute_with_proof_calldata (xe_codec X) proof (cw_across_adapter w) data))
    \<and> (rows' = rows \<or> (\<exists>row. rows' = append_outcome_row row rows \<and> o_intent_id row = i_id it))
    \<and> (\<forall>h. r = Ok (Some h) \<longrightarrow> (\<exists>tx rc row. sent = [tx] \<and> xe_send X tx = Inr h \<and> xe_receipt X h = Inr rc \<and> rc_status rc
        \<and> rows' = append_outcome_row row rows \<and> o_decision row = ''executed'' \<and> o_tx_hash row = Some h))"
proof -
  have row: "o_intent_id (outcome_for ts it d) = i_id it" "o_decision (outcome_for ts it d) = d" for ts d by (simp_all add: outcome_for_def)
  have log: "log_row X rw q rs snt = (r, rows', sent) \<Longrightarrow> sent = snt \<and> (xe_log_ok X \<and> r = q \<and> rows' = append_outcome_row rw rs
      \<or> r = Err ''outcome log'' \<and> rows' = rs)" for rw q rs snt
    by (auto simp: log_row_def split: if_splits)
  consider (quiet) "sent = []" "rows' = rows" "\<forall>h. r \<noteq> Ok (Some h)"
    | (skip) t d m q where "log_row X (skip_row X it t d m) q rows [] = (r, rows', sent)" "\<forall>h. q \<noteq> Ok (Some h)"
    | (send) t w tx where "xe_test X = Ok t" "tr_is_profitable t" "\<not> f_lt (tr_net_profit_usd t) (xe_threshold X)"
        "map_of (xe_chains X) (i_dst_chain it) = Some w" "proof_call X it w = Ok tx" "\<not> xe_dry_run X"
        "broadcast_proof X it t tx rows = (r, rows', sent)"
    using assms by (auto simp: across_executor_fill_def split: if_splits res.splits option.splits)
  then show ?thesis
  proof cases
    case skip
    from log [OF skip(1)] skip(2) show ?thesis by (auto simp: skip_row_def predicted_row_def row)
  next
    case send
    have "proof_call X it w = Ok tx \<Longrightarrow> \<exists>proof data. xe_proof X = Ok proof \<and> build_across_adapter_calldata (xe_codec X) (xe_now X) it = Ok data
        \<and> tx_to tx = cw_operator w \<and> tx_data tx = build_execute_with_proof_calldata (xe_codec X) proof (cw_across_adapter w) data"
      by (auto simp: proof_call_def split: res.splits)
    moreover have "(sent = [] \<or> sent = [tx]) \<and> (rows' = rows \<or> (\<exists>row. rows' = append_outcome_row row rows \<and> o_intent_id row = i_id it))
        \<and> (\<forall>h. r = Ok (Some h) \<longrightarrow> (\<exists>rc row. sent = [tx] \<and> xe_send X tx = Inr h \<and> xe_receipt X h = Inr rc \<and> rc_status rc
          \<and> rows' = append_outcome_row row rows \<and> o_decision row = ''executed'' \<and> o_tx_hash row = Some h))"
    proof (cases "xe_send X tx")
      case (Inr h)
      then show ?thesis using send(7)
        by (cases "xe_receipt X h") (auto simp: broadcast_proof_def predicted_row_def row dest!: log intro!: exI split: if_splits)
    qed (use send(7) in \<open>auto simp: broadcast_proof_def split: if_splits\<close>)
    ultimately show ?thesis using send by metis
  qed auto
qed

section \<open>Witnesses\<close>

definition plain_codec :: fill_codec where
  "plain_codec =
     \<lparr>fc_hex = hex_codec,
      fc_addr = (\<lambda>s. Option.bind (Option.bind (strip_prefix s ''0x'') hex_decode) (\<lambda>b. if length b = 20 then Some (of_nat (be_val b)) else None)),
      fc_u256 = (\<lambda>s. map_option of_nat (parse_unsigned (2 ^ 256 - 1) s)), fc_relay = (\<lambda>_. [1]), fc_abi = (\<lambda>_. [1, 2])\<rparr>"

lemma parse_show: "n \<le> mx \<Longrightarrow> parse_unsigned mx (show_nat n) = Some n"
proof -
  assume "n \<le> mx"
  moreover have "show_nat n \<noteq> []" "list_all is_digit (show_nat n)" "digits_val (show_nat n) = n" using show_nat_digits [of n] by auto
  moreover from this have "\<not> starts_with (show_nat n) ''+''" by (cases "show_nat n") (auto simp: starts_with_def is_digit_def)
  ultimately show ?thesis by (simp add: parse_unsigned_def)
qed

lemma plain_codec_fits: "codec_fits plain_codec"
proof -
  have "of_nat (be_val (be_enc 20 (unat a))) = a" for a :: evm_addr
  proof -
    have "unat a < 2 ^ LENGTH(160)" by (rule unsigned_less)
    then have "unat a mod 256 ^ 20 = unat a" by (simp add: mod_less)
    then show ?thesis by (simp only: be_val_be_enc) simp
  qed
  moreover have "parse_unsigned (2 ^ 256 - 1) (show_nat (unat w)) = Some (unat w)" for w :: w256
  proof -
    have "unat w < 2 ^ LENGTH(256)" by (rule unsigned_less)
    then show ?thesis by (intro parse_show) simp
  qed
  ultimately show ?thesis
    by (simp add: codec_fits_def plain_codec_def addr_text_def strip_prefix_def starts_with_def hex_facts del: be_enc.simps)
qed

definition sample_deposit :: across_order where
  "sample_deposit = \<lparr>ao_deposit_id = 77, ao_depositor = 1, ao_recipient = 2, ao_input_token = 3, ao_output_token = 4, ao_input = 1000000,
     ao_output = 999000, ao_origin = 8453, ao_fill_deadline = 2000, ao_excl_deadline = 0, ao_relayer = 0, ao_message = [9]\<rparr>"

definition sample_bare :: intent where
  "sample_bare = (intent.truncate default_intent)\<lparr>i_src_token := addr_text 3, i_amount := show_nat (unat (1000000 :: w256)), i_src_chain := 8453\<rparr>"

lemma sample_not_sentinel: "addr_text 4 \<noteq> eth_sentinel"
proof -
  have "be_enc (Suc 19) 4 = be_enc 19 0 @ [4]" by (simp only: be_enc.simps) simp
  moreover have "unat (4 :: evm_addr) = 4" "Suc 19 = (20 :: nat)" by simp_all
  ultimately have "hex_encode (be_enc 20 (unat (4 :: evm_addr))) = hex_encode (be_enc 19 0) @ [hex_char 0, hex_char 4]"
    by (simp only: hex_encode_def) (simp del: be_enc.simps)
  then have "last (addr_text 4) = hex_char 4" by (simp add: addr_text_def del: be_enc.simps)
  moreover have "last eth_sentinel \<noteq> hex_char 4" by code_simp
  ultimately show ?thesis by metis
qed

theorem across_fill_reproduces_deposit_witness:
  "\<exists>r. fetch_relay_data_from_tx hex_codec ''0xab'' (Some (receipt_with [JObj [(''topics'', JArr [JStr ''0x1''])],
       deposit_log (v3_deposited_topics ! 0) 10 5 sample_deposit []])) = Ok (Some r)
    \<and> across_order_of plain_codec 0 (patch_intent (relay_data.truncate r) sample_bare) = Ok sample_deposit"
proof -
  have t: "v3_deposited_topics ! 0 \<in> set v3_deposited_topics" by (simp add: v3_deposited_topics_def)
  have o1: "list_all other_log [JObj [(''topics'', JArr [JStr ''0x1''])]]"
    by (simp add: other_log_def jarr_def v3_deposited_topics_def)
  have s: "sound_deposit sample_deposit" by (simp add: sound_deposit_def sample_deposit_def)
  have b: "bare_intent sample_deposit sample_bare"
    by (simp add: bare_intent_def sample_deposit_def sample_bare_def intent.defs default_intent_def blank_addr_def)
  have h: "''0xab'' \<notin> {[], ''0x''}" "\<not> starts_with ''0xab'' ''synthetic_''" by (simp_all add: starts_with_def)
  have e: "addr_text (ao_output_token sample_deposit) \<noteq> eth_sentinel" using sample_not_sentinel by (simp add: sample_deposit_def)
  from across_fill_reproduces_deposit [OF plain_codec_fits s t o1 h b e, of 10 5 "[]" "[]" 0] show ?thesis
    by (simp add: plain_codec_def)
qed

definition open_codec :: fill_codec where
  "open_codec = plain_codec\<lparr>fc_addr := (\<lambda>_. Some 3), fc_u256 := (\<lambda>_. Some 5)\<rparr>"

lemma sample_enriched: "enriched sample_env sample_intent it' \<Longrightarrow> it' = sample_intent"
proof -
  have "v_relay_tx sample_env = (\<lambda>_ _. None)" "v_relay_deposit sample_env = (\<lambda>_ _ _. None)" by (simp_all add: sample_env_def)
  then have "find_relay sample_env sample_intent rpc = None" for rpc
    by (cases "or_opt (i_deposit_id sample_intent) (parse_id_tail (i_id sample_intent))") (simp_all only: find_relay_def Let_def if_cancel option.case)
  then show "enriched sample_env sample_intent it' \<Longrightarrow> it' = sample_intent" by (simp add: enriched_def)
qed

lemma sample_order: "\<exists>ord. across_order_of open_codec 0 sample_intent = Ok ord \<and> ao_deposit_id ord = 5"
  by (simp add: across_order_of_def resolve_deposit_id_def open_codec_def output_token_of_def Let_def)

lemma open_abi: "fc_abi open_codec c = [1, 2]"
  by (simp add: open_codec_def plain_codec_def)

lemma sample_builds: "builds_spoke open_codec 0 sample_env sample_intent"
proof -
  obtain ord where o: "across_order_of open_codec 0 sample_intent = Ok ord" "ao_deposit_id ord = 5" using sample_order by blast
  show ?thesis
    unfolding builds_spoke_def build_across_spoke_pool_calldata_with_relayer_def
    using o by (auto dest!: sample_enriched simp: open_abi intro!: exI [of _ ord])
qed

theorem direct_across_fill_exact_witness:
  "\<exists>s' ord. lambda_execute sample_env sample_intent sample_state = (Inr (LConfirmed ''0xh'' 20000), s') \<and> l_sent s' = [EvmTx sample_tx]
     \<and> across_order_of open_codec 0 sample_intent = Ok ord \<and> ao_fill_deadline ord = 2000 \<and> ao_message ord = []"
proof -
  obtain s' where run: "lambda_execute sample_env sample_intent sample_state = (Inr (LConfirmed ''0xh'' 20000), s')"
    and sent: "l_sent s' = [EvmTx sample_tx]" using sample_run by blast
  have l: "l_sent s' = l_sent sample_state @ [EvmTx sample_tx]" using sent by (simp add: sample_state_def)
  have w: "map_of (v_chains sample_env) (i_dst_chain sample_intent) = Some sample_wiring" by simp
  have z: "cx_decode (fc_hex open_codec) ''0'' = None" by (simp add: open_codec_def plain_codec_def hex_codec_def)
  from direct_across_fill_exact [OF run l sample_builds sample_tags(1-3) w sample_kind(1) z] run sent show ?thesis
    by (fastforce dest: sample_enriched)
qed

definition sample_exec :: across_exec where
  "sample_exec = \<lparr>xe_codec = open_codec, xe_chains = [(10, sample_wiring)], xe_dry_run = False, xe_threshold = Fin 0, xe_now = 0,
     xe_started = 0, xe_log_ok = True, xe_test = Ok \<lparr>tr_is_profitable = True, tr_net_profit_usd = Fin 1, tr_gas_units = 5,
       te_gas_price_wei = None, te_gas_cost_usd = Fin 0, te_recommendation = []\<rparr>, xe_proof = Ok [7], xe_rpc_ok = True,
     xe_send = (\<lambda>_. Inr ''0xh''), xe_receipt = (\<lambda>_. Inr \<lparr>rc_gas_used = 20000, rc_gas_price = 1, rc_status = True\<rparr>)\<rparr>"

theorem across_executor_effect_witness:
  "\<exists>rows tx. across_executor_fill sample_exec sample_intent [] = (Ok (Some ''0xh''), rows, [tx]) \<and> tx_to tx = 0
     \<and> (\<exists>row. rows = append_outcome_row row [] \<and> o_decision row = ''executed'')"
proof -
  have "\<exists>ord. across_order_of open_codec 0 sample_intent = Ok ord"
    by (simp add: across_order_of_def resolve_deposit_id_def open_codec_def output_token_of_def Let_def)
  then obtain rows tx where run: "across_executor_fill sample_exec sample_intent [] = (Ok (Some ''0xh''), rows, [tx])"
    using sample_tags(1)
    by (auto simp: across_executor_fill_def sample_exec_def is_across_def proof_call_def build_across_adapter_calldata_def
        broadcast_proof_def log_row_def)
  from across_executor_effect [OF this] run show ?thesis by (auto simp: sample_exec_def)
qed

end
