(* ===== verification/EvmFills.thy ===== *)
theory EvmFills
  imports AcrossFill MayanFeed
begin

text \<open>
  Fills and estimates on EVM chains besides Across: the deBridge calldata (\<open>crates/protocol-adapters/src/debridge.rs\<close>),
  the Mayan Swift calldata (\<open>crates/executor/src/mayan_evm_estimate.rs\<close>), the fees of a transaction and the estimate
  adapters (\<open>evm_estimate.rs\<close>, the bundle of \<open>estimate.rs\<close>).  Hashing, ABI encoding, the parsers of numbers and
  addresses, the environment and the node are parameters.
\<close>

section \<open>Calldata of deBridge fills\<close>

datatype dln_call = FulfillOrder dln_order w256 bytes bytes evm_addr | ClaimUnlock bytes evm_addr

record order_params =
  op_payload_type :: u8
  op_trader :: bytes
  op_dest_addr :: bytes
  op_dest_chain :: "16 word"
  op_referrer_addr :: bytes
  op_token_out :: bytes
  op_min_amount_out :: u64
  op_gas_drop :: u64
  op_cancel_fee :: u64
  op_refund_fee :: u64
  op_deadline :: u64
  op_referrer_bps :: u8
  op_auction_mode :: u8
  op_random :: bytes

record extra_params =
  ex_src_chain :: "16 word"
  ex_token_in :: bytes
  ex_protocol_bps :: u8
  ex_payload_hash :: bytes

record unlock_params =
  ul_recipient :: bytes
  ul_driver :: bytes
  ul_batch :: bool

record permit_params =
  pp_value :: w256
  pp_deadline :: w256
  pp_v :: u8
  pp_r :: bytes
  pp_s :: bytes

datatype mayan_call =
    FulfillVaa w256 bytes order_params extra_params unlock_params permit_params
  | FulfillSimple w256 bytes order_params extra_params unlock_params permit_params

record evm_codec =
  ec_fill :: fill_codec
  ec_keccak :: "string \<Rightarrow> bytes"
  ec_dln :: "dln_call \<Rightarrow> bytes"
  ec_mayan :: "mayan_call \<Rightarrow> bytes"

abbreviation ec_hex :: "evm_codec \<Rightarrow> codec" where "ec_hex C \<equiv> fc_hex (ec_fill C)"
abbreviation ec_u256 :: "evm_codec \<Rightarrow> string \<Rightarrow> (string, w256) res" where
  "ec_u256 C s \<equiv> ok_or ''from_str_radix'' (fc_u256 (ec_fill C) s)"

definition address_to_bytes :: "evm_codec \<Rightarrow> string \<Rightarrow> (string, bytes) res" where
  "address_to_bytes C s = ok_or ''hex'' (cx_decode (ec_hex C) (trim_start_str ''0x'' s))"

definition hex_to_bytes :: "evm_codec \<Rightarrow> string option \<Rightarrow> bytes" where
  "hex_to_bytes C x = (case Option.bind x (\<lambda>s. cx_decode (ec_hex C) (trim_start_str ''0x'' s)) of None \<Rightarrow> [] | Some b \<Rightarrow> b)"

definition extract_order_nonce :: "feed_intent \<Rightarrow> (string, u64) res" where
  "extract_order_nonce it =
     (case fi_maker_order_nonce it of
        Some n \<Rightarrow> Ok n
      | None \<Rightarrow>
          let s = last (split_on (\<lambda>c. c \<in> set '':_'') (i_id it))
          in if starts_with s ''0x'' \<and> 18 \<le> length s then Err ''missing maker_order_nonce''
             else map_res id of_nat (ok_or ''Failed to parse nonce'' (parse_unsigned (2 ^ 64 - 1) s)))"

definition parse_order :: "evm_codec \<Rightarrow> feed_intent \<Rightarrow> (string, dln_order) res" where
  "parse_order C it =
     res_bind (ec_u256 C (case i_give_amount it of Some s \<Rightarrow> s | None \<Rightarrow> i_amount it)) (\<lambda>give.
     res_bind (case i_take_amount it of Some s \<Rightarrow> ec_u256 C s | None \<Rightarrow> Ok give) (\<lambda>take.
     res_bind (extract_order_nonce it) (\<lambda>nonce.
     res_bind (address_to_bytes C (i_depositor it)) (\<lambda>maker.
     res_bind (address_to_bytes C (i_src_token it)) (\<lambda>give_token.
     res_bind (address_to_bytes C (i_dst_token it)) (\<lambda>take_token.
     res_bind (address_to_bytes C (i_recipient it)) (\<lambda>receiver.
     Ok \<lparr>do_nonce = nonce, do_give_chain = i_src_chain it, do_give_amount = unat give, do_take_chain = i_dst_chain it,
         do_take_amount = unat take, do_maker = maker, do_give_token = give_token, do_take_token = take_token,
         do_receiver = receiver, do_give_patch = hex_to_bytes C (fi_give_patch_authority it),
         do_authority = hex_to_bytes C (fi_order_authority_dst it),
         do_taker = hex_to_bytes C (i_dln_allowed_taker_dst it),
         do_beneficiary = hex_to_bytes C (fi_cancel_beneficiary it),
         do_call = hex_to_bytes C (i_dln_external_call it)\<rparr>)))))))"

definition extract_order_id :: "evm_codec \<Rightarrow> feed_intent \<Rightarrow> (string, bytes) res" where
  "extract_order_id C it =
     (case i_order_id it of
        None \<Rightarrow> Ok (ec_keccak C (i_id it))
      | Some s \<Rightarrow>
          res_bind (ok_or ''invalid order_id hex'' (cx_decode (ec_hex C) (trim_start_str ''0x'' s))) (\<lambda>b.
          if length b = 32 then Ok b else Err ''order_id must be 32 bytes''))"

definition dln_fulfil_amount :: "evm_codec \<Rightarrow> feed_intent \<Rightarrow> (string, w256) res" where
  "dln_fulfil_amount C it =
     ec_u256 C (case i_take_amount it of None \<Rightarrow> i_amount it | Some s \<Rightarrow> if s = [] then i_amount it else s)"

definition build_fulfill_order_calldata :: "evm_codec \<Rightarrow> feed_intent \<Rightarrow> evm_addr \<Rightarrow> (string, bytes) res" where
  "build_fulfill_order_calldata C it unlock =
     res_bind (parse_order C it) (\<lambda>ord.
     res_bind (extract_order_id C it) (\<lambda>oid.
     res_bind (dln_fulfil_amount C it) (\<lambda>amt.
     Ok (ec_dln C (FulfillOrder ord amt oid [] unlock)))))"

definition build_claim_unlock_calldata :: "evm_codec \<Rightarrow> feed_intent \<Rightarrow> evm_addr \<Rightarrow> (string, bytes) res" where
  "build_claim_unlock_calldata C it beneficiary =
     res_bind (extract_order_id C it) (\<lambda>oid. Ok (ec_dln C (ClaimUnlock oid beneficiary)))"

section \<open>Calldata of Mayan Swift fills\<close>

definition parse_bytes32 :: "evm_codec \<Rightarrow> string \<Rightarrow> (string, bytes) res" where
  "parse_bytes32 C s =
     res_bind (ok_or ''invalid hex'' (cx_decode (ec_hex C) (trim_start_str ''0x'' s))) (\<lambda>b.
     if length b = 32 then Ok b else Err ''expected 32-byte value'')"

definition address_to_bytes32 :: "evm_codec \<Rightarrow> string \<Rightarrow> (string, bytes) res" where
  "address_to_bytes32 C s =
     res_bind (ok_or ''invalid address hex'' (cx_decode (ec_hex C) (trim_start_str ''0x'' s))) (\<lambda>b.
     if length b = 20 then Ok (replicate 12 0 @ b) else Err ''expected 20-byte EVM address'')"

text \<open>A text of 32 bytes in hex; anything else counts as zero.\<close>

definition bytes32_or_zero :: "evm_codec \<Rightarrow> string option \<Rightarrow> bytes" where
  "bytes32_or_zero C x =
     (case x of
        None \<Rightarrow> replicate 32 0
      | Some r \<Rightarrow>
          let clean = trim_start_str ''0x'' r;
              b = (case cx_decode (ec_hex C) (if odd (length clean) then CHR ''0'' # clean else clean) of None \<Rightarrow> [] | Some b \<Rightarrow> b)
          in if length b = 32 then b else replicate 32 0)"

definition wormhole_of_chain :: "u64 \<Rightarrow> 16 word" where
  "wormhole_of_chain c =
     (case map_of [(1, 2), (10, 24), (56, 4), (137, 5), (8453, 30), (42161, 23), (43114, 6)] c of None \<Rightarrow> 0 | Some w \<Rightarrow> w)"

definition build_order_params :: "evm_codec \<Rightarrow> u64 \<Rightarrow> feed_intent \<Rightarrow> (string, order_params) res" where
  "build_order_params C now it =
     (if fi_mayan_random it = None then Err ''mayan_random missing''
      else res_bind (address_to_bytes32 C (case fi_trader it of Some t \<Rightarrow> t | None \<Rightarrow> i_depositor it)) (\<lambda>trader.
      res_bind (address_to_bytes32 C (i_dst_token it)) (\<lambda>token_out.
      res_bind (address_to_bytes32 C (i_recipient it)) (\<lambda>dest_addr.
      Ok \<lparr>op_payload_type = 1, op_trader = trader, op_dest_addr = dest_addr,
          op_dest_chain = opt_else (fi_wormhole_id it) (wormhole_of_chain (i_dst_chain it)),
          op_referrer_addr = bytes32_or_zero C (fi_mayan_referrer_addr it), op_token_out = token_out,
          op_min_amount_out = opt_else (fi_mayan_min_amount_out it) 0, op_gas_drop = opt_else (fi_mayan_gas_drop it) 0,
          op_cancel_fee = opt_else (fi_mayan_cancel_fee it) 0, op_refund_fee = opt_else (fi_mayan_refund_fee it) 0,
          op_deadline = opt_else (i_deadline it) (now + 3600), op_referrer_bps = opt_else (fi_mayan_referrer_bps it) 0,
          op_auction_mode = opt_else (i_mayan_auction_mode it) 2, op_random = bytes32_or_zero C (fi_mayan_random it)\<rparr>))))"

definition build_extra_params :: "evm_codec \<Rightarrow> feed_intent \<Rightarrow> (string, extra_params) res" where
  "build_extra_params C it =
     res_bind (address_to_bytes32 C (i_src_token it)) (\<lambda>token_in.
     Ok \<lparr>ex_src_chain = wormhole_of_chain (i_src_chain it), ex_token_in = token_in, ex_protocol_bps = 3,
         ex_payload_hash = replicate 32 0\<rparr>)"

definition build_unlock_params :: "evm_addr \<Rightarrow> unlock_params" where
  "build_unlock_params a = \<lparr>ul_recipient = addr_to_b32 a, ul_driver = addr_to_b32 a, ul_batch = False\<rparr>"

definition no_permit :: permit_params where
  "no_permit = \<lparr>pp_value = 0, pp_deadline = 0, pp_v = 0, pp_r = replicate 32 0, pp_s = replicate 32 0\<rparr>"

text \<open>The amount of a fill; a decimal text counts as a number of units of a token with 18 decimals.\<close>

definition mayan_fulfil_amount :: "evm_codec \<Rightarrow> feed_intent \<Rightarrow> (string, w256) res" where
  "mayan_fulfil_amount C it =
     (let s = (case i_output_amount it of Some s \<Rightarrow> s | None \<Rightarrow> i_amount it)
      in if contains s ''.''
         then res_bind (ok_or ''invalid fulfill_amount decimal'' (parse_f64 s)) (\<lambda>f.
              ec_u256 C (show_nat (unat (f_to_u128 (f_mul f (fround (10 ^ 18)))))))
         else ec_u256 C s)"

definition build_fulfill_simple_call ::
    "evm_codec \<Rightarrow> u64 \<Rightarrow> evm_addr \<Rightarrow> (u64 \<times> evm_addr) list \<Rightarrow> feed_intent \<Rightarrow> (string, evm_addr \<times> bytes) res" where
  "build_fulfill_simple_call C now me swift it =
     res_bind (ok_or ''no Mayan Swift on chain'' (map_of swift (i_dst_chain it))) (\<lambda>to.
     res_bind (ok_or ''Mayan fulfillSimple requires intent.mayan_order_id'' (i_mayan_order_id it)) (\<lambda>oid.
     res_bind (parse_bytes32 C oid) (\<lambda>hash.
     res_bind (mayan_fulfil_amount C it) (\<lambda>amt.
     res_bind (build_order_params C now it) (\<lambda>params.
     res_bind (build_extra_params C it) (\<lambda>extra.
     Ok (to, ec_mayan C (FulfillSimple amt hash params extra (build_unlock_params me) no_permit))))))))"

definition build_estimate_call_with_vaa ::
    "evm_codec \<Rightarrow> u64 \<Rightarrow> evm_addr \<Rightarrow> (u64 \<times> evm_addr) list \<Rightarrow> feed_intent \<Rightarrow> bytes option \<Rightarrow> (string, evm_addr \<times> bytes) res" where
  "build_estimate_call_with_vaa C now me swift it vaa =
     res_bind (ok_or ''no Mayan Swift on chain'' (map_of swift (i_dst_chain it))) (\<lambda>to.
     res_bind (ok_or ''Mayan estimate requires intent.mayan_order_id'' (i_mayan_order_id it)) (\<lambda>oid.
     res_bind (mayan_fulfil_amount C it) (\<lambda>amt.
     res_bind (build_order_params C now it) (\<lambda>params.
     res_bind (build_extra_params C it) (\<lambda>extra.
     Ok (to, ec_mayan C (FulfillVaa amt (case vaa of None \<Rightarrow> [] | Some b \<Rightarrow> b) params extra (build_unlock_params me) no_permit)))))))"

definition default_mayan_swift_addresses :: "(u64 \<times> evm_addr) list" where
  "default_mayan_swift_addresses = map (\<lambda>c. (c, 0xd78d199f8c402e7b5cc2abe278df0412400a3bae)) [1, 10, 56, 137, 8453, 42161, 43114]"
section \<open>Fees\<close>

record gas_price_range =
  gr_min_gwei :: f64
  gr_max_gwei :: f64
  gr_typical_gwei :: f64

definition gas_range :: "rat \<Rightarrow> rat \<Rightarrow> rat \<Rightarrow> gas_price_range" where
  "gas_range lo hi typical = \<lparr>gr_min_gwei = fround lo, gr_max_gwei = fround hi, gr_typical_gwei = fround typical\<rparr>"

definition gas_ranges :: "(u64 \<times> gas_price_range) list" where
  "gas_ranges =
     [(1, gas_range 1 200 10), (10, gas_range (1 / 1000) (1 / 2) (1 / 1000)), (56, gas_range 1 20 3),
      (137, gas_range 30 500 50), (8453, gas_range (1 / 1000) (1 / 2) (1 / 20)), (42161, gas_range (1 / 100) (1 / 2) (1 / 10)),
      (43114, gas_range 25 100 30), (59144, gas_range (1 / 20) 5 (1 / 10)), (324, gas_range (1 / 20) 5 (1 / 4)),
      (534352, gas_range (1 / 1000) 1 (1 / 200)), (34443, gas_range (1 / 1000) (1 / 2) (1 / 1000)),
      (57073, gas_range (1 / 1000) (1 / 2) (1 / 1000)), (100, gas_range 1 20 2)]"

definition gas_price_range_for_chain :: "u64 \<Rightarrow> gas_price_range" where
  "gas_price_range_for_chain c = (case map_of gas_ranges c of None \<Rightarrow> gas_range (1 / 1000) 200 1 | Some r \<Rightarrow> r)"

text \<open>The answer of the gas API: the status and the body as JSON; of an object or an array, its only field.\<close>

fun read_gas_resp :: "json \<Rightarrow> f64 option" where
  "read_gas_resp (JObj kvs) =
     (case filter (\<lambda>(k, _). k = ''gas_price_gwei'') kvs of [(_, v)] \<Rightarrow> as_f64 v | _ \<Rightarrow> None)"
| "read_gas_resp (JArr [v]) = as_f64 v"
| "read_gas_resp _ = None"

definition fetch_razor_gas_price_gwei :: "(bool \<times> json option) option \<Rightarrow> f64 option" where
  "fetch_razor_gas_price_gwei reply =
     (case reply of Some (True, Some v) \<Rightarrow> read_gas_resp v | _ \<Rightarrow> None)"

definition fetch_rpc_gas_price_gwei :: "nat option \<Rightarrow> f64 option" where
  "fetch_rpc_gas_price_gwei wei = map_option (\<lambda>w. f_div (fround (of_nat w)) (fround (10 ^ 9))) wei"

definition gas_buffer :: f64 where "gas_buffer = fround (135 / 100)"

definition clamped :: "gas_price_range \<Rightarrow> f64 \<Rightarrow> f64" where
  "clamped r x = f_min (f_max x (gr_min_gwei r)) (gr_max_gwei r)"

definition fee_of :: "f64 \<Rightarrow> u128" where
  "fee_of gwei = f_to_u128 (f_mul gwei (fround (10 ^ 9)))"

definition optimal_gas_price_wei :: "u64 \<Rightarrow> f64 option \<Rightarrow> f64 option \<Rightarrow> u128 \<times> u128" where
  "optimal_gas_price_wei c razor rpc =
     (let r = gas_price_range_for_chain c;
          gwei = f_mul (case razor of
                   Some live \<Rightarrow> clamped r live
                 | None \<Rightarrow> (case rpc of Some p \<Rightarrow> clamped r p | None \<Rightarrow> gr_typical_gwei r)) gas_buffer;
          fee = fee_of gwei
      in (fee, min (max (fee div 10) 1000) fee))"

section \<open>Estimates\<close>

definition debridge_dln_destination :: evm_addr where "debridge_dln_destination = 0xE7351Fd770A37282b91D153Ee690B63579D6dd7f"

definition default_across_spoke_pools :: "(u64 \<times> evm_addr) list" where
  "default_across_spoke_pools =
     [(1, 0x5c7BCd6E7De5423a257D81B442095A1a6ced35C5), (10, 0x6f26Bf09B1C792e3228e5467807a900A503c0281),
      (137, 0x9295ee1d8C5b022Be115A2AD3c30C72E34e7F096), (324, 0xe0B015E54d54fc84a6cB9B666099c46adE9335FF),
      (8453, 0x09aea4b2242abC8bb4BB78D537A67a245A7bEC64), (34443, 0x3baD7AD0728f9917d1Bf08af5782dCbD516cDd96),
      (42161, 0xe35e9842fceaCA96570B734083f4a58e8F7C5f2A), (57073, 0xeF684C38F94F48775959ECf2012D7E864ffb9dd4),
      (59144, 0x7e63a5f1a8F0B4D0934B2f2327DAEd3f6bb2Ee75), (534352, 0x3baD7AD0728f9917d1Bf08af5782dCbD516cDd96)]"

definition default_debridge_dln_addresses :: "(u64 \<times> evm_addr) list" where
  "default_debridge_dln_addresses =
     map (\<lambda>c. (c, debridge_dln_destination)) [1, 10, 42161, 8453, 56, 43114, 59144, 137, 534352, 57073, 34443, 100]"

text \<open>The chains of \<open>DeBridgeAdapter::new\<close>.\<close>

definition adapter_dln_addresses :: "(u64 \<times> evm_addr) list" where
  "adapter_dln_addresses =
     map (\<lambda>c. (c, debridge_dln_destination))
       [1, 10, 42161, 8453, 56, 43114, 59144, 137, 534352, 57073, 34443, 100, 5000, 1329, 80094, 1088, 999, 60808, 4158, 250, 25, 146]"

definition default_rpcs :: "(u64 \<times> string) list" where
  "default_rpcs =
     [(1, ''https://ethereum-rpc.publicnode.com''), (10, ''https://mainnet.optimism.io''), (42161, ''https://arb1.arbitrum.io/rpc''),
      (8453, ''https://base-rpc.publicnode.com''), (137, ''https://polygon-bor-rpc.publicnode.com''),
      (56, ''https://bsc-dataseed.binance.org''), (43114, ''https://api.avax.network/ext/bc/C/rpc''),
      (59144, ''https://rpc.linea.build''), (534352, ''https://rpc.scroll.io''), (57073, ''https://rpc-gel.inkonchain.com''),
      (34443, ''https://mainnet.mode.network''), (100, ''https://rpc.gnosischain.com''), (324, ''https://mainnet.era.zksync.io''),
      (999, ''https://rpc.hyperliquid.xyz/evm''), (1868, ''https://rpc.mainnet.taiko.xyz''), (81457, ''https://rpc.blast.io''),
      (1135, ''https://rpc.api.lisk.com'')]"

definition default_rpc_for_chain :: "u64 \<Rightarrow> string option" where
  "default_rpc_for_chain c = map_of default_rpcs c"

definition set_env :: "(string \<Rightarrow> string option) \<Rightarrow> string \<Rightarrow> string option" where
  "set_env env k = keep (\<lambda>s. s \<noteq> []) (env k)"

definition resolve_rpc_url :: "(string \<Rightarrow> string option) \<Rightarrow> u64 \<Rightarrow> string option" where
  "resolve_rpc_url env c =
     either (set_env env (''RPC_URL_'' @ show_nat (unat c)))
       (either (if c = 1 then set_env env ''ETH_RPC_URL'' else None) (default_rpc_for_chain c))"

record evm_node =
  en_env :: "string \<Rightarrow> string option"
  en_bad_url :: "string \<Rightarrow> string option"
  en_estimate :: "string \<Rightarrow> evm_addr \<Rightarrow> evm_addr \<Rightarrow> bytes \<Rightarrow> nat option \<Rightarrow> string + u64"

definition run_evm_estimate_with_value ::
    "evm_node \<Rightarrow> u64 \<Rightarrow> evm_addr \<Rightarrow> evm_addr \<Rightarrow> bytes \<Rightarrow> nat option \<Rightarrow> estimate_outcome" where
  "run_evm_estimate_with_value N c sender to data value =
     (let n = show_nat (unat c)
      in case resolve_rpc_url (en_env N) c of
           None \<Rightarrow> AbiInvalid (''no RPC URL for chain '' @ n @ '' (set RPC_URL_'' @ n @ ''=)'')
         | Some u \<Rightarrow>
             (case en_bad_url N u of
                Some e \<Rightarrow> AbiInvalid (''bad RPC URL: '' @ e)
              | None \<Rightarrow>
                  (case en_estimate N u sender to data value of Inr gas \<Rightarrow> OkGas gas | Inl m \<Rightarrow> classify_evm_error m)))"

definition run_evm_estimate :: "evm_node \<Rightarrow> u64 \<Rightarrow> evm_addr \<Rightarrow> evm_addr \<Rightarrow> bytes \<Rightarrow> estimate_outcome" where
  "run_evm_estimate N c sender to data = run_evm_estimate_with_value N c sender to data None"

record attempt_bundle =
  ab_intent_id :: string
  ab_protocol :: string
  ab_outcome_tag :: string
  ab_gas_or_error :: string
  ab_calldata_hex :: string
  ab_from :: evm_addr
  ab_to :: evm_addr
  ab_chain_id :: u64
  ab_ts :: u64

fun gas_or_error :: "estimate_outcome \<Rightarrow> string" where
  "gas_or_error (OkGas g) = show_nat (unat g)"
| "gas_or_error (OkComputeUnits g) = show_nat (unat g)"
| "gas_or_error (InsufficientFundsLike s) = s"
| "gas_or_error (InsufficientLamports s) = s"
| "gas_or_error (EstReverted s) = s"
| "gas_or_error (AbiInvalid s) = s"
| "gas_or_error (RouteNotImplemented s) = s"

definition new_attempt ::
    "codec \<Rightarrow> u64 \<Rightarrow> 'a intent_scheme \<Rightarrow> string \<Rightarrow> estimate_outcome \<Rightarrow> bytes \<Rightarrow> evm_addr \<Rightarrow> evm_addr \<Rightarrow> u64 \<Rightarrow> attempt_bundle" where
  "new_attempt H ts it protocol est data sender to c =
     \<lparr>ab_intent_id = i_id it, ab_protocol = protocol, ab_outcome_tag = estimate_tag est, ab_gas_or_error = gas_or_error est,
      ab_calldata_hex = ''0x'' @ cx_encode H data, ab_from = sender, ab_to = to, ab_chain_id = c, ab_ts = ts\<rparr>"

text \<open>\<open>write_attempt_bundle\<close>: the identifier in the answer to a bundle; failures are only logged.\<close>

definition write_attempt_bundle :: "(attempt_bundle \<Rightarrow> (bool \<times> json option) option) \<Rightarrow> attempt_bundle \<Rightarrow> string option" where
  "write_attempt_bundle server b =
     (case server b of Some (True, v) \<Rightarrow> Option.bind v (jstr ''bundle_id'') | _ \<Rightarrow> None)"

text \<open>What the three adapters have in common: build the call, ask the node, report the attempt.\<close>

definition estimate_with ::
    "codec \<Rightarrow> u64 \<Rightarrow> evm_node \<Rightarrow> evm_addr \<Rightarrow> string \<Rightarrow> ('a intent_scheme \<Rightarrow> (string, evm_addr \<times> bytes) res) \<Rightarrow> 'a intent_scheme
      \<Rightarrow> (unit, estimate_outcome \<times> attempt_bundle) res" where
  "estimate_with H ts N me protocol build it =
     (case build it of
        Panic \<Rightarrow> Panic
      | Err e \<Rightarrow> Ok (AbiInvalid e, new_attempt H ts it protocol (AbiInvalid e) [] me 0 (i_dst_chain it))
      | Ok (to, data) \<Rightarrow>
          let est = run_evm_estimate N (i_dst_chain it) me to data
          in Ok (est, new_attempt H ts it protocol est data me to (i_dst_chain it)))"

definition across_estimate_call ::
    "fill_codec \<Rightarrow> u64 \<Rightarrow> evm_addr \<Rightarrow> (u64 \<times> evm_addr) list \<Rightarrow> intent \<Rightarrow> (string, evm_addr \<times> bytes) res" where
  "across_estimate_call C now me pools it =
     res_bind (ok_or ''no Across SpokePool for chain'' (map_of pools (i_dst_chain it))) (\<lambda>to.
     res_bind (build_across_spoke_pool_calldata_with_relayer C now it (Some me) (Some (i_dst_chain it))) (\<lambda>data.
     Ok (to, data)))"

definition dln_estimate_call ::
    "evm_codec \<Rightarrow> evm_addr \<Rightarrow> (u64 \<times> evm_addr) list \<Rightarrow> feed_intent \<Rightarrow> (string, evm_addr \<times> bytes) res" where
  "dln_estimate_call C me dln it =
     res_bind (ok_or ''no deBridge DLN for chain'' (map_of dln (i_dst_chain it))) (\<lambda>to.
     res_bind (build_fulfill_order_calldata C it me) (\<lambda>data. Ok (to, data)))"

definition mayan_estimate_call ::
    "evm_codec \<Rightarrow> u64 \<Rightarrow> evm_addr \<Rightarrow> (u64 \<times> evm_addr) list \<Rightarrow> feed_intent \<Rightarrow> (string, evm_addr \<times> bytes) res" where
  "mayan_estimate_call C now me swift it = build_estimate_call_with_vaa C now me swift it None"
section \<open>Fee bounds\<close>

lemma f_mul_mono:
  assumes "f_le (Fin 0) a" "f_le a b" "0 < c"
  shows "f_le (f_mul a (Fin c)) (f_mul b (Fin c))"
  using assms by (cases a; cases b) (auto simp: f_signed_inf_def intro: fround_mono mult_right_mono)

lemma f_mul_nonneg: "f_le (Fin 0) a \<Longrightarrow> 0 < c \<Longrightarrow> f_le (Fin 0) (f_mul a (Fin c))"
  by (cases a) (auto simp: f_signed_inf_def intro!: fround_nonneg)

lemma uint_f_to_u128: "0 \<le> q \<Longrightarrow> uint (f_to_u128 (Fin q)) = min (2 ^ 128 - 1) \<lfloor>q\<rfloor>"
proof -
  assume "0 \<le> q"
  then have "0 \<le> min (2 ^ 128 - 1) \<lfloor>q\<rfloor>" "min (2 ^ 128 - 1) \<lfloor>q\<rfloor> < 2 ^ 128" by (auto simp: min_def)
  then have "uint (word_of_int (min (2 ^ 128 - 1) \<lfloor>q\<rfloor>) :: u128) = min (2 ^ 128 - 1) \<lfloor>q\<rfloor>"
    by (subst uint_word_of_int) (simp add: take_bit_int_eq_self mod_pos_pos_trivial)
  then show ?thesis using \<open>0 \<le> q\<close> by (cases "q = 0") simp_all
qed

lemma f_to_u128_mono: "f_le (Fin 0) a \<Longrightarrow> f_le a b \<Longrightarrow> f_to_u128 a \<le> f_to_u128 b"
proof (cases a; cases b)
  fix p q assume "f_le (Fin 0) a" "f_le a b" "a = Fin p" "b = Fin q"
  moreover from this have "min (2 ^ 128 - 1) \<lfloor>p\<rfloor> \<le> min (2 ^ 128 - 1 :: int) \<lfloor>q\<rfloor>"
    by (simp add: floor_mono min.coboundedI2)
  ultimately show ?thesis by (simp add: word_le_def uint_f_to_u128 del: f_to_u128.simps)
qed auto

lemma between:
  assumes "f_le (Fin p) x" "f_le x (Fin q)"
  obtains r where "x = Fin r" "p \<le> r" "r \<le> q"
  using assms by (cases x) auto

lemma gas_buffer_value: obtains b where "gas_buffer = Fin b" "1 \<le> b" "b \<le> 2"
proof -
  have "fround 1 = Fin 1" "fround 2 = Fin 2" using fround_of_int [of 1] fround_of_int [of 2] by simp_all
  then have "f_le (Fin 1) gas_buffer" "f_le gas_buffer (Fin 2)"
    unfolding gas_buffer_def using fround_mono [of 1 "135 / 100"] fround_mono [of "135 / 100" 2] by simp_all
  then show thesis using that by (rule between)
qed

lemma giga: "fround (10 ^ 9) = Fin (10 ^ 9)"
  using fround_of_int [of "10 ^ 9"] by simp

lemma clamped_bounds:
  assumes "f_le (gr_min_gwei r) (gr_max_gwei r)"
  shows "f_le (gr_min_gwei r) (clamped r x)" "f_le (clamped r x) (gr_max_gwei r)"
  using assms f_le_not_NaN [OF assms]
  by (auto simp: clamped_def f_max_def f_min_def f_not_lt f_le_refl dest: f_lt_imp_le intro: f_le_trans)

definition range_ok :: "gas_price_range \<Rightarrow> bool" where
  "range_ok r \<longleftrightarrow> (\<exists>lo hi typ. r = gas_range lo hi typ \<and> 1 / 1024 \<le> lo \<and> lo \<le> typ \<and> typ \<le> hi \<and> hi \<le> 500)"

lemma range_ok: "range_ok (gas_price_range_for_chain c)"
proof -
  have "\<forall>(k, r) \<in> set gas_ranges. range_ok r"
    unfolding gas_ranges_def range_ok_def by (simp, intro conjI exI, (rule refl | simp)+)
  moreover have "range_ok (gas_range (1 / 1000) 200 1)" unfolding range_ok_def by (intro exI conjI, rule refl) simp_all
  ultimately show ?thesis
    by (auto simp: gas_price_range_for_chain_def split: option.split dest!: map_of_SomeD)
qed
lemma fround_halves: "fround (1 / 1024) = Fin (1 / 1024)" "fround (1953125 / 2) = Fin (1953125 / 2)"
proof -
  have "1 / 1024 = of_int 1 * (2 :: rat) powi - 10" "1953125 / 2 = of_int 1953125 * (2 :: rat) powi - 1"
    by (simp_all add: power_int_def power_one_over)
  then have "fval (1 / 1024) = 1 / 1024" "fval (1953125 / 2) = 1953125 / 2"
    using fval_exact [of 1 "- 10"] fval_exact [of 1953125 "- 1"] by simp_all
  then show "fround (1 / 1024) = Fin (1 / 1024)" "fround (1953125 / 2) = Fin (1953125 / 2)" by (simp_all add: fround_def Let_def)
qed

text \<open>The gas price before the fees are rounded to wei.\<close>

definition price_of :: "u64 \<Rightarrow> f64 option \<Rightarrow> f64 option \<Rightarrow> f64" where
  "price_of c razor rpc =
     (let r = gas_price_range_for_chain c
      in case razor of Some live \<Rightarrow> clamped r live | None \<Rightarrow> (case rpc of Some p \<Rightarrow> clamped r p | None \<Rightarrow> gr_typical_gwei r))"

lemma optimal_price: "optimal_gas_price_wei c razor rpc =
    (let fee = fee_of (f_mul (price_of c razor rpc) gas_buffer) in (fee, min (max (fee div 10) 1000) fee))"
  by (simp add: optimal_gas_price_wei_def price_of_def Let_def)

lemma price_of_range:
  "f_le (gr_min_gwei (gas_price_range_for_chain c)) (price_of c razor rpc)"
  "f_le (price_of c razor rpc) (gr_max_gwei (gas_price_range_for_chain c))"
  "f_le (Fin (1 / 1024)) (gr_min_gwei (gas_price_range_for_chain c))"
  "f_le (gr_max_gwei (gas_price_range_for_chain c)) (Fin 500)"
proof -
  obtain lo hi mid where r: "gas_price_range_for_chain c = gas_range lo hi mid" "1 / 1024 \<le> lo" "lo \<le> mid" "mid \<le> hi" "hi \<le> 500"
    using range_ok [of c] by (auto simp: range_ok_def)
  have m: "f_le (fround lo) (fround mid)" "f_le (fround mid) (fround hi)" "f_le (fround lo) (fround hi)"
    using r by (auto intro: fround_mono)
  have "fround 500 = Fin 500" using fround_of_int [of 500] by simp
  then show "f_le (Fin (1 / 1024)) (gr_min_gwei (gas_price_range_for_chain c))"
    "f_le (gr_max_gwei (gas_price_range_for_chain c)) (Fin 500)"
    using fround_mono [OF r(2)] fround_mono [OF r(5)] by (simp_all add: r(1) gas_range_def fround_halves)
  have "f_le (gr_min_gwei (gas_price_range_for_chain c)) (gr_max_gwei (gas_price_range_for_chain c))"
    using m by (simp add: r(1) gas_range_def)
  from clamped_bounds [OF this] m show
    "f_le (gr_min_gwei (gas_price_range_for_chain c)) (price_of c razor rpc)"
    "f_le (price_of c razor rpc) (gr_max_gwei (gas_price_range_for_chain c))"
    by (auto simp: price_of_def Let_def r(1) gas_range_def split: option.split)
qed

lemma fee_of_mono:
  assumes "f_le (Fin 0) a" "f_le a b"
  shows "fee_of (f_mul a gas_buffer) \<le> fee_of (f_mul b gas_buffer)"
proof -
  obtain g where g: "gas_buffer = Fin g" "0 < g" using gas_buffer_value by (metis less_le_trans zero_less_one)
  have "f_le (f_mul (f_mul a gas_buffer) (fround (10 ^ 9))) (f_mul (f_mul b gas_buffer) (fround (10 ^ 9)))"
    unfolding g giga by (intro f_mul_mono f_mul_nonneg assms g(2)) simp
  moreover have "f_le (Fin 0) (f_mul (f_mul a gas_buffer) (fround (10 ^ 9)))"
    unfolding g giga by (intro f_mul_nonneg assms g(2)) simp
  ultimately show ?thesis by (simp add: fee_of_def f_to_u128_mono)
qed

lemma fee_of_extremes:
  "976562 \<le> fee_of (f_mul (Fin (1 / 1024)) gas_buffer)" "fee_of (f_mul (Fin 500) gas_buffer) \<le> 1000000000000"
proof -
  obtain g where g: "gas_buffer = Fin g" "1 \<le> g" "g \<le> 2" using gas_buffer_value .
  have e: "fround 1000 = Fin 1000" "fround (10 ^ 12) = Fin (10 ^ 12)"
    using fround_of_int [of 1000] fround_of_int [of "10 ^ 12"] by simp_all
  note e = e fround_halves
  have c: "f_le (Fin (1 / 1024)) (f_mul (Fin (1 / 1024)) gas_buffer)" "f_le (f_mul (Fin 500) gas_buffer) (Fin 1000)"
    unfolding g f_mul.simps using g fround_mono [of "1 / 1024" "1 / 1024 * g"] fround_mono [of "500 * g" 1000] by (simp_all add: e)
  have p: "f_le (Fin 0) (Fin (1 / 1024))" "f_le (Fin 0) (f_mul (Fin 500) gas_buffer)" "(0 :: rat) < 10 ^ 9"
    unfolding g f_mul.simps using g by (auto intro: fround_nonneg)
  note b = f_mul_mono [OF p(1) c(1) p(3)] f_mul_mono [OF p(2) c(2) p(3)] and n = f_mul_nonneg [OF p(2,3)]
  have fl: "\<lfloor>1953125 / 2 :: rat\<rfloor> = 976562" by (simp add: floor_eq_iff)
  from f_to_u128_mono [OF _ b(1)] f_to_u128_mono [OF n b(2)] show
    "976562 \<le> fee_of (f_mul (Fin (1 / 1024)) gas_buffer)" "fee_of (f_mul (Fin 500) gas_buffer) \<le> 1000000000000"
    using e fl by (simp_all add: fee_of_def giga [simplified])
qed

text \<open>C40. Whatever the gas API and the node answer, infinities and nonsense included, the fee per gas of a transaction is within the
  range of its chain with the buffer applied, never below 976562 wei nor above 1000 gwei, and
  the tip is a tenth of it.\<close>

theorem gas_price_bounded:
  "case optimal_gas_price_wei c razor rpc of (fee, tip) \<Rightarrow>
     fee_of (f_mul (gr_min_gwei (gas_price_range_for_chain c)) gas_buffer) \<le> fee
     \<and> fee \<le> fee_of (f_mul (gr_max_gwei (gas_price_range_for_chain c)) gas_buffer)
     \<and> 976562 \<le> fee \<and> fee \<le> 1000000000000 \<and> tip = fee div 10"
proof -
  note r = price_of_range [of c] and x = fee_of_extremes
  let ?lo = "gr_min_gwei (gas_price_range_for_chain c)" and ?hi = "gr_max_gwei (gas_price_range_for_chain c)"
    and ?p = "price_of c razor rpc"
  let ?fee = "fee_of (f_mul ?p gas_buffer)"
  have z: "f_le (Fin 0) (Fin (1 / 1024))" by simp
  note p0 = f_le_trans [OF z r(3)] and p1 = f_le_trans [OF f_le_trans [OF z r(3)] r(1) [of razor rpc]]
  have b: "fee_of (f_mul ?lo gas_buffer) \<le> ?fee" "?fee \<le> fee_of (f_mul ?hi gas_buffer)"
    "fee_of (f_mul (Fin (1 / 1024)) gas_buffer) \<le> fee_of (f_mul ?lo gas_buffer)"
    "fee_of (f_mul ?hi gas_buffer) \<le> fee_of (f_mul (Fin 500) gas_buffer)"
    using fee_of_mono [OF p0 r(1)] fee_of_mono [OF p1 r(2)] fee_of_mono [OF z r(3)] fee_of_mono [OF f_le_trans [OF p1 r(2)] r(4)]
    by blast+
  then have lim: "976562 \<le> ?fee" "?fee \<le> 1000000000000" using x by (meson order_trans)+
  have "976562 div 10 \<le> ?fee div 10" using lim(1) by (simp add: word_le_nat_alt unat_div div_le_mono)
  then have "1000 \<le> ?fee div 10" by (rule order_trans [rotated]) simp
  moreover have "?fee div 10 \<le> ?fee" by (simp add: word_le_nat_alt unat_div)
  ultimately have "min (max (?fee div 10) 1000) ?fee = ?fee div 10" by (simp add: max_absorb1 min_absorb1)
  with b lim show ?thesis by (simp add: optimal_price Let_def)
qed
section \<open>An order read from its log and fulfilled\<close>

lemma decode_hex_text [simp]: "codec_fits (ec_fill C) \<Longrightarrow> cx_decode (ec_hex C) (trim_start_str ''0x'' (hex0x hex_codec b)) = Some b"
  by (simp add: codec_fits_def hex0x_def hex_codec_def trim_hex_prefix [OF hex_facts(3), simplified] hex_facts)

lemma unat_w256: "n < 2 ^ 256 \<Longrightarrow> unat (of_nat n :: w256) = n"
  by (simp add: unat_of_nat)

lemma fits_u256: "codec_fits (ec_fill C) \<Longrightarrow> n < 2 ^ 256 \<Longrightarrow> fc_u256 (ec_fill C) (show_nat n) = Some (of_nat n)"
  using unat_w256 [of n] by (metis codec_fits_def)

definition fillable :: "dln_order \<Rightarrow> bool" where
  "fillable d \<longleftrightarrow> \<not> solana_dst (do_take_chain d) \<and> do_give_chain d \<noteq> 0 \<and> do_give_amount d < 2 ^ 128 \<and> do_take_amount d < 2 ^ 128"

lemma dln_calldata_of_order:
  assumes "codec_fits (ec_fill C)" "fillable d" "length order_id = 32"
  shows "build_fulfill_order_calldata C (intent_of_order hex_codec now tx order_id src d) solver
    = Ok (ec_dln C (FulfillOrder d (of_nat (do_take_amount d)) order_id [] solver))"
proof -
  have n: "do_give_amount d < 2 ^ 256" "do_take_amount d < 2 ^ 256" "show_nat (do_take_amount d) \<noteq> []"
    using assms(2) show_nat_digits [of "do_take_amount d"] by (auto simp: fillable_def)
  note f = fits_u256 [OF assms(1) n(1)] fits_u256 [OF assms(1) n(2)]
  have "parse_order C (intent_of_order hex_codec now tx order_id src d) = Ok d"
    using assms(1,2) f unat_w256 [OF n(1)] unat_w256 [OF n(2)]
    by (simp add: parse_order_def intent_of_order_def extract_order_nonce_def address_to_bytes_def hex_to_bytes_def fillable_def
        bytes_to_addr_def bytes_to_hex_def bytes_to_dst_field_def Let_def)
  moreover have "extract_order_id C (intent_of_order hex_codec now tx order_id src d) = Ok order_id"
    using assms(1,3) by (simp add: extract_order_id_def intent_of_order_def Let_def)
  moreover have "dln_fulfil_amount C (intent_of_order hex_codec now tx order_id src d) = Ok (of_nat (do_take_amount d))"
    using f n(3) by (simp add: dln_fulfil_amount_def intent_of_order_def Let_def)
  ultimately show ?thesis by (simp add: build_fulfill_order_calldata_def)
qed

text \<open>C38. A deBridge order between EVM chains survives the way from the log to the fill: whatever its byte fields, the intent
  decoded from the event of its creation is turned into the call that fulfils exactly this order, under its identifier, for the
  amount the maker asked, unlocked to the solver.\<close>

theorem dln_fill_reproduces_order:
  assumes "codec_fits (ec_fill C)" "fillable d" "length order_id = 32" "length filler = 5"
    and "list_all (\<lambda>s. length s = 32) (filler @ rest)" "length (log_slots order_id filler d rest) < 2 ^ 58"
  shows "\<exists>it. decode_dln_order_created_log hex_codec now
      (JObj [(''data'', JStr (''0x'' @ concat (map (cx_encode hex_codec) (log_slots order_id filler d rest)))),
             (''transactionHash'', JStr tx)]) src = Ok (Some it)
    \<and> build_fulfill_order_calldata C it solver
      = Ok (ec_dln C (FulfillOrder d (of_nat (do_take_amount d)) order_id [] solver))
    \<and> build_claim_unlock_calldata C it solver = Ok (ec_dln C (ClaimUnlock order_id solver))"
proof -
  have c: "extract_order_id C (intent_of_order hex_codec now tx order_id src d) = Ok order_id"
    using assms(1,3) by (simp add: extract_order_id_def intent_of_order_def Let_def)
  show ?thesis
    using dln_log_read [OF hex_codec_ok assms(3-5) _ _ assms(6)] dln_calldata_of_order [OF assms(1-3)] assms(2) c
    by (auto simp: fillable_def build_claim_unlock_calldata_def)
qed

lemma map_of_same: "map_of (map (\<lambda>c. (c, a)) cs) c = (if c \<in> set cs then Some a else None)"
  by (induction cs) auto

lemma dln_table: "map_of default_debridge_dln_addresses c = dln_destination_address c"
  unfolding default_debridge_dln_addresses_def map_of_same dln_destination_address_def debridge_dln_destination_def dln_destination_def
  by auto

text \<open>The tables of chains agree: the estimates simulate exactly the chains the controller fulfils on, and the protocol
  adapter knows all of these.\<close>

theorem dln_tables_agree:
  "map_of default_debridge_dln_addresses c = dln_destination_address c
   \<and> map_of default_debridge_dln_addresses c \<in> {None, map_of adapter_dln_addresses c}"
  unfolding dln_table dln_destination_address_def adapter_dln_addresses_def map_of_same debridge_dln_destination_def dln_destination_def
  by auto

section \<open>Mayan orders read from their calldata and fulfilled\<close>

lemma be_enc_zero: "be_enc k 0 = replicate k 0"
  by (induction k) (simp_all add: replicate_append_same)

lemma bytes32_word:
  assumes "codec_fits (ec_fill C)"
  shows "bytes32_or_zero C (Some (word_text n)) = be32 n" "bytes32_or_zero C (Some (''0x'' @ word_text n)) = be32 n"
proof -
  have "trim_start_str ''0x'' (word_text n) = word_text n" "trim_start_str ''0x'' (''0x'' @ word_text n) = word_text n"
    unfolding word_text_def using hex_facts(3) by (rule trim_start_no_prefix, rule trim_hex_prefix)
  moreover have "length (word_text n) = 64" "hex_decode (word_text n) = Some (be32 n)"
    by (simp_all add: word_text_def hex_facts del: be_enc.simps)
  ultimately show "bytes32_or_zero C (Some (word_text n)) = be32 n" "bytes32_or_zero C (Some (''0x'' @ word_text n)) = be32 n"
    using assms by (simp_all add: bytes32_or_zero_def codec_fits_def hex_codec_def Let_def del: be_enc.simps)
qed

lemma given_or_zero: "opt_else (map_option of_nat (nonzero bits n)) 0 = (if n < 2 ^ bits then of_nat n else 0)"
  by (simp add: nonzero_def opt_else_def)

text \<open>The 32 bytes of an address text: twelve zero bytes before its twenty.\<close>

definition padded_address :: "evm_codec \<Rightarrow> string \<Rightarrow> bytes \<Rightarrow> bool" where
  "padded_address C s w \<longleftrightarrow>
     (\<exists>b. cx_decode (ec_hex C) (trim_start_str ''0x'' s) = Some b \<and> length b = 20 \<and> w = replicate 12 0 @ b)"

lemma address_to_bytes32_Ok: "address_to_bytes32 C s = Ok w \<Longrightarrow> padded_address C s w"
  by (cases "cx_decode (ec_hex C) (trim_start_str ''0x'' s)")
    (auto simp: address_to_bytes32_def padded_address_def split: if_splits)

text \<open>C39. A Mayan Swift order survives the way from its source transaction and the explorer's answer to the fill.  Of an order
  whose numbers fit their width, with an auction mode and a deadline, the parameters handed to the contract carry the
  random word, referrer, fees, gas drop, deadline, mode and minimum of the calldata; the trader, the destination address
  and the token to pay out of the explorer's order, each as twelve zero bytes and the twenty of its text; and the
  Wormhole number of the destination chain.  An order without its random word is never built.\<close>

theorem mayan_fill_reproduces_order:
  assumes "codec_fits (ec_fill C)"
    and "find_str create_order_sel (hex_encode pre @ create_order_sel @ concat (map word_text ws)) = Some (2 * length pre)"
    and "length ws = 16" "\<forall>n \<in> set ws. n < 2 ^ 256" "4096 \<le> ws ! 0"
    and "\<forall>i \<in> {8 .. 12}. ws ! i < 2 ^ 64" "ws ! 13 < 2 ^ 8" "ws ! 14 < 2 ^ 8" "ws ! 14 \<noteq> 0" "ws ! 12 \<noteq> 0"
    and "mayan_input (mayan_calldata pre ws) = Ok ps" "build_order_params C now (mayan_intent t order hash route ps) = Ok p"
  shows "ws ! 15 \<noteq> 0 \<and> op_random p = be32 (ws ! 15) \<and> op_referrer_addr p = be32 (ws ! 6)
    \<and> op_min_amount_out p = of_nat (ws ! 8) \<and> op_gas_drop p = of_nat (ws ! 9) \<and> op_cancel_fee p = of_nat (ws ! 10)
    \<and> op_refund_fee p = of_nat (ws ! 11) \<and> op_deadline p = of_nat (ws ! 12) \<and> op_referrer_bps p = of_nat (ws ! 13)
    \<and> op_auction_mode p = of_nat (ws ! 14) \<and> op_payload_type p = 1
    \<and> padded_address C (or_str (jstr ''trader'' order) ''0x0'') (op_trader p)
    \<and> padded_address C (or_str (jstr ''destAddress'' order) []) (op_dest_addr p)
    \<and> padded_address C (or_str (jstr ''toTokenAddress'' order) ''0x0'') (op_token_out p)
    \<and> op_dest_chain p = wormhole_of_chain (snd (snd route))"
proof -
  let ?it = "mayan_intent t order hash route ps"
  have ps: "ps = \<lparr>mp_random = (if ws ! 15 = 0 then None else Some (word_text (ws ! 15))),
      mp_cancel_fee = nonzero 64 (ws ! 10), mp_refund_fee = nonzero 64 (ws ! 11), mp_gas_drop = nonzero 64 (ws ! 9),
      mp_deadline = nonzero 64 (ws ! 12), mp_referrer_addr = (if ws ! 6 = 0 then None else Some (''0x'' @ word_text (ws ! 6))),
      mp_referrer_bps = nonzero 8 (ws ! 13), mp_auction_mode = nonzero 8 (ws ! 14), mp_min_amount_out = nonzero 64 (ws ! 8)\<rparr>"
    using mayan_calldata_read [OF assms(2-5)] assms(11) by (simp only: res.inject)
  have num: "ws ! 8 < 2 ^ 64" "ws ! 9 < 2 ^ 64" "ws ! 10 < 2 ^ 64" "ws ! 11 < 2 ^ 64" "ws ! 12 < 2 ^ 64"
    using assms(6) by (simp_all only: Ball_def atLeastAtMost_iff) auto
  have f: "fi_mayan_random ?it = mp_random ps" "fi_mayan_referrer_addr ?it = mp_referrer_addr ps"
    "fi_mayan_min_amount_out ?it = map_option of_nat (mp_min_amount_out ps)" "fi_mayan_gas_drop ?it = map_option of_nat (mp_gas_drop ps)"
    "fi_mayan_cancel_fee ?it = map_option of_nat (mp_cancel_fee ps)" "fi_mayan_refund_fee ?it = map_option of_nat (mp_refund_fee ps)"
    "i_deadline ?it = map_option of_nat (mp_deadline ps)" "fi_mayan_referrer_bps ?it = map_option of_nat (mp_referrer_bps ps)"
    "i_mayan_auction_mode ?it = Some (mayan_mode order ps)"
    and g: "fi_trader ?it = Some (or_str (jstr ''trader'' order) ''0x0'')" "i_recipient ?it = or_str (jstr ''destAddress'' order) []"
    "i_dst_token ?it = or_str (jstr ''toTokenAddress'' order) ''0x0''" "fi_wormhole_id ?it = None" "i_dst_chain ?it = snd (snd route)"
    by (simp_all add: mayan_intent_def default_intent_def Let_def split: prod.split)
  have m: "mayan_mode order ps = of_nat (ws ! 14)" "map_option of_nat (mp_deadline ps) = Some (of_nat (ws ! 12) :: u64)"
    using assms(8-10) num(5) by (simp_all add: ps mayan_mode_def nonzero_def)
  have z: "bytes32_or_zero C (mp_referrer_addr ps) = be32 (ws ! 6)"
    using bytes32_word(2) [OF assms(1)] by (simp add: ps bytes32_or_zero_def be_enc_zero del: be_enc.simps)
  obtain r where r: "mp_random ps = Some r" using assms(12) by (cases "mp_random ps") (simp_all add: build_order_params_def f)
  then have "ws ! 15 \<noteq> 0" "bytes32_or_zero C (Some r) = be32 (ws ! 15)"
    using bytes32_word(1) [OF assms(1)] by (simp_all add: ps del: be_enc.simps split: if_splits) (metis option.inject)
  moreover have "op_random p = bytes32_or_zero C (Some r) \<and> op_referrer_addr p = be32 (ws ! 6)
      \<and> op_min_amount_out p = opt_else (map_option of_nat (mp_min_amount_out ps)) 0
      \<and> op_gas_drop p = opt_else (map_option of_nat (mp_gas_drop ps)) 0 \<and> op_cancel_fee p = opt_else (map_option of_nat (mp_cancel_fee ps)) 0
      \<and> op_refund_fee p = opt_else (map_option of_nat (mp_refund_fee ps)) 0 \<and> op_deadline p = of_nat (ws ! 12)
      \<and> op_referrer_bps p = opt_else (map_option of_nat (mp_referrer_bps ps)) 0 \<and> op_auction_mode p = of_nat (ws ! 14)"
    using assms(12) unfolding build_order_params_def f r m z by (auto simp: opt_else_def simp del: be_enc.simps)
  moreover have "address_to_bytes32 C (or_str (jstr ''trader'' order) ''0x0'') = Ok (op_trader p)
      \<and> address_to_bytes32 C (or_str (jstr ''destAddress'' order) []) = Ok (op_dest_addr p)
      \<and> address_to_bytes32 C (or_str (jstr ''toTokenAddress'' order) ''0x0'') = Ok (op_token_out p)
      \<and> op_dest_chain p = wormhole_of_chain (snd (snd route)) \<and> op_payload_type p = 1"
    using assms(12) unfolding build_order_params_def f g r by (auto simp: opt_else_def simp del: be_enc.simps)
  moreover note address_to_bytes32_Ok
  ultimately show ?thesis using num assms(7) by (simp add: ps given_or_zero del: be_enc.simps)
qed

text \<open>A decimal amount of the explorer counts with 18 decimals, whatever the token.\<close>

lemma mayan_decimal_amount:
  assumes "i_output_amount it = Some s" "contains s ''.''" "parse_f64 s = Some x"
  shows "mayan_fulfil_amount C it = ec_u256 C (show_nat (unat (f_to_u128 (f_mul x (fround (10 ^ 18))))))"
  using assms by (simp add: mayan_fulfil_amount_def)
section \<open>Estimate adapters\<close>

text \<open>What the three adapters promise: a call that is built goes to the contract their table has for the chain of the order.\<close>

locale estimate_adapter =
  fixes build :: "'a intent_scheme \<Rightarrow> (string, evm_addr \<times> bytes) res" and table :: "(u64 \<times> evm_addr) list"
  assumes in_table: "build it = Ok (to, data) \<Longrightarrow> map_of table (i_dst_chain it) = Some to"
begin

lemma green_sound:
  assumes "estimate_with H ts N me protocol build it = Ok (est, b)" "is_green est"
  shows "\<exists>to data u. build it = Ok (to, data) \<and> map_of table (i_dst_chain it) = Some to
    \<and> resolve_rpc_url (en_env N) (i_dst_chain it) = Some u \<and> en_bad_url N u = None
    \<and> (case en_estimate N u me to data None of Inr g \<Rightarrow> est = OkGas g | Inl m \<Rightarrow> est = InsufficientFundsLike m)
    \<and> b = new_attempt H ts it protocol est data me to (i_dst_chain it)"
proof -
  obtain to data where call: "build it = Ok (to, data)"
    and est: "est = run_evm_estimate N (i_dst_chain it) me to data" "b = new_attempt H ts it protocol est data me to (i_dst_chain it)"
    using assms by (auto simp: estimate_with_def Let_def split: res.splits)
  have "classify_evm_error m = x \<Longrightarrow> is_green x \<Longrightarrow> x = InsufficientFundsLike m" for m x
    by (auto simp: classify_evm_error_def Let_def split: if_splits)
  with est(1) assms(2) obtain u where "resolve_rpc_url (en_env N) (i_dst_chain it) = Some u" "en_bad_url N u = None"
    "case en_estimate N u me to data None of Inr g \<Rightarrow> est = OkGas g | Inl m \<Rightarrow> est = InsufficientFundsLike m"
    by (auto simp: run_evm_estimate_def run_evm_estimate_with_value_def Let_def split: option.splits sum.splits)
  with call est(2) in_table [OF call] show ?thesis by blast
qed

end

interpretation across_est: estimate_adapter "across_estimate_call C now me pools" pools for C now me pools
  by unfold_locales (auto simp: across_estimate_call_def)

interpretation dln_est: estimate_adapter "dln_estimate_call C me dln" dln for C me dln
  by unfold_locales (auto simp: dln_estimate_call_def)

interpretation mayan_est: estimate_adapter "mayan_estimate_call C now me swift" swift for C now me swift
  by unfold_locales (auto simp: mayan_estimate_call_def build_estimate_call_with_vaa_def)

text \<open>A green estimate of a deBridge order means that a node was asked to run, on the chain of the order and against the
  DlnDestination contract there, the very call that fulfils this order, and that it answered with its gas or missed nothing but
  funds; the bundle reported to the spinner carries this call.\<close>

theorem dln_estimate_sound:
  assumes "codec_fits (ec_fill C)" "fillable d" "length order_id = 32"
    and "estimate_with (ec_hex C) ts N me ''debridge'' (dln_estimate_call C me default_debridge_dln_addresses)
           (intent_of_order hex_codec now tx order_id src d) = Ok (est, b)" "is_green est"
  shows "\<exists>to u. dln_destination_address (do_take_chain d) = Some to \<and> resolve_rpc_url (en_env N) (do_take_chain d) = Some u
    \<and> (case en_estimate N u me to (ec_dln C (FulfillOrder d (of_nat (do_take_amount d)) order_id [] me)) None of
         Inr g \<Rightarrow> est = OkGas g | Inl m \<Rightarrow> est = InsufficientFundsLike m)
    \<and> ab_calldata_hex b = hex0x hex_codec (ec_dln C (FulfillOrder d (of_nat (do_take_amount d)) order_id [] me))
    \<and> ab_to b = to \<and> ab_outcome_tag b = estimate_tag est"
proof -
  let ?it = "intent_of_order hex_codec now tx order_id src d"
  have c: "i_dst_chain ?it = do_take_chain d" "fc_hex (ec_fill C) = hex_codec"
    using assms(1) by (simp_all add: intent_of_order_def codec_fits_def Let_def)
  obtain to data u where g: "dln_estimate_call C me default_debridge_dln_addresses ?it = Ok (to, data)"
    "map_of default_debridge_dln_addresses (do_take_chain d) = Some to" "resolve_rpc_url (en_env N) (do_take_chain d) = Some u"
    "case en_estimate N u me to data None of Inr g \<Rightarrow> est = OkGas g | Inl m \<Rightarrow> est = InsufficientFundsLike m"
    "b = new_attempt (ec_hex C) ts ?it ''debridge'' est data me to (do_take_chain d)"
    using dln_est.green_sound [OF assms(4,5)] by (auto simp: c(1))
  have "data = ec_dln C (FulfillOrder d (of_nat (do_take_amount d)) order_id [] me)"
    using g(1) by (simp add: dln_estimate_call_def dln_calldata_of_order [OF assms(1-3)])
  with g dln_table [of "do_take_chain d"] show ?thesis by (auto simp: new_attempt_def hex0x_def c(2))
qed

section \<open>A codec for examples\<close>

definition plain_evm :: evm_codec where
  "plain_evm =
     \<lparr>ec_fill = plain_codec, ec_keccak = (\<lambda>_. replicate 32 0),
      ec_dln = (\<lambda>c. case c of FulfillOrder d amt oid p u \<Rightarrow> oid @ be32 (unat amt) | ClaimUnlock oid b \<Rightarrow> oid),
      ec_mayan = (\<lambda>_. [3])\<rparr>"
lemma plain_evm_fits: "codec_fits (ec_fill plain_evm)"
  using plain_codec_fits by (simp add: plain_evm_def)

lemma sample_fillable: "fillable sample_order" "do_take_chain sample_order = 8453"
proof -
  have "\<not> solana_dst 8453" by (simp add: solana_dst_def dln_non_evm_chain_name_def)
  then show "fillable sample_order" by (simp add: fillable_def sample_order_def)
qed (simp add: sample_order_def)

theorem dln_fill_reproduces_order_witness:
  "\<exists>it. decode_dln_order_created_log hex_codec 5
      (JObj [(''data'', JStr (''0x'' @ concat (map (cx_encode hex_codec) (log_slots (replicate 32 1) (replicate 5 (be32 0)) sample_order [])))),
             (''transactionHash'', JStr ''0xab'')]) 42161 = Ok (Some it)
    \<and> build_fulfill_order_calldata plain_evm it 7
      = Ok (ec_dln plain_evm (FulfillOrder sample_order (of_nat (do_take_amount sample_order)) (replicate 32 1) [] 7))"
proof -
  have l: "length (log_slots (replicate 32 1) (replicate 5 (be32 0)) sample_order []) < 2 ^ 58"
    by (simp add: log_slots_def order_slots_def byte_fields_def sample_order_def enc_bytes_def chunks.simps Let_def del: be_enc.simps)
  have s: "list_all (\<lambda>s. length s = 32) (replicate 5 (be32 0) @ [])" by (simp add: list_all_iff del: be_enc.simps)
  have n: "length (replicate 32 (1 :: u8)) = 32" "length (replicate 5 (be32 0)) = 5" by (simp_all del: be_enc.simps)
  from dln_fill_reproduces_order [OF plain_evm_fits sample_fillable(1) n s l, of 5 "''0xab''" 42161 7] show ?thesis by blast
qed

definition base_node :: evm_node where
  "base_node = \<lparr>en_env = (\<lambda>_. None), en_bad_url = (\<lambda>_. None), en_estimate = (\<lambda>_ _ _ _ _. Inr 21000)\<rparr>"

theorem dln_estimate_sound_witness:
  "\<exists>b u. estimate_with hex_codec 0 base_node 7 ''debridge'' (dln_estimate_call plain_evm 7 default_debridge_dln_addresses)
      (intent_of_order hex_codec 5 ''0xab'' (replicate 32 1) 0 sample_order) = Ok (OkGas 21000, b)
    \<and> resolve_rpc_url (\<lambda>_. None) 8453 = Some u \<and> ab_to b = dln_destination \<and> ab_outcome_tag b = ''ok_gas''"
proof -
  let ?it = "intent_of_order hex_codec 5 ''0xab'' (replicate 32 1) 0 sample_order"
  have n: "length (replicate 32 (1 :: u8)) = 32" by simp
  have dst: "i_dst_chain ?it = 8453" by (simp add: intent_of_order_def sample_fillable Let_def)
  have url: "resolve_rpc_url (\<lambda>_. None) 8453 = Some ''https://base-rpc.publicnode.com''"
    by (simp add: resolve_rpc_url_def set_env_def keep_def either_def default_rpc_for_chain_def default_rpcs_def)
  have tab: "dln_destination_address 8453 = Some dln_destination" by (simp add: dln_destination_address_def)
  have hex: "ec_hex plain_evm = hex_codec" using plain_evm_fits by (simp add: codec_fits_def)
  obtain b where e: "estimate_with hex_codec 0 base_node 7 ''debridge'' (dln_estimate_call plain_evm 7 default_debridge_dln_addresses) ?it
      = Ok (OkGas 21000, b)"
    using dln_calldata_of_order [OF plain_evm_fits sample_fillable(1) n, of 5 "''0xab''" 0 7] url tab
    by (simp add: estimate_with_def dln_estimate_call_def dst dln_table run_evm_estimate_def run_evm_estimate_with_value_def
        base_node_def Let_def del: be_enc.simps)
  from dln_estimate_sound [OF plain_evm_fits sample_fillable(1) n, unfolded hex, OF e] e url tab show ?thesis
    by (auto simp: sample_fillable)
qed

definition swift_order :: json where
  "swift_order = JObj [(''trader'', JStr (hex0x hex_codec (replicate 20 1))), (''toTokenAddress'', JStr (hex0x hex_codec (replicate 20 2))),
     (''destAddress'', JStr (hex0x hex_codec (replicate 20 3)))]"

definition swift_words :: "nat list" where
  "swift_words = [2 ^ 160 - 1, 1000, 1, 2, 3, 2, 0, 4, 990, 0, 5, 6, 1700000000, 25, 2, 7]"

theorem mayan_fill_reproduces_order_witness:
  "\<exists>ps p. mayan_input (mayan_calldata [18, 52] swift_words) = Ok ps
     \<and> build_order_params plain_evm 0 (mayan_intent 0 swift_order ''0xh'' (False, 137, 8453) ps) = Ok p
     \<and> op_random p = be32 7 \<and> op_deadline p = 1700000000 \<and> op_referrer_bps p = 25"
proof -
  have f: "find_str create_order_sel (hex_encode [18, 52] @ create_order_sel @ s) = Some (2 * length [18, 52 :: u8])" for s
    by (simp add: hex_encode_def hex_char_def create_order_sel_def starts_with_def)
  have w: "length swift_words = 16" "\<forall>n \<in> set swift_words. n < 2 ^ 256" "4096 \<le> swift_words ! 0" by (simp_all add: swift_words_def)
  have "{8 .. 12 :: nat} = {8, 9, 10, 11, 12}" by auto
  then have b: "\<forall>i \<in> {8 .. 12}. swift_words ! i < 2 ^ 64" by (simp add: swift_words_def)
  have c: "swift_words ! 13 < 2 ^ 8" "swift_words ! 14 < 2 ^ 8" "swift_words ! 14 \<noteq> 0" "swift_words ! 12 \<noteq> 0" by (simp_all add: swift_words_def)
  obtain ps where ps: "mayan_input (mayan_calldata [18, 52] swift_words) = Ok ps" "mp_random ps \<noteq> None"
    using mayan_calldata_read [OF f w] by (fastforce simp: swift_words_def)
  have a: "address_to_bytes32 plain_evm (hex0x hex_codec (replicate 20 x)) = Ok (replicate 12 0 @ replicate 20 x)" for x
    using decode_hex_text [OF plain_evm_fits] by (simp add: address_to_bytes32_def)
  have "\<exists>p. build_order_params plain_evm 0 (mayan_intent 0 swift_order ''0xh'' (False, 137, 8453) ps) = Ok p"
    using ps(2) by (simp add: build_order_params_def mayan_intent_def swift_order_def jstr_def or_str_def a Let_def)
  then obtain p where p: "build_order_params plain_evm 0 (mayan_intent 0 swift_order ''0xh'' (False, 137, 8453) ps) = Ok p" ..
  from mayan_fill_reproduces_order [OF plain_evm_fits f w b c ps(1) p] ps(1) p show ?thesis
    by (simp add: swift_words_def del: be_enc.simps)
qed

end
