(* ===== verification/DlnFill.thy ===== *)
theory DlnFill
  imports EvmFills
begin

text \<open>
  deBridge fills from the event of the order to the transaction: the feed (\<open>Dln\<close>), the calldata builder (\<open>EvmFills\<close>) and the
  controller (\<open>Lambda\<close>) composed.  The controller's builder is a parameter of its model; here it is the modelled one.
\<close>

definition builds_dln :: "evm_codec \<Rightarrow> lambda_env \<Rightarrow> feed_intent \<Rightarrow> bool" where
  "builds_dln C v it \<longleftrightarrow> (\<forall>a. v_debridge_calldata v (intent.truncate it) a =
     (case build_fulfill_order_calldata C it a of Ok b \<Rightarrow> Inr b | Err e \<Rightarrow> Inl e | Panic \<Rightarrow> Inl []))"

definition fulfils :: "evm_codec \<Rightarrow> dln_order \<Rightarrow> bytes \<Rightarrow> evm_addr \<Rightarrow> evm_tx \<Rightarrow> bool" where
  "fulfils C d order_id solver tx \<longleftrightarrow> tx_to tx = dln_destination
     \<and> tx_data tx = ec_dln C (FulfillOrder d (of_nat (do_take_amount d)) order_id [] solver)"

abbreviation the_intent :: "u64 \<Rightarrow> string \<Rightarrow> bytes \<Rightarrow> u64 \<Rightarrow> dln_order \<Rightarrow> feed_intent" where
  "the_intent now hash order_id src d \<equiv> intent_of_order hex_codec now hash order_id src d"

lemma intent_fields:
  fixes now hash order_id src d
  defines "it \<equiv> intent.truncate (the_intent now hash order_id src d)"
  shows "i_protocol it = ''debridge_dln''" "i_dst_chain it = do_take_chain d" "i_give_amount it = Some (show_nat (do_give_amount d))"
    "i_take_amount it = Some (show_nat (do_take_amount d))" "i_dln_external_call it = bytes_to_hex hex_codec (do_call d)"
    "i_exclusivity_deadline it = None" "i_exclusive_relayer it = None" "i_deadline it = None" "i_is_solana_source it = None"
    "i_is_solana_destination it = (if solana_dst (do_take_chain d) then Some True else None)"
    "i_dln_allowed_taker_dst it = bytes_to_dst_field hex_codec (solana_dst (do_take_chain d)) (do_taker d)"
    "i_dst_token it = bytes_to_addr hex_codec (solana_dst (do_take_chain d)) (do_take_token d)"
    "i_src_chain it = (if do_give_chain d = 0 then src else do_give_chain d)"
    "i_id it = ''debridge_dln:'' @ hex0x hex_codec order_id" "i_amount it = show_nat (do_give_amount d)"
    "i_src_token it = hex0x hex_codec (do_give_token d)" "i_output_amount it = Some (show_nat (do_take_amount d))"
    "i_mayan_auction_mode it = None"
  unfolding it_def by (simp_all add: intent.defs intent_of_order_def default_intent_def Let_def)

lemma dln_tags:
  assumes "i_protocol it = ''debridge_dln''"
  shows "is_debridge it" "\<not> is_mayan it" "\<not> is_across it" "\<not> contains (to_lowercase (i_protocol it)) ''flash''"
    "\<not> contains (to_lowercase (i_protocol it)) ''wormhole''" "\<not> contains (to_lowercase (i_protocol it)) ''ntt''"
  unfolding is_debridge_def is_mayan_def is_across_def assms by code_simp+

lemma hex_zero_char: "hex_char 0 = CHR ''0''"
  by code_simp

lemma hex0x_plain: "hex0x hex_codec b = ''0x'' @ hex_encode b"
  by (simp add: hex0x_def hex_codec_def)

lemma zero_hex: "(\<forall>c \<in> set (hex_encode b). c = CHR ''0'') \<longleftrightarrow> list_all (\<lambda>x. x = 0) b"
proof (induction b)
  case (Cons x b)
  have z: "hex_char n = CHR ''0'' \<longleftrightarrow> n = 0" if "n < 16" for n
    using hex_digit_char [OF that] hex_digit_char [of 0] hex_zero_char by auto
  have "unat x < 256" using unsigned_less [of x] by simp
  then have "unat x div 16 < 16" "unat x mod 16 < 16" by simp_all
  then have "hex_char (unat x div 16) = CHR ''0'' \<and> hex_char (unat x mod 16) = CHR ''0'' \<longleftrightarrow> unat x = 0"
    by (simp only: z) presburger
  then show ?case using Cons by (simp add: hex_encode_def unsigned_eq_0_iff) blast
qed (simp add: hex_encode_def)

text \<open>The spread guard on the amounts of an order.\<close>

lemma spread_guard:
  assumes "i_give_amount it = Some (show_nat g)" "i_take_amount it = Some (show_nat t)" "g < 2 ^ 128" "t < 2 ^ 128"
    and "debridge_spread_skip it = None"
  shows "0 < t \<and> t < g \<or> 1000 * g < t"
proof -
  have "parse_u128 (show_nat g) = Some g" "parse_u128 (show_nat t) = Some t"
    using assms(3,4) by (simp_all add: parse_u128_def parse_show)
  with assms show ?thesis
    by (auto simp: debridge_spread_skip_def sat_mul_u128_def split: if_splits)
qed

text \<open>C36. Whatever the node and the environment answer, a transaction that leaves the controller for a deBridge order between EVM
  chains read from its event is the fulfilment of exactly this order, under its identifier and for the amount its maker asked, sent
  to the DlnDestination contract and unlocked to the solver; the order has no external call, and asks for less than it gives unless
  it asks for more than a thousand times as much.\<close>

theorem direct_dln_fill_exact:
  assumes "codec_fits (ec_fill C)" "fillable d" "length order_id = 32" "builds_dln C v (the_intent now hash order_id src d)"
    and "lambda_execute v (intent.truncate (the_intent now hash order_id src d)) s = (r, s')" "l_sent s' = l_sent s @ [EvmTx tx]"
  shows "fulfils C d order_id (v_signer v) tx \<and> list_all (\<lambda>x. x = 0) (do_call d)
    \<and> (0 < do_take_amount d \<and> do_take_amount d < do_give_amount d \<or> 1000 * do_give_amount d < do_take_amount d)"
proof -
  let ?it = "intent.truncate (the_intent now hash order_id src d)"
  note f = intent_fields [of now hash order_id src d] and kind = dln_tags [OF intent_fields(1) [of now hash order_id src d]]
  from execute_run [OF assms(5)] assms(6) obtain s1 where "reserved_at v ?it s s1" "settles (cleared v ?it) v ?it r s1 s'"
    by (auto simp: after_hold_def LambdaSafety.refused_def)
  then have "cleared v ?it tx" using assms(6) by (auto simp: settles_def reserved_at_def)
  then obtain w pf it' call where scr: "screened v ?it w pf it'" and ok: "fill_cleared v w it' pf call"
    and tx: "tx = fill_tx v w call (eth_fill_value v w it')"
    by (auto simp: cleared_def)
  have same: "it' = ?it" using scr kind by (auto simp: screened_def enriched_def)
  have spread: "debridge_spread_skip ?it = None"
    and ext: "\<forall>x. i_dln_external_call ?it = Some x \<longrightarrow> (\<forall>c \<in> set (trim_start_str ''0x'' x). c = CHR ''0'')"
    using scr kind by (auto simp: screened_def)
  obtain a data where call: "dln_destination_address (do_take_chain d) = Some a" "v_debridge_calldata v ?it (v_signer v) = Inr data"
      "call = (a, data)"
    using ok kind f(2) by (auto simp: same fill_cleared_def fill_call_def split: option.splits sum.splits)
  have "data = ec_dln C (FulfillOrder d (of_nat (do_take_amount d)) order_id [] (v_signer v))"
    using call(2) assms(4) by (simp add: builds_dln_def dln_calldata_of_order [OF assms(1-3)])
  moreover have "a = dln_destination" using call(1) by (simp add: dln_destination_address_def split: if_splits)
  moreover have "list_all (\<lambda>x. x = 0) (do_call d)"
    using ext unfolding f bytes_to_hex_def hex0x_plain
    by (cases "do_call d = []") (simp_all add: zero_hex trim_hex_prefix [OF hex_facts(3), simplified])
  moreover have "0 < do_take_amount d \<and> do_take_amount d < do_give_amount d \<or> 1000 * do_give_amount d < do_take_amount d"
    using spread_guard [OF f(3,4) _ _ spread] assms(2) by (simp add: fillable_def)
  ultimately show ?thesis by (simp add: fulfils_def tx fill_tx_def call(3))
qed
section \<open>A deBridge fill that goes through\<close>

lemma dln_confirms:
  fixes now hash order_id src d
  defines "it \<equiv> intent.truncate (the_intent now hash order_id src d)"
  assumes order: "codec_fits (ec_fill C)" "fillable d" "length order_id = 32" "do_taker d = []" "do_call d = []"
      "do_take_chain d \<noteq> 100000001" "builds_dln C v (the_intent now hash order_id src d)"
    and live: "\<not> v_dry_run v"
    and cap: "\<not> f_gt (intent_amount_usd (v_eth_price v) it) (max_notional v)"
    and wired: "map_of (v_chains v) (do_take_chain d) = Some w" "dln_destination_address (do_take_chain d) = Some a"
    and room: "\<exists>rec w1 w2. record_detected (v_clock v (Suc (l_tick s))) (new_intent_of v it) (l_wallet s) = Inr (rec, w1)
        \<and> reserve (v_sum v) (v_clock v (Suc (Suc (l_tick s)))) (i_id it) (intent_amount_usd (v_eth_price v) it) w1 = Inr w2"
    and spread: "debridge_spread_skip it = None"
    and balance: "erc20_short v w (v_parse_addr v (to_lowercase (trim (i_dst_token it)))) (i_take_amount it) = None"
      "\<forall>need bal. eth_fill_value v w it = Some need \<and> v_native_balance v (cw_chain_id w) = Some bal \<longrightarrow> need \<le> bal"
    and calldata: "data = ec_dln C (FulfillOrder d (of_nat (do_take_amount d)) order_id [] (v_signer v))"
      "is_green (gate_estimate v it w (a, data) (eth_fill_value v w it))"
    and node: "v_rpc_ok v (cw_rpc_url w)" "v_send v (fill_tx v w (a, data) (eth_fill_value v w it)) = Inr h"
      "v_receipt v h = Inr rc" "rc_status rc"
  shows "\<exists>s' tx. lambda_execute v it s = (Inr (LConfirmed h (rc_gas_used rc)), s') \<and> l_sent s' = l_sent s @ [EvmTx tx]
    \<and> fulfils C d order_id (v_signer v) tx"
proof -
  note f = intent_fields [of now hash order_id src d, folded it_def] and kind = dln_tags [OF f(1)]
  have evm: "\<not> solana_dst (do_take_chain d)" using order(2) by (simp add: fillable_def)
  have byp: "bypass_spinner w it" using kind by (simp add: bypass_spinner_def)
  obtain started s1 where s1: "admit v it s = Go (started, w, None) s1" "l_sent s1 = l_sent s"
    using room live cap wired kind byp f(2)
    by (fastforce simp: admit_def stage_notional_def stage_wiring_def stage_reserve_def stage_adapter_def
        stage_test_run_def stage_profit_def clock_def Let_def)
  have bal: "stage_debridge_balance v it w t = Go () t" for t
    using balance(1) by (simp add: stage_debridge_balance_def Let_def)
  have gates: "stage_taker v it t = Go () t" "stage_external_call v it t = Go () t" "stage_debridge_spread v it t = Go () t"
    "stage_proof v it w t = Go [] t" "stage_enrich v it w t = Go it t" "stage_claim_info v it w t = Go () t"
    "stage_mayan_deadline v it t = Go () t" for t
    using kind byp f(5,8,11) order(4,5) spread
    by (simp_all add: stage_taker_def stage_external_call_def bytes_to_dst_field_def bytes_to_hex_def stage_debridge_spread_def
        stage_proof_def stage_enrich_def stage_claim_info_def stage_mayan_deadline_def Let_def)
  have "\<exists>t. stage_exclusivity v it w s1 = Go () t \<and> l_sent t = l_sent s1"
    using f(6) by (simp add: stage_exclusivity_def clock_def Let_def)
  then obtain s2 where s2: "screen_order v it w s1 = Go ([], it) s2" "l_sent s2 = l_sent s1"
    by (auto simp: screen_order_def gates bal)
  have s3: "fill_solana v it None s2 = Go () s2"
    using kind f(2,10) evm order(6)
    by (simp add: fill_solana_def stage_flash_def stage_mayan_solana_def stage_dln_solana_def stage_ntt_def)
  have native: "stage_native_balance v it w (eth_fill_value v w it) t = Go () t" for t
    using balance(2) by (auto simp: stage_native_balance_def split: option.split)
  have call: "v_debridge_calldata v it (v_signer v) = Inr data"
    using order(7) calldata(1) by (simp add: builds_dln_def it_def dln_calldata_of_order [OF order(1-3)])
  obtain s4 where s4: "fill_evm v it w started None [] s2 = Go h s4"
      "l_sent s4 = l_sent s2 @ [EvmTx (fill_tx v w (a, data) (eth_fill_value v w it))]"
    using live kind f(2) wired call calldata(2) node(1,2) native
    by (fastforce simp: fill_evm_def stage_mayan_auction_def stage_across_spread_def stage_across_hook_def plain_across_def
      stage_across_source_def stage_across_deadline_def stage_across_balance_def stage_calldata_def fill_call_def stage_dry_run_def
      stage_estimate_def stage_send_def fill_tx_def Let_def)
  have "a = dln_destination" using wired(2) by (simp add: dln_destination_address_def split: if_splits)
  then have "fulfils C d order_id (v_signer v) (fill_tx v w (a, data) (eth_fill_value v w it))"
    by (simp add: fulfils_def fill_tx_def calldata(1))
  with s1 s2 s3 s4 node(3,4) show ?thesis
    by (auto simp: lambda_execute_def broadcast_run_def stage_receipt_def Let_def)
qed

text \<open>C37. An order within the cap and the budget, between wired EVM chains, for everybody and without external call, that passes the
  spread guard, whose known balances suffice and whose estimate is green, is confirmed once the node accepts the transaction and
  returns a successful receipt; what was sent is the fulfilment of this order.\<close>

theorem dln_fill_confirms:
  fixes now hash order_id src d
  defines "it \<equiv> intent.truncate (the_intent now hash order_id src d)"
  assumes order: "codec_fits (ec_fill C)" "fillable d" "length order_id = 32" "do_taker d = []" "do_call d = []"
      "do_take_chain d \<noteq> 100000001" "builds_dln C v (the_intent now hash order_id src d)"
    and live: "\<not> v_dry_run v"
    and cap: "\<not> f_gt (intent_amount_usd (v_eth_price v) it) (max_notional v)"
    and wired: "map_of (v_chains v) (do_take_chain d) = Some w" "dln_destination_address (do_take_chain d) = Some a"
    and room: "\<exists>rec w1 w2. record_detected (v_clock v (Suc (l_tick s))) (new_intent_of v it) (l_wallet s) = Inr (rec, w1)
        \<and> reserve (v_sum v) (v_clock v (Suc (Suc (l_tick s)))) (i_id it) (intent_amount_usd (v_eth_price v) it) w1 = Inr w2"
    and spread: "debridge_spread_skip it = None"
    and balance: "erc20_short v w (v_parse_addr v (to_lowercase (trim (i_dst_token it)))) (i_take_amount it) = None"
      "\<forall>need bal. eth_fill_value v w it = Some need \<and> v_native_balance v (cw_chain_id w) = Some bal \<longrightarrow> need \<le> bal"
    and calldata: "data = ec_dln C (FulfillOrder d (of_nat (do_take_amount d)) order_id [] (v_signer v))"
      "is_green (gate_estimate v it w (a, data) (eth_fill_value v w it))"
    and node: "v_rpc_ok v (cw_rpc_url w)" "v_send v (fill_tx v w (a, data) (eth_fill_value v w it)) = Inr h"
      "v_receipt v h = Inr rc" "rc_status rc"
  shows "\<exists>s' tx. lambda_execute v it s = (Inr (LConfirmed h (rc_gas_used rc)), s') \<and> l_sent s' = l_sent s @ [EvmTx tx]
    \<and> fulfils C d order_id (v_signer v) tx"
  unfolding it_def by (rule dln_confirms [OF assms(2-) [unfolded it_def]])
section \<open>Witnesses\<close>

definition pay_order :: dln_order where
  "pay_order =
     \<lparr>do_nonce = 7, do_give_chain = 1, do_give_amount = 4000000, do_take_chain = 10, do_take_amount = 3000000,
      do_maker = [1, 2], do_give_token = [], do_take_token = [], do_receiver = [6], do_give_patch = [], do_authority = [8],
      do_taker = [], do_beneficiary = [], do_call = []\<rparr>"

abbreviation pay_id :: bytes where "pay_id \<equiv> replicate 32 1"
abbreviation pay_intent :: feed_intent where "pay_intent \<equiv> the_intent 5 ''0xab'' pay_id 0 pay_order"

definition pay_env :: lambda_env where
  "pay_env = sample_env\<lparr>v_debridge_calldata := (\<lambda>it a. case build_fulfill_order_calldata plain_evm pay_intent a of
     Ok b \<Rightarrow> Inr b | Err e \<Rightarrow> Inl e | Panic \<Rightarrow> Inl [])\<rparr>"

lemma pay_env_simps [simp]:
  "v_clock pay_env = v_clock sample_env" "v_sum pay_env = v_sum sample_env" "\<not> v_dry_run pay_env" "v_signer pay_env = 1"
  "v_chains pay_env = [(10, sample_wiring)]" "v_max_notional pay_env = None" "v_eth_price pay_env = None"
  "v_skip_estimate pay_env = None" "v_estimate pay_env = v_estimate sample_env" "v_rpc_ok pay_env = (\<lambda>_. True)"
  "v_parse_addr pay_env = v_parse_addr sample_env" "v_send pay_env = v_send sample_env" "v_receipt pay_env = v_receipt sample_env"
  by (simp_all add: pay_env_def sample_env_def)

lemma pay_order_simps [simp]:
  "fillable pay_order" "do_take_chain pay_order = 10" "do_taker pay_order = []" "do_call pay_order = []"
  "do_take_amount pay_order = 3000000" "do_give_amount pay_order = 4000000" "do_give_token pay_order = []" "do_take_token pay_order = []"
proof -
  have "\<not> solana_dst 10" by (simp add: solana_dst_def dln_non_evm_chain_name_def)
  then show "fillable pay_order" by (simp add: fillable_def pay_order_def)
qed (simp_all add: pay_order_def)

lemma pay_builds: "builds_dln plain_evm pay_env pay_intent"
  by (simp add: builds_dln_def pay_env_def)

lemma no_point: "list_all is_digit s \<Longrightarrow> \<not> contains s ''.''"
  by (induction s) (auto simp: starts_with_def is_digit_def)

lemma eighteen: "fround (10 ^ 18) = Fin (10 ^ 18)"
proof -
  have "(10 :: rat) ^ 18 = of_int (5 ^ 18) * 2 powi 18" by simp
  then have "fval (10 ^ 18) = 10 ^ 18" using fval_exact [of "5 ^ 18" 18] by simp
  then show ?thesis by (simp add: fround_def Let_def)
qed

lemma pay_amount: obtains r where "intent_amount_usd None (intent.truncate pay_intent) = Fin r" "0 \<le> r" "r \<le> 1"
proof -
  have tok: "token_decimals ''0x'' = 18" "token_price_heuristic None ''0x'' = Fin 1"
    by (simp_all add: token_decimals_def token_price_heuristic_def six_dec_def eth_like_def to_lowercase_def lower_char_def
        zero_address_text_def Let_def)
  have one: "fround 1 = Fin 1" using fround_of_int [of 1] by simp
  have unit: "\<exists>r. fround q = Fin r \<and> 0 \<le> r \<and> r \<le> 1" if "0 \<le> q" "q \<le> 1" for q
    using fround_mono [OF that(1)] fround_mono [OF that(2)] by (cases "fround q") (auto simp: one)
  obtain r where r: "fround (4000000 / 10 ^ 18) = Fin r" "0 \<le> r" "r \<le> 1" using unit [of "4000000 / 10 ^ 18"] by auto
  have num: "parse_u128 (show_nat 4000000) = Some 4000000" "\<not> contains (show_nat 4000000) ''.''"
    using show_nat_digits [of 4000000] no_point by (auto simp: parse_u128_def parse_show)
  have "intent_amount_usd None (intent.truncate pay_intent) = f_mul (fround (4000000 / 10 ^ 18)) (Fin 1)"
    unfolding intent_amount_usd_def intent_fields
    using num tok eighteen fround_of_nat [of 4000000] by (simp add: hex0x_plain hex_encode_def)
  also have "\<dots> = fround (r * 1)" using r(1) by simp
  finally show ?thesis using unit [of "r * 1"] r that by auto
qed

lemma pay_spread: "debridge_spread_skip (intent.truncate pay_intent) = None"
proof -
  have "parse_u128 (show_nat 4000000) = Some 4000000" "parse_u128 (show_nat 3000000) = Some 3000000"
    by (simp_all add: parse_u128_def parse_show)
  then show ?thesis
    using sample_divs(2) fround_of_nat [of 1000000] fround_of_nat [of 4000000] hundredth_small
    by (simp add: debridge_spread_skip_def intent_fields sat_mul_u128_def spread_pct_def)
qed

lemma pay_value: "eth_fill_value pay_env sample_wiring (intent.truncate pay_intent) = None"
proof -
  have "\<not> is_mayan (intent.truncate pay_intent)" using dln_tags [OF intent_fields(1)] by blast
  moreover have "bytes_to_addr hex_codec b [] = ''0x''" for b by (simp add: bytes_to_addr_def hex0x_plain hex_encode_def)
  ultimately show ?thesis
    by (simp add: eth_fill_value_def intent_fields to_lowercase_def lower_char_def zero_address_text_def Let_def)
qed

lemma pay_ready:
  "\<not> f_gt (intent_amount_usd None (intent.truncate pay_intent)) (Fin 200)"
  "\<exists>rec w1 w2. record_detected (v_clock pay_env (Suc (l_tick sample_state)))
        (new_intent_of pay_env (intent.truncate pay_intent)) (l_wallet sample_state) = Inr (rec, w1)
      \<and> reserve (v_sum pay_env) (v_clock pay_env (Suc (Suc (l_tick sample_state)))) (i_id (intent.truncate pay_intent))
        (intent_amount_usd (v_eth_price pay_env) (intent.truncate pay_intent)) w1 = Inr w2"
  "erc20_short pay_env sample_wiring (v_parse_addr pay_env t) x = None"
  "is_green (gate_estimate pay_env (intent.truncate pay_intent) sample_wiring call (eth_fill_value pay_env sample_wiring (intent.truncate pay_intent)))"
proof -
  obtain r where r: "intent_amount_usd None (intent.truncate pay_intent) = Fin r" "0 \<le> r" "r \<le> 1" by (rule pay_amount)
  have "f_le (fround r) (Fin 1)" using fround_mono [OF r(3)] fround_of_int [of 1] by simp
  then have small: "\<not> f_lt (Fin 100) (fround r)" by (cases "fround r") auto
  show "\<not> f_gt (intent_amount_usd None (intent.truncate pay_intent)) (Fin 200)" using r by simp
  show "\<exists>rec w1 w2. record_detected (v_clock pay_env (Suc (l_tick sample_state)))
        (new_intent_of pay_env (intent.truncate pay_intent)) (l_wallet sample_state) = Inr (rec, w1)
      \<and> reserve (v_sum pay_env) (v_clock pay_env (Suc (Suc (l_tick sample_state)))) (i_id (intent.truncate pay_intent))
        (intent_amount_usd (v_eth_price pay_env) (intent.truncate pay_intent)) w1 = Inr w2"
    using small r(1)
    by (simp add: record_detected_def new_intent_of_def sample_state_def open_wallet_def reserve_def reserved_total_def Let_def)
  show "erc20_short pay_env sample_wiring (v_parse_addr pay_env t) x = None"
    by (simp add: erc20_short_def split: option.split)
  show "is_green (gate_estimate pay_env (intent.truncate pay_intent) sample_wiring call (eth_fill_value pay_env sample_wiring (intent.truncate pay_intent)))"
    by (simp add: gate_estimate_def)
qed

lemma pay_run:
  "\<exists>s' tx. lambda_execute pay_env (intent.truncate pay_intent) sample_state = (Inr (LConfirmed ''0xh'' 20000), s')
    \<and> l_sent s' = [EvmTx tx] \<and> fulfils plain_evm pay_order pay_id 1 tx"
proof -
  have "\<exists>s' tx. lambda_execute pay_env (intent.truncate pay_intent) sample_state
      = (Inr (LConfirmed ''0xh'' (rc_gas_used \<lparr>rc_gas_used = 20000, rc_gas_price = 1, rc_status = True\<rparr>)), s')
    \<and> l_sent s' = l_sent sample_state @ [EvmTx tx] \<and> fulfils plain_evm pay_order pay_id (v_signer pay_env) tx"
    by (rule dln_confirms [OF plain_evm_fits _ _ _ _ _ pay_builds _ _ _ _ pay_ready(2) pay_spread pay_ready(3) _ _ pay_ready(4)])
      (use pay_ready(1) in \<open>simp_all add: max_notional_def pay_value dln_destination_address_def\<close>)
  then show ?thesis by (simp add: sample_state_def)
qed

theorem dln_fill_confirms_witness:
  "\<exists>s' tx. lambda_execute pay_env (intent.truncate pay_intent) sample_state = (Inr (LConfirmed ''0xh'' 20000), s')
    \<and> l_sent s' = [EvmTx tx] \<and> fulfils plain_evm pay_order pay_id 1 tx"
proof -
  have "\<exists>s' tx. lambda_execute pay_env (intent.truncate pay_intent) sample_state
      = (Inr (LConfirmed ''0xh'' (rc_gas_used \<lparr>rc_gas_used = 20000, rc_gas_price = 1, rc_status = True\<rparr>)), s')
    \<and> l_sent s' = l_sent sample_state @ [EvmTx tx] \<and> fulfils plain_evm pay_order pay_id (v_signer pay_env) tx"
    by (rule dln_fill_confirms [OF plain_evm_fits _ _ _ _ _ pay_builds _ _ _ _ pay_ready(2) pay_spread pay_ready(3) _ _ pay_ready(4)])
      (use pay_ready(1) in \<open>simp_all add: max_notional_def pay_value dln_destination_address_def\<close>)
  then show ?thesis by (simp add: sample_state_def)
qed

theorem direct_dln_fill_exact_witness:
  "\<exists>s' tx. lambda_execute pay_env (intent.truncate pay_intent) sample_state = (Inr (LConfirmed ''0xh'' 20000), s')
    \<and> fulfils plain_evm pay_order pay_id 1 tx \<and> l_sent s' = [EvmTx tx]"
proof -
  obtain s' tx where run: "lambda_execute pay_env (intent.truncate pay_intent) sample_state = (Inr (LConfirmed ''0xh'' 20000), s')"
    "l_sent s' = l_sent sample_state @ [EvmTx tx]" using pay_run by (auto simp: sample_state_def)
  from direct_dln_fill_exact [OF plain_evm_fits _ _ pay_builds run] run show ?thesis by (auto simp: sample_state_def)
qed

end
