(* ===== verification/Spec2Isabelle.thy ===== *)
theory Spec2Isabelle
  imports Wallet Pump LambdaLive Permits Intake SolanaFills Profit Spinner DlnFill
begin

text \<open>
  A model of taifoon-solver, a solver of cross-chain intents written in Rust, and what is proved of it.

  \<^bold>\<open>The program.\<close>  Feeds (\<open>crates/genome-client\<close>) turn an event stream, explorer APIs and logs of nodes into
  intents.  A deduplicating consumer and skip rules let them in, and a profit estimate values them
  (\<open>crates/profit-calc\<close>).  The lambda controller (\<open>crates/executor\<close>) takes one intent at a time through its guards,
  reserves budget in the wallet manager (\<open>crates/wallet-manager\<close>), builds calldata or a Solana transaction
  (\<open>crates/protocol-adapters\<close>, \<open>crates/protocol-adapters-solana\<close>), sends it, awaits the receipt and writes
  the outcome log.  The attestation pump (\<open>crates/solver-main\<close>) reads executed fills from that log, has the adjudicator
  (\<open>crates/donut-adjudicator\<close>) sign their split of fees and posts them to the hosting registry behind the solver API
  (\<open>crates/solver-api\<close>).  Beside this run the rebalancer of the portfolio side car
  (\<open>crates/portfolio-sidecar\<close>), the guard for permits of the liquidity well (\<open>crates/solver-registry\<close>) and scoped
  session keys (\<open>crates/spinner-signer\<close>).

  \<^bold>\<open>The theories.\<close>
  \<^item> \<open>F64\<close>: binary64 arithmetic, round to nearest, ties to even.  \<open>Prelude\<close>: machine integers, texts, results
    (\<open>res\<close>: a value, an error or a panic), tables with a primary key.  \<open>Json\<close>: keyed stores and JSON values.
  \<^item> \<open>Wallet\<close> (\<open>wallet-manager/src/lib.rs\<close>): the record \<open>wallet\<close> holds the three SQLite tables and the budget; every method is
    a function of the same name.  Reachable wallets keep the invariant, terminal rows are final, and the
    positions never exceed the budget by more than the rounding of one addition.
  \<^item> \<open>OutcomeLog\<close> (\<open>executor/src/outcome_log.rs\<close>): the table of outcomes, its queries and updates.
  \<^item> \<open>Guards\<close> (the intent record and the pure guards of \<open>executor/src/lambda_controller.rs\<close>, the classification of
    \<open>estimate.rs\<close>), \<open>Lambda\<close> (\<open>lambda_execute\<close>, \<open>lambda_claim\<close>, \<open>lambda_claim_debridge\<close>, cut into one definition per stage in
    the order of the source), \<open>LambdaSafety\<close> (a contract for each stage, composed along the run), \<open>LambdaProps\<close>,
    \<open>LambdaClaims\<close> and \<open>LambdaLive\<close> (what a run sends, releases, reports and logs, which guards a sent fill has passed, when a
    fill goes through, what a claim does).
  \<^item> \<open>Adjudicator\<close>, \<open>Hosting\<close>, \<open>Api\<close> and \<open>Pump\<close> (\<open>donut-adjudicator/src/lib.rs\<close>, \<open>solver-api/src/hosting.rs\<close> and
    \<open>lib.rs\<close>, \<open>solver-main/src/attestation_pump.rs\<close>): the split loses no micro-dollar, what is attested verifies, the
    ledger is a hash chain, logins are single-use, and under any faults, restarts and foreign posts no fill is attested twice.
    One tick after a restart attests the executed fills, at most 500 of them and each ready.
  \<^item> \<open>TxGuard\<close>, \<open>Inventory\<close>, \<open>Rebalancer\<close> and \<open>RebalTx\<close> (\<open>portfolio-sidecar/src/tx_guard.rs\<close>, \<open>inventory.rs\<close>, \<open>scanner.rs\<close>,
    \<open>rebalancer.rs\<close>).  \<open>Rebalancer\<close> is the decision engine, where the result of a transfer is a parameter; \<open>RebalTx\<close> is
    what each transfer sends.  The plan stays within what the sources hold, and every transaction passed the guard.
  \<^item> \<open>Permits\<close> (\<open>solver-registry/src/lib.rs\<close>): \<open>validate\<close>, \<open>consume\<close> and \<open>is_used\<close> as the separate calls they are.
  \<^item> \<open>Intake\<close> (\<open>genome-client/src/hardened_consumer.rs\<close>, \<open>executor/src/skip_rules.rs\<close>): the inner channel, the loop and the
    outbound channel of the caller.
  \<^item> \<open>Calendar\<close>, \<open>Across\<close>, \<open>Dln\<close>, \<open>DlnFeed\<close>, \<open>MayanFeed\<close> and \<open>Sse\<close> (all \<open>genome-client/src/lib.rs\<close>): the readers of
    times, deposits, logs, web socket messages, calldata and events with the loops around them.
  \<^item> \<open>AcrossFill\<close>, \<open>EvmFills\<close> and \<open>DlnFill\<close> (\<open>executor/src/across_executor.rs\<close>, \<open>spinner_solver.rs\<close>,
    \<open>operator_calldata.rs\<close>, \<open>evm_estimate.rs\<close>, \<open>mayan_evm_estimate.rs\<close>, \<open>protocol-adapters/src/debridge.rs\<close>): the calldata of a
    fill reproduces the order it was read from, and feed, builder and controller composed fill exactly that order.
  \<^item> \<open>SolanaWire\<close> and \<open>SolanaFills\<close> (\<open>protocol-adapters-solana/src\<close>): bytes written by hand against a reader of the legacy
    layout, projections, signing, broadcast and simulation.  \<open>Profit\<close> (\<open>profit-calc/src/lib.rs\<close>): the gas cache and the
    valuations.  \<open>Spinner\<close> (\<open>spinner-signer/src\<close>): configuration, wrapping, policy check, signing and broadcast, one
    operation at a time; no code in the repository chains them.

  \<^bold>\<open>Conventions.\<close>  A struct is a record, an enum a datatype, a \<open>u64\<close> a word or, where the source only compares and
  prints it, a number with its range written out.  Methods take and return the state.  Fallible code returns a sum type
  or \<open>res\<close>.  Steps that interleave (network faults, feeds, channels, validations) are lists of events folded over the state,
  with an invariant by induction on the list.  Interfaces are locales (the keyed and the primary-key stores, the one-time stores of
  logins, the record of used permits, the session signer) with their interpretations on the modelled operations.

  \<^bold>\<open>Parameters and hypotheses.\<close>  Nodes, bridge APIs, the spinner, clocks and environment variables are functions or inputs;
  so are hashing, key recovery, signing, base58, base64, the ABI encoder, the parser of JSON texts and, in the
  components that need no more of it, hexadecimal.  Where a theorem needs a property of one (decoding undoes encoding, a
  recovered key is the signer's) it is a named hypothesis, and the witness instantiates it.  SQLite is rows in
  lists and its \<open>SUM\<close> a parameter.  Error texts that travel through several contexts are their outermost part.

  \<^bold>\<open>Bounds and termination.\<close>  Every loop is a total function.  A compact length takes at most three rounds, a
  Solana transaction at most 1232 bytes, one read of the outcome log at most 500 rows, the web socket set at most
  50000 identifiers, and a scan at most five batches of blocks; the theorems say where such a bound matters.  No fuel is used.

  \<^bold>\<open>Not modelled.\<close>  Log lines, sleeps, task spawning and process wiring (\<open>main.rs\<close>, the command line, the sandbox), the
  adapters the controller does not use to fill, the services around the modelled cores (\<open>t3rn-sidecar\<close>, the side car's
  HTTP server) and the stubs (\<open>taifoon-arb-bridge\<close>, the Solana order poller, Kamino).  The web applications
  and scripts hold none of this logic.
\<close>

end
